(* ===== verification/Go_Prelude.thy ===== *)
theory Go_Prelude
  imports Main "HOL-Library.Word" "HOL-Library.Signed_Division" "HOL-Library.Char_ord"
    "HOL-Library.List_Lexorder" "HOL-Library.Multiset"
begin

text \<open>
  What every component shares: the error values of schema/errors.go, the result of a Go call
  (a value, an error or a panic), the sequencing of calls that thread a state, the wrap-around
  of int64, and key-sorted association lists, which are the buckets of the key/value store and
  the tables of the database.
\<close>

named_theorems go_simps
named_theorems go_splits

subsection \<open>Errors and results\<close>

text \<open>
  The error variables of schema/errors.go by name; \<open>ErrNoDocuments\<close> and
  \<open>ErrRecordNotFound\<close> are the sentinels of the mongo driver and of gorm that reach the code;
  \<open>ErrIO\<close> is a failure reported by a backend; \<open>ErrMsg\<close> is an \<^verbatim>\<open>errors.New\<close> or
  \<^verbatim>\<open>fmt.Errorf\<close> with its text.
\<close>

datatype err =
    ErrNotExist | ErrNotFound | ErrExist | ErrExistTx | ErrTaskClosed | ErrFetchData
  | ErrDataTooBig | ErrNullData | ErrLocalNotExist | ErrPageNotFound | ErrNotImplement
  | ErrNoDocuments | ErrRecordNotFound | ErrIO string | ErrMsg string

text \<open>\<^verbatim>\<open>err.Error()\<close>.\<close>

definition err_text :: "err \<Rightarrow> string" where
  "err_text e = (case e of ErrNotExist \<Rightarrow> ''not_exist_record'' | ErrNotFound \<Rightarrow> ''not_found'' | ErrExist \<Rightarrow> ''s3_bucket_exist''
     | ErrExistTx \<Rightarrow> ''tx_exist'' | ErrTaskClosed \<Rightarrow> ''task_closed'' | ErrFetchData \<Rightarrow> ''fetch_tx_data_from_peers''
     | ErrDataTooBig \<Rightarrow> ''tx_data_too_big'' | ErrNullData \<Rightarrow> ''null_data'' | ErrLocalNotExist \<Rightarrow> ''not_exist_local''
     | ErrPageNotFound \<Rightarrow> ''page_not_found'' | ErrNotImplement \<Rightarrow> ''method not implement''
     | ErrNoDocuments \<Rightarrow> ''mongo: no documents in result'' | ErrRecordNotFound \<Rightarrow> ''record not found''
     | ErrIO m \<Rightarrow> m | ErrMsg m \<Rightarrow> m)"

text \<open>A call returns a value, returns an error, or panics.\<close>

datatype 'a go = Ret 'a | Err err | Panic string

declare go.splits [go_splits]

definition is_ret :: "'a go \<Rightarrow> bool" where
  "is_ret r \<longleftrightarrow> (case r of Ret _ \<Rightarrow> True | _ \<Rightarrow> False)"

lemma is_ret_simps [simp]: "is_ret (Ret v)" "\<not> is_ret (Err e)" "\<not> is_ret (Panic p)"
  by (simp_all add: is_ret_def)

text \<open>\<^verbatim>\<open>v, err := m(); if err != nil { return err }; f(v)\<close>, on an explicit state.\<close>

definition bindG :: "('s \<Rightarrow> 'a go \<times> 's) \<Rightarrow> ('a \<Rightarrow> 's \<Rightarrow> 'b go \<times> 's) \<Rightarrow> 's \<Rightarrow> 'b go \<times> 's" where
  "bindG m f s = (case m s of
      (Ret v, s1) \<Rightarrow> f v s1
    | (Err e, s1) \<Rightarrow> (Err e, s1)
    | (Panic p, s1) \<Rightarrow> (Panic p, s1))"

lemma bindG_simps [simp]:
  "m s = (Ret v, s1) \<Longrightarrow> bindG m f s = f v s1"
  "m s = (Err e, s1) \<Longrightarrow> bindG m f s = (Err e, s1)"
  "m s = (Panic p, s1) \<Longrightarrow> bindG m f s = (Panic p, s1)"
  by (simp_all add: bindG_def)

lemma bindG_bool [simp]:
  "m s = (Ret True, s1) \<Longrightarrow> bindG m f s = f True s1"
  "m s = (Ret False, s1) \<Longrightarrow> bindG m f s = f False s1"
  by (simp_all add: bindG_def)

lemma bindG_RetE:
  assumes "bindG m f s = (Ret v, s2)"
  obtains u s1 where "m s = (Ret u, s1)" and "f u s1 = (Ret v, s2)"
  using assms by (auto simp: bindG_def split: prod.splits go.splits)

text \<open>The same for calls that have no state.\<close>

definition andThen :: "'a go \<Rightarrow> ('a \<Rightarrow> 'b go) \<Rightarrow> 'b go" where
  "andThen r f = (case r of Ret v \<Rightarrow> f v | Err e \<Rightarrow> Err e | Panic p \<Rightarrow> Panic p)"

lemma andThen_simps [simp]:
  "andThen (Ret v) f = f v" "andThen (Err e) f = Err e" "andThen (Panic p) f = Panic p"
  by (simp_all add: andThen_def)

lemma andThen_Ret_iff: "andThen r f = Ret v \<longleftrightarrow> (\<exists>u. r = Ret u \<and> f u = Ret v)"
  by (cases r) simp_all

subsection \<open>int64\<close>

text \<open>An int64 is an \<open>int\<close>; every operation that can leave the range goes through \<open>i64\<close>.\<close>

definition i64 :: "int \<Rightarrow> int" where
  "i64 x = (x + 2 ^ 63) mod 2 ^ 64 - 2 ^ 63"

definition in_i64 :: "int \<Rightarrow> bool" where
  "in_i64 x \<longleftrightarrow> - (2 ^ 63) \<le> x \<and> x < 2 ^ 63"

lemma i64_id [simp]: "in_i64 x \<Longrightarrow> i64 x = x"
  by (simp add: i64_def in_i64_def)

lemma in_i64_i64 [simp]: "in_i64 (i64 x)"
proof -
  have "0 \<le> (x + 2 ^ 63) mod 2 ^ 64" and "(x + 2 ^ 63) mod 2 ^ 64 < (2 :: int) ^ 64"
    by (rule pos_mod_sign, simp, rule pos_mod_bound, simp)
  then show ?thesis unfolding in_i64_def i64_def by (intro conjI; simp)
qed

lemma i64_add [simp]: "i64 (i64 x + y) = i64 (x + y)" "i64 (y + i64 x) = i64 (y + x)"
proof -
  have "((x + 2 ^ 63) mod 2 ^ 64 - 2 ^ 63 + y + 2 ^ 63) mod 2 ^ 64 = ((x + 2 ^ 63) mod 2 ^ 64 + y) mod (2 ^ 64 :: int)"
    by (rule arg_cong [where f = "\<lambda>z. z mod 2 ^ 64"]) simp
  also have "\<dots> = (x + y + 2 ^ 63) mod 2 ^ 64"
    by (subst mod_add_left_eq) (simp add: ac_simps)
  finally show "i64 (i64 x + y) = i64 (x + y)" by (simp add: i64_def)
  then show "i64 (y + i64 x) = i64 (y + x)" by (simp add: add.commute)
qed

subsection \<open>Key-sorted association lists\<close>

fun al_put :: "'k::linorder \<Rightarrow> 'v \<Rightarrow> ('k \<times> 'v) list \<Rightarrow> ('k \<times> 'v) list" where
  "al_put k v [] = [(k, v)]"
| "al_put k v ((k', v') # r) =
     (if k < k' then (k, v) # (k', v') # r
      else if k = k' then (k, v) # r
      else (k', v') # al_put k v r)"

definition al_del :: "'k \<Rightarrow> ('k \<times> 'v) list \<Rightarrow> ('k \<times> 'v) list" where
  "al_del k xs = filter (\<lambda>p. fst p \<noteq> k) xs"

definition al_sorted :: "('k::linorder \<times> 'v) list \<Rightarrow> bool" where
  "al_sorted xs \<longleftrightarrow> sorted_wrt (<) (map fst xs)"

lemma map_of_al_put [simp]: "map_of (al_put k v xs) = (map_of xs)(k \<mapsto> v)"
  by (induction k v xs rule: al_put.induct) auto

lemma map_of_al_del [simp]: "map_of (al_del k xs) = (map_of xs)(k := None)"
  by (induction xs) (auto simp: al_del_def)

lemma keys_al_put: "set (map fst (al_put k v xs)) = insert k (set (map fst xs))"
  by (induction k v xs rule: al_put.induct) auto

lemma al_sorted_Nil [simp, intro]: "al_sorted []"
  by (simp add: al_sorted_def)

lemma al_sorted_put [simp, intro]: "al_sorted xs \<Longrightarrow> al_sorted (al_put k v xs)"
proof (induction k v xs rule: al_put.induct)
  case (2 k v k' v' r)
  have keys: "\<forall>x \<in> set (map fst (al_put k v r)). x = k \<or> x \<in> set (map fst r)"
    by (auto simp: keys_al_put simp del: set_map)
  show ?case
    using 2 keys by (fastforce simp: al_sorted_def)
qed (simp add: al_sorted_def)

lemma al_sorted_del [simp, intro]: "al_sorted xs \<Longrightarrow> al_sorted (al_del k xs)"
  unfolding al_sorted_def al_del_def sorted_wrt_map by (rule sorted_wrt_filter)

lemma al_sorted_distinct: "al_sorted xs \<Longrightarrow> distinct (map fst xs)"
  unfolding al_sorted_def using strict_sorted_iff by blast

text \<open>The largest allocation of the runtime on amd64; a slice that is made larger panics.\<close>

definition maxAlloc :: nat where "maxAlloc = 2 ^ 48"

end
