(* ===== verification/Go_Strings.thy ===== *)
theory Go_Strings
  imports Go_Prelude
begin

text \<open>
  The functions of the packages strings, strconv and math/big that the program calls. A Go
  string is a sequence of bytes, here a \<open>string\<close>. \<open>ToLower\<close> and \<open>ToUpper\<close> are modelled on
  ASCII: bytes from 128 on are left alone.
\<close>

subsection \<open>Package strings\<close>

definition lower_char :: "char \<Rightarrow> char" where
  "lower_char c = (let n = of_char c :: nat in if 65 \<le> n \<and> n \<le> 90 then char_of (n + 32) else c)"

definition upper_char :: "char \<Rightarrow> char" where
  "upper_char c = (let n = of_char c :: nat in if 97 \<le> n \<and> n \<le> 122 then char_of (n - 32) else c)"

definition ToLower :: "string \<Rightarrow> string" where
  "ToLower s = map lower_char s"

definition ToUpper :: "string \<Rightarrow> string" where
  "ToUpper s = map upper_char s"

fun Contains :: "string \<Rightarrow> string \<Rightarrow> bool" where
  "Contains [] sub = (sub = [])"
| "Contains (c # s) sub = (take (length sub) (c # s) = sub \<or> Contains s sub)"

text \<open>\<open>SplitN2 c s\<close> is \<^verbatim>\<open>strings.SplitN(s, c, 2)\<close>, \<open>Split c s\<close> is \<^verbatim>\<open>strings.Split(s, c)\<close>.\<close>

definition SplitN2 :: "char \<Rightarrow> string \<Rightarrow> string list" where
  "SplitN2 c s = (case dropWhile (\<lambda>x. x \<noteq> c) s of
      [] \<Rightarrow> [s]
    | _ # r \<Rightarrow> [takeWhile (\<lambda>x. x \<noteq> c) s, r])"

fun Split :: "char \<Rightarrow> string \<Rightarrow> string list" where
  "Split c [] = [[]]"
| "Split c (x # s) = (if x = c then [] # Split c s
     else (case Split c s of [] \<Rightarrow> [[x]] | w # ws \<Rightarrow> (x # w) # ws))"

definition TrimPrefix :: "string \<Rightarrow> string \<Rightarrow> string" where
  "TrimPrefix s p = (if take (length p) s = p then drop (length p) s else s)"

definition TrimSuffix :: "string \<Rightarrow> string \<Rightarrow> string" where
  "TrimSuffix s p = (if length p \<le> length s \<and> drop (length s - length p) s = p
     then take (length s - length p) s else s)"

subsection \<open>Package strconv and big.Int.SetString, base 10\<close>

definition is_digit :: "char \<Rightarrow> bool" where
  "is_digit c \<longleftrightarrow> 48 \<le> (of_char c :: nat) \<and> (of_char c :: nat) \<le> 57"

definition digits_val :: "string \<Rightarrow> nat" where
  "digits_val s = foldl (\<lambda>n c. 10 * n + (of_char c - 48)) 0 s"

definition parse_nat :: "string \<Rightarrow> nat option" where
  "parse_nat s = (if s \<noteq> [] \<and> list_all is_digit s then Some (digits_val s) else None)"

definition syntax_err :: err where "syntax_err = ErrMsg ''invalid syntax''"
definition range_err :: err where "range_err = ErrMsg ''value out of range''"

definition ParseUint :: "string \<Rightarrow> 64 word go" where
  "ParseUint s = (case parse_nat s of
      None \<Rightarrow> Err syntax_err
    | Some n \<Rightarrow> if n < 2 ^ 64 then Ret (of_nat n) else Err range_err)"

definition split_sign :: "string \<Rightarrow> bool \<times> string" where
  "split_sign s = (case s of
      [] \<Rightarrow> (False, [])
    | c # r \<Rightarrow> if c = CHR ''+'' then (False, r) else if c = CHR ''-'' then (True, r) else (False, c # r))"

definition SetString :: "string \<Rightarrow> int option" where
  "SetString s = (case split_sign s of (neg, r) \<Rightarrow>
     (case parse_nat r of None \<Rightarrow> None | Some n \<Rightarrow> Some (if neg then - int n else int n)))"

definition ParseInt :: "string \<Rightarrow> int go" where
  "ParseInt s = (case SetString s of
      None \<Rightarrow> Err syntax_err
    | Some i \<Rightarrow> if in_i64 i then Ret i else Err range_err)"

definition Atoi :: "string \<Rightarrow> int go" where
  "Atoi s = ParseInt s"

fun FormatNat :: "nat \<Rightarrow> string" where
  "FormatNat n = (if n < 10 then [char_of (48 + n)] else FormatNat (n div 10) @ [char_of (48 + n mod 10)])"

declare FormatNat.simps [simp del]

definition FormatInt :: "int \<Rightarrow> string" where
  "FormatInt i = (if i < 0 then CHR ''-'' # FormatNat (nat (- i)) else FormatNat (nat i))"

subsection \<open>Facts\<close>

lemma Contains_iff: "Contains s sub \<longleftrightarrow> (\<exists>u v. s = u @ sub @ v)"
proof (induction s)
  case Nil
  then show ?case by auto
next
  case (Cons c s)
  have "take (length sub) (c # s) = sub \<longleftrightarrow> (\<exists>v. c # s = sub @ v)"
    by (metis append_eq_conv_conj)
  with Cons show ?case by (auto simp: Cons_eq_append_conv)
qed

lemma no_sep: "c \<notin> set a \<Longrightarrow> dropWhile (\<lambda>x. x \<noteq> c) (a @ b) = dropWhile (\<lambda>x. x \<noteq> c) b
    \<and> takeWhile (\<lambda>x. x \<noteq> c) (a @ b) = a @ takeWhile (\<lambda>x. x \<noteq> c) b"
  by (induction a) auto

lemma SplitN2_append [simp]: "c \<notin> set a \<Longrightarrow> SplitN2 c (a @ c # b) = [a, b]"
  using no_sep [of c a "c # b"] by (simp add: SplitN2_def)

lemma SplitN2_none:
  assumes "c \<notin> set s"
  shows "SplitN2 c s = [s]"
proof -
  have "dropWhile (\<lambda>x. x \<noteq> c) s = []" using assms by auto
  then show ?thesis by (simp only: SplitN2_def list.case)
qed

lemma SplitN2_cases:
  "(c \<notin> set s \<and> SplitN2 c s = [s]) \<or> (\<exists>a b. c \<notin> set a \<and> s = a @ c # b \<and> SplitN2 c s = [a, b])"
  by (cases "c \<in> set s") (auto simp: SplitN2_none dest!: split_list_first)

lemma lower_char_idem [simp]: "lower_char (lower_char c) = lower_char c"
  by (auto simp: lower_char_def Let_def)

lemma ToLower_idem [simp]: "ToLower (ToLower s) = ToLower s"
  by (simp add: ToLower_def)

lemma ToUpper_idem [simp]: "ToUpper (ToUpper s) = ToUpper s"
proof -
  have "upper_char (upper_char c) = upper_char c" for c
    by (auto simp: upper_char_def Let_def)
  then show ?thesis by (simp add: ToUpper_def)
qed

lemma ToUpper_ToLower [simp]: "ToUpper (ToLower s) = ToUpper s"
proof -
  have "upper_char (lower_char c) = upper_char c" for c
    by (auto simp: upper_char_def lower_char_def Let_def)
  then show ?thesis by (simp add: ToUpper_def ToLower_def)
qed

lemma digits_val_snoc: "digits_val (s @ [c]) = 10 * digits_val s + (of_char c - 48)"
  by (simp add: digits_val_def)

lemma of_char_digit: "n < 10 \<Longrightarrow> (of_char (char_of (48 + n)) :: nat) = 48 + n"
  by simp

lemma FormatNat_parse: "FormatNat n \<noteq> [] \<and> list_all is_digit (FormatNat n) \<and> digits_val (FormatNat n) = n"
proof (induction n rule: FormatNat.induct)
  case (1 n)
  show ?case
  proof (cases "n < 10")
    case True
    then show ?thesis
      by (subst (1 2 3) FormatNat.simps) (simp add: is_digit_def digits_val_def)
  next
    case False
    have "is_digit (char_of (48 + n mod 10))"
      using of_char_digit [of "n mod 10"] by (simp add: is_digit_def)
    with False 1 show ?thesis
      by (subst (1 2 3) FormatNat.simps) (simp add: digits_val_snoc)
  qed
qed

lemma parse_nat_FormatNat [simp]: "parse_nat (FormatNat n) = Some n"
  using FormatNat_parse [of n] by (simp add: parse_nat_def)

lemma FormatNat_hd: "is_digit (hd (FormatNat n))"
  using FormatNat_parse [of n] by (cases "FormatNat n") auto

lemma split_sign_digit: "s \<noteq> [] \<Longrightarrow> is_digit (hd s) \<Longrightarrow> split_sign s = (False, s)"
  by (cases s) (auto simp: split_sign_def is_digit_def)

lemma SetString_FormatInt [simp]: "SetString (FormatInt i) = Some i"
proof (cases "i < 0")
  case True
  then show ?thesis by (simp add: SetString_def FormatInt_def split_sign_def)
next
  case False
  then show ?thesis
    using split_sign_digit [OF _ FormatNat_hd [of "nat i"]] FormatNat_parse [of "nat i"]
    by (simp add: SetString_def FormatInt_def)
qed

lemma ParseInt_FormatInt [simp]: "in_i64 i \<Longrightarrow> ParseInt (FormatInt i) = Ret i"
  by (simp add: ParseInt_def)

lemma ParseUint_FormatNat [simp]: "n < 2 ^ 64 \<Longrightarrow> ParseUint (FormatNat n) = Ret (of_nat n)"
  by (simp add: ParseUint_def)

lemma ParseInt_in_i64: "ParseInt s = Ret i \<Longrightarrow> in_i64 i"
  by (auto simp: ParseInt_def split: option.splits if_splits)

lemmas digits_eval = ParseUint_def parse_nat_def digits_val_def is_digit_def

lemma Split_ne [simp]: "Split c s \<noteq> []"
  by (induction s) (auto split: list.splits)

lemma Split_none: "c \<notin> set s \<Longrightarrow> Split c s = [s]"
  by (induction s) auto

lemma Split_Cons_append: "c \<notin> set a \<Longrightarrow> Split c (a @ c # b) = a # Split c b"
  by (induction a) auto

lemma Split_append: "Split c (a @ c # b) = Split c a @ Split c b"
  by (induction a) (auto split: list.splits)

lemma hd_Split: "hd (Split c (a @ c # b)) = hd (Split c a)"
  by (simp add: Split_append)

lemma FormatNat_digits: "c \<in> set (FormatNat n) \<Longrightarrow> is_digit c"
  using FormatNat_parse [of n] by (simp add: list_all_iff)

lemma FormatNat_no [simp]: "\<not> is_digit c \<Longrightarrow> c \<notin> set (FormatNat n)"
  using FormatNat_digits by blast

lemma FormatNat_not_empty [simp]: "FormatNat n \<noteq> []"
  using FormatNat_parse by blast

end
