(* ===== verification/Schema.thy ===== *)
theory Schema
  imports Go_Strings
begin

text \<open>
  The data of schema/: bucket names, the task, manifest and fee types, and the goar types
  (transaction, chunk, bundle item) with the fields the program reads and writes. JSON documents
  are trees; \<open>jstr\<close>, \<open>jint\<close> and \<open>jbool\<close> read a field the way encoding/json fills a struct:
  an absent or null field is the zero value, a field of another kind is an error.
\<close>

subsection \<open>JSON documents\<close>

datatype json = JNull | JBool bool | JNum int | JStr string | JArr "json list"
  | JObj "(string \<times> json) list"

definition jstr :: "(string \<times> json) list \<Rightarrow> string \<Rightarrow> string option" where
  "jstr fs n = (case map_of fs n of
      None \<Rightarrow> Some [] | Some JNull \<Rightarrow> Some [] | Some (JStr s) \<Rightarrow> Some s | Some _ \<Rightarrow> None)"

definition jint :: "(string \<times> json) list \<Rightarrow> string \<Rightarrow> int option" where
  "jint fs n = (case map_of fs n of
      None \<Rightarrow> Some 0 | Some JNull \<Rightarrow> Some 0
    | Some (JNum i) \<Rightarrow> if in_i64 i then Some i else None | Some _ \<Rightarrow> None)"

definition jbool :: "(string \<times> json) list \<Rightarrow> string \<Rightarrow> bool option" where
  "jbool fs n = (case map_of fs n of
      None \<Rightarrow> Some False | Some JNull \<Rightarrow> Some False | Some (JBool b) \<Rightarrow> Some b | Some _ \<Rightarrow> None)"

fun jstrings :: "json list \<Rightarrow> string list option" where
  "jstrings [] = Some []"
| "jstrings (JStr s # js) = map_option ((#) s) (jstrings js)"
| "jstrings (JNull # js) = map_option ((#) []) (jstrings js)"
| "jstrings (_ # js) = None"

text \<open>
  What a struct's tags have to give: the tree written for a well-formed value reads back as it.
\<close>

locale json_codec =
  fixes enc :: "'a \<Rightarrow> json"
    and dec :: "json \<Rightarrow> 'a option"
    and wf :: "'a \<Rightarrow> bool"
  assumes dec_enc: "wf x \<Longrightarrow> dec (enc x) = Some x"
begin

lemma enc_inj: "wf x \<Longrightarrow> wf y \<Longrightarrow> enc x = enc y \<Longrightarrow> x = y"
  using dec_enc by (metis option.inject)

end

subsection \<open>schema/store.go: the buckets\<close>

definition ChunkBucket :: string where "ChunkBucket = ''chunk-bucket''"
definition TxDataEndOffSetBucket :: string where "TxDataEndOffSetBucket = ''tx-data-end-offset-bucket''"
definition TxMetaBucket :: string where "TxMetaBucket = ''tx-meta-bucket''"
definition ConstantsBucket :: string where "ConstantsBucket = ''constants-bucket''"
definition TaskIdPendingPoolBucket :: string where "TaskIdPendingPoolBucket = ''task-pending-pool-bucket''"
definition TaskBucket :: string where "TaskBucket = ''task-bucket''"
definition BundleItemBinary :: string where "BundleItemBinary = ''bundle-item-binary''"
definition BundleItemMeta :: string where "BundleItemMeta = ''bundle-item-meta''"
definition BundleWaitParseArIdBucket :: string where "BundleWaitParseArIdBucket = ''bundle-wait-parse-arId-bucket''"
definition BundleArIdToItemIdsBucket :: string where "BundleArIdToItemIdsBucket = ''bundle-arId-to-itemIds-bucket''"
definition StatisticBucket :: string where "StatisticBucket = ''order-statistic-bucket''"

lemmas bucket_defs = ChunkBucket_def TxDataEndOffSetBucket_def TxMetaBucket_def ConstantsBucket_def
  TaskIdPendingPoolBucket_def TaskBucket_def BundleItemBinary_def BundleItemMeta_def
  BundleWaitParseArIdBucket_def BundleArIdToItemIdsBucket_def StatisticBucket_def

definition buckets :: "string list" where
  "buckets = [ChunkBucket, TxDataEndOffSetBucket, TxMetaBucket, ConstantsBucket,
     TaskIdPendingPoolBucket, TaskBucket, BundleItemBinary, BundleItemMeta,
     BundleWaitParseArIdBucket, BundleArIdToItemIdsBucket, StatisticBucket]"

lemma distinct_buckets: "distinct buckets"
  by (simp add: buckets_def bucket_defs)

lemma bucket_neq [simp]:
  "ConstantsBucket \<noteq> TxDataEndOffSetBucket" "TxDataEndOffSetBucket \<noteq> ConstantsBucket"
  "ConstantsBucket \<noteq> ChunkBucket" "ChunkBucket \<noteq> ConstantsBucket"
  "ChunkBucket \<noteq> TxDataEndOffSetBucket" "TxDataEndOffSetBucket \<noteq> ChunkBucket"
  "TxMetaBucket \<noteq> ConstantsBucket" "ConstantsBucket \<noteq> TxMetaBucket"
  "TxMetaBucket \<noteq> ChunkBucket" "ChunkBucket \<noteq> TxMetaBucket"
  "TxMetaBucket \<noteq> TxDataEndOffSetBucket" "TxDataEndOffSetBucket \<noteq> TxMetaBucket"
  "BundleWaitParseArIdBucket \<noteq> TxMetaBucket" "TxMetaBucket \<noteq> BundleWaitParseArIdBucket"
  "BundleItemBinary \<noteq> BundleItemMeta" "BundleItemMeta \<noteq> BundleItemBinary"
  "TaskBucket \<noteq> TaskIdPendingPoolBucket" "TaskIdPendingPoolBucket \<noteq> TaskBucket"
  by (simp_all add: bucket_defs)

subsection \<open>schema/task.go\<close>

definition TaskTypeBroadcast :: string where "TaskTypeBroadcast = ''broadcast''"
definition TaskTypeBroadcastMeta :: string where "TaskTypeBroadcastMeta = ''broadcast_meta''"
definition TaskTypeSync :: string where "TaskTypeSync = ''sync''"
definition TaskTypeSyncManifest :: string where "TaskTypeSyncManifest = ''sync_manifest''"

lemmas task_type_defs = TaskTypeBroadcast_def TaskTypeBroadcastMeta_def TaskTypeSync_def
  TaskTypeSyncManifest_def

record task =
  ArId :: string
  TaskType :: string
  CountSuccessed :: int
  CountFailed :: int
  TotalPeer :: int
  Timestamp :: int
  Close :: bool

definition task_json :: "task \<Rightarrow> json" where
  "task_json t = JObj [(''arId'', JStr (ArId t)), (''taskType'', JStr (TaskType t)),
     (''countSuccessed'', JNum (CountSuccessed t)), (''countFailed'', JNum (CountFailed t)),
     (''totalPeer'', JNum (TotalPeer t)), (''timestamp'', JNum (Timestamp t)),
     (''close'', JBool (Close t))]"

definition task_of_json :: "json \<Rightarrow> task option" where
  "task_of_json j = (case j of
      JObj fs \<Rightarrow>
        (case (jstr fs ''arId'', jstr fs ''taskType'', jint fs ''countSuccessed'', jint fs ''countFailed'',
               jint fs ''totalPeer'', jint fs ''timestamp'', jbool fs ''close'') of
          (Some a, Some ty, Some cs, Some cf, Some tp, Some ts, Some cl) \<Rightarrow>
            Some \<lparr>ArId = a, TaskType = ty, CountSuccessed = cs, CountFailed = cf, TotalPeer = tp,
                  Timestamp = ts, Close = cl\<rparr>
        | _ \<Rightarrow> None)
    | JNull \<Rightarrow> Some \<lparr>ArId = [], TaskType = [], CountSuccessed = 0, CountFailed = 0, TotalPeer = 0, Timestamp = 0, Close = False\<rparr>
    | _ \<Rightarrow> None)"

definition task_wf :: "task \<Rightarrow> bool" where
  "task_wf t \<longleftrightarrow> in_i64 (CountSuccessed t) \<and> in_i64 (CountFailed t) \<and> in_i64 (TotalPeer t) \<and> in_i64 (Timestamp t)"

interpretation task_codec: json_codec task_json task_of_json task_wf
  by unfold_locales (simp add: task_json_def task_of_json_def task_wf_def jstr_def jint_def jbool_def)

subsection \<open>Lists of ids and the peer table\<close>

definition ids_json :: "string list \<Rightarrow> json" where
  "ids_json ids = JArr (map JStr ids)"

definition ids_of_json :: "json \<Rightarrow> string list option" where
  "ids_of_json j = (case j of JArr js \<Rightarrow> jstrings js | JNull \<Rightarrow> Some [] | _ \<Rightarrow> None)"

lemma jstrings_map [simp]: "jstrings (map JStr ids) = Some ids"
  by (induction ids) auto

interpretation ids_codec: json_codec ids_json ids_of_json "\<lambda>_. True"
  by unfold_locales (simp add: ids_json_def ids_of_json_def)

text \<open>\<^verbatim>\<open>map[string]int64\<close>; Marshal writes the keys in order.\<close>

definition peers_json :: "(string \<times> int) list \<Rightarrow> json" where
  "peers_json m = JObj (map (\<lambda>(p, n). (p, JNum n)) m)"

fun jints :: "(string \<times> json) list \<Rightarrow> (string \<times> int) list option" where
  "jints [] = Some []"
| "jints ((k, JNum i) # r) = (if in_i64 i then map_option ((#) (k, i)) (jints r) else None)"
| "jints ((k, JNull) # r) = map_option ((#) (k, 0)) (jints r)"
| "jints (_ # r) = None"

definition peers_of_json :: "json \<Rightarrow> (string \<times> int) list option" where
  "peers_of_json j = (case j of JObj fs \<Rightarrow> jints fs | JNull \<Rightarrow> Some [] | _ \<Rightarrow> None)"

definition peers_wf :: "(string \<times> int) list \<Rightarrow> bool" where
  "peers_wf m \<longleftrightarrow> (\<forall>p \<in> set m. in_i64 (snd p))"

lemma jints_map [simp]: "peers_wf m \<Longrightarrow> jints (map (\<lambda>(p, n). (p, JNum n)) m) = Some m"
  by (induction m) (auto simp: peers_wf_def)

interpretation peers_codec: json_codec peers_json peers_of_json peers_wf
  by unfold_locales (simp add: peers_json_def peers_of_json_def)

subsection \<open>goar's transaction, chunk and bundle item\<close>

record tag =
  tag_name :: string
  tag_value :: string

record transaction =
  tx_Format :: int
  tx_ID :: string
  tx_LastTx :: string
  tx_Owner :: string
  tx_Tags :: "tag list"
  tx_Target :: string
  tx_Quantity :: string
  tx_Data :: string
  tx_DataSize :: string
  tx_DataRoot :: string
  tx_Reward :: string
  tx_Signature :: string

record chunk =
  ck_DataRoot :: string
  ck_DataSize :: string
  ck_DataPath :: string
  ck_Offset :: string
  ck_Chunk :: string

text \<open>The fields of a bundle item that its JSON carries, and the two that hold its bytes.\<close>

record item_meta =
  it_SignatureType :: int
  it_Signature :: string
  it_Owner :: string
  it_Target :: string
  it_Anchor :: string
  it_Tags :: "tag list"
  it_Data :: string
  it_Id :: string

record bundle_item = item_meta +
  it_ItemBinary :: string
  it_DataReader :: "string option"

end
