(* ===== verification/Wdb.thy ===== *)
theory Wdb
  imports Schema Complex_Main
begin

text \<open>
  wdb.go: the relational database behind gorm. A table is the list of its rows in the order of the
  primary key; each query or update is one request, and consumes one entry of \<open>db_faults\<close>: a
  request for which the entry is True fails and changes nothing, and an empty list means that no
  request fails any more. \<open>now\<close> is the clock.
\<close>

subsection \<open>schema/db.go, schema/apikey.go\<close>

definition WaitOnChain :: string where "WaitOnChain = ''waiting''"
definition PendingOnChain :: string where "PendingOnChain = ''pending''"
definition SuccOnChain :: string where "SuccOnChain = ''success''"
definition FailedOnChain :: string where "FailedOnChain = ''failed''"
definition UnPayment :: string where "UnPayment = ''unpaid''"
definition SuccPayment :: string where "SuccPayment = ''paid''"
definition ExpiredPayment :: string where "ExpiredPayment = ''expired''"
definition UnSpent :: string where "UnSpent = ''unspent''"
definition Spent :: string where "Spent = ''spent''"
definition UnRefund :: string where "UnRefund = ''unrefund''"
definition Refund :: string where "Refund = ''refunded''"
definition RefundErr :: string where "RefundErr = ''refundErr''"

lemmas status_defs = WaitOnChain_def PendingOnChain_def SuccOnChain_def FailedOnChain_def UnPayment_def
  SuccPayment_def ExpiredPayment_def UnSpent_def Spent_def UnRefund_def Refund_def RefundErr_def

lemma status_neq [simp]:
  "UnPayment \<noteq> SuccPayment" "SuccPayment \<noteq> UnPayment" "ExpiredPayment \<noteq> SuccPayment" "SuccPayment \<noteq> ExpiredPayment"
  "UnPayment \<noteq> ExpiredPayment" "ExpiredPayment \<noteq> UnPayment" "UnSpent \<noteq> Spent" "Spent \<noteq> UnSpent"
  "UnSpent \<noteq> UnRefund" "UnRefund \<noteq> UnSpent" "UnRefund \<noteq> Refund" "Refund \<noteq> UnRefund" "Spent \<noteq> UnRefund"
  "UnRefund \<noteq> Spent" "RefundErr \<noteq> UnRefund" "UnRefund \<noteq> RefundErr" "Refund \<noteq> RefundErr" "RefundErr \<noteq> Refund"
  "WaitOnChain \<noteq> PendingOnChain" "PendingOnChain \<noteq> WaitOnChain" "WaitOnChain \<noteq> SuccOnChain" "SuccOnChain \<noteq> WaitOnChain"
  "FailedOnChain \<noteq> WaitOnChain" "WaitOnChain \<noteq> FailedOnChain" "FailedOnChain \<noteq> PendingOnChain"
  "PendingOnChain \<noteq> FailedOnChain" "SuccOnChain \<noteq> PendingOnChain" "PendingOnChain \<noteq> SuccOnChain"
  "FailedOnChain \<noteq> SuccOnChain" "SuccOnChain \<noteq> FailedOnChain"
  by (simp_all add: status_defs)

record order =
  o_ID :: nat
  o_ItemId :: string
  o_Signer :: string
  o_SignType :: int
  o_Size :: int
  o_Currency :: string
  o_Decimals :: int
  o_Fee :: string
  o_PaymentExpiredTime :: int
  o_ExpectedBlock :: int
  o_PaymentStatus :: string
  o_PaymentId :: string
  o_OnChainStatus :: string
  o_ApiKey :: string
  o_Sort :: bool
  o_Kafka :: bool

record receipt =
  r_RawId :: nat
  r_EverHash :: string
  r_Nonce :: int
  r_Symbol :: string
  r_TokenTag :: string
  r_From :: string
  r_Amount :: string
  r_Data :: json
  r_Sig :: string
  r_Status :: string
  r_ErrMsg :: string

text \<open>\<^verbatim>\<open>ItemIds\<close> holds the JSON list of the ids.\<close>

record on_chain_tx =
  c_ID :: nat
  c_ArId :: string
  c_CurHeight :: int
  c_BlockId :: string
  c_BlockHeight :: int
  c_DataSize :: string
  c_Reward :: string
  c_Status :: string
  c_ItemIds :: json
  c_ItemNum :: int
  c_Kafka :: bool

record manifest_row =
  m_ID :: nat
  m_Url :: string
  m_Id :: string

text \<open>The token balance is a JSON map; its values are read with a type assertion to string.\<close>

record api_key =
  k_ApiKey :: string
  k_EncryptedKey :: string
  k_Address :: string
  k_PubKey :: string
  k_TokenBalance :: "(string \<times> json) list"

text \<open>The price of a token is in USD; a float64 is the rational it stands for. A date is in seconds, UTC.\<close>

record token_price =
  p_Symbol :: string
  p_Decimals :: int
  p_Price :: rat
  p_ManualSet :: bool

record order_statistic =
  os_ID :: nat
  os_Date :: int
  os_Totals :: int
  os_TotalDataSize :: int

record wdb =
  orders :: "order list"
  receipts :: "receipt list"
  arTxs :: "on_chain_tx list"
  manifests :: "manifest_row list"
  apiKeys :: "api_key list"
  tokenPrices :: "token_price list"
  orderStats :: "order_statistic list"
  next_order :: nat
  next_arTx :: nat
  next_manifest :: nat
  next_stat :: nat
  db_faults :: "bool list"

definition db_err :: err where "db_err = ErrIO ''database''"
definition dup_err :: err where "dup_err = ErrMsg ''duplicate key''"

subsection \<open>Requests\<close>

definition db_tick :: "wdb \<Rightarrow> bool \<times> wdb" where
  "db_tick w = (case db_faults w of [] \<Rightarrow> (False, w) | f # fs \<Rightarrow> (f, w\<lparr>db_faults := fs\<rparr>))"

definition db_read :: "(wdb \<Rightarrow> 'a go) \<Rightarrow> wdb \<Rightarrow> 'a go \<times> wdb" where
  "db_read q w = (case db_tick w of (f, w1) \<Rightarrow> (if f then Err db_err else q w1, w1))"

definition db_write :: "(wdb \<Rightarrow> wdb) \<Rightarrow> wdb \<Rightarrow> unit go \<times> wdb" where
  "db_write u w = (case db_tick w of (f, w1) \<Rightarrow> if f then (Err db_err, w1) else (Ret (), u w1))"

text \<open>gorm's First and Last on the rows that match, Find, and Limit.\<close>

definition first_row :: "('a \<Rightarrow> bool) \<Rightarrow> 'a list \<Rightarrow> 'a go" where
  "first_row P xs = (case filter P xs of [] \<Rightarrow> Err ErrRecordNotFound | x # _ \<Rightarrow> Ret x)"

definition last_row :: "('a \<Rightarrow> bool) \<Rightarrow> 'a list \<Rightarrow> 'a go" where
  "last_row P xs = (if filter P xs = [] then Err ErrRecordNotFound else Ret (last (filter P xs)))"

definition update_rows :: "('a \<Rightarrow> bool) \<Rightarrow> ('a \<Rightarrow> 'a) \<Rightarrow> 'a list \<Rightarrow> 'a list" where
  "update_rows P f xs = map (\<lambda>x. if P x then f x else x) xs"

text \<open>
  \<^verbatim>\<open>make([]T, 0, n)\<close> for a T of \<open>sz\<close> bytes, which panics for a negative n and beyond the largest allocation, then Limit(n): gorm 1.22
  writes a LIMIT only for a positive one. \<open>order_size\<close> and \<open>receipt_size\<close> are the sizes on amd64 of Order (eight strings of 16
  bytes, two times of 24, six words, and two flags in a word) and of ReceiptEverTx (nine strings and two words).
\<close>

definition order_size :: int where "order_size = 8 * 16 + 2 * 24 + 6 * 8 + 8"

definition receipt_size :: int where "receipt_size = 9 * 16 + 2 * 8"

definition limit_rows :: "int \<Rightarrow> 'a list \<Rightarrow> 'a list" where
  "limit_rows n xs = (if n \<le> 0 then xs else take (nat n) xs)"

definition with_cap :: "int \<Rightarrow> int \<Rightarrow> (wdb \<Rightarrow> 'a go \<times> wdb) \<Rightarrow> wdb \<Rightarrow> 'a go \<times> wdb" where
  "with_cap sz n m w = (if n < 0 \<or> int maxAlloc < sz * n then (Panic ''makeslice: cap out of range'', w) else m w)"

text \<open>A transaction is the state at Begin; Rollback gives it back, all but the requests that were made.\<close>

definition rollback :: "wdb \<Rightarrow> wdb \<Rightarrow> wdb" where
  "rollback w0 w = w0\<lparr>db_faults := db_faults w\<rparr>"

subsection \<open>Orders\<close>

definition InsertOrder :: "order \<Rightarrow> wdb \<Rightarrow> unit go \<times> wdb" where
  "InsertOrder ord = db_write (\<lambda>w. w\<lparr>orders := orders w @ [ord\<lparr>o_ID := next_order w\<rparr>], next_order := Suc (next_order w)\<rparr>)"

definition GetUnPaidOrder :: "string \<Rightarrow> wdb \<Rightarrow> order go \<times> wdb" where
  "GetUnPaidOrder itemId = db_read (\<lambda>w. last_row (\<lambda>r. o_ItemId r = itemId \<and> o_PaymentStatus r = UnPayment) (orders w))"

definition GetExpiredOrders :: "int \<Rightarrow> wdb \<Rightarrow> order list go \<times> wdb" where
  "GetExpiredOrders now = db_read (\<lambda>w. Ret (filter
     (\<lambda>r. o_PaymentStatus r = UnPayment \<and> o_PaymentExpiredTime r < now) (orders w)))"

definition ExistPaidOrd :: "string \<Rightarrow> wdb \<Rightarrow> bool \<times> wdb" where
  "ExistPaidOrd itemId w = (case db_read (\<lambda>w. first_row
      (\<lambda>r. o_ItemId r = itemId \<and> o_PaymentStatus r = SuccPayment) (orders w)) w of
     (r, w1) \<Rightarrow> (r \<noteq> Err ErrRecordNotFound, w1))"

definition IsLatestUnpaidOrd :: "string \<Rightarrow> int \<Rightarrow> wdb \<Rightarrow> bool \<times> wdb" where
  "IsLatestUnpaidOrd itemId CurExpiredTime w = (case db_read (\<lambda>w. first_row
      (\<lambda>r. o_ItemId r = itemId \<and> o_PaymentStatus r = UnPayment \<and> CurExpiredTime < o_PaymentExpiredTime r) (orders w)) w of
     (r, w1) \<Rightarrow> (r = Err ErrRecordNotFound, w1))"

definition UpdateOrdToExpiredStatus :: "nat \<Rightarrow> wdb \<Rightarrow> unit go \<times> wdb" where
  "UpdateOrdToExpiredStatus i = db_write (\<lambda>w. w\<lparr>orders := update_rows (\<lambda>r. o_ID r = i)
     (\<lambda>r. r\<lparr>o_PaymentStatus := ExpiredPayment, o_OnChainStatus := FailedOnChain\<rparr>) (orders w)\<rparr>)"

definition UpdateOrderPay :: "nat \<Rightarrow> string \<Rightarrow> string \<Rightarrow> wdb \<Rightarrow> unit go \<times> wdb" where
  "UpdateOrderPay i everHash paymentStatus = db_write (\<lambda>w. w\<lparr>orders := update_rows (\<lambda>r. o_ID r = i)
     (\<lambda>r. r\<lparr>o_PaymentStatus := paymentStatus, o_PaymentId := everHash\<rparr>) (orders w)\<rparr>)"

definition needs_chain :: "bool \<Rightarrow> order \<Rightarrow> bool" where
  "needs_chain seq r \<longleftrightarrow> o_PaymentStatus r = SuccPayment \<and> o_OnChainStatus r = WaitOnChain \<and> o_Sort r = seq"

definition GetNeedOnChainOrders :: "wdb \<Rightarrow> order list go \<times> wdb" where
  "GetNeedOnChainOrders = db_read (\<lambda>w. Ret (take 2000 (filter (needs_chain False) (orders w))))"

definition GetNeedOnChainOrdersSorted :: "wdb \<Rightarrow> order list go \<times> wdb" where
  "GetNeedOnChainOrdersSorted = db_read (\<lambda>w. Ret (take 2000 (filter (needs_chain True) (orders w))))"

definition UpdateOrdOnChainStatus :: "string \<Rightarrow> string \<Rightarrow> wdb \<Rightarrow> unit go \<times> wdb" where
  "UpdateOrdOnChainStatus itemId status = db_write (\<lambda>w. w\<lparr>orders := update_rows (\<lambda>r. o_ItemId r = itemId)
     (\<lambda>r. r\<lparr>o_OnChainStatus := status\<rparr>) (orders w)\<rparr>)"

definition max_int64 :: int where "max_int64 = 2 ^ 63 - 1"

definition GetOrdersBySigner :: "string \<Rightarrow> int \<Rightarrow> int \<Rightarrow> wdb \<Rightarrow> order list go \<times> wdb" where
  "GetOrdersBySigner signer cursorId num = (let cur = (if cursorId \<le> 0 then max_int64 else cursorId) in
     with_cap order_size num (db_read (\<lambda>w. Ret (limit_rows num (rev (filter
       (\<lambda>r. int (o_ID r) < cur \<and> o_Signer r = signer \<and> o_OnChainStatus r \<noteq> FailedOnChain) (orders w)))))))"

definition GetOrdersByApiKey :: "string \<Rightarrow> int \<Rightarrow> int \<Rightarrow> string \<Rightarrow> wdb \<Rightarrow> order list go \<times> wdb" where
  "GetOrdersByApiKey apiKey cursorId pageSize ord_by = with_cap order_size pageSize (if ToUpper ord_by = ''ASC''
     then let cur = (if cursorId \<le> 0 then 0 else cursorId) in
       db_read (\<lambda>w. Ret (limit_rows pageSize (filter (\<lambda>r. o_ApiKey r = apiKey \<and> cur < int (o_ID r)) (orders w))))
     else let cur = (if cursorId \<le> 0 then max_int64 else cursorId) in
       db_read (\<lambda>w. Ret (limit_rows pageSize (rev (filter (\<lambda>r. o_ApiKey r = apiKey \<and> int (o_ID r) < cur) (orders w))))))"

definition ExistProcessedOrderItem :: "string \<Rightarrow> wdb \<Rightarrow> order option \<times> wdb" where
  "ExistProcessedOrderItem itemId w = (case db_read (\<lambda>w. first_row
      (\<lambda>r. o_ItemId r = itemId \<and> (o_OnChainStatus r = PendingOnChain \<or> o_OnChainStatus r = SuccOnChain)) (orders w)) w of
     (Ret r, w1) \<Rightarrow> (Some r, w1) | (_, w1) \<Rightarrow> (None, w1))"

definition GetKafkaOrderInfos :: "wdb \<Rightarrow> order list go \<times> wdb" where
  "GetKafkaOrderInfos = db_read (\<lambda>w. Ret (take 50 (filter
     (\<lambda>r. 1189450 < o_ExpectedBlock r \<and> o_PaymentStatus r = SuccPayment \<and> \<not> o_Kafka r) (orders w))))"

definition KafkaDone :: "nat \<Rightarrow> wdb \<Rightarrow> unit go \<times> wdb" where
  "KafkaDone i = db_write (\<lambda>w. w\<lparr>orders := update_rows (\<lambda>r. o_ID r = i) (\<lambda>r. r\<lparr>o_Kafka := True\<rparr>) (orders w)\<rparr>)"

subsection \<open>Receipts\<close>

text \<open>EverHash is unique, and a conflicting insert does nothing. Last orders by the first column.\<close>

fun insert_by_raw :: "receipt \<Rightarrow> receipt list \<Rightarrow> receipt list" where
  "insert_by_raw r [] = [r]"
| "insert_by_raw r (x # xs) = (if r_RawId r < r_RawId x then r # x # xs else x # insert_by_raw r xs)"

definition InsertReceiptTx :: "receipt \<Rightarrow> wdb \<Rightarrow> unit go \<times> wdb" where
  "InsertReceiptTx r = db_write (\<lambda>w. if list_ex (\<lambda>x. r_EverHash x = r_EverHash r) (receipts w) then w
     else w\<lparr>receipts := insert_by_raw r (receipts w)\<rparr>)"

definition GetLastEverRawId :: "wdb \<Rightarrow> nat go \<times> wdb" where
  "GetLastEverRawId w = (case db_read (\<lambda>w. last_row (\<lambda>_. True) (receipts w)) w of
      (Ret r, w1) \<Rightarrow> (Ret (r_RawId r), w1)
    | (Err e, w1) \<Rightarrow> (if e = ErrRecordNotFound then Ret 0 else Err e, w1)
    | (Panic p, w1) \<Rightarrow> (Panic p, w1))"

text \<open>Only the receipts of the last day; \<open>now\<close> is in milliseconds.\<close>

definition GetReceiptsByStatus :: "int \<Rightarrow> string \<Rightarrow> wdb \<Rightarrow> receipt list go \<times> wdb" where
  "GetReceiptsByStatus now status = db_read (\<lambda>w. Ret (filter
     (\<lambda>r. r_Status r = status \<and> now - 24 * 60 * 60 * 1000 < r_Nonce r) (receipts w)))"

definition set_receipt_status :: "nat \<Rightarrow> string \<Rightarrow> wdb \<Rightarrow> wdb" where
  "set_receipt_status rawId status w = w\<lparr>receipts := update_rows (\<lambda>r. r_RawId r = rawId)
     (\<lambda>r. r\<lparr>r_Status := status\<rparr>) (receipts w)\<rparr>"

definition UpdateReceiptStatus :: "nat \<Rightarrow> string \<Rightarrow> wdb \<Rightarrow> unit go \<times> wdb" where
  "UpdateReceiptStatus rawId status = db_write (set_receipt_status rawId status)"

definition UpdateRefundErr :: "nat \<Rightarrow> string \<Rightarrow> wdb \<Rightarrow> unit go \<times> wdb" where
  "UpdateRefundErr rawId errMsg = db_write (\<lambda>w. w\<lparr>receipts := update_rows (\<lambda>r. r_RawId r = rawId)
     (\<lambda>r. r\<lparr>r_Status := RefundErr, r_ErrMsg := errMsg\<rparr>) (receipts w)\<rparr>)"

subsection \<open>Bundles on chain\<close>

definition InsertArTx :: "on_chain_tx \<Rightarrow> wdb \<Rightarrow> unit go \<times> wdb" where
  "InsertArTx tx = db_write (\<lambda>w. w\<lparr>arTxs := arTxs w @ [tx\<lparr>c_ID := next_arTx w\<rparr>], next_arTx := Suc (next_arTx w)\<rparr>)"

definition GetArTxByStatus :: "string \<Rightarrow> wdb \<Rightarrow> on_chain_tx list go \<times> wdb" where
  "GetArTxByStatus status = db_read (\<lambda>w. Ret (filter (\<lambda>t. c_Status t = status) (arTxs w)))"

definition UpdateArTxStatus :: "string \<Rightarrow> string \<Rightarrow> (string \<times> int) option \<Rightarrow> wdb \<Rightarrow> unit go \<times> wdb" where
  "UpdateArTxStatus arId status arTxStatus = db_write (\<lambda>w. w\<lparr>arTxs := update_rows (\<lambda>t. c_ArId t = arId)
     (\<lambda>t. case arTxStatus of None \<Rightarrow> t\<lparr>c_Status := status\<rparr>
        | Some (blockId, height) \<Rightarrow> t\<lparr>c_Status := status, c_BlockId := blockId, c_BlockHeight := height\<rparr>) (arTxs w)\<rparr>)"

definition UpdateArTx :: "nat \<Rightarrow> string \<Rightarrow> int \<Rightarrow> string \<Rightarrow> string \<Rightarrow> string \<Rightarrow> wdb \<Rightarrow> unit go \<times> wdb" where
  "UpdateArTx i arId curHeight dataSize reward status = db_write (\<lambda>w. w\<lparr>arTxs := update_rows (\<lambda>t. c_ID t = i)
     (\<lambda>t. t\<lparr>c_ArId := arId, c_CurHeight := curHeight, c_DataSize := dataSize, c_Reward := reward, c_Status := status\<rparr>)
     (arTxs w)\<rparr>)"

definition GetKafkaOnChains :: "wdb \<Rightarrow> on_chain_tx list go \<times> wdb" where
  "GetKafkaOnChains = db_read (\<lambda>w. Ret (take 10 (filter
     (\<lambda>t. 1188855 < c_BlockHeight t \<and> \<not> c_Kafka t \<and> c_Status t = SuccOnChain) (arTxs w))))"

definition KafkaOnChainDone :: "nat \<Rightarrow> wdb \<Rightarrow> unit go \<times> wdb" where
  "KafkaOnChainDone i = db_write (\<lambda>w. w\<lparr>arTxs := update_rows (\<lambda>t. c_ID t = i) (\<lambda>t. t\<lparr>c_Kafka := True\<rparr>) (arTxs w)\<rparr>)"

subsection \<open>Manifests and api keys\<close>

definition InsertManifest :: "string \<Rightarrow> string \<Rightarrow> wdb \<Rightarrow> unit go \<times> wdb" where
  "InsertManifest url mid w = (case db_tick w of (f, w1) \<Rightarrow>
     if f then (Err db_err, w1)
     else if list_ex (\<lambda>m. m_Url m = url) (manifests w1) then (Err dup_err, w1)
     else (Ret (), w1\<lparr>manifests := manifests w1 @ [\<lparr>m_ID = next_manifest w1, m_Url = url, m_Id = mid\<rparr>],
            next_manifest := Suc (next_manifest w1)\<rparr>))"

definition GetManifestId :: "string \<Rightarrow> wdb \<Rightarrow> string go \<times> wdb" where
  "GetManifestId mfUrl w = (case db_read (\<lambda>w. last_row (\<lambda>m. m_Url m = mfUrl) (manifests w)) w of
     (r, w1) \<Rightarrow> (andThen r (\<lambda>m. Ret (m_Id m)), w1))"

definition DelManifest :: "string \<Rightarrow> wdb \<Rightarrow> unit go \<times> wdb" where
  "DelManifest mid = db_write (\<lambda>w. w\<lparr>manifests := filter (\<lambda>m. m_Id m \<noteq> mid) (manifests w)\<rparr>)"

text \<open>ApiKey and Address are unique.\<close>

definition InsertApiKey :: "api_key \<Rightarrow> wdb \<Rightarrow> unit go \<times> wdb" where
  "InsertApiKey ak w = (case db_tick w of (f, w1) \<Rightarrow>
     if f then (Err db_err, w1)
     else if list_ex (\<lambda>k. k_ApiKey k = k_ApiKey ak \<or> k_Address k = k_Address ak) (apiKeys w1) then (Err dup_err, w1)
     else (Ret (), w1\<lparr>apiKeys := apiKeys w1 @ [ak]\<rparr>))"

definition GetApiKeyDetail :: "string \<Rightarrow> wdb \<Rightarrow> api_key go \<times> wdb" where
  "GetApiKeyDetail key = db_read (\<lambda>w. first_row (\<lambda>k. k_ApiKey k = key) (apiKeys w))"

definition GetApiKeyDetailByAddress :: "string \<Rightarrow> wdb \<Rightarrow> api_key go \<times> wdb" where
  "GetApiKeyDetailByAddress addr = db_read (\<lambda>w. first_row (\<lambda>k. k_Address k = addr) (apiKeys w))"

definition ExistApikey :: "string \<Rightarrow> wdb \<Rightarrow> api_key option \<times> wdb" where
  "ExistApikey addr w = (case GetApiKeyDetailByAddress addr w of
      (Ret k, w1) \<Rightarrow> (Some k, w1) | (_, w1) \<Rightarrow> (None, w1))"

definition UpdateApikeyTokenBal :: "string \<Rightarrow> (string \<times> json) list \<Rightarrow> wdb \<Rightarrow> unit go \<times> wdb" where
  "UpdateApikeyTokenBal addr newTokBal = db_write (\<lambda>w. w\<lparr>apiKeys := update_rows (\<lambda>k. k_Address k = addr)
     (\<lambda>k. k\<lparr>k_TokenBalance := newTokBal\<rparr>) (apiKeys w)\<rparr>)"

text \<open>Receipts of one sender whose Data has the action apikeyPayment, the latest first.\<close>

definition deposit_data :: "json \<Rightarrow> bool" where
  "deposit_data j \<longleftrightarrow> (case j of JObj fs \<Rightarrow> map_of fs ''action'' = Some (JStr ''apikeyPayment'') | _ \<Rightarrow> False)"

definition GetApiKeyDepositRecords :: "string \<Rightarrow> int \<Rightarrow> int \<Rightarrow> wdb \<Rightarrow> receipt list go \<times> wdb" where
  "GetApiKeyDepositRecords addr cursorId num = (let cur = (if cursorId \<le> 0 then max_int64 else cursorId) in
     with_cap receipt_size num (db_read (\<lambda>w. Ret (limit_rows num (rev (filter
       (\<lambda>r. int (r_RawId r) < cur \<and> r_From r = addr \<and> deposit_data (r_Data r)) (receipts w)))))))"

subsection \<open>Prices\<close>

text \<open>gorm refuses to create no rows; a row whose symbol is there is skipped.\<close>

definition add_price :: "token_price \<Rightarrow> token_price list \<Rightarrow> token_price list" where
  "add_price tp tps = (if list_ex (\<lambda>x. p_Symbol x = p_Symbol tp) tps then tps else tps @ [tp])"

definition InsertPrices :: "token_price list \<Rightarrow> wdb \<Rightarrow> unit go \<times> wdb" where
  "InsertPrices tps w = (if tps = [] then (Err (ErrMsg ''empty slice found''), w)
     else db_write (\<lambda>w. w\<lparr>tokenPrices := fold add_price tps (tokenPrices w)\<rparr>) w)"

definition UpdatePrice :: "string \<Rightarrow> rat \<Rightarrow> wdb \<Rightarrow> unit go \<times> wdb" where
  "UpdatePrice symbol newPrice = db_write (\<lambda>w. w\<lparr>tokenPrices := update_rows (\<lambda>x. p_Symbol x = symbol)
     (\<lambda>x. x\<lparr>p_Price := newPrice\<rparr>) (tokenPrices w)\<rparr>)"

definition GetPrices :: "wdb \<Rightarrow> token_price list go \<times> wdb" where
  "GetPrices = db_read (\<lambda>w. Ret (tokenPrices w))"

definition GetArPrice :: "wdb \<Rightarrow> rat go \<times> wdb" where
  "GetArPrice w = (case db_read (\<lambda>w. first_row (\<lambda>x. p_Symbol x = ''AR'') (tokenPrices w)) w of
     (r, w1) \<Rightarrow> (andThen r (\<lambda>x. Ret (p_Price x)), w1))"

subsection \<open>Statistics\<close>

text \<open>\<^verbatim>\<open>Date\<close> of the result is the date of the row; both ends of the range are included.\<close>

definition GetOrderStatisticByDate :: "int \<Rightarrow> int \<Rightarrow> wdb \<Rightarrow> (int \<times> string \<times> int \<times> int) list go \<times> wdb" where
  "GetOrderStatisticByDate startDate endDate = db_read (\<lambda>w. Ret (map
     (\<lambda>x. (os_Date x, SuccOnChain, os_Totals x, os_TotalDataSize x))
     (sort_key os_Date (filter (\<lambda>x. startDate \<le> os_Date x \<and> os_Date x \<le> endDate) (orderStats w)))))"

text \<open>Any error counts as no row.\<close>

definition WhetherExec :: "int \<Rightarrow> int \<Rightarrow> wdb \<Rightarrow> bool \<times> wdb" where
  "WhetherExec startDate endDate w = (case db_read (\<lambda>w. first_row
      (\<lambda>x. startDate \<le> os_Date x \<and> os_Date x < endDate) (orderStats w)) w of
     (r, w1) \<Rightarrow> (\<not> is_ret r, w1))"

definition real_time_status :: "string list" where
  "real_time_status = [''waiting'', ''pending'', ''success'', ''failed'']"

text \<open>The rows of GROUP BY on_chain_status: status, count and total size, in the order of first appearance.\<close>

fun group_status :: "order list \<Rightarrow> (string \<times> int \<times> int) list" where
  "group_status [] = []"
| "group_status (r # rs) = (let g = filter (\<lambda>x. o_OnChainStatus x = o_OnChainStatus r) (r # rs) in
     (o_OnChainStatus r, int (length g), sum_list (map o_Size g))
       # filter (\<lambda>p. fst p \<noteq> o_OnChainStatus r) (group_status rs))"

definition GetOrderRealTimeStatistic :: "wdb \<Rightarrow> (string \<times> int \<times> int) list \<times> wdb" where
  "GetOrderRealTimeStatistic w = (case db_tick w of (f, w1) \<Rightarrow>
     let results = (if f then [] else group_status (orders w1)) in
     (foldl (\<lambda>rs s. if list_ex (\<lambda>r. s = fst r) rs then rs else rs @ [(s, 0, 0)]) results real_time_status, w1))"

subsection \<open>Facts\<close>

definition db_healthy :: "wdb \<Rightarrow> bool" where
  "db_healthy w \<longleftrightarrow> db_faults w = []"

lemma db_healthy_ops [simp]:
  "db_healthy w \<Longrightarrow> db_read q w = (q w, w)" "db_healthy w \<Longrightarrow> db_write u w = (Ret (), u w)"
  "db_healthy w \<Longrightarrow> db_tick w = (False, w)"
  by (simp_all add: db_healthy_def db_read_def db_write_def db_tick_def)

lemma db_healthy_updates [simp]:
  "db_healthy (w\<lparr>orders := a\<rparr>) = db_healthy w" "db_healthy (w\<lparr>receipts := b\<rparr>) = db_healthy w"
  "db_healthy (w\<lparr>arTxs := c\<rparr>) = db_healthy w" "db_healthy (w\<lparr>manifests := d\<rparr>) = db_healthy w"
  "db_healthy (w\<lparr>apiKeys := e\<rparr>) = db_healthy w" "db_healthy (w\<lparr>next_order := n\<rparr>) = db_healthy w"
  "db_healthy (w\<lparr>next_arTx := n\<rparr>) = db_healthy w" "db_healthy (w\<lparr>next_manifest := n\<rparr>) = db_healthy w"
  "db_healthy (w\<lparr>tokenPrices := tp\<rparr>) = db_healthy w" "db_healthy (w\<lparr>orderStats := os\<rparr>) = db_healthy w"
  "db_healthy (w\<lparr>next_stat := n\<rparr>) = db_healthy w"
  by (simp_all add: db_healthy_def)

lemma update_rows_simps [simp]: "update_rows P f [] = []"
  "update_rows P f (x # xs) = (if P x then f x else x) # update_rows P f xs"
  "set (update_rows P f xs) = (\<lambda>x. if P x then f x else x) ` set xs" "length (update_rows P f xs) = length xs"
  by (simp_all add: update_rows_def)

lemma update_rows_False [simp]: "update_rows (\<lambda>r. False) f os = os"
  by (induction os) auto

lemma first_row_Ret:
  assumes "first_row P xs = Ret x"
  shows "x \<in> set xs" and "P x"
proof -
  have "x \<in> set (filter P xs)" using assms by (cases "filter P xs") (simp_all add: first_row_def)
  then show "x \<in> set xs" and "P x" by simp_all
qed

lemma first_row_none: "first_row P xs = Err ErrRecordNotFound \<longleftrightarrow> (\<forall>x \<in> set xs. \<not> P x)"
proof -
  have "first_row P xs = Err ErrRecordNotFound \<longleftrightarrow> filter P xs = []"
    by (cases "filter P xs") (simp_all add: first_row_def)
  then show ?thesis by (simp add: filter_empty_conv)
qed

lemma last_row_Ret:
  assumes "last_row P xs = Ret x"
  shows "x \<in> set xs" and "P x"
proof -
  have "x \<in> set (filter P xs)"
    using assms last_in_set [of "filter P xs"] by (auto simp: last_row_def split: if_splits)
  then show "x \<in> set xs" and "P x" by simp_all
qed

definition empty_wdb :: wdb where
  "empty_wdb = \<lparr>orders = [], receipts = [], arTxs = [], manifests = [], apiKeys = [], tokenPrices = [],
     orderStats = [], next_order = 1, next_arTx = 1, next_manifest = 1, next_stat = 1, db_faults = []\<rparr>"

lemma empty_wdb_healthy [simp]: "db_healthy empty_wdb"
  by (simp add: empty_wdb_def db_healthy_def)

text \<open>
  What a request can do to the database, failing or not, told by its content: the state without
  the failures to come.
\<close>

definition core :: "wdb \<Rightarrow> wdb" where
  "core w = w\<lparr>db_faults := []\<rparr>"

lemma core_simps [simp]:
  "orders (core w) = orders w" "receipts (core w) = receipts w" "arTxs (core w) = arTxs w"
  "manifests (core w) = manifests w" "apiKeys (core w) = apiKeys w" "core (core w) = core w"
  "core (w\<lparr>db_faults := fs\<rparr>) = core w" "core (w\<lparr>orders := a\<rparr>) = (core w)\<lparr>orders := a\<rparr>"
  "core (w\<lparr>receipts := b\<rparr>) = (core w)\<lparr>receipts := b\<rparr>" "core (w\<lparr>arTxs := c\<rparr>) = (core w)\<lparr>arTxs := c\<rparr>"
  "core (w\<lparr>manifests := d\<rparr>) = (core w)\<lparr>manifests := d\<rparr>" "core (w\<lparr>apiKeys := e\<rparr>) = (core w)\<lparr>apiKeys := e\<rparr>"
  "core (rollback w w1) = core w" "core (set_receipt_status i st w) = set_receipt_status i st (core w)"
  by (simp_all add: core_def rollback_def set_receipt_status_def)

lemma core_fields:
  assumes "core w1 = core w"
  shows "orders w1 = orders w" and "receipts w1 = receipts w" and "arTxs w1 = arTxs w"
    and "manifests w1 = manifests w" and "apiKeys w1 = apiKeys w"
  using arg_cong [OF assms, of orders] arg_cong [OF assms, of receipts] arg_cong [OF assms, of arTxs]
    arg_cong [OF assms, of manifests] arg_cong [OF assms, of apiKeys] by simp_all

lemma db_tick_core: "db_tick w = (f, w1) \<Longrightarrow> core w1 = core w"
  by (auto simp: db_tick_def split: list.splits)

lemma db_read_cases:
  assumes "db_read q w = (r, w1)"
  obtains "core w1 = core w" and "r = q w1" | "core w1 = core w" and "r = Err db_err"
  using assms by (auto simp: db_read_def split: prod.splits if_splits dest: db_tick_core)

lemma db_write_cases:
  assumes "db_write u w = (r, w1)"
  obtains w' where "core w' = core w" and "r = Ret ()" and "w1 = u w'"
  | "core w1 = core w" and "r = Err db_err"
  using assms by (auto simp: db_write_def split: prod.splits if_splits dest: db_tick_core)

lemma UpdateReceiptStatus_cases:
  assumes "UpdateReceiptStatus i st w = (r, w1)"
  obtains "r = Ret ()" and "core w1 = set_receipt_status i st (core w)" | "r = Err db_err" and "core w1 = core w"
  using assms unfolding UpdateReceiptStatus_def
  by (elim db_write_cases) auto

lemma UpdateOrderPay_cases:
  assumes "UpdateOrderPay i h st w = (r, w1)"
  obtains "r = Ret ()" and "core w1 = (core w)\<lparr>orders := update_rows (\<lambda>r. o_ID r = i)
      (\<lambda>r. r\<lparr>o_PaymentStatus := st, o_PaymentId := h\<rparr>) (orders w)\<rparr>"
  | "r = Err db_err" and "core w1 = core w"
  using assms unfolding UpdateOrderPay_def
proof (elim db_write_cases)
  fix w' assume "core w' = core w" "r = Ret ()" "w1 = w'\<lparr>orders := update_rows (\<lambda>r. o_ID r = i)
      (\<lambda>r. r\<lparr>o_PaymentStatus := st, o_PaymentId := h\<rparr>) (orders w')\<rparr>"
  then show thesis using that(1) core_fields(1) [of w' w] by simp
qed (use that in auto)

end
