(* ===== verification/Ledger.thy ===== *)
theory Ledger
  imports Wdb
begin

text \<open>
  The money of the orders in the abstract: a ledger of orders, receipts and refunds, the six things
  that may happen to it and what they keep in order, and the interface by which a relation of
  concrete steps implements it. Lifecycle shows that the jobs do.
\<close>

subsection \<open>The abstract ledger\<close>

text \<open>
  An order has its fee, its status and the hash of the receipt that paid it, empty while none has; a
  receipt its amount and status. \<open>l_refunds\<close> holds the hashes of the receipts for which a refund was
  asked for.
\<close>

record a_order =
  a_id :: nat
  a_fee :: "int option"
  a_status :: string
  a_by :: string

record a_receipt =
  v_id :: nat
  v_hash :: string
  v_amount :: "int option"
  v_status :: string

record ledger =
  l_orders :: "a_order list"
  l_receipts :: "a_receipt list"
  l_refunds :: "string list"
  l_next :: nat

definition fee_value :: "a_order \<Rightarrow> int" where
  "fee_value r = (case a_fee r of None \<Rightarrow> 0 | Some f \<Rightarrow> f)"

definition fees :: "a_order list \<Rightarrow> int" where
  "fees rs = sum_list (map fee_value rs)"

definition paid_by :: "string \<Rightarrow> ledger \<Rightarrow> a_order list" where
  "paid_by h l = filter (\<lambda>r. a_by r = h) (l_orders l)"

definition move :: "nat \<Rightarrow> string \<Rightarrow> ledger \<Rightarrow> ledger" where
  "move i st l = l\<lparr>l_receipts := update_rows (\<lambda>v. v_id v = i) (\<lambda>v. v\<lparr>v_status := st\<rparr>) (l_receipts l)\<rparr>"

definition status_moves :: "(string \<times> string) list" where
  "status_moves = [(UnSpent, Spent), (UnSpent, UnRefund), (UnRefund, Refund), (Refund, RefundErr)]"

inductive money :: "ledger \<Rightarrow> ledger \<Rightarrow> bool" where
  Placed: "a_id r = l_next l \<Longrightarrow> a_by r = [] \<Longrightarrow> a_status r \<in> {UnPayment, SuccPayment} \<Longrightarrow>
    money l (l\<lparr>l_orders := l_orders l @ [r], l_next := Suc (l_next l)\<rparr>)"
| Expired: "r \<in> set (l_orders l) \<Longrightarrow> a_status r = UnPayment \<Longrightarrow>
    money l (l\<lparr>l_orders := update_rows (\<lambda>x. a_id x = a_id r) (\<lambda>x. x\<lparr>a_status := ExpiredPayment\<rparr>) (l_orders l)\<rparr>)"
| Received: "v_hash v \<noteq> [] \<Longrightarrow> v_status v = UnSpent \<Longrightarrow> l_receipts l = vs @ vs' \<Longrightarrow>
    v_id v \<notin> v_id ` set (vs @ vs') \<Longrightarrow> v_hash v \<notin> v_hash ` set (vs @ vs') \<Longrightarrow>
    money l (l\<lparr>l_receipts := vs @ v # vs'\<rparr>)"
| Settled: "v \<in> set (l_receipts l) \<Longrightarrow> v_status v = UnSpent \<Longrightarrow> v_amount v = Some amount \<Longrightarrow>
    set rs \<subseteq> {r \<in> set (l_orders l). a_status r = UnPayment \<and> a_fee r \<noteq> None} \<Longrightarrow> fees rs \<le> amount \<Longrightarrow>
    money l (move (v_id v) Spent (l\<lparr>l_orders := update_rows (\<lambda>x. a_id x \<in> a_id ` set rs)
      (\<lambda>x. x\<lparr>a_status := SuccPayment, a_by := v_hash v\<rparr>) (l_orders l)\<rparr>))"
| Moved: "v \<in> set (l_receipts l) \<Longrightarrow> (v_status v, st) \<in> set status_moves \<Longrightarrow> money l (move (v_id v) st l)"
| Refunded: "v \<in> set (l_receipts l) \<Longrightarrow> v_status v = UnRefund \<Longrightarrow>
    money l ((move (v_id v) Refund l)\<lparr>l_refunds := l_refunds l @ [v_hash v]\<rparr>)"

text \<open>
  What the steps keep. A receipt that paid an order is spent, the fees of the orders it paid are
  within its amount (when no fee is negative, for a receipt may name an item twice), and a receipt
  for which a refund was asked for is refunded.
\<close>

definition ids_ok :: "ledger \<Rightarrow> bool" where
  "ids_ok l \<longleftrightarrow> distinct (map a_id (l_orders l)) \<and> (\<forall>r \<in> set (l_orders l). a_id r < l_next l)
     \<and> distinct (map v_id (l_receipts l)) \<and> distinct (map v_hash (l_receipts l)) \<and> [] \<notin> v_hash ` set (l_receipts l)"

definition has_receipt :: "ledger \<Rightarrow> string \<Rightarrow> string list \<Rightarrow> bool" where
  "has_receipt l h sts \<longleftrightarrow> (\<exists>v \<in> set (l_receipts l). v_hash v = h \<and> v_status v \<in> set sts)"

definition payments_ok :: "ledger \<Rightarrow> bool" where
  "payments_ok l \<longleftrightarrow> (\<forall>r \<in> set (l_orders l). a_by r \<noteq> [] \<longrightarrow> a_status r = SuccPayment \<and> has_receipt l (a_by r) [Spent])"

definition refunds_ok :: "ledger \<Rightarrow> bool" where
  "refunds_ok l \<longleftrightarrow> distinct (l_refunds l) \<and> (\<forall>h \<in> set (l_refunds l). has_receipt l h [Refund, RefundErr])"

definition covered :: "ledger \<Rightarrow> a_receipt \<Rightarrow> bool" where
  "covered l v \<longleftrightarrow> paid_by (v_hash v) l = [] \<or> (\<exists>amount. v_amount v = Some amount \<and> fees (paid_by (v_hash v) l) \<le> amount)"

definition amounts_ok :: "ledger \<Rightarrow> bool" where
  "amounts_ok l \<longleftrightarrow> (\<forall>r \<in> set (l_orders l). 0 \<le> fee_value r) \<longrightarrow>
     (\<forall>v \<in> set (l_receipts l). covered l v)"

definition ledger_ok :: "ledger \<Rightarrow> bool" where
  "ledger_ok l \<longleftrightarrow> ids_ok l \<and> payments_ok l \<and> refunds_ok l \<and> amounts_ok l"

subsection \<open>The steps keep the ledger in order\<close>

lemma map_rows_keep [simp]: "(\<And>x. g (f x) = g x) \<Longrightarrow> map g (update_rows P f xs) = map g xs"
  by (simp add: update_rows_def)

lemma move_simps [simp]: "l_orders (move i st l) = l_orders l" "l_refunds (move i st l) = l_refunds l" "l_next (move i st l) = l_next l"
  "l_receipts (move i st l) = update_rows (\<lambda>v. v_id v = i) (\<lambda>v. v\<lparr>v_status := st\<rparr>) (l_receipts l)"
  "map v_id (l_receipts (move i st l)) = map v_id (l_receipts l)"
  "map v_hash (l_receipts (move i st l)) = map v_hash (l_receipts l)"
  by (simp_all add: move_def)

lemma move_image [simp]: "v_hash ` set (l_receipts (move i st l)) = v_hash ` set (l_receipts l)"
  by (metis list.set_map move_simps(6))

lemma sum_list_subset:
  fixes f :: "'a \<Rightarrow> int"
  assumes "distinct xs" and "set xs \<subseteq> set ys" and "\<forall>y \<in> set ys. 0 \<le> f y"
  shows "sum_list (map f xs) \<le> sum_list (map f ys)"
proof -
  have "sum_list (map f xs) = sum f (set xs)" using assms(1) by (simp add: sum_list_distinct_conv_sum_set)
  also have "\<dots> \<le> sum f (set ys)" using assms(2,3) by (intro sum_mono2) auto
  also have "\<dots> \<le> sum_list (map f ys)" using assms(3)
  proof (induction ys)
    case (Cons y ys)
    then have "sum f (set (y # ys)) \<le> f y + sum f (set ys)" by (cases "y \<in> set ys") (auto simp: insert_absorb)
    with Cons show ?case by simp
  qed simp
  finally show ?thesis .
qed

lemma same_receipt:
  assumes "ids_ok l" and "v \<in> set (l_receipts l)" and "u \<in> set (l_receipts l)"
  shows "v_id v = v_id u \<longleftrightarrow> v = u" and "v_hash v = v_hash u \<longleftrightarrow> v = u"
  using assms by (auto simp: ids_ok_def distinct_map dest: inj_onD)

lemma has_receipt_move:
  assumes "ids_ok l" and "v \<in> set (l_receipts l)" and "has_receipt l h sts"
    and "v_status v \<in> set sts \<Longrightarrow> st \<in> set sts"
  shows "has_receipt (move (v_id v) st l) h sts"
proof -
  obtain u where u: "u \<in> set (l_receipts l)" "v_hash u = h" "v_status u \<in> set sts"
    using assms(3) by (auto simp: has_receipt_def)
  let ?u = "if v_id u = v_id v then u\<lparr>v_status := st\<rparr> else u"
  have "?u \<in> set (l_receipts (move (v_id v) st l))" using u(1) by simp
  moreover have "v_hash ?u = h \<and> v_status ?u \<in> set sts"
    using u assms(4) same_receipt(1) [OF assms(1) u(1) assms(2)] by auto
  ultimately show ?thesis unfolding has_receipt_def by blast
qed

lemma move_keeps:
  assumes "ids_ok l" and "v \<in> set (l_receipts l)" and "u \<in> set (l_receipts l)" and "v_status u \<noteq> v_status v"
  shows "u \<in> set (l_receipts (move (v_id v) st l))"
proof -
  have "v_id u \<noteq> v_id v" using assms same_receipt(1) [OF assms(1) assms(3,2)] by auto
  then show ?thesis using assms(3) by (auto intro: rev_image_eqI)
qed

lemma has_receipt_moved: "v \<in> set (l_receipts l) \<Longrightarrow> st \<in> set sts \<Longrightarrow> has_receipt (move (v_id v) st l) (v_hash v) sts"
  by (auto simp: has_receipt_def intro!: bexI [of _ "v\<lparr>v_status := st\<rparr>"] rev_image_eqI)

lemma has_receipt_cong [simp]: "has_receipt (l\<lparr>l_orders := os\<rparr>) = has_receipt l" "has_receipt (l\<lparr>l_refunds := hs\<rparr>) = has_receipt l"
  "has_receipt (l\<lparr>l_next := n\<rparr>) = has_receipt l" "move i st (l\<lparr>l_orders := os\<rparr>) = (move i st l)\<lparr>l_orders := os\<rparr>"
  by (simp_all add: has_receipt_def fun_eq_iff move_def)

lemma status_moves_facts:
  "\<forall>(a, b) \<in> set status_moves. a \<noteq> Spent"
  "\<forall>(a, b) \<in> set status_moves. a \<in> set [Refund, RefundErr] \<longrightarrow> b \<in> set [Refund, RefundErr]"
  by (simp_all add: status_moves_def status_defs)

lemma money_ids:
  assumes "money l l'" and "ids_ok l"
  shows "ids_ok l'"
  using assms
proof (cases rule: money.cases)
  case (Placed r)
  then show ?thesis using assms(2) by (auto simp: ids_ok_def less_Suc_eq)
next
  case (Received v vs vs')
  then show ?thesis using assms(2) by (auto simp: ids_ok_def)
qed (use assms(2) in \<open>auto simp: ids_ok_def\<close>)

lemma money_payments:
  assumes "money l l'" and "ids_ok l" and "payments_ok l"
  shows "payments_ok l'"
  using assms(1)
proof (cases rule: money.cases)
  case (Placed r)
  then show ?thesis using assms(3) by (auto simp: payments_ok_def)
next
  case (Expired r)
  have "a_by x = []" if "x \<in> set (l_orders l)" "a_id x = a_id r" for x
  proof -
    have "x = r" using that Expired(2) assms(2) by (auto simp: ids_ok_def distinct_map dest: inj_onD)
    then show ?thesis using Expired(2,3) assms(3) by (auto simp: payments_ok_def)
  qed
  then show ?thesis using assms(3) Expired(1) by (auto simp: payments_ok_def)
next
  case (Received v vs vs')
  then show ?thesis using assms(3) by (auto simp: payments_ok_def has_receipt_def)
next
  case (Settled v amount rs)
  have "has_receipt l' (v_hash v) [Spent]" using Settled(1,2) by (simp add: has_receipt_moved)
  moreover have "has_receipt l' h [Spent]" if "has_receipt l h [Spent]" for h
    using has_receipt_move [OF assms(2) Settled(2) that] Settled(1) by simp
  ultimately show ?thesis using assms(3) unfolding Settled(1) by (auto simp: payments_ok_def split: if_splits)
next
  case (Moved v st)
  have "v_status v \<noteq> Spent" using Moved(3) status_moves_facts(1) by auto
  then have "has_receipt l' h [Spent]" if "has_receipt l h [Spent]" for h
    using has_receipt_move [OF assms(2) Moved(2) that] Moved(1) by simp
  then show ?thesis using assms(3) Moved(1) by (auto simp: payments_ok_def)
next
  case (Refunded v)
  have "has_receipt l' h [Spent]" if "has_receipt l h [Spent]" for h
    using has_receipt_move [OF assms(2) Refunded(2) that] Refunded(1,3) by simp
  then show ?thesis using assms(3) Refunded(1) by (auto simp: payments_ok_def)
qed

lemma money_refunds:
  assumes "money l l'" and "ids_ok l" and "refunds_ok l"
  shows "refunds_ok l'"
  using assms(1)
proof (cases rule: money.cases)
  case (Received v vs vs')
  then show ?thesis using assms(3) by (auto simp: refunds_ok_def has_receipt_def)
next
  case (Settled v amount rs)
  have "has_receipt l' h [Refund, RefundErr]" if "has_receipt l h [Refund, RefundErr]" for h
    using has_receipt_move [OF assms(2) Settled(2) that, of Spent] Settled(1,3) by (simp add: status_defs)
  then show ?thesis using assms(3) Settled(1) by (simp add: refunds_ok_def)
next
  case (Moved v st)
  have "st \<in> set [Refund, RefundErr]" if "v_status v \<in> set [Refund, RefundErr]"
    using that Moved(3) status_moves_facts(2) by auto
  then have "has_receipt l' h [Refund, RefundErr]" if "has_receipt l h [Refund, RefundErr]" for h
    using has_receipt_move [OF assms(2) Moved(2) that] Moved(1) by blast
  then show ?thesis using assms(3) Moved(1) by (simp add: refunds_ok_def)
next
  case (Refunded v)
  have "has_receipt l' (v_hash v) [Refund, RefundErr]" using Refunded(1,2) by (simp add: has_receipt_moved)
  moreover have "has_receipt l' h [Refund, RefundErr]" if "has_receipt l h [Refund, RefundErr]" for h
    using has_receipt_move [OF assms(2) Refunded(2) that, of Refund] Refunded(1) by simp
  moreover have "v_hash v \<notin> set (l_refunds l)"
    using assms(3) Refunded(2,3) same_receipt(2) [OF assms(2) _ Refunded(2)] by (fastforce simp: refunds_ok_def has_receipt_def)
  ultimately show ?thesis using assms(3) unfolding Refunded(1) by (auto simp: refunds_ok_def)
qed (use assms(3) in \<open>auto simp: refunds_ok_def\<close>)

lemma paid_rows:
  fixes os :: "a_order list"
  shows "\<forall>x \<in> set os. a_by x \<noteq> h \<Longrightarrow> fees (filter (\<lambda>r. a_by r = h) (update_rows P (\<lambda>x. x\<lparr>a_status := st, a_by := h\<rparr>) os)) = fees (filter P os)"
    and "h' \<noteq> h \<Longrightarrow> filter (\<lambda>r. a_by r = h') (update_rows P (\<lambda>x. x\<lparr>a_status := st, a_by := h\<rparr>) os)
      = filter (\<lambda>x. \<not> P x) (filter (\<lambda>r. a_by r = h') os)"
  by (induction os) (auto simp: fees_def fee_value_def)

lemma fees_filter: "\<forall>r \<in> set os. 0 \<le> fee_value r \<Longrightarrow> fees (filter P os) \<le> fees os"
  by (induction os) (auto simp: fees_def)

lemma unpaid_by_new:
  assumes "ids_ok l" and "payments_ok l" and "v \<in> set (l_receipts l)" and "v_status v = UnSpent" and "x \<in> set (l_orders l)"
  shows "a_by x \<noteq> v_hash v"
proof
  assume x: "a_by x = v_hash v"
  then have "a_by x \<noteq> []" using assms(1,3) by (metis ids_ok_def image_eqI)
  then obtain u where "u \<in> set (l_receipts l)" "v_hash u = v_hash v" "v_status u = Spent"
    using assms(2,5) x by (auto simp: payments_ok_def has_receipt_def)
  then show False using same_receipt(2) [OF assms(1) _ assms(3)] assms(4) by auto
qed

lemma covered_status [simp]: "covered l (v\<lparr>v_status := st\<rparr>) = covered l v"
  by (simp add: covered_def)

lemma covered_moved: "\<forall>v \<in> set (l_receipts l). covered l v \<Longrightarrow> \<forall>v \<in> set (l_receipts (move i st l)). covered (move i st l) v"
  by (auto simp: covered_def paid_by_def)

lemma paid_by_expired:
  "paid_by h (l\<lparr>l_orders := update_rows P (\<lambda>x. x\<lparr>a_status := st\<rparr>) (l_orders l)\<rparr>)
    = update_rows P (\<lambda>x. x\<lparr>a_status := st\<rparr>) (paid_by h l)"
  unfolding paid_by_def by (simp add: update_rows_def filter_map comp_def)

lemma settled_covers:
  assumes ok: "ids_ok l" "payments_ok l" and v: "v \<in> set (l_receipts l)" "v_status v = UnSpent" "v_amount v = Some amount"
    and rs: "set rs \<subseteq> {r \<in> set (l_orders l). a_status r = UnPayment \<and> a_fee r \<noteq> None}" "fees rs \<le> amount"
    and nonneg: "\<forall>r \<in> set (l_orders l). 0 \<le> fee_value r"
    and old: "\<forall>u \<in> set (l_receipts l). covered l u" and u: "u \<in> set (l_receipts l)"
  shows "covered (l\<lparr>l_orders := update_rows (\<lambda>x. a_id x \<in> a_id ` set rs) (\<lambda>x. x\<lparr>a_status := SuccPayment, a_by := v_hash v\<rparr>) (l_orders l)\<rparr>) u"
    (is "covered ?l u")
proof (cases "u = v")
  case True
  let ?P = "\<lambda>x. a_id x \<in> a_id ` set rs"
  have "set (filter ?P (l_orders l)) \<subseteq> set rs"
  proof
    fix x assume "x \<in> set (filter ?P (l_orders l))"
    then obtain y where "x \<in> set (l_orders l)" "y \<in> set rs" "a_id x = a_id y" by auto
    moreover then have "y \<in> set (l_orders l)" using rs(1) by auto
    ultimately show "x \<in> set rs" using ok(1) by (auto simp: ids_ok_def distinct_map dest: inj_onD)
  qed
  moreover have "distinct (filter ?P (l_orders l))" using ok(1) by (auto simp: ids_ok_def distinct_map)
  ultimately have "fees (filter ?P (l_orders l)) \<le> fees rs"
    unfolding fees_def using nonneg rs(1) by (intro sum_list_subset) auto
  moreover have "fees (paid_by (v_hash v) ?l) = fees (filter ?P (l_orders l))"
    unfolding paid_by_def using unpaid_by_new [OF ok v(1,2)] by (simp add: paid_rows(1))
  ultimately show ?thesis using True v(3) rs(2) by (simp add: covered_def)
next
  case False
  then have h: "v_hash u \<noteq> v_hash v" using same_receipt(2) [OF ok(1) u v(1)] by simp
  have "paid_by (v_hash u) ?l = filter (\<lambda>x. a_id x \<notin> a_id ` set rs) (paid_by (v_hash u) l)"
    unfolding paid_by_def using h by (simp add: paid_rows(2))
  moreover have "fees (filter (\<lambda>x. a_id x \<notin> a_id ` set rs) (paid_by (v_hash u) l)) \<le> fees (paid_by (v_hash u) l)"
    using nonneg by (intro fees_filter) (simp add: paid_by_def)
  ultimately show ?thesis using old u by (auto simp: covered_def)
qed

lemma covered_same: "l_orders l' = l_orders l \<Longrightarrow> covered l' = covered l"
  by (simp add: covered_def paid_by_def fun_eq_iff)

lemma fees_status [simp]: "fees (update_rows P (\<lambda>x. x\<lparr>a_status := st\<rparr>) os) = fees os"
  "update_rows P f os = [] \<longleftrightarrow> os = []"
  by (induction os) (simp_all add: fees_def fee_value_def)

lemma fees_nonneg: "(\<And>x. fee_value (f x) = fee_value x) \<Longrightarrow>
    (\<forall>r \<in> set (update_rows P f os). 0 \<le> fee_value r) \<longleftrightarrow> (\<forall>r \<in> set os. 0 \<le> fee_value r)"
  by (induction os) auto

lemma money_amounts:
  assumes "money l l'" and "ids_ok l" and "payments_ok l" and "amounts_ok l"
  shows "amounts_ok l'"
  using assms(1)
proof (cases rule: money.cases)
  case (Placed r)
  have "covered l' v" if "v \<in> set (l_receipts l)" "covered l v" for v
    using that assms(2) Placed by (auto simp: covered_def paid_by_def ids_ok_def)
  then show ?thesis using assms(4) Placed(1) by (auto simp: amounts_ok_def)
next
  case (Expired r)
  have "fees (paid_by h l') = fees (paid_by h l)" "paid_by h l' = [] \<longleftrightarrow> paid_by h l = []" for h
    unfolding Expired(1) paid_by_expired by simp_all
  then have "covered l' = covered l" by (simp add: covered_def fun_eq_iff)
  moreover have "(\<forall>r \<in> set (l_orders l'). 0 \<le> fee_value r) \<longleftrightarrow> (\<forall>r \<in> set (l_orders l). 0 \<le> fee_value r)"
    using fees_nonneg [of "\<lambda>x. x\<lparr>a_status := ExpiredPayment\<rparr>" "\<lambda>x. a_id x = a_id r" "l_orders l"]
    by (simp add: Expired(1) fee_value_def del: update_rows_simps)
  ultimately show ?thesis using assms(4) Expired(1) by (simp add: amounts_ok_def)
next
  case (Received v vs vs')
  have same: "covered l' = covered l" using Received(1) by (intro covered_same) simp
  have "a_by x \<noteq> v_hash v" if "x \<in> set (l_orders l)" for x
  proof
    assume x: "a_by x = v_hash v"
    then have "has_receipt l (v_hash v) [Spent]" using that assms(3) Received(2) by (auto simp: payments_ok_def)
    then obtain u where "u \<in> set (l_receipts l)" "v_hash v = v_hash u" by (auto simp: has_receipt_def)
    then show False using Received(4,6) by (metis image_eqI)
  qed
  then have "paid_by (v_hash v) l = []" by (simp add: paid_by_def filter_empty_conv)
  then have "covered l v" by (simp add: covered_def)
  then show ?thesis using assms(4) Received(1,4) same by (auto simp: amounts_ok_def)
next
  case (Settled v amount rs)
  let ?l = "l\<lparr>l_orders := update_rows (\<lambda>x. a_id x \<in> a_id ` set rs) (\<lambda>x. x\<lparr>a_status := SuccPayment, a_by := v_hash v\<rparr>) (l_orders l)\<rparr>"
  show ?thesis unfolding amounts_ok_def
  proof (intro impI)
    assume n: "\<forall>r \<in> set (l_orders l'). 0 \<le> fee_value r"
    have "\<forall>r \<in> set (l_orders ?l). 0 \<le> fee_value r" using n unfolding Settled(1) by simp
    then have nonneg: "\<forall>r \<in> set (l_orders l). 0 \<le> fee_value r"
      using fees_nonneg [of "\<lambda>x. x\<lparr>a_status := SuccPayment, a_by := v_hash v\<rparr>" "\<lambda>x. a_id x \<in> a_id ` set rs" "l_orders l"]
      by (simp add: fee_value_def del: update_rows_simps)
    have "\<forall>u \<in> set (l_receipts l). covered l u" using assms(4) nonneg by (simp add: amounts_ok_def)
    then have "\<forall>u \<in> set (l_receipts ?l). covered ?l u"
      using settled_covers [OF assms(2,3) Settled(2-6) nonneg] by simp
    then have "\<forall>u \<in> set (l_receipts (move (v_id v) Spent ?l)). covered (move (v_id v) Spent ?l) u" by (rule covered_moved)
    then show "\<forall>u \<in> set (l_receipts l'). covered l' u" using Settled(1) by simp
  qed
next
  case (Moved v st)
  then show ?thesis using assms(4) covered_moved [of l "v_id v" st] by (auto simp: amounts_ok_def)
next
  case (Refunded v)
  have "covered l' = covered (move (v_id v) Refund l)" unfolding Refunded(1) by (intro covered_same) simp
  then show ?thesis using assms(4) Refunded(1) covered_moved [of l "v_id v" Refund] by (auto simp: amounts_ok_def)
qed

lemma money_ok: "ledger_ok l \<Longrightarrow> money l l' \<Longrightarrow> ledger_ok l'"
  unfolding ledger_ok_def using money_ids money_payments money_refunds money_amounts by blast

subsection \<open>Simulation\<close>

text \<open>
  A relation of concrete steps that does, in the abstract, only sequences of abstract steps while the
  abstract invariant holds.
\<close>

locale simulation =
  fixes cstep :: "'c \<Rightarrow> 'c \<Rightarrow> bool"
    and astep :: "'a \<Rightarrow> 'a \<Rightarrow> bool"
    and abs :: "'c \<Rightarrow> 'a"
    and inv :: "'a \<Rightarrow> bool"
  assumes inv_step: "inv a \<Longrightarrow> astep a b \<Longrightarrow> inv b"
    and simulate: "inv (abs c) \<Longrightarrow> cstep c d \<Longrightarrow> astep\<^sup>*\<^sup>* (abs c) (abs d)"
begin

lemma inv_steps: "astep\<^sup>*\<^sup>* a b \<Longrightarrow> inv a \<Longrightarrow> inv b"
  by (induction rule: rtranclp_induct) (auto intro: inv_step)

lemma refines: "cstep\<^sup>*\<^sup>* c d \<Longrightarrow> inv (abs c) \<Longrightarrow> astep\<^sup>*\<^sup>* (abs c) (abs d)"
proof (induction rule: rtranclp_induct)
  case (step d e)
  then have "inv (abs d)" using inv_steps by blast
  then have "astep\<^sup>*\<^sup>* (abs d) (abs e)" using step(2) by (rule simulate)
  with step show ?case by (metis rtranclp_trans)
qed simp

lemma reachable_inv: "cstep\<^sup>*\<^sup>* c d \<Longrightarrow> inv (abs c) \<Longrightarrow> inv (abs d)"
  using refines inv_steps by blast

lemma stable:
  assumes "\<And>a b. inv a \<Longrightarrow> astep a b \<Longrightarrow> P a \<Longrightarrow> P b" and "cstep\<^sup>*\<^sup>* c d" and "inv (abs c)" and "P (abs c)"
  shows "P (abs d)"
proof -
  have "inv b \<and> P b" if "astep\<^sup>*\<^sup>* (abs c) b" for b
    using that assms(3,4) by (induction rule: rtranclp_induct) (auto intro: inv_step assms(1))
  then show ?thesis using refines [OF assms(2,3)] by blast
qed

end

end
