(* ===== verification/RawDB.thy ===== *)
theory RawDB
  imports Schema
begin

text \<open>
  rawdb/: the interface KeyValueDB and its four implementations. The state is the content of the
  backend, one key-sorted list per bucket, and the failures that its next requests will meet:
  each request to the service consumes one entry of \<open>kv_faults\<close>, and an empty list means that no
  request fails any more. A request that fails leaves the content as it was.
\<close>

subsection \<open>Stored bytes\<close>

text \<open>
  A stored value is a byte string. The bytes json.Marshal prints are represented by what they
  print: a tree for the types of schema/, the value itself for the goar types, whose struct
  tags are goar's. \<open>NilBytes\<close> is a nil slice.
\<close>

datatype blob = NilBytes | Bytes string | Json json | JsonTx transaction | JsonChunk chunk
  | JsonItem item_meta

definition blob_empty :: "blob \<Rightarrow> bool" where
  "blob_empty b \<longleftrightarrow> b = NilBytes \<or> b = Bytes []"

text \<open>The \<^verbatim>\<open>interface{}\<close> argument of Put: a byte slice or an io.Reader.\<close>

datatype kv_value = VBytes blob | VReader string

datatype kv_kind = Bolt | S3 | Aliyun | Mongo

datatype fault = NoFault | NetFault | SvcFault

record kvdb =
  kv_kind :: kv_kind
  kv_data :: "string \<Rightarrow> (string \<times> blob) list"
  kv_faults :: "fault list"

definition kv_lookup :: "kvdb \<Rightarrow> string \<Rightarrow> string \<Rightarrow> blob option" where
  "kv_lookup d b k = map_of (kv_data d b) k"

definition tick :: "kvdb \<Rightarrow> fault \<times> kvdb" where
  "tick d = (case kv_faults d of [] \<Rightarrow> (NoFault, d) | f # fs \<Rightarrow> (f, d\<lparr>kv_faults := fs\<rparr>))"

definition kv_store :: "string \<Rightarrow> string \<Rightarrow> blob \<Rightarrow> kvdb \<Rightarrow> kvdb" where
  "kv_store b k v d = d\<lparr>kv_data := (kv_data d)(b := al_put k v (kv_data d b))\<rparr>"

definition kv_drop :: "string \<Rightarrow> string \<Rightarrow> kvdb \<Rightarrow> kvdb" where
  "kv_drop b k d = d\<lparr>kv_data := (kv_data d)(b := al_del k (kv_data d b))\<rparr>"

definition io_err :: err where "io_err = ErrIO ''request failed''"
definition bad_type :: err where "bad_type = ErrMsg ''unknown data type''"

subsection \<open>bolt.db.go\<close>

definition bolt_put :: "string \<Rightarrow> string \<Rightarrow> kv_value \<Rightarrow> kvdb \<Rightarrow> unit go \<times> kvdb" where
  "bolt_put b k v d = (case v of
      VReader _ \<Rightarrow> (Err bad_type, d)
    | VBytes w \<Rightarrow> (case tick d of
        (NoFault, d1) \<Rightarrow> (Ret (), kv_store b k w d1)
      | (_, d1) \<Rightarrow> (Err io_err, d1)))"

definition bolt_get :: "string \<Rightarrow> string \<Rightarrow> kvdb \<Rightarrow> blob go \<times> kvdb" where
  "bolt_get b k d = (case tick d of
      (NoFault, d1) \<Rightarrow> (case kv_lookup d1 b k of None \<Rightarrow> (Err ErrNotExist, d1) | Some v \<Rightarrow> (Ret v, d1))
    | (_, d1) \<Rightarrow> (Err io_err, d1))"

definition bolt_keys :: "string \<Rightarrow> kvdb \<Rightarrow> string list go \<times> kvdb" where
  "bolt_keys b d = (case tick d of
      (NoFault, d1) \<Rightarrow> (Ret (map fst (kv_data d1 b)), d1)
    | (_, d1) \<Rightarrow> (Err io_err, d1))"

text \<open>Delete is the same request on every backend; a missing key is no error.\<close>

definition raw_delete :: "string \<Rightarrow> string \<Rightarrow> kvdb \<Rightarrow> unit go \<times> kvdb" where
  "raw_delete b k d = (case tick d of
      (NoFault, d1) \<Rightarrow> (Ret (), kv_drop b k d1)
    | (_, d1) \<Rightarrow> (Err io_err, d1))"

definition bolt_exist :: "string \<Rightarrow> string \<Rightarrow> kvdb \<Rightarrow> bool \<times> kvdb" where
  "bolt_exist b k d = (case bolt_get b k d of (r, d1) \<Rightarrow> (is_ret r, d1))"

subsection \<open>s3.go\<close>

text \<open>
  A download that transfers no byte is ErrNotExist, whatever its error was. One ListObjectsV2
  request returns at most 1000 keys, and GetAllKey makes one request.
\<close>

definition s3_body :: "kv_value \<Rightarrow> blob" where
  "s3_body v = (case v of VBytes b \<Rightarrow> b | VReader s \<Rightarrow> Bytes s)"

definition s3_put :: "string \<Rightarrow> string \<Rightarrow> kv_value \<Rightarrow> kvdb \<Rightarrow> unit go \<times> kvdb" where
  "s3_put b k v d = (case tick d of
      (NoFault, d1) \<Rightarrow> (Ret (), kv_store b k (s3_body v) d1)
    | (_, d1) \<Rightarrow> (Err io_err, d1))"

definition s3_get :: "string \<Rightarrow> string \<Rightarrow> kvdb \<Rightarrow> blob go \<times> kvdb" where
  "s3_get b k d = (case tick d of
      (NoFault, d1) \<Rightarrow> (case kv_lookup d1 b k of
          None \<Rightarrow> (Err ErrNotExist, d1)
        | Some v \<Rightarrow> if blob_empty v then (Err ErrNotExist, d1) else (Ret v, d1))
    | (_, d1) \<Rightarrow> (Err ErrNotExist, d1))"

definition s3_page :: nat where "s3_page = 1000"

definition s3_keys :: "string \<Rightarrow> kvdb \<Rightarrow> string list go \<times> kvdb" where
  "s3_keys b d = (case tick d of
      (NoFault, d1) \<Rightarrow> (let ks = take s3_page (map fst (kv_data d1 b))
         in if ks = [] then (Err ErrNotExist, d1) else (Ret ks, d1))
    | (_, d1) \<Rightarrow> (Err io_err, d1))"

definition head_exist :: "string \<Rightarrow> string \<Rightarrow> kvdb \<Rightarrow> bool \<times> kvdb" where
  "head_exist b k d = (case tick d of
      (NoFault, d1) \<Rightarrow> (kv_lookup d1 b k \<noteq> None, d1)
    | (_, d1) \<Rightarrow> (False, d1))"

subsection \<open>aliyun.go\<close>

text \<open>
  handleOSSErr: a service error other than NoSuchKey leaves the named result nil, so Get then
  returns (nil, nil). GetAllKey pages through the bucket and replaces the error of a listing
  that gave no key by ErrNotExist.
\<close>

definition handleOSSErr :: "fault \<Rightarrow> blob go" where
  "handleOSSErr f = (case f of SvcFault \<Rightarrow> Ret NilBytes | _ \<Rightarrow> Err io_err)"

definition aliyun_get :: "string \<Rightarrow> string \<Rightarrow> kvdb \<Rightarrow> blob go \<times> kvdb" where
  "aliyun_get b k d = (case tick d of
      (NoFault, d1) \<Rightarrow> (case kv_lookup d1 b k of None \<Rightarrow> (Err ErrNotExist, d1) | Some v \<Rightarrow> (Ret v, d1))
    | (f, d1) \<Rightarrow> (handleOSSErr f, d1))"

definition oss_page :: nat where "oss_page = 100"

function aliyun_pages :: "string list \<Rightarrow> string list \<Rightarrow> kvdb \<Rightarrow> string list go \<times> kvdb" where
  "aliyun_pages acc ks d = (case tick d of
      (NoFault, d1) \<Rightarrow>
        let acc1 = acc @ take oss_page ks; rest = drop oss_page ks
        in if rest \<noteq> [] then aliyun_pages acc1 rest d1
           else if acc1 = [] then (Err ErrNotExist, d1) else (Ret acc1, d1)
    | (_, d1) \<Rightarrow> if acc = [] then (Err ErrNotExist, d1) else (Err io_err, d1))"
  by pat_completeness auto
termination
  by (relation "measure (\<lambda>(acc, ks, d). length ks)") (auto simp: oss_page_def)

declare aliyun_pages.simps [simp del]

definition aliyun_keys :: "string \<Rightarrow> kvdb \<Rightarrow> string list go \<times> kvdb" where
  "aliyun_keys b d = aliyun_pages [] (map fst (kv_data d b)) d"

subsection \<open>mongodb.go\<close>

text \<open>
  Put asks Exist first. A failed InsertOne returns a nil result, whose InsertedID the log line
  then reads: a nil dereference.
\<close>

definition mongo_exist :: "string \<Rightarrow> string \<Rightarrow> kvdb \<Rightarrow> bool \<times> kvdb" where
  "mongo_exist b k d = head_exist b k d"

definition mongo_put :: "string \<Rightarrow> string \<Rightarrow> kv_value \<Rightarrow> kvdb \<Rightarrow> unit go \<times> kvdb" where
  "mongo_put b k v d = (case v of
      VReader _ \<Rightarrow> (Err bad_type, d)
    | VBytes w \<Rightarrow> (case mongo_exist b k d of (ex, d1) \<Rightarrow>
        (case tick d1 of (f, d2) \<Rightarrow>
          if ex then (if f = NoFault then (Ret (), kv_store b k w d2) else (Err io_err, d2))
          else if f = NoFault \<and> kv_lookup d2 b k = None then (Ret (), kv_store b k w d2)
          else (Panic ''nil InsertOneResult'', d2))))"

definition mongo_get :: "string \<Rightarrow> string \<Rightarrow> kvdb \<Rightarrow> blob go \<times> kvdb" where
  "mongo_get b k d = (case tick d of
      (NoFault, d1) \<Rightarrow> (case kv_lookup d1 b k of None \<Rightarrow> (Err ErrNoDocuments, d1) | Some v \<Rightarrow> (Ret v, d1))
    | (_, d1) \<Rightarrow> (Err io_err, d1))"

subsection \<open>database.go: the interface value\<close>

definition kv_put :: "string \<Rightarrow> string \<Rightarrow> kv_value \<Rightarrow> kvdb \<Rightarrow> unit go \<times> kvdb" where
  "kv_put b k v d = (case kv_kind d of
      Bolt \<Rightarrow> bolt_put b k v d | S3 \<Rightarrow> s3_put b k v d | Aliyun \<Rightarrow> s3_put b k v d
    | Mongo \<Rightarrow> mongo_put b k v d)"

definition kv_get :: "string \<Rightarrow> string \<Rightarrow> kvdb \<Rightarrow> blob go \<times> kvdb" where
  "kv_get b k d = (case kv_kind d of
      Bolt \<Rightarrow> bolt_get b k d | S3 \<Rightarrow> s3_get b k d | Aliyun \<Rightarrow> aliyun_get b k d
    | Mongo \<Rightarrow> mongo_get b k d)"

definition kv_get_stream :: "string \<Rightarrow> string \<Rightarrow> kvdb \<Rightarrow> blob go \<times> kvdb" where
  "kv_get_stream b k d = (case kv_kind d of S3 \<Rightarrow> s3_get b k d | _ \<Rightarrow> (Err ErrNotImplement, d))"

definition kv_keys :: "string \<Rightarrow> kvdb \<Rightarrow> string list go \<times> kvdb" where
  "kv_keys b d = (case kv_kind d of
      S3 \<Rightarrow> s3_keys b d | Aliyun \<Rightarrow> aliyun_keys b d | _ \<Rightarrow> bolt_keys b d)"

definition kv_delete :: "string \<Rightarrow> string \<Rightarrow> kvdb \<Rightarrow> unit go \<times> kvdb" where
  "kv_delete b k d = raw_delete b k d"

definition kv_exist :: "string \<Rightarrow> string \<Rightarrow> kvdb \<Rightarrow> bool \<times> kvdb" where
  "kv_exist b k d = (case kv_kind d of
      Bolt \<Rightarrow> bolt_exist b k d | Mongo \<Rightarrow> mongo_exist b k d | _ \<Rightarrow> head_exist b k d)"

lemma kv_store_simps [simp]:
  "kv_faults (kv_store b k v d) = kv_faults d" "kv_kind (kv_store b k v d) = kv_kind d"
  "kv_lookup (kv_store b k v d) b' k' = (if b' = b \<and> k' = k then Some v else kv_lookup d b' k')"
  by (auto simp: kv_store_def kv_lookup_def)

lemma kv_drop_simps [simp]:
  "kv_faults (kv_drop b k d) = kv_faults d" "kv_kind (kv_drop b k d) = kv_kind d"
  "kv_lookup (kv_drop b k d) b' k' = (if b' = b \<and> k' = k then None else kv_lookup d b' k')"
  by (auto simp: kv_drop_def kv_lookup_def)

lemma tick_simps [simp]:
  "kv_kind (snd (tick d)) = kv_kind d" "kv_lookup (snd (tick d)) = kv_lookup d"
  "kv_data (snd (tick d)) = kv_data d"
  by (auto simp: tick_def kv_lookup_def fun_eq_iff split: list.splits)

subsection \<open>The contract of KeyValueDB\<close>

text \<open>
  What the callers of the interface rely on when no request fails: \<open>accepts\<close> is the values Put
  takes, \<open>readable\<close> the stored values Get gives back, \<open>missing\<close> the error for an absent key.
\<close>

locale KeyValueDB =
  fixes put :: "string \<Rightarrow> string \<Rightarrow> kv_value \<Rightarrow> kvdb \<Rightarrow> unit go \<times> kvdb"
    and get :: "string \<Rightarrow> string \<Rightarrow> kvdb \<Rightarrow> blob go \<times> kvdb"
    and delete :: "string \<Rightarrow> string \<Rightarrow> kvdb \<Rightarrow> unit go \<times> kvdb"
    and exist :: "string \<Rightarrow> string \<Rightarrow> kvdb \<Rightarrow> bool \<times> kvdb"
    and ready :: "kvdb \<Rightarrow> bool"
    and accepts :: "kv_value \<Rightarrow> bool"
    and readable :: "blob \<Rightarrow> bool"
    and missing :: err
  assumes put_ready: "ready d \<Longrightarrow> accepts v \<Longrightarrow> put b k v d = (Ret (), kv_store b k (s3_body v) d)"
    and get_present: "ready d \<Longrightarrow> kv_lookup d b k = Some w \<Longrightarrow> readable w \<Longrightarrow> get b k d = (Ret w, d)"
    and get_absent: "ready d \<Longrightarrow> kv_lookup d b k = None \<Longrightarrow> get b k d = (Err missing, d)"
    and delete_ready: "ready d \<Longrightarrow> delete b k d = (Ret (), kv_drop b k d)"
    and exist_ready: "ready d \<Longrightarrow> exist b k d = (kv_lookup d b k \<noteq> None, d)"
    and ready_store: "ready d \<Longrightarrow> ready (kv_store b k w d)"
    and ready_drop: "ready d \<Longrightarrow> ready (kv_drop b k d)"
begin

lemma get_after_put:
  assumes "ready d" and "accepts v" and "readable (s3_body v)"
  shows "put b k v d = (r, d1) \<Longrightarrow> r = Ret () \<and> ready d1 \<and> get b k d1 = (Ret (s3_body v), d1)"
  using assms put_ready [of d v b k]
  by (auto intro!: ready_store get_present)

lemma get_after_put_other:
  assumes "ready d" and "accepts v" and "(b', k') \<noteq> (b, k)" and "get b' k' d = (Ret w, d)"
    and "kv_lookup d b' k' = Some w" and "readable w"
  shows "put b k v d = (r, d1) \<Longrightarrow> get b' k' d1 = (Ret w, d1)"
  using assms put_ready [of d v b k]
  by (auto intro!: ready_store get_present)

lemma get_after_delete:
  assumes "ready d"
  shows "delete b k d = (r, d1) \<Longrightarrow> r = Ret () \<and> ready d1 \<and> get b k d1 = (Err missing, d1)
    \<and> exist b k d1 = (False, d1)"
  using assms delete_ready [of d b k]
  by (auto intro!: ready_drop get_absent simp: exist_ready ready_drop)

end

text \<open>
  A backend whose error for a missing key is schema.ErrNotExist, the one the IsExist functions of
  store.go compare with.
\<close>

locale probing_KeyValueDB = KeyValueDB +
  assumes missing_is_not_exist: "missing = ErrNotExist"
begin

lemma get_not_exist_iff:
  assumes "ready d" and "\<And>w. kv_lookup d b k = Some w \<Longrightarrow> readable w"
  shows "fst (get b k d) = Err ErrNotExist \<longleftrightarrow> kv_lookup d b k = None"
  using assms get_present get_absent missing_is_not_exist by (cases "kv_lookup d b k") auto

end

definition kind_ready :: "kv_kind \<Rightarrow> kvdb \<Rightarrow> bool" where
  "kind_ready K d \<longleftrightarrow> kv_kind d = K \<and> kv_faults d = []"

definition takes_bytes :: "kv_value \<Rightarrow> bool" where
  "takes_bytes v \<longleftrightarrow> (case v of VBytes _ \<Rightarrow> True | VReader _ \<Rightarrow> False)"

lemma tick_clean [simp]: "kv_faults d = [] \<Longrightarrow> tick d = (NoFault, d)"
  by (simp add: tick_def)

interpretation bolt: probing_KeyValueDB kv_put kv_get kv_delete kv_exist
  "kind_ready Bolt" takes_bytes "\<lambda>_. True" ErrNotExist
  by unfold_locales
    (auto simp: kind_ready_def takes_bytes_def kv_put_def kv_get_def kv_delete_def kv_exist_def
      bolt_put_def bolt_get_def raw_delete_def bolt_exist_def s3_body_def split: kv_value.splits option.splits)

interpretation s3: probing_KeyValueDB kv_put kv_get kv_delete kv_exist
  "kind_ready S3" "\<lambda>_. True" "\<lambda>w. \<not> blob_empty w" ErrNotExist
  by unfold_locales
    (auto simp: kind_ready_def kv_put_def kv_get_def kv_delete_def kv_exist_def
      s3_put_def s3_get_def raw_delete_def head_exist_def)

interpretation aliyun: probing_KeyValueDB kv_put kv_get kv_delete kv_exist
  "kind_ready Aliyun" "\<lambda>_. True" "\<lambda>_. True" ErrNotExist
  by unfold_locales
    (auto simp: kind_ready_def kv_put_def kv_get_def kv_delete_def kv_exist_def
      s3_put_def aliyun_get_def raw_delete_def head_exist_def)

interpretation mongo: KeyValueDB kv_put kv_get kv_delete kv_exist
  "kind_ready Mongo" takes_bytes "\<lambda>_. True" ErrNoDocuments
  by unfold_locales
    (auto simp: kind_ready_def takes_bytes_def kv_put_def kv_get_def kv_delete_def kv_exist_def
      mongo_put_def mongo_get_def raw_delete_def mongo_exist_def head_exist_def s3_body_def
      split: kv_value.splits)

subsection \<open>The four backends together\<close>

definition healthy :: "kvdb \<Rightarrow> bool" where
  "healthy d \<longleftrightarrow> kv_faults d = []"

definition not_exist_err :: "kv_kind \<Rightarrow> err" where
  "not_exist_err K = (if K = Mongo then ErrNoDocuments else ErrNotExist)"

lemma healthy_ready: "healthy d \<Longrightarrow> kind_ready (kv_kind d) d"
  by (simp add: healthy_def kind_ready_def)

lemma healthy_simps [simp]:
  "healthy (kv_store b k v d) = healthy d" "healthy (kv_drop b k d) = healthy d"
  by (simp_all add: healthy_def)

lemma kv_put_healthy [simp]: "healthy d \<Longrightarrow> kv_put b k (VBytes w) d = (Ret (), kv_store b k w d)"
  using bolt.put_ready s3.put_ready aliyun.put_ready mongo.put_ready healthy_ready [of d]
  by (cases "kv_kind d") (fastforce simp: takes_bytes_def s3_body_def)+

lemma kv_get_healthy [simp]:
  "healthy d \<Longrightarrow> kv_lookup d b k = Some w \<Longrightarrow> \<not> blob_empty w \<Longrightarrow> kv_get b k d = (Ret w, d)"
  using bolt.get_present s3.get_present aliyun.get_present mongo.get_present healthy_ready [of d]
  by (cases "kv_kind d") auto

lemma kv_get_healthy_None [simp]:
  "healthy d \<Longrightarrow> kv_lookup d b k = None \<Longrightarrow> kv_get b k d = (Err (not_exist_err (kv_kind d)), d)"
  using bolt.get_absent s3.get_absent aliyun.get_absent mongo.get_absent healthy_ready [of d]
  by (cases "kv_kind d") (auto simp: not_exist_err_def)

lemma kv_delete_healthy [simp]: "healthy d \<Longrightarrow> kv_delete b k d = (Ret (), kv_drop b k d)"
  using bolt.delete_ready s3.delete_ready aliyun.delete_ready mongo.delete_ready healthy_ready [of d]
  by (cases "kv_kind d") auto

lemma kv_exist_healthy [simp]: "healthy d \<Longrightarrow> kv_exist b k d = (kv_lookup d b k \<noteq> None, d)"
  using bolt.exist_ready s3.exist_ready aliyun.exist_ready mongo.exist_ready healthy_ready [of d]
  by (cases "kv_kind d") auto

text \<open>What a request leaves alone, whether it fails or not.\<close>

lemma tick_lookup: "tick d = (f, d1) \<Longrightarrow> kv_lookup d1 b k = kv_lookup d b k"
  by (auto simp: tick_def kv_lookup_def split: list.splits)

lemma head_exist_lookup: "head_exist b0 k0 d = (e, d1) \<Longrightarrow> kv_lookup d1 b k = kv_lookup d b k"
  by (auto simp: head_exist_def split: prod.splits fault.splits dest: tick_lookup)

lemma kv_put_other: "kv_put b k v d = (r, d1) \<Longrightarrow> b' \<noteq> b \<Longrightarrow> kv_lookup d1 b' k' = kv_lookup d b' k'"
  by (auto simp: kv_put_def bolt_put_def s3_put_def mongo_put_def mongo_exist_def
    split: kv_kind.splits kv_value.splits prod.splits fault.splits if_splits
    dest!: tick_lookup [where b = b' and k = k'] head_exist_lookup [where b = b' and k = k'])

lemma kv_delete_fails: "kv_delete b k d = (r, d1) \<Longrightarrow> r = Ret () \<and> kv_lookup d1 b k = None \<or> (\<exists>e. r = Err e) \<and> kv_lookup d1 b k = kv_lookup d b k"
  by (auto simp: kv_delete_def raw_delete_def split: prod.splits fault.splits dest: tick_lookup)

lemma kv_get_lookup: "kv_get b0 k0 d = (r, d1) \<Longrightarrow> kv_lookup d1 b k = kv_lookup d b k"
  by (auto simp: kv_get_def bolt_get_def s3_get_def aliyun_get_def mongo_get_def
    split: kv_kind.splits prod.splits fault.splits option.splits if_splits dest: tick_lookup)

lemma kv_get_Ret:
  assumes "kv_get b k d = (Ret v, d1)" and "v \<noteq> NilBytes"
  shows "kv_lookup d b k = Some v"
  using assms by (auto simp: kv_get_def bolt_get_def s3_get_def aliyun_get_def mongo_get_def handleOSSErr_def
    split: kv_kind.splits prod.splits fault.splits option.splits if_splits dest!: tick_lookup [where b = b and k = k])

end
