(* ===== verification/Store.thy ===== *)
theory Store
  imports RawDB
begin

text \<open>
  store.go: every method of Store over the key/value database. The functions of goar/utils that
  it calls (base64url, the binary stream of an item) and SHA-256 are the fields of \<open>codec\<close>;
  \<open>b64bytes\<close> is the bytes that Base64Decode returns beside its error.
  The interface value KVDb is the whole state of a Store.
\<close>

record codec =
  b64enc :: "string \<Rightarrow> string"
  b64dec :: "string \<Rightarrow> string option"
  b64bytes :: "string \<Rightarrow> string"
  sha256 :: "string \<Rightarrow> string"
  itemStream :: "bundle_item \<Rightarrow> string go"

text \<open>What base64url promises: a decoded encoding is the bytes it encodes, and only no bytes encode to the empty text.\<close>

definition base64_ok :: "codec \<Rightarrow> bool" where
  "base64_ok E \<longleftrightarrow> (\<forall>s. b64dec E (b64enc E s) = Some s \<and> (b64enc E s = [] \<longleftrightarrow> s = []))"

definition json_err :: err where "json_err = ErrMsg ''invalid character''"

definition unmarshal :: "(json \<Rightarrow> 'a option) \<Rightarrow> blob \<Rightarrow> 'a go" where
  "unmarshal dec b = (case b of
      Json j \<Rightarrow> (case dec j of Some x \<Rightarrow> Ret x | None \<Rightarrow> Err json_err)
    | _ \<Rightarrow> Err json_err)"

text \<open>\<^verbatim>\<open>_ = m()\<close>: the error is dropped, a panic is not.\<close>

definition ignoring :: "('s \<Rightarrow> 'a go \<times> 's) \<Rightarrow> 'b go \<Rightarrow> 's \<Rightarrow> 'b go \<times> 's" where
  "ignoring m r s = (case m s of (Panic p, s1) \<Rightarrow> (Panic p, s1) | (_, s1) \<Rightarrow> (r, s1))"

text \<open>The IsExist functions: any result but ErrNotExist means that the record exists.\<close>

definition probe :: "'a go \<Rightarrow> bool go" where
  "probe r = (case r of Panic p \<Rightarrow> Panic p | Ret _ \<Rightarrow> Ret True | Err e \<Rightarrow> Ret (e \<noteq> ErrNotExist))"

subsection \<open>itob, btoi and the offset key\<close>

definition be_bytes :: "64 word \<Rightarrow> string" where
  "be_bytes v = map (\<lambda>i. char_of (unat v div 256 ^ i)) [7, 6, 5, 4, 3, 2, 1, 0]"

definition be_val :: "string \<Rightarrow> nat" where
  "be_val s = foldl (\<lambda>n c. 256 * n + of_char c) 0 s"

text \<open>The buffer is 64 bytes long; the number takes its first eight.\<close>

definition itob :: "codec \<Rightarrow> 64 word \<Rightarrow> string" where
  "itob E v = b64enc E (be_bytes v @ replicate 56 (CHR 0x00))"

definition btoi :: "codec \<Rightarrow> string \<Rightarrow> 64 word go" where
  "btoi E s = (case b64dec E s of
      None \<Rightarrow> Panic ''illegal base64 data''
    | Some b \<Rightarrow> if length b < 8 then Panic ''index out of range'' else Ret (of_nat (be_val (take 8 b))))"

text \<open>\<^verbatim>\<open>btoi(string(data))\<close>; printed JSON is never base64url.\<close>

definition btoi_blob :: "codec \<Rightarrow> blob \<Rightarrow> 64 word go" where
  "btoi_blob E b = (case b of
      NilBytes \<Rightarrow> btoi E [] | Bytes s \<Rightarrow> btoi E s | _ \<Rightarrow> Panic ''illegal base64 data'')"

definition generateOffSetKey :: "codec \<Rightarrow> string \<Rightarrow> string \<Rightarrow> string" where
  "generateOffSetKey E dataRoot dataSize = b64enc E (sha256 E (dataRoot @ dataSize))"

subsection \<open>The end offsets\<close>

definition all_end_key :: string where "all_end_key = ''allDataEndOffset''"

definition SaveAllDataEndOffset :: "codec \<Rightarrow> 64 word \<Rightarrow> kvdb \<Rightarrow> unit go \<times> kvdb" where
  "SaveAllDataEndOffset E off = kv_put ConstantsBucket all_end_key (VBytes (Bytes (itob E off)))"

definition RollbackAllDataEndOffset :: "codec \<Rightarrow> 64 word \<Rightarrow> kvdb \<Rightarrow> unit go \<times> kvdb" where
  "RollbackAllDataEndOffset E off = kv_put ConstantsBucket all_end_key (VBytes (Bytes (itob E off)))"

definition LoadAllDataEndOffset :: "codec \<Rightarrow> kvdb \<Rightarrow> 64 word go \<times> kvdb" where
  "LoadAllDataEndOffset E d = (case kv_get ConstantsBucket all_end_key d of
      (Ret v, d1) \<Rightarrow> if v = NilBytes then (Ret 0, d1) else (btoi_blob E v, d1)
    | (Err _, d1) \<Rightarrow> (Ret 0, d1)
    | (Panic p, d1) \<Rightarrow> (Panic p, d1))"

definition SaveTxDataEndOffSet :: "codec \<Rightarrow> string \<Rightarrow> string \<Rightarrow> 64 word \<Rightarrow> kvdb \<Rightarrow> unit go \<times> kvdb" where
  "SaveTxDataEndOffSet E dataRoot dataSize off =
     kv_put TxDataEndOffSetBucket (generateOffSetKey E dataRoot dataSize) (VBytes (Bytes (itob E off)))"

definition LoadTxDataEndOffSet :: "codec \<Rightarrow> string \<Rightarrow> string \<Rightarrow> kvdb \<Rightarrow> 64 word go \<times> kvdb" where
  "LoadTxDataEndOffSet E dataRoot dataSize =
     bindG (kv_get TxDataEndOffSetBucket (generateOffSetKey E dataRoot dataSize))
       (\<lambda>v d. (btoi_blob E v, d))"

definition IsExistTxDataEndOffset :: "codec \<Rightarrow> string \<Rightarrow> string \<Rightarrow> kvdb \<Rightarrow> bool go \<times> kvdb" where
  "IsExistTxDataEndOffset E dataRoot dataSize d =
     (case LoadTxDataEndOffSet E dataRoot dataSize d of (r, d1) \<Rightarrow> (probe r, d1))"

definition AtomicSyncDataEndOffset ::
  "codec \<Rightarrow> 64 word \<Rightarrow> 64 word \<Rightarrow> string \<Rightarrow> string \<Rightarrow> kvdb \<Rightarrow> unit go \<times> kvdb" where
  "AtomicSyncDataEndOffset E pre new dataRoot dataSize =
     bindG (SaveAllDataEndOffset E new) (\<lambda>_ d1.
       case SaveTxDataEndOffSet E dataRoot dataSize new d1 of
         (Err e, d2) \<Rightarrow> ignoring (RollbackAllDataEndOffset E pre) (Err e) d2
       | (r, d2) \<Rightarrow> (r, d2))"

subsection \<open>Transactions and chunks\<close>

definition SaveTxMeta :: "transaction \<Rightarrow> kvdb \<Rightarrow> unit go \<times> kvdb" where
  "SaveTxMeta arTx = kv_put TxMetaBucket (tx_ID arTx) (VBytes (JsonTx (arTx\<lparr>tx_Data := []\<rparr>)))"

definition unmarshal_tx :: "blob \<Rightarrow> transaction go" where
  "unmarshal_tx b = (case b of JsonTx t \<Rightarrow> Ret t | _ \<Rightarrow> Err json_err)"

definition LoadTxMeta :: "string \<Rightarrow> kvdb \<Rightarrow> transaction go \<times> kvdb" where
  "LoadTxMeta arId = bindG (kv_get TxMetaBucket arId) (\<lambda>v d. (unmarshal_tx v, d))"

definition IsExistTxMeta :: "string \<Rightarrow> kvdb \<Rightarrow> bool go \<times> kvdb" where
  "IsExistTxMeta arId d = (case LoadTxMeta arId d of (r, d1) \<Rightarrow> (probe r, d1))"

definition SaveChunk :: "codec \<Rightarrow> 64 word \<Rightarrow> chunk \<Rightarrow> kvdb \<Rightarrow> unit go \<times> kvdb" where
  "SaveChunk E chunkStartOffset ck = kv_put ChunkBucket (itob E chunkStartOffset) (VBytes (JsonChunk ck))"

definition unmarshal_chunk :: "blob \<Rightarrow> chunk go" where
  "unmarshal_chunk b = (case b of JsonChunk c \<Rightarrow> Ret c | _ \<Rightarrow> Err json_err)"

definition LoadChunk :: "codec \<Rightarrow> 64 word \<Rightarrow> kvdb \<Rightarrow> chunk go \<times> kvdb" where
  "LoadChunk E chunkStartOffset = bindG (kv_get ChunkBucket (itob E chunkStartOffset)) (\<lambda>v d. (unmarshal_chunk v, d))"

definition IsExistChunk :: "codec \<Rightarrow> 64 word \<Rightarrow> kvdb \<Rightarrow> bool go \<times> kvdb" where
  "IsExistChunk E off d = (case LoadChunk E off d of (r, d1) \<Rightarrow> (probe r, d1))"

subsection \<open>Peers, tasks and statistics\<close>

definition peer_list_key :: string where "peer_list_key = ''peer-list''"

definition SavePeers :: "(string \<times> int) list \<Rightarrow> kvdb \<Rightarrow> unit go \<times> kvdb" where
  "SavePeers peers = kv_put ConstantsBucket peer_list_key (VBytes (Json (peers_json peers)))"

definition LoadPeers :: "kvdb \<Rightarrow> (string \<times> int) list go \<times> kvdb" where
  "LoadPeers = bindG (kv_get ConstantsBucket peer_list_key) (\<lambda>v d. (unmarshal peers_of_json v, d))"

definition IsExistPeers :: "kvdb \<Rightarrow> bool go \<times> kvdb" where
  "IsExistPeers d = (case LoadPeers d of (r, d1) \<Rightarrow> (probe r, d1))"

definition mark :: kv_value where "mark = VBytes (Bytes ''0x01'')"

definition PutTaskPendingPool :: "string \<Rightarrow> kvdb \<Rightarrow> unit go \<times> kvdb" where
  "PutTaskPendingPool taskId = kv_put TaskIdPendingPoolBucket taskId mark"

definition LoadAllPendingTaskIds :: "kvdb \<Rightarrow> string list go \<times> kvdb" where
  "LoadAllPendingTaskIds d = (case kv_keys TaskIdPendingPoolBucket d of
      (Err e, d1) \<Rightarrow> if e = ErrNotExist then (Ret [], d1) else (Err e, d1)
    | (r, d1) \<Rightarrow> (r, d1))"

definition DelPendingPoolTaskId :: "string \<Rightarrow> kvdb \<Rightarrow> unit go \<times> kvdb" where
  "DelPendingPoolTaskId taskId = kv_delete TaskIdPendingPoolBucket taskId"

definition SaveTask :: "string \<Rightarrow> task \<Rightarrow> kvdb \<Rightarrow> unit go \<times> kvdb" where
  "SaveTask taskId tk = kv_put TaskBucket taskId (VBytes (Json (task_json tk)))"

definition LoadTask :: "string \<Rightarrow> kvdb \<Rightarrow> task go \<times> kvdb" where
  "LoadTask taskId = bindG (kv_get TaskBucket taskId) (\<lambda>v d. (unmarshal task_of_json v, d))"

definition statistic_key :: string where "statistic_key = ''RealTimeOrderStatistic''"

definition UpdateRealTimeStatistic :: "blob \<Rightarrow> kvdb \<Rightarrow> unit go \<times> kvdb" where
  "UpdateRealTimeStatistic data = kv_put StatisticBucket statistic_key (VBytes data)"

definition GetRealTimeStatistic :: "kvdb \<Rightarrow> blob go \<times> kvdb" where
  "GetRealTimeStatistic = kv_get StatisticBucket statistic_key"

subsection \<open>Bundle items\<close>

definition SaveItemBinary :: "codec \<Rightarrow> bundle_item \<Rightarrow> kvdb \<Rightarrow> unit go \<times> kvdb" where
  "SaveItemBinary E item d = (case it_DataReader item of
      Some _ \<Rightarrow> (case itemStream E item of
          Ret s \<Rightarrow> kv_put BundleItemBinary (it_Id item) (VReader s) d
        | Err e \<Rightarrow> (Err e, d) | Panic p \<Rightarrow> (Panic p, d))
    | None \<Rightarrow> kv_put BundleItemBinary (it_Id item) (VBytes (Bytes (it_ItemBinary item))) d)"

text \<open>The binary comes as a file from S3 and as bytes from the other backends.\<close>

datatype binary = FileData blob | MemData blob

definition LoadItemBinary :: "string \<Rightarrow> kvdb \<Rightarrow> binary go \<times> kvdb" where
  "LoadItemBinary itemId d = (if kv_kind d = S3
     then bindG (kv_get_stream BundleItemBinary itemId) (\<lambda>v d. (Ret (FileData v), d)) d
     else bindG (kv_get BundleItemBinary itemId) (\<lambda>v d. (Ret (MemData v), d)) d)"

definition IsExistItemBinary :: "string \<Rightarrow> kvdb \<Rightarrow> bool \<times> kvdb" where
  "IsExistItemBinary itemId = kv_exist BundleItemBinary itemId"

definition DelItemBinary :: "string \<Rightarrow> kvdb \<Rightarrow> unit go \<times> kvdb" where
  "DelItemBinary itemId = kv_delete BundleItemBinary itemId"

definition SaveItemMeta :: "bundle_item \<Rightarrow> kvdb \<Rightarrow> unit go \<times> kvdb" where
  "SaveItemMeta item = kv_put BundleItemMeta (it_Id item)
     (VBytes (JsonItem (item_meta.truncate (item\<lparr>it_Data := []\<rparr>))))"

definition unmarshal_item :: "blob \<Rightarrow> item_meta go" where
  "unmarshal_item b = (case b of JsonItem m \<Rightarrow> Ret m | _ \<Rightarrow> Err json_err)"

definition LoadItemMeta :: "string \<Rightarrow> kvdb \<Rightarrow> item_meta go \<times> kvdb" where
  "LoadItemMeta itemId = bindG (kv_get BundleItemMeta itemId) (\<lambda>v d. (unmarshal_item v, d))"

definition DelItemMeta :: "string \<Rightarrow> kvdb \<Rightarrow> unit go \<times> kvdb" where
  "DelItemMeta itemId = kv_delete BundleItemMeta itemId"

definition AtomicSaveItem :: "codec \<Rightarrow> bundle_item \<Rightarrow> kvdb \<Rightarrow> unit go \<times> kvdb" where
  "AtomicSaveItem E item = bindG (SaveItemBinary E item) (\<lambda>_ d1.
     case SaveItemMeta item d1 of
       (Err e, d2) \<Rightarrow> ignoring (DelItemBinary (it_Id item)) (Err e) d2
     | (r, d2) \<Rightarrow> (r, d2))"

definition AtomicDelItem :: "string \<Rightarrow> kvdb \<Rightarrow> unit go \<times> kvdb" where
  "AtomicDelItem itemId = bindG (DelItemMeta itemId) (\<lambda>_. DelItemBinary itemId)"

subsection \<open>Bundles to parse\<close>

definition SaveWaitParseBundleArId :: "string \<Rightarrow> kvdb \<Rightarrow> unit go \<times> kvdb" where
  "SaveWaitParseBundleArId arId = kv_put BundleWaitParseArIdBucket arId mark"

definition LoadWaitParseBundleArIds :: "kvdb \<Rightarrow> string list go \<times> kvdb" where
  "LoadWaitParseBundleArIds = kv_keys BundleWaitParseArIdBucket"

definition DelParsedBundleArId :: "string \<Rightarrow> kvdb \<Rightarrow> unit go \<times> kvdb" where
  "DelParsedBundleArId arId = kv_delete BundleWaitParseArIdBucket arId"

definition SaveArIdToItemIds :: "string \<Rightarrow> string list \<Rightarrow> kvdb \<Rightarrow> unit go \<times> kvdb" where
  "SaveArIdToItemIds arId itemIds = kv_put BundleArIdToItemIdsBucket arId (VBytes (Json (ids_json itemIds)))"

definition LoadArIdToItemIds :: "string \<Rightarrow> kvdb \<Rightarrow> string list go \<times> kvdb" where
  "LoadArIdToItemIds arId = bindG (kv_get BundleArIdToItemIdsBucket arId) (\<lambda>v d. (unmarshal ids_of_json v, d))"

definition ExistArIdToItemIds :: "string \<Rightarrow> kvdb \<Rightarrow> bool go \<times> kvdb" where
  "ExistArIdToItemIds arId d = (case LoadArIdToItemIds arId d of (r, d1) \<Rightarrow> (probe r, d1))"

subsection \<open>Facts\<close>

lemma be_val_be_bytes: "be_val (be_bytes v) = unat v"
proof -
  define m where "m k = unat v div 256 ^ k" for k :: nat
  have m: "256 * m (Suc k) + m k mod 256 = m k" for k
  proof -
    have "m (Suc k) = m k div 256"
      unfolding m_def by (metis div_mult2_eq mult.commute power_Suc)
    then show ?thesis by simp
  qed
  have "m 7 < 256"
    unfolding m_def using unsigned_less [of v] by (simp add: div_less_iff_less_mult)
  then have m7: "256 * 0 + m 7 mod 256 = m 7" by simp
  have m': "256 * m 7 + m 6 mod 256 = m 6" "256 * m 6 + m 5 mod 256 = m 5"
    "256 * m 5 + m 4 mod 256 = m 4" "256 * m 4 + m 3 mod 256 = m 3"
    "256 * m 3 + m 2 mod 256 = m 2" "256 * m 2 + m 1 mod 256 = m 1" "256 * m 1 + m 0 mod 256 = m 0"
    using m [of 6] m [of 5] m [of 4] m [of 3] m [of 2] m [of 1] m [of 0] by (simp_all flip: numeral_2_eq_2)
  have "be_val (be_bytes v) = foldl (\<lambda>n c. 256 * n + of_char c) 0
     [char_of (m 7), char_of (m 6), char_of (m 5), char_of (m 4), char_of (m 3), char_of (m 2),
      char_of (m 1), char_of (m 0)]"
    by (simp add: be_val_def be_bytes_def m_def)
  also have "\<dots> = m 0"
    by (simp only: foldl_Cons foldl_Nil of_char_of m7 m')
  finally show ?thesis by (simp add: m_def)
qed

lemma length_be_bytes [simp]: "length (be_bytes v) = 8"
  by (simp add: be_bytes_def)

lemma base64_decode [simp]: "base64_ok E \<Longrightarrow> b64dec E (b64enc E s) = Some s"
  by (simp add: base64_ok_def)

lemma btoi_itob [simp]: "base64_ok E \<Longrightarrow> btoi E (itob E v) = Ret v"
  by (simp add: btoi_def itob_def be_val_be_bytes)

lemma itob_inj [simp]: "base64_ok E \<Longrightarrow> itob E v = itob E w \<longleftrightarrow> v = w"
  using btoi_itob by (metis go.inject(1))

lemma itob_not_empty [simp]: "base64_ok E \<Longrightarrow> itob E v \<noteq> []"
  by (simp add: base64_ok_def itob_def be_bytes_def)

lemma tickE:
  assumes "tick d = (f, d1)"
  shows "kv_kind d1 = kv_kind d \<and> kv_lookup d1 = kv_lookup d"
  using assms tick_simps [of d] by simp

lemma kv_put_bytes:
  assumes "kv_put b k (VBytes w) d = (r, d1)"
  shows "kv_kind d1 = kv_kind d
    \<and> (r = Ret () \<longrightarrow> kv_lookup d1 = (\<lambda>b' k'. if b' = b \<and> k' = k then Some w else kv_lookup d b' k'))
    \<and> (r \<noteq> Ret () \<longrightarrow> kv_lookup d1 = kv_lookup d)
    \<and> (kv_kind d \<noteq> Mongo \<longrightarrow> (\<forall>p. r \<noteq> Panic p))"
proof -
  obtain f t where t: "tick d = (f, t)" by (cases "tick d")
  obtain g u where u: "tick t = (g, u)" by (cases "tick t")
  note ticked = tickE [OF t] tickE [OF u]
  show ?thesis
  proof (cases "kv_kind d = Mongo")
    case False
    then show ?thesis
      using assms t ticked
      by (cases "kv_kind d"; cases f) (auto simp: kv_put_def bolt_put_def s3_put_def s3_body_def fun_eq_iff)
  next
    case True
    then show ?thesis
      using assms t u ticked
      by (cases f)
        (auto simp: kv_put_def mongo_put_def mongo_exist_def head_exist_def fun_eq_iff split: if_splits)
  qed
qed

lemma s3_body_simps [simp]: "s3_body (VBytes b) = b" "s3_body (VReader s) = Bytes s"
  by (simp_all add: s3_body_def)

lemma takes_bytes_simps [simp]: "takes_bytes (VBytes b)" "\<not> takes_bytes (VReader s)"
  by (simp_all add: takes_bytes_def)

lemma kv_put_nonmongo:
  assumes "kv_kind d \<noteq> Mongo"
  shows "kv_put b k v d = (if kv_kind d = Bolt \<and> \<not> takes_bytes v then (Err bad_type, d)
    else case tick d of (NoFault, y) \<Rightarrow> (Ret (), kv_store b k (s3_body v) y) | (_, y) \<Rightarrow> (Err io_err, y))"
  using assms
  by (cases "tick d"; cases "fst (tick d)"; cases "kv_kind d"; cases v)
    (simp_all add: kv_put_def bolt_put_def s3_put_def)

text \<open>The failures still to come, and a request that spends one of them.\<close>

definition failures :: "kvdb \<Rightarrow> nat" where
  "failures d = length (filter (\<lambda>f. f \<noteq> NoFault) (kv_faults d))"

lemma failures_store [simp]: "failures (kv_store b k v d) = failures d" "failures (kv_drop b k d) = failures d"
  by (simp_all add: failures_def)

lemma failures_tick: "tick d = (f, d1) \<Longrightarrow> failures d = (if f = NoFault then failures d1 else Suc (failures d1))"
  by (auto simp: tick_def failures_def split: list.splits)

lemma kv_delete_cases:
  assumes "kv_delete b k d = (r, d1)"
  shows "kv_kind d1 = kv_kind d
    \<and> (r = Ret () \<and> kv_lookup d1 = (\<lambda>b' k'. if b' = b \<and> k' = k then None else kv_lookup d b' k')
      \<or> r = Err io_err \<and> kv_lookup d1 = kv_lookup d)"
proof -
  obtain f t where t: "tick d = (f, t)" by (cases "tick d")
  show ?thesis
    using assms t tickE [OF t] by (cases f) (auto simp: kv_delete_def raw_delete_def fun_eq_iff)
qed

text \<open>What a Get can answer, failing or not: the stored value, never another one.\<close>

lemma kv_get_cases:
  assumes "kv_get b k d = (r, d1)"
  shows "kv_kind d1 = kv_kind d \<and> kv_lookup d1 = kv_lookup d
    \<and> (case r of Ret w \<Rightarrow> w = NilBytes \<or> kv_lookup d b k = Some w | Err _ \<Rightarrow> True | Panic _ \<Rightarrow> False)"
proof -
  obtain f t where t: "tick d = (f, t)" by (cases "tick d")
  show ?thesis
    using assms t tickE [OF t]
    by (cases "kv_kind d"; cases f)
      (auto simp: kv_get_def bolt_get_def s3_get_def aliyun_get_def mongo_get_def handleOSSErr_def
        split: option.splits if_splits)
qed

definition plain_codec :: codec where
  "plain_codec = \<lparr>b64enc = (\<lambda>s. s), b64dec = Some, b64bytes = (\<lambda>s. s), sha256 = (\<lambda>s. s), itemStream = (\<lambda>i. Ret (it_ItemBinary i))\<rparr>"

definition empty_kv :: "kv_kind \<Rightarrow> fault list \<Rightarrow> kvdb" where
  "empty_kv K fs = \<lparr>kv_kind = K, kv_data = (\<lambda>_. []), kv_faults = fs\<rparr>"

lemma plain_codec_ok [simp]: "base64_ok plain_codec"
  by (simp add: base64_ok_def plain_codec_def)

lemma empty_kv_simps [simp]:
  "healthy (empty_kv K []) " "kv_lookup (empty_kv K fs) b k = None" "kv_kind (empty_kv K fs) = K"
  by (simp_all add: empty_kv_def healthy_def kv_lookup_def)

lemma fst_LoadAllDataEndOffset:
  "fst (LoadAllDataEndOffset E d) = (case fst (kv_get ConstantsBucket all_end_key d) of
      Ret v \<Rightarrow> if v = NilBytes then Ret 0 else btoi_blob E v
    | Err _ \<Rightarrow> Ret 0 | Panic p \<Rightarrow> Panic p)"
  unfolding LoadAllDataEndOffset_def
  by (cases "kv_get ConstantsBucket all_end_key d"; cases "fst (kv_get ConstantsBucket all_end_key d)") auto

definition sample_tx :: transaction where
  "sample_tx = \<lparr>tx_Format = 2, tx_ID = ''t'', tx_LastTx = [], tx_Owner = [], tx_Tags = [], tx_Target = [],
     tx_Quantity = [], tx_Data = ''data'', tx_DataSize = ''4'', tx_DataRoot = ''r'', tx_Reward = [], tx_Signature = []\<rparr>"

definition sample_item :: bundle_item where
  "sample_item = \<lparr>it_SignatureType = 1, it_Signature = [], it_Owner = [], it_Target = [], it_Anchor = [], it_Tags = [],
     it_Data = ''data'', it_Id = ''i'', it_ItemBinary = ''binary'', it_DataReader = None\<rparr>"

subsection \<open>Properties\<close>

text \<open>
  A uint64 written by itob is read back by btoi, and distinct offsets have distinct keys,
  for every base64url codec whose decoder inverts its encoder.
\<close>

theorem itob_roundtrip:
  assumes "base64_ok E"
  shows "btoi E (itob E v) = Ret v \<and> (itob E v = itob E w \<longleftrightarrow> v = w)"
  using assms by simp

theorem itob_roundtrip_witness:
  "btoi plain_codec (itob plain_codec 233333) = Ret 233333"
  using itob_roundtrip [OF plain_codec_ok, of 233333 0] by simp

text \<open>
  On every backend, while no request fails, an end offset saved for (dataRoot, dataSize) is
  loaded back, is reported to exist, and leaves allDataEndOffset and the entries of every other
  key as they were.
\<close>

theorem SaveTxDataEndOffSet_load:
  assumes E: "base64_ok E" and d: "healthy d"
    and save: "SaveTxDataEndOffSet E root dsize off d = (r, d1)"
  shows "r = Ret () \<and> LoadTxDataEndOffSet E root dsize d1 = (Ret off, d1)
    \<and> IsExistTxDataEndOffset E root dsize d1 = (Ret True, d1)
    \<and> fst (LoadAllDataEndOffset E d1) = fst (LoadAllDataEndOffset E d)
    \<and> (\<forall>b k. (b, k) \<noteq> (TxDataEndOffSetBucket, generateOffSetKey E root dsize) \<longrightarrow> kv_lookup d1 b k = kv_lookup d b k)"
proof -
  let ?k = "generateOffSetKey E root dsize"
  have d1: "r = Ret ()" "d1 = kv_store TxDataEndOffSetBucket ?k (Bytes (itob E off)) d"
    using save d by (simp_all add: SaveTxDataEndOffSet_def)
  have get: "kv_get TxDataEndOffSetBucket ?k d1 = (Ret (Bytes (itob E off)), d1)"
    using d d1 E by (simp add: blob_empty_def)
  have all: "fst (kv_get ConstantsBucket all_end_key d1) = fst (kv_get ConstantsBucket all_end_key d)"
    using d d1 by (cases "kv_kind d")
      (simp_all add: kv_get_def bolt_get_def s3_get_def aliyun_get_def mongo_get_def healthy_def split: option.splits)
  then have "fst (LoadAllDataEndOffset E d1) = fst (LoadAllDataEndOffset E d)"
    by (simp add: fst_LoadAllDataEndOffset)
  then show ?thesis
    using d1 get E
    by (simp add: LoadTxDataEndOffSet_def IsExistTxDataEndOffset_def btoi_blob_def probe_def)
qed

theorem SaveTxDataEndOffSet_load_witness:
  "LoadTxDataEndOffSet plain_codec ''aaa'' ''20''
     (snd (SaveTxDataEndOffSet plain_codec ''aaa'' ''20'' 100 (empty_kv Bolt []))) =
   (Ret 100, snd (SaveTxDataEndOffSet plain_codec ''aaa'' ''20'' 100 (empty_kv Bolt [])))"
  using SaveTxDataEndOffSet_load [OF plain_codec_ok empty_kv_simps(1) surjective_pairing] by blast

text \<open>
  C31: AtomicSyncDataEndOffset on a backend other than MongoDB. On success both offsets are the new
  one; on an error the entry of (dataRoot, dataSize) is untouched, and allDataEndOffset has its old
  value, the previous offset written back, or the new offset, the last only when two requests
  failed. Nothing else changes.
\<close>

theorem AtomicSyncDataEndOffset_atomic:
  assumes sync: "AtomicSyncDataEndOffset E pre new root dsize d = (r, d1)" and kind: "kv_kind d \<noteq> Mongo"
  shows "(r = Ret () \<longrightarrow> kv_lookup d1 ConstantsBucket all_end_key = Some (Bytes (itob E new))
        \<and> kv_lookup d1 TxDataEndOffSetBucket (generateOffSetKey E root dsize) = Some (Bytes (itob E new)))
    \<and> (r \<noteq> Ret () \<longrightarrow> r = Err io_err
        \<and> kv_lookup d1 TxDataEndOffSetBucket = kv_lookup d TxDataEndOffSetBucket
        \<and> (failures d \<le> 1 \<longrightarrow> kv_lookup d1 ConstantsBucket all_end_key
              \<in> {kv_lookup d ConstantsBucket all_end_key, Some (Bytes (itob E pre))}))
    \<and> (\<forall>b k. (b, k) \<notin> {(ConstantsBucket, all_end_key), (TxDataEndOffSetBucket, generateOffSetKey E root dsize)}
        \<longrightarrow> kv_lookup d1 b k = kv_lookup d b k)"
proof -
  obtain f1 t1 where t1: "tick d = (f1, t1)" by (cases "tick d")
  obtain f2 t2 where t2: "tick (kv_store ConstantsBucket all_end_key (Bytes (itob E new)) t1) = (f2, t2)"
    by (cases "tick (kv_store ConstantsBucket all_end_key (Bytes (itob E new)) t1)")
  obtain f3 t3 where t3: "tick t2 = (f3, t3)" by (cases "tick t2")
  note ticked = tickE [OF t1] tickE [OF t2] tickE [OF t3]
  have two: "f1 = NoFault \<longrightarrow> f2 \<noteq> NoFault \<longrightarrow> f3 \<noteq> NoFault \<longrightarrow> \<not> failures d \<le> 1"
    using failures_tick [OF t1] failures_tick [OF t2] failures_tick [OF t3] by simp
  show ?thesis
    using sync kind ticked t1 t2 t3 two
    unfolding AtomicSyncDataEndOffset_def SaveAllDataEndOffset_def SaveTxDataEndOffSet_def
      RollbackAllDataEndOffset_def ignoring_def bindG_def
    by (cases f1; cases f2; cases f3) (auto simp: kv_put_nonmongo)
qed

theorem AtomicSyncDataEndOffset_atomic_witness:
  "kv_lookup (snd (AtomicSyncDataEndOffset plain_codec 0 7 ''root'' ''7'' (empty_kv Bolt [NoFault, NetFault])))
     TxDataEndOffSetBucket ''root7'' = None"
proof -
  let ?d = "empty_kv Bolt [NoFault, NetFault]"
  have r: "fst (AtomicSyncDataEndOffset plain_codec 0 7 ''root'' ''7'' ?d) \<noteq> Ret ()"
    by (simp add: AtomicSyncDataEndOffset_def SaveAllDataEndOffset_def SaveTxDataEndOffSet_def
      RollbackAllDataEndOffset_def ignoring_def bindG_def kv_put_nonmongo empty_kv_def tick_def kv_store_def)
  show ?thesis
    using AtomicSyncDataEndOffset_atomic [of plain_codec 0 7 "''root''" "''7''" ?d, OF surjective_pairing] r
    by simp
qed

text \<open>
  While no request fails, a saved transaction is loaded without its data and reported to
  exist; on every backend but MongoDB a transaction that was never saved is reported absent.
\<close>

theorem SaveTxMeta_load:
  assumes d: "healthy d" and save: "SaveTxMeta arTx d = (r, d1)"
  shows "r = Ret () \<and> LoadTxMeta (tx_ID arTx) d1 = (Ret (arTx\<lparr>tx_Data := []\<rparr>), d1)
    \<and> IsExistTxMeta (tx_ID arTx) d1 = (Ret True, d1)
    \<and> (kv_kind d \<noteq> Mongo \<and> arId \<noteq> tx_ID arTx \<and> kv_lookup d TxMetaBucket arId = None
        \<longrightarrow> IsExistTxMeta arId d1 = (Ret False, d1))"
proof -
  have d1: "r = Ret ()" "d1 = kv_store TxMetaBucket (tx_ID arTx) (JsonTx (arTx\<lparr>tx_Data := []\<rparr>)) d"
    using save d by (simp_all add: SaveTxMeta_def)
  have "kv_get TxMetaBucket (tx_ID arTx) d1 = (Ret (JsonTx (arTx\<lparr>tx_Data := []\<rparr>)), d1)"
    using d d1 by (simp add: blob_empty_def)
  moreover have "kv_get TxMetaBucket arId d1 = (Err ErrNotExist, d1)"
    if "kv_kind d \<noteq> Mongo" "arId \<noteq> tx_ID arTx" "kv_lookup d TxMetaBucket arId = None"
    using d d1 that by (simp add: not_exist_err_def)
  ultimately show ?thesis
    using d1 by (auto simp: LoadTxMeta_def IsExistTxMeta_def unmarshal_tx_def probe_def)
qed

theorem SaveTxMeta_load_witness:
  "LoadTxMeta ''t'' (snd (SaveTxMeta sample_tx (empty_kv Aliyun [])))
     = (Ret (sample_tx\<lparr>tx_Data := []\<rparr>), snd (SaveTxMeta sample_tx (empty_kv Aliyun [])))"
  using SaveTxMeta_load [OF _ surjective_pairing, of "empty_kv Aliyun []" sample_tx] by (simp add: sample_tx_def)

text \<open>
  On MongoDB the record for a missing key is always reported to exist, because its Get
  returns mongo.ErrNoDocuments and the probes compare with schema.ErrNotExist.
\<close>

theorem mongo_reports_missing_tx_as_existing:
  assumes "kv_kind d = Mongo" and "healthy d" and "kv_lookup d TxMetaBucket arId = None"
  shows "LoadTxMeta arId d = (Err ErrNoDocuments, d) \<and> IsExistTxMeta arId d = (Ret True, d)"
  using assms by (simp add: LoadTxMeta_def IsExistTxMeta_def not_exist_err_def probe_def)

theorem mongo_reports_missing_tx_as_existing_witness:
  "IsExistTxMeta ''never-saved'' (empty_kv Mongo []) = (Ret True, empty_kv Mongo [])"
  using mongo_reports_missing_tx_as_existing [of "empty_kv Mongo []" "''never-saved''"] by simp

text \<open>
  C32: AtomicSaveItem on a backend other than MongoDB, for an item of which nothing is stored: when
  at most one request fails, either the item's binary and its meta are both stored and the result
  is nil, or neither is stored and the result is an error.
\<close>

theorem AtomicSaveItem_all_or_nothing:
  assumes save: "AtomicSaveItem E item d = (r, d1)" and kind: "kv_kind d \<noteq> Mongo"
    and absent: "kv_lookup d BundleItemBinary (it_Id item) = None" "kv_lookup d BundleItemMeta (it_Id item) = None"
    and one: "failures d \<le> 1"
  shows "(r = Ret () \<longleftrightarrow> kv_lookup d1 BundleItemBinary (it_Id item) \<noteq> None)
    \<and> (r = Ret () \<longleftrightarrow> kv_lookup d1 BundleItemMeta (it_Id item)
          = Some (JsonItem (item_meta.truncate (item\<lparr>it_Data := []\<rparr>))))
    \<and> (r \<noteq> Ret () \<longrightarrow> kv_lookup d1 = kv_lookup d)"
proof -
  have body: "\<exists>r1 d2. SaveItemBinary E item d = (r1, d2) \<and> (r1 = Ret () \<longrightarrow> (\<exists>w t. tick d = (NoFault, t)
      \<and> d2 = kv_store BundleItemBinary (it_Id item) w t)) \<and> (r1 \<noteq> Ret () \<longrightarrow> kv_lookup d2 = kv_lookup d)"
  proof -
    obtain f t where t: "tick d = (f, t)" by (cases "tick d")
    show ?thesis
      using t tickE [OF t] kind
      by (cases f; cases "it_DataReader item"; cases "itemStream E item")
        (auto simp: SaveItemBinary_def kv_put_nonmongo)
  qed
  then obtain r1 d2 where r1: "SaveItemBinary E item d = (r1, d2)"
    and ok: "r1 = Ret () \<longrightarrow> (\<exists>w t. tick d = (NoFault, t) \<and> d2 = kv_store BundleItemBinary (it_Id item) w t)"
    and bad: "r1 \<noteq> Ret () \<longrightarrow> kv_lookup d2 = kv_lookup d" by blast
  show ?thesis
  proof (cases "r1 = Ret ()")
    case False
    then show ?thesis
      using save r1 bad absent by (cases r1) (auto simp: AtomicSaveItem_def)
  next
    case True
    then obtain w t where t: "tick d = (NoFault, t)" and d2: "d2 = kv_store BundleItemBinary (it_Id item) w t"
      using ok by blast
    obtain f2 t2 where t2: "tick d2 = (f2, t2)" by (cases "tick d2")
    obtain f3 t3 where t3: "tick t2 = (f3, t3)" by (cases "tick t2")
    note ticked = tickE [OF t] tickE [OF t2] tickE [OF t3]
    have f3: "f2 \<noteq> NoFault \<longrightarrow> f3 = NoFault"
      using one failures_tick [OF t] failures_tick [OF t2] failures_tick [OF t3] d2 by (auto split: if_splits)
    have "kv_lookup d (BundleItemBinary) (it_Id item) = None" by (rule absent)
    then show ?thesis
      using save r1 True d2 t2 t3 ticked kind f3 absent
      by (cases f2) (auto simp: AtomicSaveItem_def SaveItemMeta_def DelItemBinary_def kv_delete_def
        raw_delete_def ignoring_def kv_put_nonmongo fun_eq_iff)
  qed
qed

theorem AtomicSaveItem_all_or_nothing_witness:
  "kv_lookup (snd (AtomicSaveItem plain_codec sample_item (empty_kv S3 [NoFault, NetFault]))) BundleItemBinary ''i'' = None"
proof -
  let ?d = "empty_kv S3 [NoFault, NetFault]"
  have "failures ?d \<le> 1" by (simp add: failures_def empty_kv_def)
  moreover have "fst (AtomicSaveItem plain_codec sample_item ?d) \<noteq> Ret ()"
    by (simp add: AtomicSaveItem_def SaveItemBinary_def SaveItemMeta_def DelItemBinary_def kv_delete_def raw_delete_def
      ignoring_def bindG_def kv_put_nonmongo empty_kv_def tick_def kv_store_def sample_item_def)
  ultimately show ?thesis
    using AtomicSaveItem_all_or_nothing [OF surjective_pairing, of ?d sample_item plain_codec] by (auto simp: sample_item_def)
qed

end
