(* ===== verification/Chunks.thy ===== *)
theory Chunks
  imports Store
begin

text \<open>
  The data of a transaction as chunks: the allocation of a range of offsets per (dataRoot,
  dataSize), where a chunk is stored in it and how the data is read back (submit.go, and
  getArTxData and txDataByMeta of api.go). The chunking and Merkle functions of goar/utils are
  the fields of \<open>goar\<close>. Offsets are uint64 and wrap.
\<close>

record goar =
  cod :: codec
  VerifyTransaction :: "transaction \<Rightarrow> err option"
  ValidatePath :: "string \<Rightarrow> int \<Rightarrow> int \<Rightarrow> int \<Rightarrow> string \<Rightarrow> bool"
  chunkCount :: "transaction \<Rightarrow> string \<Rightarrow> nat"
  GetChunk :: "transaction \<Rightarrow> string \<Rightarrow> nat \<Rightarrow> chunk go"
  TagsDecode :: "tag list \<Rightarrow> tag list \<times> err option"

definition b64_err :: err where "b64_err = ErrMsg ''illegal base64 data''"

definition Base64Decode :: "goar \<Rightarrow> string \<Rightarrow> string go" where
  "Base64Decode G s = (case b64dec (cod G) s of Some b \<Rightarrow> Ret b | None \<Rightarrow> Err b64_err)"

subsection \<open>submit.go: allocation of offsets\<close>

definition syncAddTxDataEndOffset :: "goar \<Rightarrow> string \<Rightarrow> string \<Rightarrow> kvdb \<Rightarrow> unit go \<times> kvdb" where
  "syncAddTxDataEndOffset G dataRoot dataSize =
     bindG (IsExistTxDataEndOffset (cod G) dataRoot dataSize) (\<lambda>ex d1.
       if ex then (Ret (), d1)
       else case ParseUint dataSize of
           Err e \<Rightarrow> (Err e, d1)
         | Panic p \<Rightarrow> (Panic p, d1)
         | Ret txSize \<Rightarrow> bindG (LoadAllDataEndOffset (cod G)) (\<lambda>cur.
             AtomicSyncDataEndOffset (cod G) cur (cur + txSize) dataRoot dataSize) d1)"

subsection \<open>submit.go: chunks\<close>

definition storeChunk :: "goar \<Rightarrow> chunk \<Rightarrow> kvdb \<Rightarrow> unit go \<times> kvdb" where
  "storeChunk G c = bindG (LoadTxDataEndOffSet (cod G) (ck_DataRoot c) (ck_DataSize c)) (\<lambda>txDataEndOffset d1.
     case andThen (ParseUint (ck_DataSize c)) (\<lambda>txSize.
          andThen (ParseUint (ck_Offset c)) (\<lambda>offset.
          andThen (Base64Decode G (ck_Chunk c)) (\<lambda>chunkDataBy.
            let txDataStartOffset = txDataEndOffset - txSize + 1;
                chunkEndOffset = txDataStartOffset + offset
            in Ret (chunkEndOffset - of_nat (length chunkDataBy) + 1)))) of
       Ret chunkStartOffset \<Rightarrow> SaveChunk (cod G) chunkStartOffset c d1
     | Err e \<Rightarrow> (Err e, d1)
     | Panic p \<Rightarrow> (Panic p, d1))"

fun getChunks :: "goar \<Rightarrow> transaction \<Rightarrow> string \<Rightarrow> nat list \<Rightarrow> chunk list go" where
  "getChunks G tx data [] = Ret []"
| "getChunks G tx data (i # is) =
     andThen (GetChunk G tx data i) (\<lambda>c. andThen (getChunks G tx data is) (\<lambda>cs. Ret (c # cs)))"

definition generateChunks :: "goar \<Rightarrow> transaction \<Rightarrow> string \<Rightarrow> chunk list go" where
  "generateChunks G tx data = (if data = [] then Err ErrNullData
     else getChunks G tx data [0..<chunkCount G tx data])"

definition root_err :: err where "root_err = ErrMsg ''chunk dataRoot not equal tx dataRoot''"

fun storeChunks :: "goar \<Rightarrow> transaction \<Rightarrow> chunk list \<Rightarrow> kvdb \<Rightarrow> unit go \<times> kvdb" where
  "storeChunks G tx [] d = (Ret (), d)"
| "storeChunks G tx (c # cs) d =
     (if ck_DataRoot c \<noteq> tx_DataRoot tx then (Err root_err, d)
      else bindG (storeChunk G c) (\<lambda>_. storeChunks G tx cs) d)"

definition setTxDataChunks :: "goar \<Rightarrow> transaction \<Rightarrow> string \<Rightarrow> kvdb \<Rightarrow> unit go \<times> kvdb" where
  "setTxDataChunks G tx data d = (if data = [] then (Err ErrNullData, d)
     else case generateChunks G tx data of
         Ret cs \<Rightarrow> storeChunks G tx cs d
       | Err e \<Rightarrow> (Err e, d)
       | Panic p \<Rightarrow> (Panic p, d))"

text \<open>verifyChunk returns (err, ok); the bytes of the chunk itself are not looked at.\<close>

definition verifyChunk :: "goar \<Rightarrow> chunk \<Rightarrow> bool go" where
  "verifyChunk G c =
     andThen (Base64Decode G (ck_DataRoot c)) (\<lambda>dataRoot.
     andThen (Atoi (ck_Offset c)) (\<lambda>offset.
     andThen (Atoi (ck_DataSize c)) (\<lambda>dataSize.
     andThen (Base64Decode G (ck_DataPath c)) (\<lambda>path.
       Ret (ValidatePath G dataRoot offset 0 dataSize path)))))"

definition isBundleTx :: "goar \<Rightarrow> tag list \<Rightarrow> bool" where
  "isBundleTx G txTags = (let tags = fst (TagsDecode G txTags) in
     list_ex (\<lambda>t. tag_name t = ''Bundle-Format'' \<and> tag_value t = ''binary'') tags
     \<and> list_ex (\<lambda>t. tag_name t = ''Bundle-Version'' \<and> tag_value t = ''2.0.0'') tags)"

subsection \<open>api.go: reading the data back\<close>

text \<open>
  \<^verbatim>\<open>make([]byte, 0, size)\<close> panics beyond the largest allocation of the runtime. The loop
  need not end: None is a call that does not return.
\<close>

partial_function (option) readChunks ::
  "goar \<Rightarrow> 64 word \<Rightarrow> 64 word \<Rightarrow> 64 word \<Rightarrow> string \<Rightarrow> kvdb \<Rightarrow> (string go \<times> kvdb) option" where
  "readChunks G start end' i data d =
     (if i + start < end' then
        (case LoadChunk (cod G) (start + i) d of
           (Ret c, d1) \<Rightarrow>
             (case Base64Decode G (ck_Chunk c) of
                Ret chunkData \<Rightarrow> readChunks G start end' (i + of_nat (length chunkData)) (data @ chunkData) d1
              | Err e \<Rightarrow> Some (Err e, d1)
              | Panic p \<Rightarrow> Some (Panic p, d1))
         | (Err e, d1) \<Rightarrow> Some (Err e, d1)
         | (Panic p, d1) \<Rightarrow> Some (Panic p, d1))
      else Some (Ret data, d))"

definition getArTxData :: "goar \<Rightarrow> string \<Rightarrow> string \<Rightarrow> kvdb \<Rightarrow> (string go \<times> kvdb) option" where
  "getArTxData G dataRoot dataSize d = (case ParseUint dataSize of
      Err e \<Rightarrow> Some (Err e, d)
    | Panic p \<Rightarrow> Some (Panic p, d)
    | Ret sz \<Rightarrow>
        if sz = 0 then Some (Ret [], d)
        else if maxAlloc < unat sz then Some (Panic ''makeslice: cap out of range'', d)
        else (case LoadTxDataEndOffSet (cod G) dataRoot dataSize d of
            (Ret txDataEndOffset, d1) \<Rightarrow>
              readChunks G (txDataEndOffset - sz + 1) txDataEndOffset 0 [] d1
          | (Err e, d1) \<Rightarrow> Some (Err e, d1)
          | (Panic p, d1) \<Rightarrow> Some (Panic p, d1)))"

definition AllowMaxRespDataSize :: nat where "AllowMaxRespDataSize = 50 * 1024 * 1024"

definition txDataByMeta :: "goar \<Rightarrow> transaction \<Rightarrow> kvdb \<Rightarrow> (string go \<times> kvdb) option" where
  "txDataByMeta G tx d = (case ParseUint (tx_DataSize tx) of
      Err e \<Rightarrow> Some (Err e, d)
    | Panic p \<Rightarrow> Some (Panic p, d)
    | Ret sz \<Rightarrow> if AllowMaxRespDataSize < unat sz then Some (Err ErrDataTooBig, d)
        else getArTxData G (tx_DataRoot tx) (tx_DataSize tx) d)"

subsection \<open>The layout of the chunks of a transaction\<close>

text \<open>
  What PrepareChunks and GetChunk promise: the parts are non-empty and make up the data, and the
  offset of a chunk is the position of its last byte in the transaction. \<open>laid G tx q ps cs\<close>: the
  chunks \<open>cs\<close> carry the parts \<open>ps\<close> from position \<open>q\<close> on.
\<close>

fun laid :: "goar \<Rightarrow> transaction \<Rightarrow> nat \<Rightarrow> string list \<Rightarrow> chunk list \<Rightarrow> bool" where
  "laid G tx q [] [] = True"
| "laid G tx q (p # ps) (c # cs) = (p \<noteq> [] \<and> ck_DataRoot c = tx_DataRoot tx
     \<and> ck_DataSize c = tx_DataSize tx \<and> b64dec (cod G) (ck_Chunk c) = Some p
     \<and> ParseUint (ck_Offset c) = Ret (of_nat (q + length p - 1)) \<and> laid G tx (q + length p) ps cs)"
| "laid G tx q _ _ = False"

definition chunked :: "goar \<Rightarrow> transaction \<Rightarrow> string \<Rightarrow> string list \<Rightarrow> chunk list \<Rightarrow> bool" where
  "chunked G tx data parts cs \<longleftrightarrow> concat parts = data \<and> chunkCount G tx data = length cs
     \<and> (\<forall>i < length cs. GetChunk G tx data i = Ret (cs ! i)) \<and> laid G tx 0 parts cs"

fun chunks_at :: "codec \<Rightarrow> 64 word \<Rightarrow> nat \<Rightarrow> string list \<Rightarrow> chunk list \<Rightarrow> kvdb \<Rightarrow> bool" where
  "chunks_at E st q (p # ps) (c # cs) d = (kv_lookup d ChunkBucket (itob E (st + of_nat q)) = Some (JsonChunk c)
     \<and> chunks_at E st (q + length p) ps cs d)"
| "chunks_at E st q _ _ d = True"

lemma getChunks_map:
  "(\<forall>i \<in> set is. GetChunk G tx data i = Ret (f i)) \<Longrightarrow> getChunks G tx data is = Ret (map f is)"
  by (induction "is") auto

lemma generateChunks_chunked:
  assumes "chunked G tx data parts cs" and "data \<noteq> []"
  shows "generateChunks G tx data = Ret cs"
  using assms getChunks_map [of "[0..<length cs]" G tx data "\<lambda>i. cs ! i"]
  by (simp add: generateChunks_def chunked_def map_nth)

definition end_stored :: "goar \<Rightarrow> string \<Rightarrow> string \<Rightarrow> 64 word \<Rightarrow> kvdb \<Rightarrow> bool" where
  "end_stored G root dsize e d \<longleftrightarrow>
     kv_lookup d TxDataEndOffSetBucket (generateOffSetKey (cod G) root dsize) = Some (Bytes (itob (cod G) e))"

lemma LoadTxDataEndOffSet_stored [simp]:
  "base64_ok (cod G) \<Longrightarrow> healthy d \<Longrightarrow> end_stored G root dsize e d
    \<Longrightarrow> LoadTxDataEndOffSet (cod G) root dsize d = (Ret e, d)"
  by (simp add: end_stored_def LoadTxDataEndOffSet_def btoi_blob_def blob_empty_def)

lemma end_stored_chunk [simp]: "end_stored G root dsize e (kv_store ChunkBucket k v d) = end_stored G root dsize e d"
  by (simp add: end_stored_def)

lemma storeChunk_laid:
  assumes "base64_ok (cod G)" and "healthy d" and "end_stored G (ck_DataRoot c) (ck_DataSize c) e d"
    and "ParseUint (ck_DataSize c) = Ret sz" and "b64dec (cod G) (ck_Chunk c) = Some p" and "p \<noteq> []"
    and "ParseUint (ck_Offset c) = Ret (of_nat (q + length p - 1))"
  shows "storeChunk G c d = (Ret (), kv_store ChunkBucket (itob (cod G) (e - sz + 1 + of_nat q)) (JsonChunk c) d)"
proof -
  obtain l where l: "length p = Suc l" using assms(6) by (cases p) auto
  then have off: "ParseUint (ck_Offset c) = Ret (of_nat q + of_nat (length p) - 1)"
    using assms(7) by simp
  show ?thesis
    using assms(1-6) off by (simp add: storeChunk_def Base64Decode_def SaveChunk_def Let_def algebra_simps)
qed

lemma itob_start_neq:
  assumes "base64_ok E" and "q < q'" and "q' < 2 ^ 64"
  shows "itob E (st + of_nat q) \<noteq> itob E (st + of_nat q')"
proof -
  have "unat (of_nat q :: 64 word) = q" "unat (of_nat q' :: 64 word) = q'"
    using assms by (simp_all add: unat_of_nat)
  then show ?thesis using assms by auto
qed

lemma storeChunks_laid:
  assumes "laid G tx q ps cs" and "base64_ok (cod G)" and "healthy d"
    and "end_stored G (tx_DataRoot tx) (tx_DataSize tx) e d" and "ParseUint (tx_DataSize tx) = Ret sz"
    and "q + length (concat ps) < 2 ^ 64"
  shows "\<exists>d1. storeChunks G tx cs d = (Ret (), d1) \<and> healthy d1 \<and> kv_kind d1 = kv_kind d
    \<and> chunks_at (cod G) (e - sz + 1) q ps cs d1
    \<and> (\<forall>b k. b \<noteq> ChunkBucket \<longrightarrow> kv_lookup d1 b k = kv_lookup d b k)
    \<and> (\<forall>q' < q. kv_lookup d1 ChunkBucket (itob (cod G) (e - sz + 1 + of_nat q'))
          = kv_lookup d ChunkBucket (itob (cod G) (e - sz + 1 + of_nat q')))
    \<and> (\<forall>k. kv_lookup d1 ChunkBucket k = kv_lookup d ChunkBucket k
          \<or> (\<exists>q' \<ge> q. q' < q + length (concat ps) \<and> k = itob (cod G) (e - sz + 1 + of_nat q')))"
  using assms
proof (induction G tx q ps cs arbitrary: d rule: laid.induct)
  case (2 G tx q p ps c cs)
  let ?d = "kv_store ChunkBucket (itob (cod G) (e - sz + 1 + of_nat q)) (JsonChunk c) d"
  have st: "storeChunk G c d = (Ret (), ?d)"
    using 2 by (intro storeChunk_laid) auto
  have "laid G tx (q + length p) ps cs" "healthy ?d" "end_stored G (tx_DataRoot tx) (tx_DataSize tx) e ?d"
    "q + length p + length (concat ps) < 2 ^ 64"
    using 2 by (simp_all add: add.assoc)
  from "2.IH" [OF this(1) "2.prems"(2) this(2,3) "2.prems"(5) this(4)] obtain d1 where d1: "storeChunks G tx cs ?d = (Ret (), d1)" "healthy d1" "kv_kind d1 = kv_kind d"
    "chunks_at (cod G) (e - sz + 1) (q + length p) ps cs d1"
    "\<forall>b k. b \<noteq> ChunkBucket \<longrightarrow> kv_lookup d1 b k = kv_lookup ?d b k"
    "\<forall>q' < q + length p. kv_lookup d1 ChunkBucket (itob (cod G) (e - sz + 1 + of_nat q'))
          = kv_lookup ?d ChunkBucket (itob (cod G) (e - sz + 1 + of_nat q'))"
    "\<forall>k. kv_lookup d1 ChunkBucket k = kv_lookup ?d ChunkBucket k
          \<or> (\<exists>q' \<ge> q + length p. q' < q + length p + length (concat ps) \<and> k = itob (cod G) (e - sz + 1 + of_nat q'))"
    by auto
  have "p \<noteq> []" "q < 2 ^ 64" using 2 by auto
  then have "kv_lookup d1 ChunkBucket (itob (cod G) (e - sz + 1 + of_nat q)) = Some (JsonChunk c)"
    using d1(6) by simp
  moreover have "\<forall>q' < q. kv_lookup d1 ChunkBucket (itob (cod G) (e - sz + 1 + of_nat q'))
          = kv_lookup d ChunkBucket (itob (cod G) (e - sz + 1 + of_nat q'))"
    using d1(6) itob_start_neq [of "cod G" _ q "e - sz + 1"] 2(3) \<open>q < 2 ^ 64\<close> by auto
  moreover have "kv_lookup d1 ChunkBucket k = kv_lookup d ChunkBucket k
      \<or> (\<exists>q' \<ge> q. q' < q + length (concat (p # ps)) \<and> k = itob (cod G) (e - sz + 1 + of_nat q'))" for k
  proof (cases "k = itob (cod G) (e - sz + 1 + of_nat q)")
    case True
    then show ?thesis using \<open>p \<noteq> []\<close> by (intro disjI2 exI [of _ q]) simp
  next
    case False
    then have "kv_lookup ?d ChunkBucket k = kv_lookup d ChunkBucket k" by simp
    then show ?thesis using d1(7) [rule_format, of k] by (auto intro: le_trans [OF le_add1])
  qed
  ultimately show ?case using 2(2) st d1 by auto
qed auto

lemma LoadChunk_stored [simp]:
  "healthy d \<Longrightarrow> kv_lookup d ChunkBucket (itob E off) = Some (JsonChunk c) \<Longrightarrow> LoadChunk E off d = (Ret c, d)"
  by (simp add: LoadChunk_def blob_empty_def unmarshal_chunk_def)

lemma readChunks_step:
  assumes "i + st < e" and "healthy d" and "kv_lookup d ChunkBucket (itob (cod G) (st + i)) = Some (JsonChunk c)"
    and "b64dec (cod G) (ck_Chunk c) = Some p"
  shows "readChunks G st e i acc d = readChunks G st e (i + of_nat (length p)) (acc @ p) d"
  using assms by (subst readChunks.simps) (simp add: Base64Decode_def)

lemma unat_start: "unat (st :: 64 word) + q < 2 ^ 64 \<Longrightarrow> unat (of_nat q + st) = unat st + q"
  by (simp add: unat_word_ariths(1) unat_of_nat)

lemma length_part: "p \<in> set ps \<Longrightarrow> length p \<le> length (concat ps)"
  by (induction ps) auto

lemma readChunks_laid:
  assumes "laid G tx q ps cs" and "chunks_at (cod G) st q ps cs d" and "healthy d"
    and "ps = [] \<or> 2 \<le> length (last ps)" and "unat st + q + length (concat ps) < 2 ^ 64"
    and "unat e + 1 = unat st + q + length (concat ps)"
  shows "readChunks G st e (of_nat q) acc d = Some (Ret (acc @ concat ps), d)"
  using assms
proof (induction G tx q ps cs arbitrary: acc rule: laid.induct)
  case (1 G tx q)
  then have "\<not> of_nat q + st < e" using unat_start [of st q] by (simp add: word_less_nat_alt)
  then show ?case by (subst readChunks.simps) simp
next
  case (2 G tx q p ps c cs)
  have two: "2 \<le> length p + length (concat ps)"
  proof (cases "ps = []")
    case False
    then have "last ps \<in> set ps" by simp
    then have "length (last ps) \<le> length (concat ps)" by (rule length_part)
    with 2 False show ?thesis by simp
  qed (use 2 in simp)
  then have lt: "of_nat q + st < e"
    using 2 unat_start [of st q] by (simp add: word_less_nat_alt)
  have "readChunks G st e (of_nat q) acc d = readChunks G st e (of_nat (q + length p)) (acc @ p) d"
    using readChunks_step [OF lt "2.prems"(3), of G c p acc] 2 by (simp add: add.commute)
  also have "\<dots> = Some (Ret ((acc @ p) @ concat ps), d)"
    using 2 by (intro "2.IH") (auto simp: add.assoc split: if_splits)
  finally show ?case by simp
qed auto

lemma readChunks_one_byte:
  assumes "laid G tx q ps cs" and "chunks_at (cod G) st q ps cs d" and "healthy d"
    and "ps \<noteq> []" and "length (last ps) = 1" and "unat st + q + length (concat ps) < 2 ^ 64"
    and "unat e + 1 = unat st + q + length (concat ps)"
  shows "readChunks G st e (of_nat q) acc d = Some (Ret (acc @ butlast (concat ps)), d)"
  using assms
proof (induction G tx q ps cs arbitrary: acc rule: laid.induct)
  case (2 G tx q p ps c cs)
  show ?case
  proof (cases "ps = []")
    case True
    with 2 have "\<not> of_nat q + st < e" and "length p = 1"
      using unat_start [of st q] by (auto simp: word_less_nat_alt)
    then show ?thesis using True by (subst readChunks.simps) (cases p; simp)
  next
    case False
    then have "last ps \<in> set ps" by simp
    then have "1 \<le> length (concat ps)" using 2 False length_part [of "last ps" ps] by simp
    moreover have "p \<noteq> []" using 2 by simp
    ultimately have two: "2 \<le> length p + length (concat ps)" by (cases p) simp_all
    then have lt: "of_nat q + st < e"
      using 2 unat_start [of st q] by (simp add: word_less_nat_alt)
    have "readChunks G st e (of_nat q) acc d = readChunks G st e (of_nat (q + length p)) (acc @ p) d"
      using readChunks_step [OF lt "2.prems"(3), of G c p acc] 2 by (simp add: add.commute)
    also have "\<dots> = Some (Ret ((acc @ p) @ butlast (concat ps)), d)"
      using 2 False by (intro "2.IH") (auto simp: add.assoc)
    finally show ?thesis using \<open>1 \<le> length (concat ps)\<close> by (auto simp: butlast_append simp del: concat_eq_Nil_conv)
  qed
qed auto

text \<open>
  \<open>tx_room\<close> says that the end offset \<open>e\<close> of (dataRoot, dataSize) was allocated without wrapping and
  that the data fits in memory; \<open>stored_tx\<close> that the store has the end offset and every chunk.
\<close>

definition tx_room :: "goar \<Rightarrow> transaction \<Rightarrow> string \<Rightarrow> 64 word \<Rightarrow> bool" where
  "tx_room G tx data e \<longleftrightarrow> base64_ok (cod G) \<and> ParseUint (tx_DataSize tx) = Ret (of_nat (length data))
     \<and> data \<noteq> [] \<and> length data \<le> maxAlloc \<and> length data \<le> unat e \<and> unat e + 1 < 2 ^ 64"

definition stored_tx :: "goar \<Rightarrow> transaction \<Rightarrow> string \<Rightarrow> 64 word \<Rightarrow> string list \<Rightarrow> chunk list \<Rightarrow> kvdb \<Rightarrow> bool" where
  "stored_tx G tx data e parts cs d \<longleftrightarrow> healthy d \<and> end_stored G (tx_DataRoot tx) (tx_DataSize tx) e d
     \<and> chunks_at (cod G) (e - of_nat (length data) + 1) 0 parts cs d"

lemma chunks_at_same:
  "chunks_at E st q ps cs d \<Longrightarrow> (\<forall>k. kv_lookup d1 ChunkBucket k = kv_lookup d ChunkBucket k) \<Longrightarrow> chunks_at E st q ps cs d1"
  by (induction E st q ps cs d rule: chunks_at.induct) simp_all

lemma stored_tx_other:
  assumes "stored_tx G tx data e parts cs d" and "b \<noteq> ChunkBucket" and "b \<noteq> TxDataEndOffSetBucket"
  shows "stored_tx G tx data e parts cs (kv_store b k v d)"
  using assms chunks_at_same [of _ _ _ _ _ d "kv_store b k v d"] by (auto simp: stored_tx_def end_stored_def)

lemma setTxDataChunks_stored:
  assumes room: "tx_room G tx data e" and ck: "chunked G tx data parts cs"
    and d: "healthy d" "end_stored G (tx_DataRoot tx) (tx_DataSize tx) e d"
  obtains d1 where "setTxDataChunks G tx data d = (Ret (), d1)" and "stored_tx G tx data e parts cs d1"
    and "kv_kind d1 = kv_kind d" and "\<forall>b k. b \<noteq> ChunkBucket \<longrightarrow> kv_lookup d1 b k = kv_lookup d b k"
    and "\<forall>k. kv_lookup d1 ChunkBucket k = kv_lookup d ChunkBucket k
          \<or> (\<exists>q < length data. k = itob (cod G) (e - of_nat (length data) + 1 + of_nat q))"
proof -
  note r = room [unfolded tx_room_def]
  have laid: "laid G tx 0 parts cs" and parts: "concat parts = data" using ck by (auto simp: chunked_def)
  have small: "length data < 2 ^ 64" using r by (simp add: maxAlloc_def)
  obtain d1 where d1: "storeChunks G tx cs d = (Ret (), d1)" "healthy d1" "kv_kind d1 = kv_kind d"
    "chunks_at (cod G) (e - of_nat (length data) + 1) 0 parts cs d1"
    "\<forall>b k. b \<noteq> ChunkBucket \<longrightarrow> kv_lookup d1 b k = kv_lookup d b k"
    "\<forall>k. kv_lookup d1 ChunkBucket k = kv_lookup d ChunkBucket k
          \<or> (\<exists>q < length data. k = itob (cod G) (e - of_nat (length data) + 1 + of_nat q))"
    using storeChunks_laid [OF laid, of d e "of_nat (length data)"] r d small parts by auto
  have "setTxDataChunks G tx data d = (Ret (), d1)"
    using r generateChunks_chunked [OF ck] d1(1) by (auto simp: setTxDataChunks_def)
  moreover have "stored_tx G tx data e parts cs d1"
    using d d1 by (simp add: stored_tx_def end_stored_def)
  ultimately show ?thesis using d1 by (intro that)
qed

lemma getArTxData_stored:
  assumes room: "tx_room G tx data e" and ck: "chunked G tx data parts cs" and st: "stored_tx G tx data e parts cs d"
  shows "2 \<le> length (last parts) \<Longrightarrow> getArTxData G (tx_DataRoot tx) (tx_DataSize tx) d = Some (Ret data, d)"
    and "length (last parts) = 1 \<Longrightarrow> getArTxData G (tx_DataRoot tx) (tx_DataSize tx) d = Some (Ret (butlast data), d)"
proof -
  let ?st = "e - of_nat (length data) + 1"
  note r = room [unfolded tx_room_def]
  have laid: "laid G tx 0 parts cs" and parts: "concat parts = data" using ck by (auto simp: chunked_def)
  have ne: "parts \<noteq> []" using r parts by auto
  have small: "length data < 2 ^ 64" using r by (simp add: maxAlloc_def)
  have un: "unat (of_nat (length data) :: 64 word) = length data" using small by (simp add: unat_of_nat)
  have "unat (e - of_nat (length data)) = unat e - length data" using r un by (simp add: unat_sub_if')
  moreover have "1 \<le> length data" using r by (cases data) auto
  moreover have "unat e - length data + 1 < 2 ^ 64" using r by linarith
  ultimately have start: "unat ?st = unat e - length data + 1" by (simp add: unat_word_ariths(1))
  have "base64_ok (cod G)" "healthy d" "end_stored G (tx_DataRoot tx) (tx_DataSize tx) e d"
    using r st by (simp_all add: stored_tx_def)
  then have load: "LoadTxDataEndOffSet (cod G) (tx_DataRoot tx) (tx_DataSize tx) d = (Ret e, d)"
    by (rule LoadTxDataEndOffSet_stored)
  have loop: "getArTxData G (tx_DataRoot tx) (tx_DataSize tx) d = readChunks G ?st e (of_nat 0) [] d"
    using r un load by (simp add: getArTxData_def of_nat_eq_0_iff unat_eq_zero [symmetric])
  note at = st [unfolded stored_tx_def]
  show "getArTxData G (tx_DataRoot tx) (tx_DataSize tx) d = Some (Ret data, d)" if "2 \<le> length (last parts)"
    unfolding loop using readChunks_laid [OF laid, of ?st d e "[]"] at r that start parts by simp
  show "getArTxData G (tx_DataRoot tx) (tx_DataSize tx) d = Some (Ret (butlast data), d)" if "length (last parts) = 1"
    unfolding loop using readChunks_one_byte [OF laid, of ?st d e "[]"] at r that start parts ne by simp
qed

text \<open>An empty chunk at a position the loop reaches is loaded again and again.\<close>

lemma readChunks_stuck:
  assumes "i + st < e" and "healthy d" and "kv_lookup d ChunkBucket (itob (cod G) (st + i)) = Some (JsonChunk c)"
    and "b64dec (cod G) (ck_Chunk c) = Some []"
  shows "readChunks G st e i acc d = None"
proof (rule ccontr)
  assume "readChunks G st e i acc d \<noteq> None"
  then obtain r where r: "readChunks G st e i acc d = Some r" by blast
  have "\<not> (i + st < e \<and> healthy d \<and> kv_lookup d ChunkBucket (itob (cod G) (st + i)) = Some (JsonChunk c)
      \<and> b64dec (cod G) (ck_Chunk c) = Some [])"
  proof (rule readChunks.raw_induct [OF _ r, of "\<lambda>G st e i acc d r. \<not> (i + st < e \<and> healthy d
      \<and> kv_lookup d ChunkBucket (itob (cod G) (st + i)) = Some (JsonChunk c) \<and> b64dec (cod G) (ck_Chunk c) = Some [])"])
    fix f G st e i acc d y
    assume ih: "\<And>G st e i acc d y. f G st e i acc d = Some y \<Longrightarrow> \<not> (i + st < e \<and> healthy d
      \<and> kv_lookup d ChunkBucket (itob (cod G) (st + i)) = Some (JsonChunk c) \<and> b64dec (cod G) (ck_Chunk c) = Some [])"
      and body: "(if i + st < e then (case LoadChunk (cod G) (st + i) d of
           (Ret c, d1) \<Rightarrow> (case Base64Decode G (ck_Chunk c) of
                Ret chunkData \<Rightarrow> f G st e (i + of_nat (length chunkData)) (acc @ chunkData) d1
              | Err e \<Rightarrow> Some (Err e, d1) | Panic p \<Rightarrow> Some (Panic p, d1))
         | (Err e, d1) \<Rightarrow> Some (Err e, d1) | (Panic p, d1) \<Rightarrow> Some (Panic p, d1)) else Some (Ret acc, d)) = Some y"
    show "\<not> (i + st < e \<and> healthy d
      \<and> kv_lookup d ChunkBucket (itob (cod G) (st + i)) = Some (JsonChunk c) \<and> b64dec (cod G) (ck_Chunk c) = Some [])"
    proof
      assume a: "i + st < e \<and> healthy d
        \<and> kv_lookup d ChunkBucket (itob (cod G) (st + i)) = Some (JsonChunk c) \<and> b64dec (cod G) (ck_Chunk c) = Some []"
      then have "f G st e i acc d = Some y"
        using body by (simp add: Base64Decode_def)
      from ih [OF this] a show False by blast
    qed
  qed
  with assms show False by blast
qed

text \<open>A concrete goar for the witnesses: parts of three bytes, no encoding.\<close>

definition plain_goar :: goar where
  "plain_goar = \<lparr>cod = plain_codec, VerifyTransaction = (\<lambda>_. None), ValidatePath = (\<lambda>_ _ _ _ _. True),
     chunkCount = (\<lambda>tx data. (length data + 2) div 3),
     GetChunk = (\<lambda>tx data i. Ret \<lparr>ck_DataRoot = tx_DataRoot tx, ck_DataSize = tx_DataSize tx, ck_DataPath = [],
       ck_Offset = FormatNat (min (3 * i + 2) (length data - 1)), ck_Chunk = take 3 (drop (3 * i) data)\<rparr>),
     TagsDecode = (\<lambda>ts. (ts, None))\<rparr>"

definition plain_tx :: "string \<Rightarrow> string \<Rightarrow> string \<Rightarrow> tag list \<Rightarrow> transaction" where
  "plain_tx arId root dsize tags = \<lparr>tx_Format = 2, tx_ID = arId, tx_LastTx = [], tx_Owner = [], tx_Tags = tags,
     tx_Target = [], tx_Quantity = [], tx_Data = [], tx_DataSize = dsize, tx_DataRoot = root, tx_Reward = [],
     tx_Signature = []\<rparr>"

lemma plain_goar_simps [simp]: "cod plain_goar = plain_codec" "VerifyTransaction plain_goar tx = None"
  "ValidatePath plain_goar a b c d' p = True" "chunkCount plain_goar tx data = (length data + 2) div 3"
  "TagsDecode plain_goar ts = (ts, None)" "b64dec plain_codec s = Some s" "sha256 plain_codec s = s"
  "b64enc plain_codec s = s" "b64bytes plain_codec s = s"
  by (simp_all add: plain_goar_def plain_codec_def)

lemma plain_tx_simps [simp]: "tx_DataRoot (plain_tx a r z ts) = r" "tx_DataSize (plain_tx a r z ts) = z"
  "tx_ID (plain_tx a r z ts) = a" "tx_Tags (plain_tx a r z ts) = ts" "tx_Data (plain_tx a r z ts) = []"
  by (simp_all add: plain_tx_def)

subsection \<open>Properties\<close>

text \<open>
  C10: write then read. When the end offset of (dataRoot, dataSize) is allocated without wrapping and
  the data is cut into non-empty parts with the offset of their last byte, the last part at least
  two bytes long, setTxDataChunks stores every chunk and getArTxData then returns exactly the
  data, on every backend, while no request fails.
\<close>

theorem setTxDataChunks_getArTxData:
  assumes room: "tx_room G tx data e" and ck: "chunked G tx data parts cs" "2 \<le> length (last parts)"
    and d: "healthy d" "end_stored G (tx_DataRoot tx) (tx_DataSize tx) e d"
  shows "\<exists>d1. setTxDataChunks G tx data d = (Ret (), d1)
    \<and> getArTxData G (tx_DataRoot tx) (tx_DataSize tx) d1 = Some (Ret data, d1)"
  using setTxDataChunks_stored [OF room ck(1) d] getArTxData_stored(1) [OF room ck(1) _ ck(2)] by metis

theorem setTxDataChunks_getArTxData_witness:
  "\<exists>d1. setTxDataChunks plain_goar (plain_tx ''t'' ''r'' ''5'' []) ''hello''
       (kv_store TxDataEndOffSetBucket ''r5'' (Bytes (itob plain_codec 5)) (empty_kv Bolt [])) = (Ret (), d1)
     \<and> getArTxData plain_goar ''r'' ''5'' d1 = Some (Ret ''hello'', d1)"
proof -
  let ?G = plain_goar and ?tx = "plain_tx ''t'' ''r'' ''5'' []"
  let ?d = "kv_store TxDataEndOffSetBucket ''r5'' (Bytes (itob plain_codec 5)) (empty_kv Bolt [])"
  let ?cs = "map (\<lambda>(o', p). \<lparr>ck_DataRoot = ''r'', ck_DataSize = ''5'', ck_DataPath = [], ck_Offset = o', ck_Chunk = p\<rparr>)
    [(FormatNat (Suc (Suc 0)), ''hel''), (FormatNat (Suc (Suc (Suc (Suc 0)))), ''lo'')]"
  have "tx_room ?G ?tx ''hello'' 5" "healthy ?d" "end_stored ?G ''r'' ''5'' 5 ?d"
    by (simp_all add: tx_room_def end_stored_def generateOffSetKey_def maxAlloc_def digits_eval)
  moreover have "chunked ?G ?tx ''hello'' [''hel'', ''lo''] ?cs"
    by (simp add: chunked_def less_Suc_eq) (simp add: plain_goar_def)
  ultimately show ?thesis
    using setTxDataChunks_getArTxData [of ?G ?tx "''hello''" 5 "[''hel'', ''lo'']" ?cs ?d] by simp
qed

text \<open>
  The loop of getArTxData stops one position early: when the last part is a single byte, the data
  it returns lacks that byte. Data of one byte comes back empty, with no error.
\<close>

theorem getArTxData_loses_single_byte:
  assumes room: "tx_room G tx data e" and ck: "chunked G tx data parts cs" "length (last parts) = 1"
    and d: "healthy d" "end_stored G (tx_DataRoot tx) (tx_DataSize tx) e d"
  shows "\<exists>d1. setTxDataChunks G tx data d = (Ret (), d1)
    \<and> getArTxData G (tx_DataRoot tx) (tx_DataSize tx) d1 = Some (Ret (butlast data), d1)"
  using setTxDataChunks_stored [OF room ck(1) d] getArTxData_stored(2) [OF room ck(1) _ ck(2)] by metis

theorem getArTxData_loses_single_byte_witness:
  "\<exists>d1. setTxDataChunks plain_goar (plain_tx ''t'' ''r'' ''1'' []) ''x''
       (kv_store TxDataEndOffSetBucket ''r1'' (Bytes (itob plain_codec 1)) (empty_kv Bolt [])) = (Ret (), d1)
     \<and> getArTxData plain_goar ''r'' ''1'' d1 = Some (Ret [], d1)"
proof -
  let ?G = plain_goar and ?tx = "plain_tx ''t'' ''r'' ''1'' []"
  let ?d = "kv_store TxDataEndOffSetBucket ''r1'' (Bytes (itob plain_codec 1)) (empty_kv Bolt [])"
  let ?cs = "[\<lparr>ck_DataRoot = ''r'', ck_DataSize = ''1'', ck_DataPath = [], ck_Offset = FormatNat 0, ck_Chunk = ''x''\<rparr>]"
  have "tx_room ?G ?tx ''x'' 1" "healthy ?d" "end_stored ?G ''r'' ''1'' 1 ?d"
    by (simp_all add: tx_room_def end_stored_def generateOffSetKey_def maxAlloc_def digits_eval)
  moreover have "chunked ?G ?tx ''x'' [''x''] ?cs"
    by (simp add: chunked_def) (simp add: plain_goar_def)
  ultimately show ?thesis
    using getArTxData_loses_single_byte [of ?G ?tx "''x''" 1 "[''x'']" ?cs ?d] by simp
qed

subsection \<open>Termination of the loop\<close>

text \<open>Every stored chunk that decodes has bytes, at most B of them.\<close>

definition chunks_move :: "goar \<Rightarrow> nat \<Rightarrow> kvdb \<Rightarrow> bool" where
  "chunks_move G B d \<longleftrightarrow> (\<forall>k c s. kv_lookup d ChunkBucket k = Some (JsonChunk c) \<longrightarrow> Base64Decode G (ck_Chunk c) = Ret s
     \<longrightarrow> 0 < length s \<and> length s \<le> B)"

lemma LoadChunk_Ret:
  assumes "LoadChunk E off d = (Ret c, d1)"
  shows "kv_lookup d ChunkBucket (itob E off) = Some (JsonChunk c)" and "kv_lookup d1 = kv_lookup d"
proof -
  obtain r d0 where g: "kv_get ChunkBucket (itob E off) d = (r, d0)" by fastforce
  with assms obtain v where v: "r = Ret v" "unmarshal_chunk v = Ret c" "d1 = d0" by (cases r) (auto simp: LoadChunk_def)
  then have "v = JsonChunk c" by (simp add: unmarshal_chunk_def split: blob.splits)
  then show "kv_lookup d ChunkBucket (itob E off) = Some (JsonChunk c)" "kv_lookup d1 = kv_lookup d"
    using kv_get_cases [OF g] v by auto
qed

lemma readChunks_returns:
  assumes "chunks_move G B d" and "unat e + B < 2 ^ 64"
  shows "\<exists>r. readChunks G st e i acc d = Some r"
  using assms(1)
proof (induction "unat e - unat (i + st)" arbitrary: i acc d rule: less_induct)
  case less
  show ?case
  proof (cases "i + st < e")
    case False
    then show ?thesis by (subst readChunks.simps) simp
  next
    case lt: True
    obtain q d1 where l: "LoadChunk (cod G) (st + i) d = (q, d1)" by fastforce
    show ?thesis
    proof (cases q)
      case (Ret c)
      note c = LoadChunk_Ret [OF l [unfolded Ret]]
      show ?thesis
      proof (cases "Base64Decode G (ck_Chunk c)")
        case s: (Ret s)
        have len: "0 < length s" "length s \<le> B" using less.prems c(1) s by (auto simp: chunks_move_def)
        have "i + of_nat (length s) + st = of_nat (unat (i + st) + length s)" by (simp add: ac_simps)
        moreover have "unat (i + st) + length s < 2 ^ 64" using lt len(2) assms(2) by (simp add: word_less_nat_alt)
        ultimately have at: "unat (i + of_nat (length s) + st) = unat (i + st) + length s"
          by (simp only: unat_of_nat) simp
        have "chunks_move G B d1" using less.prems c(2) by (simp add: chunks_move_def)
        moreover have "unat e - unat (i + of_nat (length s) + st) < unat e - unat (i + st)"
        proof -
          have "unat (i + st) < unat e" using lt by (simp add: word_less_nat_alt)
          then show ?thesis unfolding at using len(1) by linarith
        qed
        ultimately have "\<exists>r. readChunks G st e (i + of_nat (length s)) (acc @ s) d1 = Some r" by (intro less.hyps)
        then show ?thesis using lt l Ret s by (subst readChunks.simps) simp
      qed (use lt l Ret in \<open>(subst readChunks.simps, simp)+\<close>)
    qed (use lt l in \<open>(subst readChunks.simps, simp)+\<close>)
  qed
qed

text \<open>
  C21: reading data returns. When every stored chunk holds at least one and at most B bytes and the end offset of the
  transaction is more than B below the end of the 64-bit range, getArTxData ends, with a result or an error,
  whichever requests fail and whatever the other records of the store are. (\<open>empty_chunk_blocks_next_tx\<close> shows that
  a chunk without bytes breaks it.)
\<close>

theorem getArTxData_returns:
  assumes "chunks_move G B d" and "LoadTxDataEndOffSet (cod G) dataRoot dataSize d = (Ret e, d1)" and "unat e + B < 2 ^ 64"
  shows "\<exists>r. getArTxData G dataRoot dataSize d = Some r"
proof -
  obtain q d0 where g: "kv_get TxDataEndOffSetBucket (generateOffSetKey (cod G) dataRoot dataSize) d = (q, d0)" by fastforce
  have "d1 = d0" using assms(2) g by (cases q) (auto simp: LoadTxDataEndOffSet_def)
  then have "chunks_move G B d1" using assms(1) kv_get_cases [OF g] by (simp add: chunks_move_def)
  then have "\<exists>r. readChunks G st e 0 [] d1 = Some r" for st by (rule readChunks_returns [OF _ assms(3)])
  then show ?thesis using assms(2) by (auto simp: getArTxData_def split: go.splits)
qed

theorem getArTxData_returns_witness:
  "\<exists>r. getArTxData plain_goar ''r'' ''1'' (kv_store TxDataEndOffSetBucket ''r1'' (Bytes (itob plain_codec 1)) (empty_kv Bolt [])) = Some r"
proof (rule getArTxData_returns [where B = 262144])
  let ?d = "kv_store TxDataEndOffSetBucket ''r1'' (Bytes (itob plain_codec 1)) (empty_kv Bolt [])"
  show "chunks_move plain_goar 262144 ?d" by (simp add: chunks_move_def)
  show "LoadTxDataEndOffSet (cod plain_goar) ''r'' ''1'' ?d = (Ret 1, ?d)"
    by (rule LoadTxDataEndOffSet_stored) (simp_all add: end_stored_def generateOffSetKey_def)
qed simp

end
