(* ===== verification/Offsets.thy ===== *)
theory Offsets
  imports Chunks
begin

text \<open>
  The allocation of offset ranges as a whole: each (dataRoot, dataSize) that syncAddTxDataEndOffset
  has recorded owns the offsets (end - size, end], the ranges of different pairs are disjoint, and
  allDataEndOffset is an upper bound of all of them. What breaks it: a failed read of
  allDataEndOffset, and a backend whose missing-key error is not ErrNotExist.
\<close>

subsection \<open>The specification\<close>

definition total_end :: "goar \<Rightarrow> kvdb \<Rightarrow> nat" where
  "total_end G d = (case fst (LoadAllDataEndOffset (cod G) d) of Ret v \<Rightarrow> unat v | _ \<Rightarrow> 0)"

definition size_of :: "string \<Rightarrow> nat" where
  "size_of dsize = (case ParseUint dsize of Ret sz \<Rightarrow> unat sz | _ \<Rightarrow> 0)"

definition end_of :: "goar \<Rightarrow> string \<times> string \<Rightarrow> kvdb \<Rightarrow> nat" where
  "end_of G p d = (case fst (LoadTxDataEndOffSet (cod G) (fst p) (snd p) d) of Ret e \<Rightarrow> unat e | _ \<Rightarrow> 0)"

text \<open>The offsets that the chunks of a recorded pair take.\<close>

definition range_of :: "goar \<Rightarrow> string \<times> string \<Rightarrow> kvdb \<Rightarrow> nat set" where
  "range_of G p d = {end_of G p d - size_of (snd p) <.. end_of G p d}"

definition key_of :: "goar \<Rightarrow> string \<times> string \<Rightarrow> string" where
  "key_of G p = generateOffSetKey (cod G) (fst p) (snd p)"

definition recorded :: "goar \<Rightarrow> string \<times> string \<Rightarrow> kvdb \<Rightarrow> bool" where
  "recorded G p d \<longleftrightarrow> (\<exists>e. end_stored G (fst p) (snd p) e d \<and> size_of (snd p) \<le> unat e \<and> unat e \<le> total_end G d)"

text \<open>What a store that holds exactly the pairs \<open>P\<close> looks like.\<close>

definition ranges_ok :: "goar \<Rightarrow> (string \<times> string) list \<Rightarrow> kvdb \<Rightarrow> bool" where
  "ranges_ok G P d \<longleftrightarrow> healthy d \<and> kv_kind d \<noteq> Mongo \<and> is_ret (fst (LoadAllDataEndOffset (cod G) d))
     \<and> (\<forall>k. kv_lookup d TxDataEndOffSetBucket k \<noteq> None \<longrightarrow> k \<in> set (map (key_of G) P))
     \<and> list_all (\<lambda>p. recorded G p d) P
     \<and> sorted_wrt (\<lambda>p q. range_of G p d \<inter> range_of G q d = {}) P"

fun addAll :: "goar \<Rightarrow> (string \<times> string) list \<Rightarrow> kvdb \<Rightarrow> unit go \<times> kvdb" where
  "addAll G [] d = (Ret (), d)"
| "addAll G (p # ps) d = bindG (syncAddTxDataEndOffset G (fst p) (snd p)) (\<lambda>_. addAll G ps) d"

lemma sorted_wrt_disjoint:
  "sorted_wrt (\<lambda>p q. f p \<inter> f q = {}) xs \<Longrightarrow> p \<in> set xs \<Longrightarrow> q \<in> set xs \<Longrightarrow> p \<noteq> q \<Longrightarrow> f p \<inter> f q = {}"
  by (induction xs) auto

subsection \<open>One allocation\<close>

lemma end_of_stored: "base64_ok (cod G) \<Longrightarrow> healthy d \<Longrightarrow> end_stored G (fst p) (snd p) e d \<Longrightarrow> end_of G p d = unat e"
  by (simp add: end_of_def)

lemma LoadAll_stored [simp]:
  "base64_ok E \<Longrightarrow> healthy d \<Longrightarrow> kv_lookup d ConstantsBucket all_end_key = Some (Bytes (itob E v))
    \<Longrightarrow> LoadAllDataEndOffset E d = (Ret v, d)"
  by (simp add: LoadAllDataEndOffset_def blob_empty_def btoi_blob_def)

lemma LoadAll_state: "healthy d \<Longrightarrow> snd (LoadAllDataEndOffset E d) = d"
proof -
  assume "healthy d"
  then have "snd (kv_get ConstantsBucket all_end_key d) = d"
    by (cases "kv_kind d") (auto simp: healthy_def kv_get_def bolt_get_def s3_get_def aliyun_get_def
      mongo_get_def split: option.splits)
  then show ?thesis
    by (cases "kv_get ConstantsBucket all_end_key d"; cases "fst (kv_get ConstantsBucket all_end_key d)")
      (auto simp: LoadAllDataEndOffset_def)
qed

lemma IsExistEnd_absent:
  assumes "healthy d" and "kv_kind d \<noteq> Mongo" and "kv_lookup d TxDataEndOffSetBucket (generateOffSetKey E root dsize) = None"
  shows "IsExistTxDataEndOffset E root dsize d = (Ret False, d)"
  using assms by (simp add: IsExistTxDataEndOffset_def LoadTxDataEndOffSet_def not_exist_err_def probe_def)

lemma IsExistEnd_stored:
  assumes "base64_ok (cod G)" and "healthy d" and "end_stored G root dsize e d"
  shows "IsExistTxDataEndOffset (cod G) root dsize d = (Ret True, d)"
  using assms by (simp add: IsExistTxDataEndOffset_def probe_def)

text \<open>The state after an allocation of a new pair.\<close>

definition allocated :: "codec \<Rightarrow> string \<Rightarrow> string \<Rightarrow> 64 word \<Rightarrow> kvdb \<Rightarrow> kvdb" where
  "allocated E root dsize new d = kv_store TxDataEndOffSetBucket (generateOffSetKey E root dsize) (Bytes (itob E new))
     (kv_store ConstantsBucket all_end_key (Bytes (itob E new)) d)"

lemma syncAdd_new:
  assumes "healthy d" and "kv_kind d \<noteq> Mongo" and "ParseUint dsize = Ret sz"
    and "kv_lookup d TxDataEndOffSetBucket (generateOffSetKey (cod G) root dsize) = None"
    and "fst (LoadAllDataEndOffset (cod G) d) = Ret cur"
  shows "syncAddTxDataEndOffset G root dsize d = (Ret (), allocated (cod G) root dsize (cur + sz) d)"
proof -
  have "LoadAllDataEndOffset (cod G) d = (Ret cur, d)"
    using LoadAll_state [OF assms(1), of "cod G"] assms(5) by (metis prod.collapse)
  with IsExistEnd_absent [OF assms(1,2,4)] assms(1,3) show ?thesis
    by (simp add: syncAddTxDataEndOffset_def bindG_def AtomicSyncDataEndOffset_def SaveAllDataEndOffset_def
      SaveTxDataEndOffSet_def allocated_def)
qed

lemma allocated_facts:
  assumes "base64_ok (cod G)" and "healthy d" and "key_of G p \<noteq> key_of G q"
  shows "healthy (allocated (cod G) (fst p) (snd p) v d)" and "kv_kind (allocated (cod G) (fst p) (snd p) v d) = kv_kind d"
    and "LoadAllDataEndOffset (cod G) (allocated (cod G) (fst p) (snd p) v d) = (Ret v, allocated (cod G) (fst p) (snd p) v d)"
    and "end_stored G (fst p) (snd p) v (allocated (cod G) (fst p) (snd p) v d)"
    and "end_stored G (fst q) (snd q) e (allocated (cod G) (fst p) (snd p) v d) = end_stored G (fst q) (snd q) e d"
  using assms by (auto simp: allocated_def end_stored_def key_of_def)

lemma range_above:
  assumes "unat e = t + n" and "E \<le> t"
  shows "{unat e - n <.. unat e} \<inter> {E - m <.. (E::nat)} = {}"
  using assms by auto

text \<open>Allocating one more pair keeps the ranges disjoint.\<close>

lemma syncAdd_ranges_ok:
  assumes E: "base64_ok (cod G)" and ok: "ranges_ok G P d" and sz: "ParseUint (snd p) = Ret sz"
    and new: "key_of G p \<notin> set (map (key_of G) P)" and room: "total_end G d + size_of (snd p) < 2 ^ 64"
  shows "\<exists>d1. syncAddTxDataEndOffset G (fst p) (snd p) d = (Ret (), d1) \<and> ranges_ok G (p # P) d1
    \<and> total_end G d1 = total_end G d + size_of (snd p) \<and> range_of G p d1 = {total_end G d <.. total_end G d1}
    \<and> (\<forall>q \<in> set P. range_of G q d1 = range_of G q d)"
proof -
  note r = ok [unfolded ranges_ok_def]
  obtain cur where cur: "fst (LoadAllDataEndOffset (cod G) d) = Ret cur"
    using r by (cases "fst (LoadAllDataEndOffset (cod G) d)") auto
  let ?d1 = "allocated (cod G) (fst p) (snd p) (cur + sz) d"
  have absent: "kv_lookup d TxDataEndOffSetBucket (generateOffSetKey (cod G) (fst p) (snd p)) = None"
    using r new by (auto simp: key_of_def)
  have sync: "syncAddTxDataEndOffset G (fst p) (snd p) d = (Ret (), ?d1)"
    using r sz absent cur by (intro syncAdd_new) auto
  have size: "size_of (snd p) = unat sz" "total_end G d = unat cur"
    using sz cur by (simp_all add: size_of_def total_end_def)
  have un: "unat (cur + sz) = unat cur + unat sz"
    using room size by (simp add: unat_word_ariths(1))
  have other: "key_of G p \<noteq> key_of G q" if "q \<in> set P" for q using new that by auto
  have healthy: "healthy ?d1" "kv_kind ?d1 = kv_kind d" using r by (auto simp: allocated_def)
  have tot: "total_end G ?d1 = unat cur + unat sz" "is_ret (fst (LoadAllDataEndOffset (cod G) ?d1))"
    using E r un by (simp_all add: allocated_def total_end_def)
  have endp: "end_of G p ?d1 = unat cur + unat sz" "recorded G p ?d1"
    using E healthy tot un size by (auto simp: end_of_def recorded_def allocated_def end_stored_def)
  have keep: "recorded G q ?d1" "end_of G q ?d1 = end_of G q d" "end_of G q d \<le> unat cur" if q: "q \<in> set P" for q
  proof -
    obtain e where e: "end_stored G (fst q) (snd q) e d" "size_of (snd q) \<le> unat e" "unat e \<le> unat cur"
      using r q size by (auto simp: list_all_iff recorded_def)
    have e1: "end_stored G (fst q) (snd q) e ?d1"
      using e(1) allocated_facts(5) [OF E _ other [OF q]] r by auto
    show "recorded G q ?d1" using e e1 tot by (auto simp: recorded_def)
    show "end_of G q ?d1 = end_of G q d" "end_of G q d \<le> unat cur"
      using e e1 end_of_stored [OF E healthy(1) e1] end_of_stored [OF E _ e(1)] r by auto
  qed
  have "range_of G p ?d1 \<inter> range_of G q ?d1 = {}" if "q \<in> set P" for q
    unfolding range_of_def using keep [OF that] endp size un range_above [of "cur + sz" "unat cur" "unat sz"]
    by simp
  moreover have "sorted_wrt (\<lambda>p q. range_of G p ?d1 \<inter> range_of G q ?d1 = {}) P"
  proof (rule sorted_wrt_mono_rel [rotated])
    show "sorted_wrt (\<lambda>p q. range_of G p d \<inter> range_of G q d = {}) P" using r by blast
  qed (simp add: range_of_def keep)
  moreover have "\<forall>k. kv_lookup ?d1 TxDataEndOffSetBucket k \<noteq> None \<longrightarrow> k \<in> set (map (key_of G) (p # P))"
    using r by (auto simp: allocated_def key_of_def)
  ultimately have "ranges_ok G (p # P) ?d1"
    using healthy r tot endp keep by (auto simp: ranges_ok_def list_all_iff)
  moreover have "range_of G p ?d1 = {unat cur <.. unat cur + unat sz}" using endp size by (simp add: range_of_def)
  moreover have "\<forall>q \<in> set P. range_of G q ?d1 = range_of G q d" using keep(2) by (simp add: range_of_def)
  ultimately show ?thesis using sync tot size by auto
qed

text \<open>The pairs of a sequence that are not recorded yet, each once.\<close>

fun new_pairs :: "(string \<times> string) list \<Rightarrow> (string \<times> string) list \<Rightarrow> (string \<times> string) list" where
  "new_pairs P [] = []"
| "new_pairs P (p # ps) = (if p \<in> set P then new_pairs P ps else p # new_pairs (p # P) ps)"

lemma set_new_pairs: "set (new_pairs P ps) \<union> set P = set ps \<union> set P"
  by (induction P ps rule: new_pairs.induct) auto

lemma sync_recorded:
  assumes "base64_ok (cod G)" and "ranges_ok G P d" and "p \<in> set P"
  shows "syncAddTxDataEndOffset G (fst p) (snd p) d = (Ret (), d)"
proof -
  have "recorded G p d" "healthy d" using assms(2,3) by (simp_all add: ranges_ok_def list_all_iff)
  then obtain e where "end_stored G (fst p) (snd p) e d" unfolding recorded_def by blast
  then show ?thesis using IsExistEnd_stored [OF assms(1) \<open>healthy d\<close>] by (simp add: syncAddTxDataEndOffset_def bindG_def)
qed

lemma addAll_ranges_ok:
  assumes "base64_ok (cod G)" and "ranges_ok G P d" and "inj_on (key_of G) (set (ps @ P))"
    and "\<forall>p \<in> set ps. \<exists>sz. ParseUint (snd p) = Ret sz"
    and "total_end G d + sum_list (map (\<lambda>p. size_of (snd p)) (new_pairs P ps)) < 2 ^ 64"
  shows "\<exists>d1. addAll G ps d = (Ret (), d1) \<and> ranges_ok G (rev (new_pairs P ps) @ P) d1
    \<and> total_end G d1 = total_end G d + sum_list (map (\<lambda>p. size_of (snd p)) (new_pairs P ps))
    \<and> (\<Union>p \<in> set (new_pairs P ps). range_of G p d1) = {total_end G d <.. total_end G d1}
    \<and> (\<forall>q \<in> set P. range_of G q d1 = range_of G q d)"
  using assms
proof (induction P ps arbitrary: d rule: new_pairs.induct)
  case (2 P p ps)
  show ?case
  proof (cases "p \<in> set P")
    case True
    then have "addAll G (p # ps) d = addAll G ps d" using sync_recorded [OF "2.prems"(1,2)] by (simp add: bindG_def)
    moreover have "inj_on (key_of G) (set (ps @ P))" using "2.prems"(3) by (rule inj_on_subset) auto
    ultimately show ?thesis using "2.IH"(1) [OF True "2.prems"(1,2)] "2.prems"(4,5) True by simp
  next
    case False
    from "2.prems" obtain sz where sz: "ParseUint (snd p) = Ret sz" by auto
    have "key_of G p \<notin> set (map (key_of G) P)" using "2.prems"(3) False by (auto simp: inj_on_def)
    with syncAdd_ranges_ok [OF "2.prems"(1,2) sz] "2.prems"(5) False
    obtain d1 where d1: "syncAddTxDataEndOffset G (fst p) (snd p) d = (Ret (), d1)" "ranges_ok G (p # P) d1"
      "total_end G d1 = total_end G d + size_of (snd p)" "range_of G p d1 = {total_end G d <.. total_end G d1}"
      "\<forall>q \<in> set P. range_of G q d1 = range_of G q d" by auto
    have "inj_on (key_of G) (set (ps @ p # P))" using "2.prems"(3) by (rule inj_on_subset) auto
    then obtain d2 where d2: "addAll G ps d1 = (Ret (), d2)" "ranges_ok G (rev (new_pairs (p # P) ps) @ p # P) d2"
      "total_end G d2 = total_end G d1 + sum_list (map (\<lambda>p. size_of (snd p)) (new_pairs (p # P) ps))"
      "(\<Union>p \<in> set (new_pairs (p # P) ps). range_of G p d2) = {total_end G d1 <.. total_end G d2}"
      "\<forall>q \<in> set (p # P). range_of G q d2 = range_of G q d1"
      using "2.IH"(2) [OF False "2.prems"(1) d1(2)] "2.prems"(4,5) d1(3) False by auto
    have "{total_end G d <.. total_end G d1} \<union> {total_end G d1 <.. total_end G d2} = {total_end G d <.. total_end G d2}"
      using d1(3) d2(3) by (intro ivl_disj_un_two) simp_all
    then show ?thesis using d1 d2 False by simp
  qed
qed simp

lemma ranges_ok_bound:
  assumes "base64_ok (cod G)" and "ranges_ok G P d" and "p \<in> set P"
  shows "end_of G p d \<le> total_end G d"
proof -
  have "recorded G p d" "healthy d" using assms(2,3) by (simp_all add: ranges_ok_def list_all_iff)
  then obtain e where "end_stored G (fst p) (snd p) e d" "unat e \<le> total_end G d"
    unfolding recorded_def by blast
  then show ?thesis using end_of_stored [OF assms(1) \<open>healthy d\<close>] by simp
qed

lemma ranges_ok_empty: "K \<noteq> Mongo \<Longrightarrow> ranges_ok G [] (empty_kv K [])"
  by (simp add: ranges_ok_def LoadAllDataEndOffset_def)

subsection \<open>Properties\<close>

text \<open>
  C11: on Bolt, S3 and Aliyun, while no request fails: starting from a store whose recorded ranges
  are disjoint and bounded by allDataEndOffset, any sequence of allocations with parsable sizes, of new and of recorded pairs
  and with repetitions, whose new sizes do not pass 2^64 in sum, succeeds when no two of the pairs have the same key. Afterwards the
  ranges of all pairs, old and new, are pairwise disjoint and bounded by allDataEndOffset; those of the new pairs are together
  exactly the offsets that allDataEndOffset has passed, and those of the old pairs are as before.
\<close>

theorem allocations_disjoint:
  assumes "base64_ok (cod G)" and "ranges_ok G P d" and "inj_on (key_of G) (set (ps @ P))"
    and "\<forall>p \<in> set ps. \<exists>sz. ParseUint (snd p) = Ret sz"
    and "total_end G d + sum_list (map (\<lambda>p. size_of (snd p)) (new_pairs P ps)) < 2 ^ 64"
  shows "\<exists>d1. addAll G ps d = (Ret (), d1) \<and> ranges_ok G (rev (new_pairs P ps) @ P) d1
    \<and> total_end G d1 = total_end G d + sum_list (map (\<lambda>p. size_of (snd p)) (new_pairs P ps))
    \<and> (\<forall>p \<in> set (ps @ P). \<forall>q \<in> set (ps @ P). p \<noteq> q \<longrightarrow> range_of G p d1 \<inter> range_of G q d1 = {})
    \<and> (\<forall>p \<in> set (ps @ P). end_of G p d1 \<le> total_end G d1)
    \<and> (\<Union>p \<in> set (new_pairs P ps). range_of G p d1) = {total_end G d <.. total_end G d1}
    \<and> (\<forall>q \<in> set P. range_of G q d1 = range_of G q d)"
proof -
  obtain d1 where d1: "addAll G ps d = (Ret (), d1)" "ranges_ok G (rev (new_pairs P ps) @ P) d1"
    "total_end G d1 = total_end G d + sum_list (map (\<lambda>p. size_of (snd p)) (new_pairs P ps))"
    "(\<Union>p \<in> set (new_pairs P ps). range_of G p d1) = {total_end G d <.. total_end G d1}"
    "\<forall>q \<in> set P. range_of G q d1 = range_of G q d"
    using addAll_ranges_ok [OF assms] by blast
  have all: "set (ps @ P) = set (rev (new_pairs P ps) @ P)" using set_new_pairs [of P ps] by simp
  have "range_of G p d1 \<inter> range_of G q d1 = {}" if "p \<in> set (ps @ P)" "q \<in> set (ps @ P)" "p \<noteq> q" for p q
    using d1(2) that sorted_wrt_disjoint [of "\<lambda>p. range_of G p d1" "rev (new_pairs P ps) @ P" p q]
    unfolding all ranges_ok_def by blast
  moreover have "end_of G p d1 \<le> total_end G d1" if "p \<in> set (ps @ P)" for p
    using ranges_ok_bound [OF assms(1) d1(2)] that unfolding all by blast
  ultimately show ?thesis using d1 by blast
qed

theorem allocations_disjoint_witness:
  "\<exists>d1. addAll plain_goar [(''root'', ''5''), (''toor'', ''7''), (''root'', ''5'')] (empty_kv S3 []) = (Ret (), d1)
     \<and> range_of plain_goar (''root'', ''5'') d1 \<inter> range_of plain_goar (''toor'', ''7'') d1 = {}
     \<and> range_of plain_goar (''root'', ''5'') d1 \<union> range_of plain_goar (''toor'', ''7'') d1 = {0 <.. total_end plain_goar d1}"
proof -
  let ?ps = "[(''root'', ''5''), (''toor'', ''7''), (''root'', ''5'')]"
  have "ranges_ok plain_goar [] (empty_kv S3 [])" by (rule ranges_ok_empty) simp
  moreover have "total_end plain_goar (empty_kv S3 []) = 0"
    by (simp add: total_end_def LoadAllDataEndOffset_def)
  moreover have "inj_on (key_of plain_goar) (set (?ps @ []))" by (auto simp: inj_on_def key_of_def generateOffSetKey_def)
  ultimately show ?thesis
    using allocations_disjoint [of plain_goar "[]" "empty_kv S3 []" ?ps] by (simp add: digits_eval size_of_def) blast
qed

text \<open>
  LoadAllDataEndOffset takes a failed read for an empty store. When, on Bolt, the one request
  that reads allDataEndOffset fails, syncAddTxDataEndOffset still returns nil, gives the new pair the
  range (0, size] and sets allDataEndOffset back to size: the range overlaps the range of the pair
  that was allocated first.
\<close>

theorem failed_total_read_overlaps:
  assumes E: "base64_ok (cod G)" and d: "kv_kind d = Bolt" "kv_faults d = [NoFault, f]" "f \<noteq> NoFault"
    and sz: "ParseUint (snd p) = Ret sz" "0 < sz"
    and absent: "kv_lookup d TxDataEndOffSetBucket (key_of G p) = None"
    and q: "end_stored G (fst q) (snd q) e d" "unat e = size_of (snd q)" "0 < size_of (snd q)"
  shows "\<exists>d1. syncAddTxDataEndOffset G (fst p) (snd p) d = (Ret (), d1)
    \<and> end_of G p d1 = unat sz \<and> total_end G d1 = unat sz \<and> range_of G p d1 \<inter> range_of G q d1 \<noteq> {}"
proof -
  let ?d = "d\<lparr>kv_faults := []\<rparr>"
  let ?d1 = "allocated (cod G) (fst p) (snd p) sz ?d"
  have h: "healthy ?d" by (simp add: healthy_def)
  have look: "kv_lookup (d\<lparr>kv_faults := fs\<rparr>) = kv_lookup d" for fs by (simp add: kv_lookup_def fun_eq_iff)
  have 1: "IsExistTxDataEndOffset (cod G) (fst p) (snd p) d = (Ret False, d\<lparr>kv_faults := [f]\<rparr>)"
    using d absent by (simp add: IsExistTxDataEndOffset_def LoadTxDataEndOffSet_def kv_get_def bolt_get_def
      tick_def look bindG_def probe_def key_of_def)
  have 2: "LoadAllDataEndOffset (cod G) (d\<lparr>kv_faults := [f]\<rparr>) = (Ret 0, ?d)"
    using d by (cases f) (simp_all add: LoadAllDataEndOffset_def kv_get_def bolt_get_def tick_def)
  have sync: "syncAddTxDataEndOffset G (fst p) (snd p) d = (Ret (), ?d1)"
    using 1 2 sz h by (simp add: syncAddTxDataEndOffset_def bindG_def AtomicSyncDataEndOffset_def SaveAllDataEndOffset_def
      SaveTxDataEndOffSet_def allocated_def)
  have ne: "key_of G p \<noteq> key_of G q" using absent q(1) by (auto simp: key_of_def end_stored_def)
  have stq: "end_stored G (fst q) (snd q) e ?d" using q(1) by (simp add: end_stored_def look)
  note f1 = allocated_facts [OF E h ne, where v = sz]
  have ends: "end_of G p ?d1 = unat sz" "end_of G q ?d1 = unat e" "total_end G ?d1 = unat sz"
    using f1(3-5) stq end_of_stored [OF E f1(1), of p sz] end_of_stored [OF E f1(1), of q e]
    by (simp_all add: total_end_def)
  have "0 < unat sz" using sz(2) by (simp add: word_less_nat_alt)
  then have "1 \<in> range_of G p ?d1 \<inter> range_of G q ?d1"
    using q sz ends by (auto simp: range_of_def size_of_def)
  with sync ends show ?thesis by blast
qed

theorem failed_total_read_overlaps_witness:
  "\<exists>d1. syncAddTxDataEndOffset plain_goar ''toor'' ''7''
      ((kv_store TxDataEndOffSetBucket ''root5'' (Bytes (itob plain_codec 5)) (empty_kv Bolt []))\<lparr>kv_faults := [NoFault, NetFault]\<rparr>)
      = (Ret (), d1)
    \<and> range_of plain_goar (''toor'', ''7'') d1 \<inter> range_of plain_goar (''root'', ''5'') d1 \<noteq> {}"
proof -
  let ?d = "(kv_store TxDataEndOffSetBucket ''root5'' (Bytes (itob plain_codec 5)) (empty_kv Bolt []))\<lparr>kv_faults := [NoFault, NetFault]\<rparr>"
  have look: "kv_lookup (d\<lparr>kv_faults := fs\<rparr>) = kv_lookup d" for d fs by (simp add: kv_lookup_def fun_eq_iff)
  show ?thesis
    using failed_total_read_overlaps [of plain_goar ?d NetFault "(''toor'', ''7'')" 7 "(''root'', ''5'')" 5]
    by (simp add: key_of_def generateOffSetKey_def digits_eval size_of_def end_stored_def look) blast
qed

end
