(* ===== verification/TaskManager.thy ===== *)
theory TaskManager
  imports Store
begin

text \<open>
  taskmanager.go: the table of running tasks, keyed by the lower-case task type and the ArId, and the
  loops that ask one peer after the other. Every operation holds the lock for its whole body, so
  each one is an atomic step on the table; between two of them the other goroutines run.
\<close>

type_synonym task_map = "(string \<times> task) list"

subsection \<open>Task ids\<close>

definition assembleTaskId :: "string \<Rightarrow> string \<Rightarrow> string" where
  "assembleTaskId arid taskType = ToLower taskType @ ''-'' @ arid"

definition taskid_err :: err where "taskid_err = ErrMsg ''taskId incorrect''"

definition splitTaskId :: "string \<Rightarrow> (string \<times> string) go" where
  "splitTaskId taskId = (case SplitN2 (CHR ''-'') taskId of
      [taskType, arid] \<Rightarrow> Ret (arid, taskType)
    | _ \<Rightarrow> Err taskid_err)"

subsection \<open>The table\<close>

definition new_task :: "string \<Rightarrow> string \<Rightarrow> task" where
  "new_task arid taskType = \<lparr>ArId = arid, TaskType = taskType, CountSuccessed = 0, CountFailed = 0,
     TotalPeer = 0, Timestamp = 0, Close = False\<rparr>"

definition AddTask :: "string \<Rightarrow> string \<Rightarrow> task_map \<Rightarrow> task_map" where
  "AddTask arid taskType m = (let id' = assembleTaskId arid taskType in
     if map_of m id' \<noteq> None then m else al_put id' (new_task arid taskType) m)"

definition DelTask :: "string \<Rightarrow> string \<Rightarrow> task_map \<Rightarrow> task_map" where
  "DelTask arid taskType m = al_del (assembleTaskId arid taskType) m"

definition IncSuccessed :: "string \<Rightarrow> string \<Rightarrow> task_map \<Rightarrow> task_map" where
  "IncSuccessed arid taskType m = (let id' = assembleTaskId arid taskType in
     case map_of m id' of None \<Rightarrow> m
     | Some t \<Rightarrow> al_put id' (t\<lparr>CountSuccessed := i64 (CountSuccessed t + 1)\<rparr>) m)"

definition IncFailed :: "string \<Rightarrow> string \<Rightarrow> task_map \<Rightarrow> task_map" where
  "IncFailed arid taskType m = (let id' = assembleTaskId arid taskType in
     case map_of m id' of None \<Rightarrow> m
     | Some t \<Rightarrow> al_put id' (t\<lparr>CountFailed := i64 (CountFailed t + 1)\<rparr>) m)"

text \<open>\<open>now\<close> is the clock, in seconds.\<close>

definition TaskBeginSet :: "int \<Rightarrow> string \<Rightarrow> string \<Rightarrow> int \<Rightarrow> task_map \<Rightarrow> unit go \<times> task_map" where
  "TaskBeginSet now arid taskType totalPeer m = (let id' = assembleTaskId arid taskType in
     case map_of m id' of None \<Rightarrow> (Err ErrNotFound, m)
     | Some t \<Rightarrow> (Ret (), al_put id' (t\<lparr>Timestamp := now, TotalPeer := totalPeer\<rparr>) m))"

definition GetTask :: "string \<Rightarrow> string \<Rightarrow> task_map \<Rightarrow> task option" where
  "GetTask arid taskType m = map_of m (assembleTaskId arid taskType)"

definition CloseTask :: "string \<Rightarrow> string \<Rightarrow> task_map \<Rightarrow> unit go \<times> task_map" where
  "CloseTask arid taskType m = (let id' = assembleTaskId arid taskType in
     case map_of m id' of None \<Rightarrow> (Err ErrNotFound, m)
     | Some t \<Rightarrow> (Ret (), al_put id' (t\<lparr>Close := True\<rparr>) m))"

definition IsClosed :: "string \<Rightarrow> string \<Rightarrow> task_map \<Rightarrow> bool" where
  "IsClosed arid taskType m = (case map_of m (assembleTaskId arid taskType) of None \<Rightarrow> False | Some t \<Rightarrow> Close t)"

definition GetTasks :: "task_map \<Rightarrow> (string \<times> task) list" where
  "GetTasks m = m"

text \<open>InitTaskMg fills the table and starts one sender per task; the ids are what they will send.\<close>

fun addPending :: "string list \<Rightarrow> task_map \<Rightarrow> task_map \<times> string list" where
  "addPending [] m = (m, [])"
| "addPending (tkId # ids) m = (case splitTaskId tkId of
      Ret (arId, tkType) \<Rightarrow> (case addPending ids (AddTask arId tkType m) of
         (m1, q) \<Rightarrow> (m1, assembleTaskId arId tkType # q))
    | _ \<Rightarrow> addPending ids m)"

definition InitTaskMg :: "kvdb \<Rightarrow> task_map \<Rightarrow> unit go \<times> kvdb \<times> task_map \<times> string list" where
  "InitTaskMg d m = (case LoadAllPendingTaskIds d of
      (Ret taskIds, d1) \<Rightarrow> (case addPending taskIds m of (m1, q) \<Rightarrow> (Ret (), d1, m1, q))
    | (Err e, d1) \<Rightarrow> (Err e, d1, m, [])
    | (Panic p, d1) \<Rightarrow> (Panic p, d1, m, []))"

subsection \<open>The peers\<close>

text \<open>
  What the gateway and the peers answer, and \<open>other p\<close>: what the other goroutines do to the table
  while peer \<open>p\<close> answers.
\<close>

record net =
  gw_tx :: "string \<Rightarrow> transaction go"
  gw_data :: "string \<Rightarrow> string go"
  peer_tx :: "string \<Rightarrow> string \<Rightarrow> transaction go"
  peer_data :: "string \<Rightarrow> string \<Rightarrow> string go"
  peer_submit :: "string \<Rightarrow> transaction \<Rightarrow> string \<times> int"
  peer_uploader :: "string \<Rightarrow> transaction \<Rightarrow> err option"
  peer_once :: "string \<Rightarrow> transaction \<Rightarrow> err option"
  other :: "string \<Rightarrow> task_map \<Rightarrow> task_map"

datatype request = Submit string transaction | Upload string transaction

definition unconfirmed_err :: err where "unconfirmed_err = ErrMsg ''get unconfirmed tx failed''"

fun GetUnconfirmedTxFromPeers :: "net \<Rightarrow> string \<Rightarrow> string \<Rightarrow> string list \<Rightarrow> task_map \<Rightarrow> transaction go \<times> task_map" where
  "GetUnconfirmedTxFromPeers N arId taskType [] m = (Err unconfirmed_err, m)"
| "GetUnconfirmedTxFromPeers N arId taskType (peer # peers) m =
     (if IsClosed arId taskType m then (Err ErrTaskClosed, m)
      else let m1 = other N peer m in
        case peer_tx N peer arId of
          Ret tx \<Rightarrow> (Ret tx, m1)
        | Panic p \<Rightarrow> (Panic p, m1)
        | Err _ \<Rightarrow> GetUnconfirmedTxFromPeers N arId taskType peers m1)"

fun GetTxDataFromPeers :: "net \<Rightarrow> string \<Rightarrow> string \<Rightarrow> string list \<Rightarrow> task_map \<Rightarrow> string go \<times> task_map" where
  "GetTxDataFromPeers N arId taskType [] m = (Err ErrFetchData, m)"
| "GetTxDataFromPeers N arId taskType (peer # peers) m =
     (if IsClosed arId taskType m then (Err ErrTaskClosed, m)
      else let m1 = other N peer m in
        case peer_data N peer arId of
          Ret data \<Rightarrow> (Ret data, IncSuccessed arId taskType m1)
        | Panic p \<Rightarrow> (Panic p, m1)
        | Err _ \<Rightarrow> GetTxDataFromPeers N arId taskType peers (IncFailed arId taskType m1))"

definition mempool_msg :: string where "mempool_msg = ''Transaction is already in the mempool.''"

definition accepted :: "string \<times> int \<Rightarrow> bool" where
  "accepted r \<longleftrightarrow> snd r = 200 \<or> snd r = 208 \<or> Contains (fst r) mempool_msg"

fun BroadcastTxMeta :: "net \<Rightarrow> string \<Rightarrow> string \<Rightarrow> transaction \<Rightarrow> string list \<Rightarrow> task_map \<Rightarrow> request list \<times> task_map" where
  "BroadcastTxMeta N arId taskType tx [] m = ([], snd (CloseTask arId taskType m))"
| "BroadcastTxMeta N arId taskType tx (peer # peers) m =
     (let req = Submit peer (tx\<lparr>tx_Data := []\<rparr>);
          m1 = other N peer m;
          m2 = (if accepted (peer_submit N peer (tx\<lparr>tx_Data := []\<rparr>)) then IncSuccessed arId taskType m1
                else IncFailed arId taskType m1)
      in if IsClosed arId taskType m2 then ([req], m2)
         else case BroadcastTxMeta N arId taskType tx peers m2 of (rs, m3) \<Rightarrow> (req # rs, m3))"

text \<open>A peer for which no uploader can be made is skipped, the check of Close with it.\<close>

fun BroadcastData :: "net \<Rightarrow> string \<Rightarrow> string \<Rightarrow> transaction \<Rightarrow> string list \<Rightarrow> bool \<Rightarrow> task_map \<Rightarrow> request list \<times> task_map" where
  "BroadcastData N arId taskType tx [] txPosted m = ([], snd (CloseTask arId taskType m))"
| "BroadcastData N arId taskType tx (peer # peers) txPosted m =
     (let m1 = other N peer m in
      case peer_uploader N peer tx of
        Some _ \<Rightarrow> BroadcastData N arId taskType tx peers txPosted (IncFailed arId taskType m1)
      | None \<Rightarrow>
          let reqs = (if txPosted then [] else [Submit peer (tx\<lparr>tx_Data := []\<rparr>)]) @ [Upload peer tx];
              m2 = (case peer_once N peer tx of Some _ \<Rightarrow> IncFailed arId taskType m1
                    | None \<Rightarrow> IncSuccessed arId taskType m1)
          in if IsClosed arId taskType m2 then (reqs, m2)
             else case BroadcastData N arId taskType tx peers txPosted m2 of (rs, m3) \<Rightarrow> (reqs @ rs, m3))"

subsection \<open>jobs.go: tasks that run too long\<close>

fun closeOverdue :: "int \<Rightarrow> (string \<times> task) list \<Rightarrow> task_map \<Rightarrow> task_map" where
  "closeOverdue now [] m = m"
| "closeOverdue now ((i, tk) # tks) m =
     closeOverdue now tks (if Close tk \<or> Timestamp tk = 0 then m
       else if i64 (now - Timestamp tk) > 30 * 60 then snd (CloseTask (ArId tk) (TaskType tk) m) else m)"

definition watcherAndCloseTasks :: "int \<Rightarrow> task_map \<Rightarrow> task_map" where
  "watcherAndCloseTasks now m = closeOverdue now (GetTasks m) m"

subsection \<open>api.go: the task endpoints\<close>

definition task_types :: string where
  "task_types = TaskTypeSync @ TaskTypeBroadcast @ TaskTypeBroadcastMeta @ TaskTypeSyncManifest"

definition kill_types :: string where
  "kill_types = TaskTypeSync @ TaskTypeBroadcast @ TaskTypeBroadcastMeta"

definition valid_arid :: "codec \<Rightarrow> string \<Rightarrow> bool" where
  "valid_arid E arid \<longleftrightarrow> (case b64dec E arid of Some h \<Rightarrow> length h = 32 | None \<Rightarrow> False)"

definition arid_err :: err where "arid_err = ErrMsg ''arId incorrect''"
definition tktype_err :: err where "tktype_err = ErrMsg ''tktype not exist''"

text \<open>The store, the table and the ids that senders hold for the task channel.\<close>

record tasking =
  tk_store :: kvdb
  tk_map :: task_map
  tk_chan :: "string list"

definition registerTask :: "string \<Rightarrow> string \<Rightarrow> tasking \<Rightarrow> unit go \<times> tasking" where
  "registerTask arId tktype s = (let m1 = AddTask arId tktype (tk_map s) in
     case PutTaskPendingPool (assembleTaskId arId tktype) (tk_store s) of
       (Ret _, d1) \<Rightarrow> (Ret (), s\<lparr>tk_store := d1, tk_map := m1, tk_chan := tk_chan s @ [assembleTaskId arId tktype]\<rparr>)
     | (Err e, d1) \<Rightarrow> (Err e, s\<lparr>tk_store := d1, tk_map := DelTask arId tktype m1\<rparr>)
     | (Panic p, d1) \<Rightarrow> (Panic p, s\<lparr>tk_store := d1, tk_map := m1\<rparr>))"

definition postTask :: "codec \<Rightarrow> string \<Rightarrow> string \<Rightarrow> tasking \<Rightarrow> unit go \<times> tasking" where
  "postTask E arid tkType s =
     (if \<not> valid_arid E arid then (Err arid_err, s)
      else if \<not> Contains task_types tkType then (Err tktype_err, s)
      else registerTask arid tkType s)"

definition killTask :: "codec \<Rightarrow> string \<Rightarrow> string \<Rightarrow> tasking \<Rightarrow> unit go \<times> tasking" where
  "killTask E arid tktype s =
     (if \<not> Contains kill_types tktype then (Err tktype_err, s)
      else if \<not> valid_arid E arid then (Err arid_err, s)
      else case CloseTask arid tktype (tk_map s) of (r, m1) \<Rightarrow> (r, s\<lparr>tk_map := m1\<rparr>))"

definition getTask :: "codec \<Rightarrow> string \<Rightarrow> string \<Rightarrow> tasking \<Rightarrow> task go \<times> tasking" where
  "getTask E arid tktype s =
     (if \<not> Contains task_types tktype then (Err tktype_err, s)
      else if \<not> valid_arid E arid then (Err arid_err, s)
      else case GetTask arid tktype (tk_map s) of
          Some tk \<Rightarrow> (Ret tk, s)
        | None \<Rightarrow> (case LoadTask (assembleTaskId arid tktype) (tk_store s) of (r, d1) \<Rightarrow> (r, s\<lparr>tk_store := d1\<rparr>)))"

subsection \<open>task.go: the end of a task\<close>

definition setProcessedTask :: "string \<Rightarrow> string \<Rightarrow> tasking \<Rightarrow> unit go \<times> tasking" where
  "setProcessedTask arId tktype s = (let taskId = assembleTaskId arId tktype;
       saved = (case GetTask arId tktype (tk_map s) of
           Some tk \<Rightarrow> SaveTask taskId tk (tk_store s) | None \<Rightarrow> (Ret (), tk_store s))
     in case saved of
         (Ret _, d1) \<Rightarrow> (case DelPendingPoolTaskId taskId d1 of
             (r, d2) \<Rightarrow> (r, s\<lparr>tk_store := d2, tk_map := DelTask arId tktype (tk_map s)\<rparr>))
       | (Err e, d1) \<Rightarrow> (Err e, s\<lparr>tk_store := d1\<rparr>)
       | (Panic p, d1) \<Rightarrow> (Panic p, s\<lparr>tk_store := d1\<rparr>))"

subsection \<open>Ids of accepted types\<close>

lemma accepted_type:
  assumes "Contains task_types ty"
  shows "CHR ''-'' \<notin> set ty" and "ToLower ty = ty"
proof -
  have "list_all (\<lambda>c. c \<noteq> CHR ''-'' \<and> lower_char c = c) task_types"
    by (simp add: task_types_def task_type_defs lower_char_def)
  moreover obtain u v where uv: "task_types = u @ ty @ v" using assms by (auto simp: Contains_iff)
  have "set ty \<subseteq> set task_types" by (subst uv) auto
  ultimately have *: "\<forall>c \<in> set ty. c \<noteq> CHR ''-'' \<and> lower_char c = c" by (auto simp: list_all_iff)
  then show "CHR ''-'' \<notin> set ty" by blast
  show "ToLower ty = ty" using * by (simp add: ToLower_def map_idI)
qed

lemma splitTaskId_assemble:
  "CHR ''-'' \<notin> set (ToLower ty) \<Longrightarrow> splitTaskId (assembleTaskId arid ty) = Ret (arid, ToLower ty)"
  by (simp add: splitTaskId_def assembleTaskId_def)

lemma splitTaskId_Ret:
  assumes "splitTaskId i = Ret (arid, ty)"
  shows "i = ty @ ''-'' @ arid" and "CHR ''-'' \<notin> set ty"
  using assms SplitN2_cases [of "CHR ''-''" i] by (auto simp: splitTaskId_def)

lemma assembleTaskId_lower: "assembleTaskId a (ToLower ty) = assembleTaskId a ty"
  by (simp add: assembleTaskId_def)

lemma assembleTaskId_eq:
  assumes "Contains task_types t" and "Contains task_types t'"
  shows "assembleTaskId a t = assembleTaskId a' t' \<longleftrightarrow> a = a' \<and> t = t'"
  using accepted_type [OF assms(1)] accepted_type [OF assms(2)] splitTaskId_assemble [of t a]
    splitTaskId_assemble [of t' a'] by (metis go.inject(1) prod.inject)

subsection \<open>The table as a map\<close>

definition tm_put :: "string \<Rightarrow> string \<Rightarrow> (task \<Rightarrow> task) \<Rightarrow> (string \<rightharpoonup> task) \<Rightarrow> (string \<rightharpoonup> task)" where
  "tm_put arid ty f M = (\<lambda>k. if k = assembleTaskId arid ty then map_option f (M k) else M k)"

definition succ1 :: "task \<Rightarrow> task" where "succ1 t = t\<lparr>CountSuccessed := i64 (CountSuccessed t + 1)\<rparr>"
definition fail1 :: "task \<Rightarrow> task" where "fail1 t = t\<lparr>CountFailed := i64 (CountFailed t + 1)\<rparr>"
definition close1 :: "task \<Rightarrow> task" where "close1 t = t\<lparr>Close := True\<rparr>"

named_theorems tm_maps

lemma AddTask_map [tm_maps]: "map_of (AddTask a ty m) = (case map_of m (assembleTaskId a ty) of
    None \<Rightarrow> (map_of m)(assembleTaskId a ty \<mapsto> new_task a ty) | Some _ \<Rightarrow> map_of m)"
  by (auto simp: AddTask_def Let_def split: option.splits)

lemma DelTask_map [tm_maps]: "map_of (DelTask a ty m) = (map_of m)(assembleTaskId a ty := None)"
  by (simp add: DelTask_def)

lemma IncSuccessed_map [tm_maps]: "map_of (IncSuccessed a ty m) = tm_put a ty succ1 (map_of m)"
  by (auto simp: IncSuccessed_def tm_put_def succ1_def Let_def fun_eq_iff split: option.splits)

lemma IncFailed_map [tm_maps]: "map_of (IncFailed a ty m) = tm_put a ty fail1 (map_of m)"
  by (auto simp: IncFailed_def tm_put_def fail1_def Let_def fun_eq_iff split: option.splits)

lemma CloseTask_map [tm_maps]: "map_of (snd (CloseTask a ty m)) = tm_put a ty close1 (map_of m)"
  by (auto simp: CloseTask_def tm_put_def close1_def Let_def fun_eq_iff split: option.splits)

lemma TaskBeginSet_map [tm_maps]:
  "map_of (snd (TaskBeginSet now a ty n m)) = tm_put a ty (\<lambda>t. t\<lparr>Timestamp := now, TotalPeer := n\<rparr>) (map_of m)"
  by (auto simp: TaskBeginSet_def tm_put_def Let_def fun_eq_iff split: option.splits)

lemma CloseTask_result: "fst (CloseTask a ty m) = (if GetTask a ty m = None then Err ErrNotFound else Ret ())"
  by (auto simp: CloseTask_def GetTask_def Let_def split: option.splits)

subsection \<open>The steps of the table\<close>

inductive tm_step :: "task_map \<Rightarrow> task_map \<Rightarrow> bool" where
  add: "tm_step m (AddTask a ty m)"
| del: "tm_step m (DelTask a ty m)"
| succeed: "tm_step m (IncSuccessed a ty m)"
| fail: "tm_step m (IncFailed a ty m)"
| start: "TaskBeginSet now a ty n m = (r, m1) \<Longrightarrow> tm_step m m1"
| close: "CloseTask a ty m = (r, m1) \<Longrightarrow> tm_step m m1"

definition tm_reachable :: "task_map \<Rightarrow> bool" where
  "tm_reachable m \<longleftrightarrow> tm_step\<^sup>*\<^sup>* [] m"

text \<open>Every entry is stored under its own id, and the keys are in order.\<close>

definition tm_ok :: "task_map \<Rightarrow> bool" where
  "tm_ok m \<longleftrightarrow> al_sorted m \<and> (\<forall>k t. map_of m k = Some t \<longrightarrow> k = assembleTaskId (ArId t) (TaskType t))"

lemma tm_ok_put: "tm_ok m \<Longrightarrow> k = assembleTaskId (ArId t) (TaskType t) \<Longrightarrow> tm_ok (al_put k t m)"
  by (auto simp: tm_ok_def)

lemma tm_ok_entry: "tm_ok m \<Longrightarrow> map_of m k = Some t \<Longrightarrow> k = assembleTaskId (ArId t) (TaskType t)"
  by (simp add: tm_ok_def)

lemma tm_step_ok: "tm_step m m1 \<Longrightarrow> tm_ok m \<Longrightarrow> tm_ok m1"
proof (induction rule: tm_step.induct)
  case (del m a ty)
  then show ?case by (auto simp: tm_ok_def DelTask_def)
qed (auto simp: AddTask_def IncSuccessed_def IncFailed_def TaskBeginSet_def CloseTask_def new_task_def Let_def
      intro!: tm_ok_put dest: tm_ok_entry split: option.splits)

lemma tm_step_closed: "tm_step m m1 \<Longrightarrow> IsClosed a ty m \<Longrightarrow> IsClosed a ty m1 \<or> GetTask a ty m1 = None"
proof (induction rule: tm_step.induct)
  case (start now a' ty' n m r m1)
  then have "map_of m1 = tm_put a' ty' (\<lambda>t. t\<lparr>Timestamp := now, TotalPeer := n\<rparr>) (map_of m)"
    using TaskBeginSet_map [of now a' ty' n m] by simp
  with start show ?case by (auto simp: IsClosed_def tm_put_def split: option.splits)
next
  case (close a' ty' m r m1)
  then have "map_of m1 = tm_put a' ty' close1 (map_of m)"
    using CloseTask_map [of a' ty' m] by simp
  with close show ?case by (auto simp: IsClosed_def tm_put_def close1_def split: option.splits)
qed (auto simp: IsClosed_def GetTask_def tm_maps tm_put_def succ1_def fail1_def split: option.splits)

subsection \<open>The loops over the peers\<close>

text \<open>While the peer answers, the other goroutines leave the task alone, or close it.\<close>

definition quiet_at :: "net \<Rightarrow> string \<Rightarrow> string \<Rightarrow> string \<Rightarrow> bool" where
  "quiet_at N a ty p \<longleftrightarrow> (\<forall>m. map_of (other N p m) (assembleTaskId a ty) = map_of m (assembleTaskId a ty))"

definition kills_at :: "net \<Rightarrow> string \<Rightarrow> string \<Rightarrow> string \<Rightarrow> bool" where
  "kills_at N a ty p \<longleftrightarrow> (\<forall>m. map_of (other N p m) (assembleTaskId a ty)
     = map_option close1 (map_of m (assembleTaskId a ty)))"

definition bump :: "nat \<Rightarrow> nat \<Rightarrow> task \<Rightarrow> task" where
  "bump s f t = t\<lparr>CountSuccessed := i64 (CountSuccessed t + int s), CountFailed := i64 (CountFailed t + int f)\<rparr>"

lemma bump_simps [simp]:
  "task_wf t \<Longrightarrow> bump 0 0 t = t" "task_wf t \<Longrightarrow> task_wf (bump s f t)"
  "Close (bump s f t) = Close t" "bump s f (bump s' f' t) = bump (s' + s) (f' + f) t"
  by (simp_all add: bump_def task_wf_def add.assoc)

lemma succ1_bump: "task_wf t \<Longrightarrow> succ1 t = bump 1 0 t" and fail1_bump: "task_wf t \<Longrightarrow> fail1 t = bump 0 1 t"
  by (simp_all add: bump_def succ1_def fail1_def task_wf_def)

lemma close1_simps [simp]: "Close (close1 t)" "bump s f (close1 t) = close1 (bump s f t)"
  "task_wf (close1 t) = task_wf t" "close1 (close1 t) = close1 t"
  by (simp_all add: close1_def bump_def task_wf_def)

definition meta_of :: "transaction \<Rightarrow> transaction" where "meta_of tx = tx\<lparr>tx_Data := []\<rparr>"

definition accepts_meta :: "net \<Rightarrow> transaction \<Rightarrow> string \<Rightarrow> bool" where
  "accepts_meta N tx p = accepted (peer_submit N p (meta_of tx))"

definition count :: "('a \<Rightarrow> bool) \<Rightarrow> 'a list \<Rightarrow> nat" where
  "count P xs = length (filter P xs)"

lemma count_simps [simp]: "count P [] = 0" "count P (x # xs) = (if P x then Suc (count P xs) else count P xs)"
  "count P (xs @ ys) = count P xs + count P ys"
  by (simp_all add: count_def)

lemma IsClosed_entry: "map_of m (assembleTaskId a ty) = Some t \<Longrightarrow> IsClosed a ty m = Close t"
  by (simp add: IsClosed_def)

text \<open>The table after peer \<open>p\<close>'s answer was counted.\<close>

definition after_meta :: "net \<Rightarrow> string \<Rightarrow> string \<Rightarrow> transaction \<Rightarrow> string \<Rightarrow> task_map \<Rightarrow> task_map" where
  "after_meta N a ty tx p m = (if accepts_meta N tx p then IncSuccessed a ty (other N p m) else IncFailed a ty (other N p m))"

lemma BroadcastTxMeta_Cons:
  "BroadcastTxMeta N a ty tx (p # ps) m = (let m2 = after_meta N a ty tx p m in
     if IsClosed a ty m2 then ([Submit p (meta_of tx)], m2)
     else case BroadcastTxMeta N a ty tx ps m2 of (rs, m3) \<Rightarrow> (Submit p (meta_of tx) # rs, m3))"
  by (simp add: after_meta_def accepts_meta_def meta_of_def Let_def)

lemma after_meta_entry:
  assumes "map_of m (assembleTaskId a ty) = Some t" and "task_wf t"
  shows "quiet_at N a ty p \<Longrightarrow> map_of (after_meta N a ty tx p m) (assembleTaskId a ty)
      = Some (bump (if accepts_meta N tx p then 1 else 0) (if accepts_meta N tx p then 0 else 1) t)"
    and "kills_at N a ty p \<Longrightarrow> map_of (after_meta N a ty tx p m) (assembleTaskId a ty)
      = Some (close1 (bump (if accepts_meta N tx p then 1 else 0) (if accepts_meta N tx p then 0 else 1) t))"
  using assms by (auto simp: after_meta_def quiet_at_def kills_at_def tm_maps tm_put_def succ1_bump fail1_bump)

lemma BroadcastTxMeta_run:
  assumes "map_of m (assembleTaskId a ty) = Some t" and "task_wf t" and "\<not> Close t"
    and "\<forall>p \<in> set ps. quiet_at N a ty p" and "ks = [] \<or> kills_at N a ty (hd ks)"
  shows "fst (BroadcastTxMeta N a ty tx (ps @ ks) m) = map (\<lambda>p. Submit p (meta_of tx)) (ps @ take 1 ks)"
    and "map_of (snd (BroadcastTxMeta N a ty tx (ps @ ks) m)) (assembleTaskId a ty)
      = Some (close1 (bump (count (accepts_meta N tx) (ps @ take 1 ks))
          (count (\<lambda>p. \<not> accepts_meta N tx p) (ps @ take 1 ks)) t))"
  using assms
proof (induction ps arbitrary: m t)
  case Nil
  {
    case 1
    then show ?case
      by (cases ks) (simp_all add: BroadcastTxMeta_Cons Let_def IsClosed_entry [OF after_meta_entry(2)] del: BroadcastTxMeta.simps(2))
  next
    case 2
    then show ?case
      using after_meta_entry(2) [OF 2(1,2), of N "hd ks" tx]
      by (cases ks) (simp_all add: BroadcastTxMeta_Cons Let_def IsClosed_entry tm_maps tm_put_def del: BroadcastTxMeta.simps(2))
  }
next
  case (Cons p ps)
  {
    case 1
    let ?m = "after_meta N a ty tx p m"
    have e: "map_of ?m (assembleTaskId a ty) = Some (bump (if accepts_meta N tx p then 1 else 0) (if accepts_meta N tx p then 0 else 1) t)"
      using 1 after_meta_entry(1) by simp
    have "fst (BroadcastTxMeta N a ty tx (ps @ ks) ?m) = map (\<lambda>p. Submit p (meta_of tx)) (ps @ take 1 ks)"
      using 1 by (intro Cons.IH(1) [OF e]) auto
    then show ?case
      using e 1 by (simp add: BroadcastTxMeta_Cons Let_def IsClosed_entry [OF e] split_beta del: BroadcastTxMeta.simps(2))
  next
    case 2
    let ?m = "after_meta N a ty tx p m"
    have e: "map_of ?m (assembleTaskId a ty) = Some (bump (if accepts_meta N tx p then 1 else 0) (if accepts_meta N tx p then 0 else 1) t)"
      using 2 after_meta_entry(1) by simp
    have "map_of (snd (BroadcastTxMeta N a ty tx (ps @ ks) ?m)) (assembleTaskId a ty)
      = Some (close1 (bump (count (accepts_meta N tx) (ps @ take 1 ks)) (count (\<lambda>p. \<not> accepts_meta N tx p) (ps @ take 1 ks))
          (bump (if accepts_meta N tx p then 1 else 0) (if accepts_meta N tx p then 0 else 1) t)))"
      using 2 by (intro Cons.IH(2) [OF e]) auto
    then show ?case
      using e 2 by (simp add: BroadcastTxMeta_Cons Let_def IsClosed_entry [OF e] split_beta del: BroadcastTxMeta.simps(2))
  }
qed

lemma failed_entry: "map_of m (assembleTaskId a ty) = Some t \<Longrightarrow> task_wf t \<Longrightarrow> quiet_at N a ty p
    \<Longrightarrow> map_of (IncFailed a ty (other N p m)) (assembleTaskId a ty) = Some (bump 0 1 t)"
  by (simp add: tm_maps tm_put_def quiet_at_def fail1_bump)

lemma GetTxDataFromPeers_run:
  assumes "map_of m (assembleTaskId a ty) = Some t" and "task_wf t" and "\<not> Close t"
    and "\<forall>p \<in> set (ps @ ks). quiet_at N a ty p" and "\<forall>p \<in> set ps. \<exists>e. peer_data N p a = Err e"
    and "ks = [] \<or> peer_data N (hd ks) a = Ret data"
  shows "fst (GetTxDataFromPeers N a ty (ps @ ks) m) = (if ks = [] then Err ErrFetchData else Ret data)"
    and "map_of (snd (GetTxDataFromPeers N a ty (ps @ ks) m)) (assembleTaskId a ty)
      = Some (bump (if ks = [] then 0 else 1) (length ps) t)"
  using assms
proof (induction ps arbitrary: m t)
  case Nil
  {
    case 1
    then show ?case by (cases ks) (simp_all add: IsClosed_entry Let_def)
  next
    case 2
    then show ?case
      by (cases ks) (simp_all add: IsClosed_entry Let_def tm_maps tm_put_def quiet_at_def succ1_bump)
  }
next
  case (Cons p ps)
  {
    case 1
    let ?m = "IncFailed a ty (other N p m)"
    have e1: "map_of ?m (assembleTaskId a ty) = Some (bump 0 1 t)" using 1 by (intro failed_entry) auto
    have "fst (GetTxDataFromPeers N a ty (ps @ ks) ?m) = (if ks = [] then Err ErrFetchData else Ret data)"
      using 1 by (intro Cons.IH(1) [OF e1]) auto
    with 1 show ?case by (auto simp: IsClosed_entry Let_def)
  next
    case 2
    let ?m = "IncFailed a ty (other N p m)"
    have e1: "map_of ?m (assembleTaskId a ty) = Some (bump 0 1 t)" using 2 by (intro failed_entry) auto
    have "map_of (snd (GetTxDataFromPeers N a ty (ps @ ks) ?m)) (assembleTaskId a ty)
      = Some (bump (if ks = [] then 0 else 1) (length ps) (bump 0 1 t))"
      using 2 by (intro Cons.IH(2) [OF e1]) auto
    with 2 show ?case by (auto simp: IsClosed_entry Let_def)
  }
qed

subsection \<open>The pending pool\<close>

definition pool_keys :: "kvdb \<Rightarrow> string list" where
  "pool_keys d = map fst (kv_data d TaskIdPendingPoolBucket)"

text \<open>Every id in the pool is the id of a task of an accepted type.\<close>

definition pool_ok :: "kvdb \<Rightarrow> bool" where
  "pool_ok d \<longleftrightarrow> list_all (\<lambda>k. \<exists>a ty. Contains task_types ty \<and> k = assembleTaskId a ty) (pool_keys d)"

definition task_of_id :: "string \<Rightarrow> task" where
  "task_of_id k = (case splitTaskId k of Ret (a, ty) \<Rightarrow> new_task a ty | _ \<Rightarrow> new_task [] [])"

lemma task_of_id_assemble [simp]: "Contains task_types ty \<Longrightarrow> task_of_id (assembleTaskId a ty) = new_task a ty"
  using accepted_type [of ty] splitTaskId_assemble [of ty a] by (simp add: task_of_id_def)

lemma addPending_ids:
  assumes "\<forall>k \<in> set ids. \<exists>a ty. Contains task_types ty \<and> k = assembleTaskId a ty"
  shows "snd (addPending ids m) = ids" and "map_of (fst (addPending ids m))
    = (\<lambda>k. if map_of m k = None \<and> k \<in> set ids then Some (task_of_id k) else map_of m k)"
proof -
  have "snd (addPending ids m) = ids \<and> map_of (fst (addPending ids m))
    = (\<lambda>k. if map_of m k = None \<and> k \<in> set ids then Some (task_of_id k) else map_of m k)"
    using assms
  proof (induction ids arbitrary: m)
    case (Cons k ids)
    then obtain a ty where k: "Contains task_types ty" "k = assembleTaskId a ty" by auto
    then have split: "splitTaskId k = Ret (a, ty)"
      using accepted_type [of ty] splitTaskId_assemble [of ty a] by simp
    have "task_of_id k = new_task a ty" using k by simp
    then show ?case
      using Cons.IH [of "AddTask a ty m"] Cons.prems split k
      by (auto simp: split_beta fun_eq_iff AddTask_map split: option.splits)
  qed simp
  then show "snd (addPending ids m) = ids" and "map_of (fst (addPending ids m))
    = (\<lambda>k. if map_of m k = None \<and> k \<in> set ids then Some (task_of_id k) else map_of m k)" by blast+
qed

lemma aliyun_pages_healthy:
  "kv_faults d = [] \<Longrightarrow> aliyun_pages acc ks d = (if acc @ ks = [] then Err ErrNotExist else Ret (acc @ ks), d)"
proof (induction acc ks d rule: aliyun_pages.induct)
  case (1 acc ks d)
  show ?case
  proof (cases "drop oss_page ks = []")
    case True
    then have "take oss_page ks = ks" by simp
    with 1(2) True show ?thesis by (subst aliyun_pages.simps) simp
  next
    case False
    then have "ks \<noteq> []" by auto
    have "aliyun_pages (acc @ take oss_page ks) (drop oss_page ks) d = (Ret (acc @ ks), d)"
      using 1(1) [of NoFault d "acc @ take oss_page ks" "drop oss_page ks"] 1(2) False
      by (simp flip: append_assoc) (simp add: append_assoc)
    with False 1(2) \<open>ks \<noteq> []\<close> show ?thesis by (subst aliyun_pages.simps) simp
  qed
qed

definition resumed :: "kvdb \<Rightarrow> string list" where
  "resumed d = (if kv_kind d = S3 then take s3_page (pool_keys d) else pool_keys d)"

lemma LoadAllPendingTaskIds_healthy: "healthy d \<Longrightarrow> LoadAllPendingTaskIds d = (Ret (resumed d), d)"
  unfolding healthy_def
  by (cases "kv_kind d") (auto simp: LoadAllPendingTaskIds_def kv_keys_def bolt_keys_def s3_keys_def
    aliyun_keys_def aliyun_pages_healthy resumed_def pool_keys_def Let_def)

lemma InitTaskMg_healthy:
  assumes "healthy d" and "pool_ok d"
  shows "InitTaskMg d [] = (Ret (), d, fst (addPending (resumed d) []), resumed d)"
    and "Contains task_types ty \<Longrightarrow> GetTask a ty (fst (addPending (resumed d) []))
      = (if assembleTaskId a ty \<in> set (resumed d) then Some (new_task a ty) else None)"
proof -
  have "set (resumed d) \<subseteq> set (pool_keys d)" by (auto simp: resumed_def dest: in_set_takeD)
  then have *: "\<forall>k \<in> set (resumed d). \<exists>a ty. Contains task_types ty \<and> k = assembleTaskId a ty"
    using assms(2) by (auto simp: pool_ok_def list_all_iff)
  show "InitTaskMg d [] = (Ret (), d, fst (addPending (resumed d) []), resumed d)"
    using LoadAllPendingTaskIds_healthy [OF assms(1)] addPending_ids(1) [OF *, of "[]"]
    by (simp add: InitTaskMg_def split_beta)
  show "Contains task_types ty \<Longrightarrow> GetTask a ty (fst (addPending (resumed d) []))
      = (if assembleTaskId a ty \<in> set (resumed d) then Some (new_task a ty) else None)"
    by (simp add: GetTask_def addPending_ids(2) [OF *])
qed

lemma pool_keys_iff: "k \<in> set (pool_keys d) \<longleftrightarrow> kv_lookup d TaskIdPendingPoolBucket k \<noteq> None"
  unfolding pool_keys_def kv_lookup_def by (simp add: map_of_eq_None_iff)

lemma pool_ok_iff: "pool_ok d \<longleftrightarrow> (\<forall>k. kv_lookup d TaskIdPendingPoolBucket k \<noteq> None
    \<longrightarrow> (\<exists>a ty. Contains task_types ty \<and> k = assembleTaskId a ty))"
  by (auto simp: pool_ok_def list_all_iff pool_keys_iff)

lemma LoadTask_stored [simp]:
  assumes "healthy d" and "kv_lookup d TaskBucket k = Some (Json (task_json t))" and "task_wf t"
  shows "LoadTask k d = (Ret t, d)"
  using assms by (simp add: LoadTask_def blob_empty_def unmarshal_def task_codec.dec_enc)

lemma closeOverdue_map:
  assumes "\<forall>(k, t) \<in> set tks. k = assembleTaskId (ArId t) (TaskType t)"
  shows "map_of (closeOverdue now tks m) k = (if \<exists>t. (k, t) \<in> set tks \<and> \<not> Close t \<and> Timestamp t \<noteq> 0
      \<and> i64 (now - Timestamp t) > 1800 then map_option close1 (map_of m k) else map_of m k)"
  using assms
proof (induction tks arbitrary: m)
  case (Cons p tks)
  obtain i tk where p: "p = (i, tk)" by (cases p)
  then have i: "i = assembleTaskId (ArId tk) (TaskType tk)" using Cons.prems by auto
  have *: "map_of (closeOverdue now (p # tks) m) k = (if \<exists>t. (k, t) \<in> set tks \<and> \<not> Close t \<and> Timestamp t \<noteq> 0
      \<and> i64 (now - Timestamp t) > 1800 then map_option close1 else (\<lambda>x. x))
    (if k = i \<and> \<not> Close tk \<and> Timestamp tk \<noteq> 0 \<and> i64 (now - Timestamp tk) > 1800
     then map_option close1 (map_of m k) else map_of m k)"
    using Cons.IH Cons.prems p i by (auto simp: tm_maps tm_put_def)
  have twice: "map_option close1 (map_option close1 x) = map_option close1 x" for x by (cases x) simp_all
  show ?case unfolding * using p by (auto simp: twice)
qed simp

text \<open>A network for the witnesses: the peer named bad refuses, nothing else runs meanwhile.\<close>

definition plain_net :: net where
  "plain_net = \<lparr>gw_tx = (\<lambda>_. Err ErrNotFound), gw_data = (\<lambda>_. Err ErrNotFound), peer_tx = (\<lambda>_ _. Err ErrNotFound),
     peer_data = (\<lambda>p _. if p = ''bad'' then Err ErrNotFound else Ret ''data''),
     peer_submit = (\<lambda>p _. (''OK'', if p = ''bad'' then 400 else 200)),
     peer_uploader = (\<lambda>_ _. None), peer_once = (\<lambda>_ _. None), other = (\<lambda>_ m. m)\<rparr>"

lemma plain_net_simps [simp]:
  "peer_submit plain_net p tx = (''OK'', if p = ''bad'' then 400 else 200)"
  "peer_data plain_net p a = (if p = ''bad'' then Err ErrNotFound else Ret ''data'')"
  by (simp_all add: plain_net_def)

lemma quiet_plain_net [simp]: "quiet_at plain_net a ty p"
  by (simp add: quiet_at_def plain_net_def)

definition empty_tx :: transaction where
  "empty_tx = \<lparr>tx_Format = 2, tx_ID = ''t'', tx_LastTx = [], tx_Owner = [], tx_Tags = [], tx_Target = [],
     tx_Quantity = [], tx_Data = [], tx_DataSize = ''0'', tx_DataRoot = [], tx_Reward = [], tx_Signature = []\<rparr>"

subsection \<open>Properties\<close>

text \<open>
  The task types that the endpoints accept are substrings of the four names, so they are
  lower case and free of dashes: splitTaskId gives back what assembleTaskId put together, and two
  accepted tasks share an id only when they are the same.
\<close>

theorem taskId_roundtrip:
  assumes "Contains task_types ty" and "Contains task_types ty'"
  shows "splitTaskId (assembleTaskId arid ty) = Ret (arid, ty)
    \<and> (assembleTaskId arid ty = assembleTaskId arid' ty' \<longleftrightarrow> arid = arid' \<and> ty = ty')"
  using assms accepted_type [OF assms(1)] splitTaskId_assemble [of ty arid] assembleTaskId_eq [OF assms, of arid arid']
  by simp

theorem taskId_roundtrip_witness:
  "splitTaskId (assembleTaskId ''ab-cd'' TaskTypeBroadcastMeta) = Ret (''ab-cd'', TaskTypeBroadcastMeta)"
proof -
  have "Contains task_types TaskTypeBroadcastMeta" by (simp add: task_types_def task_type_defs)
  from taskId_roundtrip [OF this this, of "''ab-cd''" "[]"] show ?thesis by simp
qed

text \<open>
  C29: in every table that the operations of the manager can reach from the empty one, the entries
  are sorted and each is stored under the id of its own fields; a task that is closed stays closed
  until it is removed, whatever operation runs next.
\<close>

theorem tm_reachable_ok:
  assumes "tm_reachable m"
  shows "tm_ok m \<and> (\<forall>m1. tm_step m m1 \<longrightarrow> tm_ok m1
    \<and> (\<forall>a ty. IsClosed a ty m \<longrightarrow> IsClosed a ty m1 \<or> GetTask a ty m1 = None))"
proof -
  have "tm_ok m"
    using assms unfolding tm_reachable_def
    by (induction rule: rtranclp_induct) (auto simp: tm_ok_def [of "[]"] intro: tm_step_ok)
  then show ?thesis
    by (intro conjI allI impI) (auto intro: tm_step_ok dest: tm_step_closed)
qed

theorem tm_reachable_ok_witness:
  "tm_ok (snd (CloseTask ''a'' ''sync'' (AddTask ''a'' ''sync'' [])))"
proof -
  have "tm_step [] (AddTask ''a'' ''sync'' [])" by (rule tm_step.add)
  then have "tm_reachable (AddTask ''a'' ''sync'' [])" by (auto simp: tm_reachable_def)
  moreover have "tm_step (AddTask ''a'' ''sync'' []) (snd (CloseTask ''a'' ''sync'' (AddTask ''a'' ''sync'' [])))"
    by (rule tm_step.close) (rule surjective_pairing)
  ultimately show ?thesis using tm_reachable_ok by blast
qed

text \<open>
  BroadcastTxMeta over the peers \<open>ps @ ks\<close>, when nobody touches the task while the peers \<open>ps\<close>
  answer and the task is killed while the first peer of \<open>ks\<close> answers (or \<open>ks\<close> is empty): the
  transaction, without its data, is sent to each of \<open>ps\<close> and to that one peer and to nobody else,
  each answer is counted exactly once as success or failure, and the task ends closed.
\<close>

theorem BroadcastTxMeta_counts:
  assumes "map_of m (assembleTaskId a ty) = Some t" and "task_wf t" and "\<not> Close t"
    and "\<forall>p \<in> set ps. quiet_at N a ty p" and "ks = [] \<or> kills_at N a ty (hd ks)"
  shows "\<exists>m1. BroadcastTxMeta N a ty tx (ps @ ks) m
      = (map (\<lambda>p. Submit p (tx\<lparr>tx_Data := []\<rparr>)) (ps @ take 1 ks), m1)
    \<and> (let yes = filter (\<lambda>p. accepted (peer_submit N p (tx\<lparr>tx_Data := []\<rparr>))) (ps @ take 1 ks);
          no = filter (\<lambda>p. \<not> accepted (peer_submit N p (tx\<lparr>tx_Data := []\<rparr>))) (ps @ take 1 ks)
       in GetTask a ty m1 = Some (t\<lparr>CountSuccessed := i64 (CountSuccessed t + int (length yes)),
            CountFailed := i64 (CountFailed t + int (length no)), Close := True\<rparr>))"
  using BroadcastTxMeta_run [OF assms, of tx]
  by (cases "BroadcastTxMeta N a ty tx (ps @ ks) m")
    (simp add: GetTask_def Let_def bump_def close1_def count_def accepts_meta_def [abs_def] meta_of_def)

theorem BroadcastTxMeta_counts_witness:
  "\<exists>m1. BroadcastTxMeta plain_net ''a'' ''broadcast_meta'' empty_tx [''p'', ''bad'']
       (AddTask ''a'' ''broadcast_meta'' [])
     = ([Submit ''p'' empty_tx, Submit ''bad'' empty_tx], m1)
   \<and> map_option CountSuccessed (GetTask ''a'' ''broadcast_meta'' m1) = Some 1"
proof -
  let ?m = "AddTask ''a'' ''broadcast_meta'' []" and ?t = "new_task ''a'' ''broadcast_meta''"
  have "map_of ?m (assembleTaskId ''a'' ''broadcast_meta'') = Some ?t" by (simp add: tm_maps)
  moreover have "task_wf ?t" "\<not> Close ?t" by (simp_all add: new_task_def task_wf_def in_i64_def)
  moreover have "empty_tx\<lparr>tx_Data := []\<rparr> = empty_tx" by (simp add: empty_tx_def)
  ultimately show ?thesis
    using BroadcastTxMeta_counts [of ?m "''a''" "''broadcast_meta''" ?t "[''p'', ''bad'']" plain_net "[]" empty_tx]
    by (auto simp: accepted_def mempool_msg_def new_task_def in_i64_def Let_def
      simp del: BroadcastTxMeta.simps)
qed

text \<open>
  GetTxDataFromPeers asks the peers in order until one has the data: the peers \<open>ps\<close> that fail
  are counted as failures, the first that answers as one success and its data is the result; when
  every peer fails the result is ErrFetchData.
\<close>

theorem GetTxDataFromPeers_first:
  assumes "map_of m (assembleTaskId a ty) = Some t" and "task_wf t" and "\<not> Close t"
    and "\<forall>p \<in> set (ps @ ks). quiet_at N a ty p" and "\<forall>p \<in> set ps. \<exists>e. peer_data N p a = Err e"
    and "ks = [] \<or> peer_data N (hd ks) a = Ret data"
  shows "\<exists>m1. GetTxDataFromPeers N a ty (ps @ ks) m = (if ks = [] then Err ErrFetchData else Ret data, m1)
    \<and> GetTask a ty m1 = Some (t\<lparr>CountSuccessed := i64 (CountSuccessed t + (if ks = [] then 0 else 1)),
        CountFailed := i64 (CountFailed t + int (length ps))\<rparr>)"
  using GetTxDataFromPeers_run [OF assms]
  by (cases "GetTxDataFromPeers N a ty (ps @ ks) m") (simp add: GetTask_def bump_def)

theorem GetTxDataFromPeers_first_witness:
  "\<exists>m1. GetTxDataFromPeers plain_net ''a'' ''sync'' [''bad'', ''p'', ''q''] (AddTask ''a'' ''sync'' []) = (Ret ''data'', m1)"
proof -
  let ?m = "AddTask ''a'' ''sync'' []" and ?t = "new_task ''a'' ''sync''"
  have "map_of ?m (assembleTaskId ''a'' ''sync'') = Some ?t" by (simp add: tm_maps)
  moreover have "task_wf ?t" "\<not> Close ?t" by (simp_all add: new_task_def task_wf_def in_i64_def)
  moreover have "peer_data plain_net ''bad'' ''a'' = Err ErrNotFound" "peer_data plain_net ''p'' ''a'' = Ret ''data''"
    by simp_all
  ultimately show ?thesis
    using GetTxDataFromPeers_first [of ?m "''a''" "''sync''" ?t "[''bad'']" "[''p'', ''q'']" plain_net "''data''"]
    by auto
qed

text \<open>
  A task over its life, while no request to the store fails: registering it puts it in the
  table, in the channel and in the pending pool, so that a restart (InitTaskMg on an empty table)
  has it again, on S3 only if it is among the first 1000 ids; setProcessedTask takes it out of the
  pool and the table, and getTask then still answers with the task as it ended.
\<close>

theorem task_life:
  assumes h: "healthy (tk_store s)" and ok: "pool_ok (tk_store s)" and ty: "Contains task_types ty"
    and wf: "\<And>t. GetTask a ty (tk_map s) = Some t \<Longrightarrow> task_wf t" and arid: "valid_arid E a"
  shows "\<exists>s1. registerTask a ty s = (Ret (), s1)
    \<and> tk_chan s1 = tk_chan s @ [assembleTaskId a ty] \<and> GetTask a ty (tk_map s1) \<noteq> None
    \<and> (assembleTaskId a ty \<in> set (resumed (tk_store s1)) \<longleftrightarrow> kv_kind (tk_store s) \<noteq> S3
         \<or> assembleTaskId a ty \<in> set (take 1000 (pool_keys (tk_store s1))))
    \<and> (\<exists>m. InitTaskMg (tk_store s1) [] = (Ret (), tk_store s1, m, resumed (tk_store s1))
         \<and> GetTask a ty m = (if assembleTaskId a ty \<in> set (resumed (tk_store s1)) then Some (new_task a ty) else None))
    \<and> (\<exists>s2. setProcessedTask a ty s1 = (Ret (), s2)
         \<and> GetTask a ty (tk_map s2) = None \<and> assembleTaskId a ty \<notin> set (pool_keys (tk_store s2))
         \<and> fst (getTask E a ty s2) = fst (getTask E a ty s1) \<and> is_ret (fst (getTask E a ty s2)))"
proof -
  let ?id = "assembleTaskId a ty"
  let ?d1 = "kv_store TaskIdPendingPoolBucket ?id (Bytes ''0x01'') (tk_store s)"
  let ?s1 = "s\<lparr>tk_store := ?d1, tk_map := AddTask a ty (tk_map s), tk_chan := tk_chan s @ [?id]\<rparr>"
  have reg: "registerTask a ty s = (Ret (), ?s1)"
    using h by (simp add: registerTask_def PutTaskPendingPool_def mark_def)
  have d1: "healthy ?d1" "pool_ok ?d1"
    using h ok ty by (auto simp: pool_ok_iff)
  have here: "?id \<in> set (pool_keys ?d1)" by (simp add: pool_keys_iff)
  obtain t where t: "GetTask a ty (tk_map ?s1) = Some t" "task_wf t"
  proof (cases "GetTask a ty (tk_map s)")
    case None
    then show ?thesis
      using that [of "new_task a ty"] by (simp add: GetTask_def tm_maps new_task_def task_wf_def in_i64_def)
  next
    case (Some t)
    then show ?thesis using that [of t] wf by (simp add: GetTask_def tm_maps)
  qed
  let ?d2 = "kv_drop TaskIdPendingPoolBucket ?id (kv_store TaskBucket ?id (Json (task_json t)) ?d1)"
  let ?s2 = "?s1\<lparr>tk_store := ?d2, tk_map := DelTask a ty (tk_map ?s1)\<rparr>"
  have fin: "setProcessedTask a ty ?s1 = (Ret (), ?s2)"
    using t h by (simp add: setProcessedTask_def SaveTask_def DelPendingPoolTaskId_def Let_def)
  have gone: "GetTask a ty (tk_map ?s2) = None" by (simp add: GetTask_def tm_maps)
  have load: "LoadTask ?id ?d2 = (Ret t, ?d2)" using t h by simp
  have "fst (getTask E a ty ?s1) = Ret t" using t ty arid by (simp add: getTask_def)
  moreover have "fst (getTask E a ty ?s2) = Ret t"
    using gone load ty arid by (simp add: getTask_def)
  moreover have "assembleTaskId a ty \<notin> set (pool_keys ?d2)" by (simp add: pool_keys_iff)
  ultimately show ?thesis
    using reg fin gone t InitTaskMg_healthy [OF d1] ty here by (auto simp: resumed_def s3_page_def)
qed

theorem task_life_witness:
  "\<exists>s1. registerTask (replicate 32 (CHR ''x'')) TaskTypeSync
       \<lparr>tk_store = empty_kv Bolt [], tk_map = [], tk_chan = []\<rparr> = (Ret (), s1)
     \<and> tk_chan s1 = [assembleTaskId (replicate 32 (CHR ''x'')) TaskTypeSync]"
proof -
  let ?s = "\<lparr>tk_store = empty_kv Bolt [], tk_map = [], tk_chan = []\<rparr>" and ?a = "replicate 32 (CHR ''x'')"
  have "Contains task_types TaskTypeSync" by (simp add: task_types_def task_type_defs)
  moreover have "valid_arid plain_codec ?a" by (simp add: valid_arid_def plain_codec_def)
  ultimately show ?thesis
    using task_life [of ?s TaskTypeSync ?a plain_codec]
    by (simp add: pool_ok_iff GetTask_def) blast
qed

text \<open>
  When the pending pool cannot be written, registerTask removes the entry it did not add: a
  second registration of a task that is running takes its entry, its counts and its Close flag away.
\<close>

theorem registerTask_failure_drops_running_task:
  assumes "kv_kind (tk_store s) \<noteq> Mongo" and "tick (tk_store s) = (f, d)" and "f \<noteq> NoFault"
    and "GetTask a ty (tk_map s) = Some t"
  shows "\<exists>s1. registerTask a ty s = (Err io_err, s1) \<and> GetTask a ty (tk_map s1) = None
    \<and> \<not> IsClosed a ty (tk_map s1) \<and> fst (CloseTask a ty (tk_map s1)) = Err ErrNotFound"
proof -
  have "kv_put TaskIdPendingPoolBucket k mark (tk_store s) = (Err io_err, d)" for k
    using assms by (cases f) (simp_all add: kv_put_nonmongo mark_def)
  then show ?thesis
    by (simp add: registerTask_def PutTaskPendingPool_def CloseTask_result GetTask_def IsClosed_def tm_maps)
qed

theorem registerTask_failure_drops_running_task_witness:
  "\<exists>s1. registerTask ''a'' ''sync'' \<lparr>tk_store = empty_kv Bolt [NetFault], tk_map = AddTask ''a'' ''sync'' [], tk_chan = []\<rparr>
     = (Err io_err, s1) \<and> GetTask ''a'' ''sync'' (tk_map s1) = None"
proof -
  let ?s = "\<lparr>tk_store = empty_kv Bolt [NetFault], tk_map = AddTask ''a'' ''sync'' [], tk_chan = []\<rparr>"
  have "tick (empty_kv Bolt [NetFault]) = (NetFault, empty_kv Bolt [])" by (simp add: tick_def empty_kv_def)
  then show ?thesis
    using registerTask_failure_drops_running_task [of ?s NetFault "empty_kv Bolt []" "''a''" "''sync''" "new_task ''a'' ''sync''"]
    by (auto simp: GetTask_def tm_maps)
qed

text \<open>
  WatcherAndCloseTasks closes exactly the tasks that have started and run for more than 1800
  seconds; it changes nothing else, adds no task and removes none. A task whose Timestamp was never
  set, as syncManifestTask leaves it, is not closed however long it runs.
\<close>

theorem watcherAndCloseTasks_exact:
  assumes "tm_ok m"
  shows "map_of (watcherAndCloseTasks now m) k = map_option
    (\<lambda>t. if Timestamp t \<noteq> 0 \<and> i64 (now - Timestamp t) > 1800 then t\<lparr>Close := True\<rparr> else t) (map_of m k)"
proof -
  have d: "distinct (map fst m)" using assms by (simp add: tm_ok_def al_sorted_distinct)
  then have mem: "(k, t) \<in> set m \<longleftrightarrow> map_of m k = Some t" for k t by (simp add: map_of_eq_Some_iff)
  then have "\<forall>(k, t) \<in> set m. k = assembleTaskId (ArId t) (TaskType t)"
    using assms by (auto simp: tm_ok_def)
  from closeOverdue_map [OF this, of now m k] show ?thesis
    by (cases "map_of m k") (auto simp: watcherAndCloseTasks_def GetTasks_def mem close1_def)
qed

theorem watcherAndCloseTasks_exact_witness:
  "IsClosed ''a'' ''sync'' (watcherAndCloseTasks 2000 (snd (TaskBeginSet 100 ''a'' ''sync'' 3 (AddTask ''a'' ''sync'' []))))"
proof -
  let ?m = "snd (TaskBeginSet 100 ''a'' ''sync'' 3 (AddTask ''a'' ''sync'' []))"
  have "tm_step [] (AddTask ''a'' ''sync'' [])" by (rule tm_step.add)
  moreover have "tm_step (AddTask ''a'' ''sync'' []) ?m" by (rule tm_step.start) (rule surjective_pairing)
  ultimately have "tm_ok ?m" using tm_step_ok by (auto simp: tm_ok_def [of "[]"])
  then show ?thesis
    using watcherAndCloseTasks_exact [of ?m 2000 "assembleTaskId ''a'' ''sync''"]
    by (simp add: IsClosed_def tm_maps tm_put_def new_task_def in_i64_def)
qed

end
