(* ===== verification/Arns.thy ===== *)
theory Arns
  imports Schema
begin

text \<open>
  arns.go with schema/arns.go: the resolution of an ArNS domain by two dry runs of ao processes. \<open>arns\<close> is what is
  outside: the dry run of goao, which gives the messages of the process, and the parser of encoding/json for the
  text in a message.
\<close>

record arns =
  DryRun :: "string \<Rightarrow> (string \<times> string) list \<Rightarrow> json list go"
  ParseData :: "string \<Rightarrow> json option"

definition ArNsPid :: string where "ArNsPid = ''agYcCFJtrMG6cqMuZfskIkFTGvUPddICmtQSBIoPdiA''"

subsection \<open>schema/arns.go\<close>

record domain_record =
  ProcessId :: string
  StartTimestamp :: int
  DomainType :: string
  EndTimestamp :: int
  PurchasePrice :: int
  UndernameLimit :: int

definition record_of_json :: "json \<Rightarrow> domain_record option option" where
  "record_of_json j = (case j of
      JNull \<Rightarrow> Some None
    | JObj fs \<Rightarrow> (case (jstr fs ''processId'', jint fs ''startTimestamp'', jstr fs ''type'', jint fs ''endTimestamp'',
          jint fs ''purchasePrice'', jint fs ''undernameLimit'') of
        (Some p, Some s, Some t, Some e, Some pp, Some u) \<Rightarrow> Some (Some \<lparr>ProcessId = p, StartTimestamp = s, DomainType = t,
           EndTimestamp = e, PurchasePrice = pp, UndernameLimit = u\<rparr>)
      | _ \<Rightarrow> None)
    | _ \<Rightarrow> None)"

text \<open>A record of a domain: its transaction and its time to live.\<close>

record domain_state =
  Controllers :: "string list"
  Records :: "(string \<times> string \<times> int) list"
  DomainName :: string
  Denomination :: int
  Logo :: string
  Ticker :: string
  Owner :: string
  Initialized :: bool
  TotalSupply :: int
  Balances :: "(string \<times> int) list"
  SourceCodeTXID :: string

fun entries_of_json :: "(string \<times> json) list \<Rightarrow> (string \<times> string \<times> int) list option" where
  "entries_of_json [] = Some []"
| "entries_of_json ((k, j) # r) = (case (case j of JNull \<Rightarrow> (Some [], Some 0)
        | JObj fs \<Rightarrow> (jstr fs ''transactionId'', jint fs ''ttlSeconds'') | _ \<Rightarrow> (None, None)) of
      (Some t, Some s) \<Rightarrow> map_option ((#) (k, t, s)) (entries_of_json r)
    | _ \<Rightarrow> None)"

definition jstrs :: "(string \<times> json) list \<Rightarrow> string \<Rightarrow> string list option" where
  "jstrs fs n = (case map_of fs n of None \<Rightarrow> Some [] | Some JNull \<Rightarrow> Some [] | Some (JArr js) \<Rightarrow> jstrings js | Some _ \<Rightarrow> None)"

definition jmap :: "((string \<times> json) list \<Rightarrow> (string \<times> 'a) list option) \<Rightarrow> (string \<times> json) list \<Rightarrow> string \<Rightarrow> (string \<times> 'a) list option" where
  "jmap f fs n = (case map_of fs n of None \<Rightarrow> Some [] | Some JNull \<Rightarrow> Some [] | Some (JObj gs) \<Rightarrow> f gs | Some _ \<Rightarrow> None)"

definition state_of_json :: "json \<Rightarrow> domain_state option option" where
  "state_of_json j = (case j of
      JNull \<Rightarrow> Some None
    | JObj fs \<Rightarrow> (case (jstrs fs ''Controllers'', jmap entries_of_json fs ''Records'', jstr fs ''Name'', jint fs ''Denomination'',
          jstr fs ''Logo'', jstr fs ''Ticker'', jstr fs ''Owner'', jbool fs ''Initialized'', jint fs ''TotalSupply'',
          jmap jints fs ''Balances'', jstr fs ''Source-Code-TX-ID'') of
        (Some cs, Some rs, Some n, Some d, Some l, Some t, Some ow, Some i, Some ts, Some bs, Some sc) \<Rightarrow>
          Some (Some \<lparr>Controllers = cs, Records = rs, DomainName = n, Denomination = d, Logo = l, Ticker = t, Owner = ow,
            Initialized = i, TotalSupply = ts, Balances = bs, SourceCodeTXID = sc\<rparr>)
      | _ \<Rightarrow> None)
    | _ \<Rightarrow> None)"

subsection \<open>arns.go\<close>

text \<open>
  \<^verbatim>\<open>fmt.Sprintf("%v", res["Data"])\<close> is the text itself for a string; what it prints for any other value is no JSON
  object, and Unmarshal fails on it.
\<close>

definition message_data :: "arns \<Rightarrow> json \<Rightarrow> json go" where
  "message_data A msg = (case msg of
      JObj fs \<Rightarrow> (case map_of fs ''Data'' of
          Some (JStr s) \<Rightarrow> (case ParseData A s of Some j \<Rightarrow> Ret j | None \<Rightarrow> Err (ErrMsg ''invalid character''))
        | _ \<Rightarrow> Err (ErrMsg ''invalid character''))
    | _ \<Rightarrow> Panic ''interface conversion'')"

definition dryRunData :: "arns \<Rightarrow> string \<Rightarrow> (string \<times> string) list \<Rightarrow> (json \<Rightarrow> 'a option) \<Rightarrow> 'a go" where
  "dryRunData A pid tags dec = andThen (DryRun A pid tags) (\<lambda>messages.
     if length messages \<noteq> 1 then Err (ErrMsg ''empty messages'')
     else andThen (message_data A (hd messages)) (\<lambda>j.
       case dec j of Some x \<Rightarrow> Ret x | None \<Rightarrow> Err (ErrMsg ''cannot unmarshal'')))"

definition GetRootDomainRecord :: "arns \<Rightarrow> string \<Rightarrow> domain_record option go" where
  "GetRootDomainRecord A rootDomain = dryRunData A ArNsPid [(''Action'', ''Record''), (''Name'', rootDomain)] record_of_json"

definition GetDomainProcessState :: "arns \<Rightarrow> string \<Rightarrow> domain_state option go" where
  "GetDomainProcessState A pid = dryRunData A pid [(''Action'', ''State'')] state_of_json"

text \<open>A document \<^verbatim>\<open>null\<close> leaves the pointer nil, and reading a field of it panics.\<close>

definition deref :: "'a option \<Rightarrow> 'a go" where
  "deref p = (case p of None \<Rightarrow> Panic ''nil pointer dereference'' | Some x \<Rightarrow> Ret x)"

definition QueryDomainTxId :: "arns \<Rightarrow> string \<Rightarrow> string go" where
  "QueryDomainTxId A domain = (let ds = Split (CHR ''_'') domain in
     if length ds > 2 then Err (ErrMsg ''current arseeding gw not support over level-2 subdomain'')
     else let rootDomain = last ds in
       andThen (andThen (GetRootDomainRecord A rootDomain) deref) (\<lambda>rec.
       andThen (andThen (GetDomainProcessState A (ProcessId rec)) deref) (\<lambda>state.
         let subdomain = (if hd ds = rootDomain then ''@'' else hd ds) in
         case map_of (Records state) subdomain of None \<Rightarrow> Err (ErrMsg ''not exist record'') | Some (t, _) \<Rightarrow> Ret t)))"

subsection \<open>Properties\<close>


text \<open>The name of the root below itself is taken for the root: its own record is never read.\<close>

theorem same_name_resolves_to_root:
  assumes "CHR ''_'' \<notin> set root"
  shows "QueryDomainTxId A (root @ CHR ''_'' # root) = QueryDomainTxId A root"
  using assms by (simp add: QueryDomainTxId_def Let_def Split_append Split_none)

text \<open>A process that answers \<^verbatim>\<open>null\<close> makes the request panic.\<close>

theorem null_record_panics:
  assumes "DryRun A ArNsPid [(''Action'', ''Record''), (''Name'', root)] = Ret [JObj [(''Data'', JStr ''null'')]]"
    and "ParseData A ''null'' = Some JNull" and "CHR ''_'' \<notin> set root"
  shows "\<exists>p. QueryDomainTxId A root = Panic p"
  using assms by (simp add: QueryDomainTxId_def GetRootDomainRecord_def dryRunData_def message_data_def record_of_json_def deref_def
    Split_none Let_def)

definition sample_arns :: arns where
  "sample_arns = \<lparr>DryRun = (\<lambda>pid tags. if pid = ''pid'' then Ret [JObj [(''Data'', JStr ''state'')]]
       else if (''Name'', ''site'') \<in> set tags then Ret [JObj [(''Data'', JStr ''record'')]] else Ret [JObj [(''Data'', JStr ''null'')]]),
     ParseData = (\<lambda>s. if s = ''record'' then Some (JObj [(''processId'', JStr ''pid'')])
       else if s = ''state'' then Some (JObj [(''Records'', JObj [(''@'', JObj [(''transactionId'', JStr ''chain'')]),
          (''www'', JObj [(''transactionId'', JStr ''page''), (''ttlSeconds'', JNum 900)])])])
       else if s = ''null'' then Some JNull else None)\<rparr>"

definition sample_record :: domain_record where
  "sample_record = \<lparr>ProcessId = ''pid'', StartTimestamp = 0, DomainType = [], EndTimestamp = 0, PurchasePrice = 0, UndernameLimit = 0\<rparr>"

definition sample_state :: domain_state where
  "sample_state = \<lparr>Controllers = [], Records = [(''@'', ''chain'', 0), (''www'', ''page'', 900)], DomainName = [], Denomination = 0, Logo = [],
     Ticker = [], Owner = [], Initialized = False, TotalSupply = 0, Balances = [], SourceCodeTXID = []\<rparr>"

lemma sample_arns_answers:
  "GetRootDomainRecord sample_arns ''site'' = Ret (Some sample_record)"
  "GetDomainProcessState sample_arns (ProcessId sample_record) = Ret (Some sample_state)"
  by (simp_all add: GetRootDomainRecord_def GetDomainProcessState_def dryRunData_def message_data_def sample_arns_def ArNsPid_def
    record_of_json_def state_of_json_def sample_record_def sample_state_def jstr_def jint_def jbool_def jstrs_def jmap_def in_i64_def)


theorem same_name_resolves_to_root_witness: "QueryDomainTxId sample_arns ''site_site'' = QueryDomainTxId sample_arns ''site''"
  using same_name_resolves_to_root [of "''site''" sample_arns] by simp

theorem null_record_panics_witness: "\<exists>p. QueryDomainTxId sample_arns ''none'' = Panic p"
  by (rule null_record_panics) (simp_all add: sample_arns_def ArNsPid_def)

end
