(* ===== verification/Routing.thy ===== *)
theory Routing
  imports Store Arns
begin

text \<open>
  The request side that needs no state: ids and sandbox names (middleware.go), tags and the Sort
  header (api.go), the keys of the rate limiter, and the answer to a Range request
  (dataRangeResponse of api.go).
\<close>

subsection \<open>Tags and headers\<close>

fun getTagValue :: "tag list \<Rightarrow> string \<Rightarrow> string" where
  "getTagValue [] name = []"
| "getTagValue (tg # tags) name = (if tag_name tg = name then tag_value tg else getTagValue tags name)"

text \<open>GetHeader is case-insensitive, so both tests read the same header.\<close>

definition isSortItems :: "(string \<Rightarrow> string) \<Rightarrow> bool" where
  "isSortItems header \<longleftrightarrow> header ''Sort'' = ''true'' \<or> header ''sort'' = ''true''"

definition ContentType :: string where "ContentType = ''Content-Type''"
definition ManifestType :: string where "ManifestType = ''application/x.arweave-manifest+json''"

subsection \<open>base32 and the sandbox name\<close>

definition byte_bits :: "char \<Rightarrow> bool list" where
  "byte_bits c = map (\<lambda>i. bit (of_char c :: nat) i) [7, 6, 5, 4, 3, 2, 1, 0]"

definition base32_alphabet :: string where
  "base32_alphabet = ''ABCDEFGHIJKLMNOPQRSTUVWXYZ234567''"

definition quintet :: "bool list \<Rightarrow> nat" where
  "quintet bs = foldl (\<lambda>n b. 2 * n + (if b then 1 else 0)) 0 (take 5 (bs @ replicate 5 False))"

function base32_bits :: "bool list \<Rightarrow> string" where
  "base32_bits bs = (if bs = [] then [] else base32_alphabet ! quintet bs # base32_bits (drop 5 bs))"
  by pat_completeness auto
termination
  by (relation "measure length") auto

declare base32_bits.simps [simp del]

text \<open>\<^verbatim>\<open>base32.StdEncoding.WithPadding(base32.NoPadding).EncodeToString\<close>\<close>

definition base32 :: "string \<Rightarrow> string" where
  "base32 bytes = base32_bits (concat (map byte_bits bytes))"

definition replaceId :: "string \<Rightarrow> string" where
  "replaceId txId = filter (\<lambda>c. c \<noteq> CHR ''-'' \<and> c \<noteq> CHR ''_'') txId"

definition expectedTxSandbox :: "codec \<Rightarrow> string \<Rightarrow> string" where
  "expectedTxSandbox E txId = ToLower (base32 (b64bytes E (replaceId txId)))"

definition getSubDomain :: "string \<Rightarrow> string" where
  "getSubDomain domain = hd (Split (CHR ''.'') domain)"

definition getRequestSandbox :: "string \<Rightarrow> string" where
  "getRequestSandbox host = (let prefix = hd (Split (CHR ''.'') host) in if length prefix > 40 then prefix else [])"

text \<open>\<^verbatim>\<open>^\/?([a-zA-Z\d-_]{43})\<close>\<close>

definition id_char :: "char \<Rightarrow> bool" where
  "id_char c = (let n = (of_char c :: nat) in
     97 \<le> n \<and> n \<le> 122 \<or> 65 \<le> n \<and> n \<le> 90 \<or> 48 \<le> n \<and> n \<le> 57 \<or> c = CHR ''-'' \<or> c = CHR ''_'')"

definition getTxIdFromPath :: "string \<Rightarrow> string" where
  "getTxIdFromPath path = (let p = (case path of c # r \<Rightarrow> if c = CHR ''/'' then r else path | [] \<Rightarrow> []);
       i = take 43 p in if length i = 43 \<and> list_all id_char i then i else [])"

definition genTmpFileName :: "string \<Rightarrow> string \<Rightarrow> string" where
  "genTmpFileName ip itemId = ''./tmpFile/'' @ ip @ ''-read-'' @ itemId"

subsection \<open>The rate limiter\<close>

definition limiter_key :: "string \<Rightarrow> string \<Rightarrow> string" where
  "limiter_key origin ip = origin @ '','' @ ip"

definition limiter_excluded :: "string set option \<Rightarrow> string \<Rightarrow> bool" where
  "limiter_excluded whitelist originAndIp = (case whitelist of None \<Rightarrow> False
     | Some wl \<Rightarrow> list_ex (\<lambda>s. s \<in> wl) (Split (CHR '','') originAndIp))"

subsection \<open>Which requests the manifest middleware answers\<close>

definition api_hosts :: "string list" where
  "api_hosts = [''seed-dev.everpay.io'', ''arseed.web3infra.dev'', ''arseed.web3infura.io'', ''arseed-dev.web3infra.dev'',
     ''arseed-dev.web3infura.io'', ''web3infra.dev'', ''web3infura.io'', ''arweave.world'', ''arweave.asia'',
     ''localhost'', ''127.0.0.1'']"

text \<open>The host of a redirect is what follows its first dot; a host without one is an index out of range, a panic.\<close>

datatype route = ToRoot string | ToManifest string | ToDomain string | ToApi | ToPanic

definition middleware_route :: "codec \<Rightarrow> string \<Rightarrow> string \<Rightarrow> string \<Rightarrow> bool \<Rightarrow> route" where
  "middleware_route E host verb uri tls =
     (let prefixUri = getRequestSandbox host; domain = getSubDomain host in
      if prefixUri \<noteq> [] \<and> verb = ''GET'' then
        let txId = getTxIdFromPath uri in
        if txId \<noteq> [] \<and> prefixUri = expectedTxSandbox E txId then
          (case SplitN2 (CHR ''.'') host of
            _ # rootHost # _ \<Rightarrow> ToRoot ((if tls then ''https'' else ''http'') @ ''://'' @ rootHost @ ''/'' @ txId)
          | _ \<Rightarrow> ToPanic)
        else ToManifest prefixUri
      else if domain \<noteq> [] \<and> verb = ''GET'' \<and> \<not> list_ex (\<lambda>b. hd (Split (CHR '':'') host) = b) api_hosts
        then ToDomain domain
      else ToApi)"

subsection \<open>Range requests\<close>

text \<open>
  The answer of dataRangeResponse on a file: the status, the Content-Length, the range of
  Content-Range, the bytes written, and the error it returns.
\<close>

record range_answer =
  ra_partial :: bool
  ra_length :: int
  ra_range :: "int \<times> int"
  ra_body :: string
  ra_err :: "string option"

definition buffer_size :: int where "buffer_size = 1024 * 1024"

text \<open>One pass of the loop reads up to the buffer; Read at the end of the file is an error.\<close>

function read_range :: "string \<Rightarrow> int \<Rightarrow> string \<Rightarrow> string \<times> string option" where
  "read_range rest contentLength out =
     (if contentLength > 0 then
        let chunk = take (nat (min buffer_size contentLength)) rest in
        if chunk = [] then (out, Some ''Error reading file'')
        else read_range (drop (length chunk) rest) (contentLength - int (length chunk)) (out @ chunk)
      else (out, None))"
  by pat_completeness auto
termination
  by (relation "measure (\<lambda>(rest, n, out). nat n)") (auto simp: Let_def min_def)

declare read_range.simps [simp del]

definition parse_or :: "string \<Rightarrow> int \<Rightarrow> int" where
  "parse_or s dflt = (case ParseInt s of Ret i \<Rightarrow> i | _ \<Rightarrow> dflt)"

definition range_bounds :: "int \<Rightarrow> string \<Rightarrow> string \<Rightarrow> int \<times> int" where
  "range_bounds fsize a b = (if a = [] then (i64 (fsize - parse_or b (fsize - 1)), fsize - 1)
     else if b = [] then (parse_or a 0, fsize - 1)
     else (parse_or a 0, parse_or b (fsize - 1)))"

definition no_range :: "string option \<Rightarrow> range_answer" where
  "no_range e = \<lparr>ra_partial = False, ra_length = 0, ra_range = (0, 0), ra_body = [], ra_err = e\<rparr>"

definition dataRangeResponse :: "string \<Rightarrow> string \<Rightarrow> range_answer" where
  "dataRangeResponse content rangeHeader =
     (if rangeHeader = [] then
        \<lparr>ra_partial = False, ra_length = int (length content), ra_range = (0, int (length content) - 1), ra_body = content, ra_err = None\<rparr>
      else case Split (CHR ''='') rangeHeader of
        [p0, p1] \<Rightarrow> if p0 \<noteq> ''bytes'' then no_range (Some ''Invalid Range header'')
          else (case Split (CHR ''-'') p1 of
              [a, b] \<Rightarrow>
                (let (start, e) = range_bounds (int (length content)) a b; contentLength = i64 (e - start + 1);
                     (body, err) = (if start < 0 then ([], Some ''error seeking file'')
                        else read_range (drop (nat start) content) contentLength [])
                 in \<lparr>ra_partial = True, ra_length = contentLength, ra_range = (start, e), ra_body = body, ra_err = err\<rparr>)
            | _ \<Rightarrow> no_range (Some ''Invalid Range header''))
      | _ \<Rightarrow> no_range (Some ''Invalid Range header''))"

subsection \<open>Facts about base32\<close>

lemma length_byte_bits [simp]: "length (byte_bits c) = 8"
  by (simp add: byte_bits_def)

lemma length_bits [simp]: "length (concat (map byte_bits s)) = 8 * length s"
  by (induction s) simp_all

lemma byte_bits_inj: "byte_bits c = byte_bits d \<longleftrightarrow> c = d"
proof
  assume "byte_bits c = byte_bits d"
  then have *: "\<forall>i \<in> {0, 1, 2, 3, 4, 5, 6, 7}. bit (of_char c :: nat) i = bit (of_char d :: nat) i"
    by (simp add: byte_bits_def)
  have "(of_char c :: nat) = of_char d"
  proof (rule bit_eqI)
    fix i :: nat
    have hi: "\<not> bit (of_char x :: nat) i" if "8 \<le> i" for x
    proof -
      have "(of_char x :: nat) < 2 ^ 8" using nat_of_char_less_256 [of x] by simp
      also have "(2 :: nat) ^ 8 \<le> 2 ^ i" using that by (intro power_increasing) simp_all
      finally show ?thesis by (simp add: bit_iff_odd)
    qed
    show "bit (of_char c :: nat) i = bit (of_char d :: nat) i"
    proof (cases "i < 8")
      case True
      then have "i \<in> {0, 1, 2, 3, 4, 5, 6, 7}" by auto
      then show ?thesis using * by blast
    qed (use hi in auto)
  qed
  then show "c = d" by simp
qed simp

lemma bits_inj: "length s = length t \<Longrightarrow> concat (map byte_bits s) = concat (map byte_bits t) \<Longrightarrow> s = t"
  by (induction s t rule: list_induct2) (simp_all add: byte_bits_inj)

lemma quintet_less: "quintet bs < 32"
proof -
  have "foldl (\<lambda>n b. 2 * n + (if b then 1 else 0)) m xs < (m + 1) * 2 ^ length xs" for m :: nat and xs
  proof (induction xs arbitrary: m)
    case (Cons b xs)
    have "foldl (\<lambda>n b. 2 * n + (if b then 1 else 0)) (2 * m + (if b then 1 else 0)) xs
        < (2 * m + (if b then 1 else 0) + 1) * 2 ^ length xs" by (rule Cons.IH)
    also have "\<dots> \<le> (m + 1) * 2 ^ length (b # xs)" by simp
    finally show ?case by simp
  qed simp
  from this [of 0 "take 5 (bs @ replicate 5 False)"]
  have "quintet bs < 2 ^ length (take 5 (bs @ replicate 5 False))" by (simp only: quintet_def) simp
  moreover have "length (take 5 (bs @ replicate 5 False)) = 5" by simp
  ultimately show ?thesis by (simp only:) simp
qed

lemma foldl_bits_inj:
  "length xs = length ys \<Longrightarrow> foldl (\<lambda>n b. 2 * n + (if b then 1 else 0)) (m :: nat) xs
     = foldl (\<lambda>n b. 2 * n + (if b then 1 else 0)) m' ys \<Longrightarrow> m = m' \<and> xs = ys"
proof (induction xs ys arbitrary: m m' rule: list_induct2)
  case (Cons x xs y ys)
  from Cons.IH [of "2 * m + (if x then 1 else 0)" "2 * m' + (if y then 1 else 0)"] Cons.prems
  have "2 * m + (if x then 1 else 0) = 2 * m' + (if y then 1 else 0)" and "xs = ys" by auto
  then show ?case by (cases x; cases y; simp; presburger)
qed simp

lemma quintet_inj:
  assumes "length bs = length cs" and "quintet bs = quintet cs"
  shows "take 5 bs = take 5 cs"
proof -
  have "take 5 (bs @ replicate 5 False) = take 5 (cs @ replicate 5 False)"
    using assms foldl_bits_inj [of "take 5 (bs @ replicate 5 False)" "take 5 (cs @ replicate 5 False)" 0 0]
    by (simp add: quintet_def)
  then show ?thesis using assms(1) by (metis append_eq_append_conv length_take take_append)
qed

lemma alphabet_inj: "i < 32 \<Longrightarrow> j < 32 \<Longrightarrow> base32_alphabet ! i = base32_alphabet ! j \<longleftrightarrow> i = j"
  by (rule nth_eq_iff_index_eq) (simp_all add: base32_alphabet_def)

lemma base32_bits_inj: "length bs = length cs \<Longrightarrow> base32_bits bs = base32_bits cs \<Longrightarrow> bs = cs"
proof (induction bs arbitrary: cs rule: base32_bits.induct)
  case (1 bs)
  show ?case
  proof (cases "bs = []")
    case False
    then have cs: "cs \<noteq> []" using 1(2) by auto
    from 1(3) have "base32_alphabet ! quintet bs = base32_alphabet ! quintet cs"
      and tl: "base32_bits (drop 5 bs) = base32_bits (drop 5 cs)"
      using False cs by (simp_all add: base32_bits.simps [of bs] base32_bits.simps [of cs])
    then have "quintet bs = quintet cs" using alphabet_inj quintet_less by blast
    then have "take 5 bs = take 5 cs" using quintet_inj [OF 1(2)] by blast
    moreover have "drop 5 bs = drop 5 cs" using 1(1) [OF False _ tl] 1(2) by simp
    ultimately show ?thesis by (metis append_take_drop_id)
  qed (use 1 in simp)
qed

lemma length_base32_bits: "length (base32_bits bs) = (length bs + 4) div 5"
proof (induction bs rule: base32_bits.induct)
  case (1 bs)
  show ?case
  proof (cases "bs = []")
    case False
    then have "length (base32_bits bs) = Suc ((length bs - 5 + 4) div 5)"
      using 1 by (simp add: base32_bits.simps [of bs])
    moreover have "Suc ((length bs - 5 + 4) div 5) = (length bs + 4) div 5"
    proof (cases "length bs < 5")
      case True
      then have "length bs - 5 + 4 = 4" "1 \<le> length bs" using False by (simp_all add: Suc_leI)
      then have "(length bs + 4) div 5 = 1" using True by (simp add: div_nat_eqI)
      with \<open>length bs - 5 + 4 = 4\<close> show ?thesis by simp
    next
      case False
      then have "length bs + 4 = (length bs - 5 + 4) + 5" by simp
      then show ?thesis by simp
    qed
    ultimately show ?thesis by simp
  qed (simp add: base32_bits.simps)
qed

lemma base32_bits_chars: "c \<in> set (base32_bits bs) \<Longrightarrow> c \<in> set base32_alphabet"
proof (induction bs rule: base32_bits.induct)
  case (1 bs)
  have small: "quintet bs < length base32_alphabet" using quintet_less [of bs] by (simp add: base32_alphabet_def)
  show ?case
  proof (cases "bs = []")
    case True
    then show ?thesis using 1(2) by (simp add: base32_bits.simps)
  next
    case False
    then have "c = base32_alphabet ! quintet bs \<or> c \<in> set (base32_bits (drop 5 bs))"
      using 1(2) by (simp add: base32_bits.simps [of bs])
    then show ?thesis using 1(1) [OF False] small by auto
  qed
qed

lemma lower_alphabet_inj: "inj_on lower_char (set base32_alphabet)"
proof -
  have "distinct (map lower_char base32_alphabet)" by code_simp
  then show ?thesis by (simp add: distinct_map)
qed

lemma ToLower_base32_inj: "ToLower (base32_bits bs) = ToLower (base32_bits cs) \<Longrightarrow> base32_bits bs = base32_bits cs"
  unfolding ToLower_def
  by (erule map_inj_on, rule inj_on_subset [OF lower_alphabet_inj]) (auto dest: base32_bits_chars)

lemma sandbox_no_dot: "CHR ''.'' \<notin> set (expectedTxSandbox E txId)"
proof -
  have "list_all (\<lambda>c. lower_char c \<noteq> CHR ''.'') base32_alphabet" by code_simp
  then show ?thesis by (auto simp: list_all_iff expectedTxSandbox_def ToLower_def base32_def dest: base32_bits_chars)
qed

lemma length_sandbox: "length (expectedTxSandbox E txId) = (8 * length (b64bytes E (replaceId txId)) + 4) div 5"
  by (simp add: expectedTxSandbox_def ToLower_def base32_def length_base32_bits)

subsection \<open>Facts about ranges\<close>

lemma read_range_within:
  "0 \<le> n \<Longrightarrow> nat n \<le> length rest \<Longrightarrow> read_range rest n out = (out @ take (nat n) rest, None)"
proof (induction rest n out rule: read_range.induct)
  case (1 rest n out)
  show ?case
  proof (cases "n > 0")
    case True
    let ?chunk = "take (nat (min buffer_size n)) rest"
    have k: "0 < nat (min buffer_size n)" "nat (min buffer_size n) \<le> nat n"
      using True by (auto simp: buffer_size_def min_def)
    then have len: "length ?chunk = nat (min buffer_size n)" and ne: "?chunk \<noteq> []" using 1(3) by auto
    have "read_range (drop (length ?chunk) rest) (n - int (length ?chunk)) (out @ ?chunk)
        = ((out @ ?chunk) @ take (nat (n - int (length ?chunk))) (drop (length ?chunk) rest), None)"
      using 1(1) [OF True refl ne] 1(2,3) len k by auto
    moreover have "?chunk @ take (nat (n - int (length ?chunk))) (drop (length ?chunk) rest) = take (nat n) rest"
    proof -
      have "nat n = length ?chunk + nat (n - int (length ?chunk))" using len k True by linarith
      then show ?thesis using len by (metis take_add)
    qed
    ultimately show ?thesis using True ne by (subst read_range.simps) (simp add: Let_def)
  next
    case False
    then show ?thesis using 1(2) by (subst read_range.simps) simp
  qed
qed

lemma read_range_beyond:
  "int (length rest) < n \<Longrightarrow> read_range rest n out = (out @ rest, Some ''Error reading file'')"
proof (induction rest n out rule: read_range.induct)
  case (1 rest n out)
  let ?chunk = "take (nat (min buffer_size n)) rest"
  have n: "n > 0" using 1(2) by simp
  show ?case
  proof (cases "?chunk = []")
    case True
    then have "rest = []" using n by (auto simp: buffer_size_def min_def split: if_splits)
    then show ?thesis using n by (subst read_range.simps) simp
  next
    case False
    have "read_range (drop (length ?chunk) rest) (n - int (length ?chunk)) (out @ ?chunk)
        = ((out @ ?chunk) @ drop (length ?chunk) rest, Some ''Error reading file'')"
      using 1(2) by (intro 1(1) [OF n refl False]) auto
    moreover have "?chunk @ drop (length ?chunk) rest = rest"
      by (cases "nat (min buffer_size n) \<le> length rest") simp_all
    ultimately show ?thesis using n False by (subst read_range.simps) (simp add: Let_def)
  qed
qed

lemma FormatInt_nat [simp]: "FormatInt (int n) = FormatNat n"
  by (simp add: FormatInt_def)

lemma parse_or_FormatNat: "in_i64 (int n) \<Longrightarrow> parse_or (FormatNat n) z = int n"
  using ParseInt_FormatInt [of "int n"] by (simp add: parse_or_def)

text \<open>A header of one range, by the texts before and after the dash.\<close>

lemma dataRangeResponse_header:
  assumes "CHR ''='' \<notin> set (a @ b)" and "CHR ''-'' \<notin> set (a @ b)"
  shows "dataRangeResponse content (''bytes='' @ a @ ''-'' @ b) =
     (let (start, e) = range_bounds (int (length content)) a b; contentLength = i64 (e - start + 1);
          (body, err) = (if start < 0 then ([], Some ''error seeking file'') else read_range (drop (nat start) content) contentLength [])
      in \<lparr>ra_partial = True, ra_length = contentLength, ra_range = (start, e), ra_body = body, ra_err = err\<rparr>)"
proof -
  have eq: "CHR ''='' \<notin> set ''bytes''" "CHR ''='' \<notin> set (a @ ''-'' @ b)" using assms(1) by simp_all
  have "''bytes='' @ a @ ''-'' @ b = ''bytes'' @ CHR ''='' # a @ ''-'' @ b" by simp
  then have 1: "Split (CHR ''='') (''bytes='' @ a @ ''-'' @ b) = [''bytes'', a @ ''-'' @ b]"
    by (simp only: Split_Cons_append [OF eq(1)] Split_none [OF eq(2)])
  have 2: "Split (CHR ''-'') (a @ ''-'' @ b) = [a, b]"
    using Split_Cons_append [of "CHR ''-''" a b] Split_none [of "CHR ''-''" b] assms(2) by simp
  have 3: "''bytes='' @ a @ ''-'' @ b \<noteq> []" by simp
  have 4: "\<not> ''bytes'' \<noteq> ''bytes''" by simp
  show ?thesis unfolding dataRangeResponse_def if_not_P [OF 3] 1 by (simp only: 2 list.case if_not_P [OF 4])
qed

subsection \<open>Properties\<close>

text \<open>
  The redirect of a manifest and the middleware agree: for an id that decodes to at least 26
  bytes (an ArId has 32) the host made of its sandbox name is recognised as that sandbox; the path
  /id on it redirects to the root host with the id; and two ids have the same sandbox name exactly
  when the bytes they decode to, after their dashes and underscores are dropped, are the same.
\<close>

theorem sandbox_roundtrip:
  assumes len: "26 \<le> length (b64bytes E (replaceId txId))"
    and path: "length txId = 43" "list_all id_char txId"
    and other: "length (b64bytes E (replaceId txId')) = length (b64bytes E (replaceId txId))"
  shows "getRequestSandbox (expectedTxSandbox E txId @ ''.'' @ host) = expectedTxSandbox E txId
    \<and> middleware_route E (expectedTxSandbox E txId @ ''.'' @ host) ''GET'' (''/'' @ txId @ rest) tls
        = ToRoot ((if tls then ''https'' else ''http'') @ ''://'' @ host @ ''/'' @ txId)
    \<and> (expectedTxSandbox E txId = expectedTxSandbox E txId'
        \<longleftrightarrow> b64bytes E (replaceId txId) = b64bytes E (replaceId txId'))"
proof -
  let ?sb = "expectedTxSandbox E txId"
  have hd: "hd (Split (CHR ''.'') (?sb @ ''.'' @ host)) = ?sb"
    using hd_Split [of "CHR ''.''" ?sb host] Split_none [OF sandbox_no_dot] by simp
  have long: "40 < length ?sb" using len by (simp add: length_sandbox)
  then have sb: "getRequestSandbox (?sb @ ''.'' @ host) = ?sb" "?sb \<noteq> []"
    using hd by (auto simp: getRequestSandbox_def Let_def)
  have txId: "getTxIdFromPath (''/'' @ txId @ rest) = txId"
    using path by (simp add: getTxIdFromPath_def Let_def)
  have "SplitN2 (CHR ''.'') (?sb @ ''.'' @ host) = [?sb, host]"
    using SplitN2_append [OF sandbox_no_dot, of E txId host] by simp
  then have route: "middleware_route E (?sb @ ''.'' @ host) ''GET'' (''/'' @ txId @ rest) tls
      = ToRoot ((if tls then ''https'' else ''http'') @ ''://'' @ host @ ''/'' @ txId)"
    using sb txId path(1) by (auto simp: middleware_route_def Let_def)
  have "b64bytes E (replaceId txId) = b64bytes E (replaceId txId')" if eq: "?sb = expectedTxSandbox E txId'"
  proof -
    have "base32 (b64bytes E (replaceId txId)) = base32 (b64bytes E (replaceId txId'))"
      using eq ToLower_base32_inj unfolding expectedTxSandbox_def base32_def by blast
    then have "concat (map byte_bits (b64bytes E (replaceId txId))) = concat (map byte_bits (b64bytes E (replaceId txId')))"
      using other by (intro base32_bits_inj) (simp_all add: base32_def)
    then show ?thesis using other by (intro bits_inj) simp_all
  qed
  moreover have "?sb = expectedTxSandbox E txId'" if "b64bytes E (replaceId txId) = b64bytes E (replaceId txId')"
    using that by (simp add: expectedTxSandbox_def)
  ultimately show ?thesis using sb(1) route by blast
qed

theorem sandbox_roundtrip_witness:
  "middleware_route plain_codec (expectedTxSandbox plain_codec (replicate 43 (CHR ''a'')) @ ''.arseed.web3infra.dev'')
     ''GET'' (''/'' @ replicate 43 (CHR ''a'')) True
   = ToRoot (''https://arseed.web3infra.dev/'' @ replicate 43 (CHR ''a''))"
proof -
  have "list_all id_char (replicate 43 (CHR ''a''))" by (simp add: list_all_iff id_char_def)
  moreover have "length (b64bytes plain_codec (replaceId (replicate 43 (CHR ''a'')))) = 43"
    by (simp add: plain_codec_def replaceId_def)
  ultimately show ?thesis
    using sandbox_roundtrip [of plain_codec "replicate 43 (CHR ''a'')" "replicate 43 (CHR ''a'')"
      "''arseed.web3infra.dev''" "[]" True] by simp
qed

text \<open>
  C37: a request for one range of a file smaller than 2^63 - 1 bytes, in each of its forms. For a range a-b that ends inside the
  file, for a- from a place in the file to its end, and for the last n bytes, -n, of a file that has as many, the answer is partial, has the
  length and the range that was asked for, writes exactly those bytes and returns no error, however many reads of the 1 MB buffer it
  takes. The other two ranges that a server could satisfy are promised and not served: for a-b past the end the Content-Length and
  the Content-Range go past the end too, the rest of the file is written and the call returns an error; and for more last bytes than
  there are nothing is written and the seek before the start of the file fails.
\<close>

theorem dataRangeResponse_exact:
  assumes size: "int (length content) < 2 ^ 63 - 1"
  shows "(a \<le> b \<longrightarrow> b < length content \<longrightarrow> dataRangeResponse content (''bytes='' @ FormatNat a @ ''-'' @ FormatNat b) =
       \<lparr>ra_partial = True, ra_length = int b - int a + 1, ra_range = (int a, int b),
        ra_body = take (Suc b - a) (drop a content), ra_err = None\<rparr>)
    \<and> (a \<le> length content \<longrightarrow> dataRangeResponse content (''bytes='' @ FormatNat a @ ''-'') =
       \<lparr>ra_partial = True, ra_length = int (length content) - int a, ra_range = (int a, int (length content) - 1),
        ra_body = drop a content, ra_err = None\<rparr>)
    \<and> (n \<le> length content \<longrightarrow> dataRangeResponse content (''bytes='' @ ''-'' @ FormatNat n) =
       \<lparr>ra_partial = True, ra_length = int n, ra_range = (int (length content - n), int (length content) - 1),
        ra_body = drop (length content - n) content, ra_err = None\<rparr>)
    \<and> (a \<le> b \<longrightarrow> length content \<le> b \<longrightarrow> int b < 2 ^ 63 - 1 \<longrightarrow> dataRangeResponse content (''bytes='' @ FormatNat a @ ''-'' @ FormatNat b) =
       \<lparr>ra_partial = True, ra_length = int b - int a + 1, ra_range = (int a, int b),
        ra_body = drop a content, ra_err = Some ''Error reading file''\<rparr>)
    \<and> (length content < n \<longrightarrow> int n < 2 ^ 63 - 1 \<longrightarrow> dataRangeResponse content (''bytes='' @ ''-'' @ FormatNat n) =
       \<lparr>ra_partial = True, ra_length = int n, ra_range = (int (length content) - int n, int (length content) - 1),
        ra_body = [], ra_err = Some ''error seeking file''\<rparr>)"
proof (intro conjI impI)
  have free: "c \<notin> set (FormatNat i)" if "\<not> is_digit c" for c i using that by auto
  have digit: "\<not> is_digit (CHR ''='')" "\<not> is_digit (CHR ''-'')" by (simp_all add: is_digit_def)
  have both: "CHR ''='' \<notin> set (FormatNat i @ FormatNat j)" "CHR ''-'' \<notin> set (FormatNat i @ FormatNat j)" for i j
    using free digit by simp_all
  have last: "CHR ''='' \<notin> set ([] @ FormatNat i)" "CHR ''-'' \<notin> set ([] @ FormatNat i)" for i using free digit by simp_all
  have to_end: "CHR ''='' \<notin> set (FormatNat i @ [])" "CHR ''-'' \<notin> set (FormatNat i @ [])" for i using free digit by simp_all
  note ab = dataRangeResponse_header [OF both, where content = content]
  note en = dataRangeResponse_header [OF to_end, where content = content, unfolded append_Nil2]
  note la = dataRangeResponse_header [OF last, where content = content, unfolded append_Nil]
  show "dataRangeResponse content (''bytes='' @ FormatNat a @ ''-'' @ FormatNat b) =
       \<lparr>ra_partial = True, ra_length = int b - int a + 1, ra_range = (int a, int b), ra_body = take (Suc b - a) (drop a content), ra_err = None\<rparr>"
    if "a \<le> b" "b < length content"
  proof -
    have i: "in_i64 (int a)" "in_i64 (int b)" "in_i64 (int b - int a + 1)" using that size by (auto simp: in_i64_def)
    have n: "nat (int b - int a + 1) = Suc b - a" using that by simp
    show ?thesis unfolding ab
      using i n that read_range_within [of "int b - int a + 1" "drop a content" "[]"] by (simp add: range_bounds_def parse_or_FormatNat)
  qed
  show "dataRangeResponse content (''bytes='' @ FormatNat a @ ''-'') =
       \<lparr>ra_partial = True, ra_length = int (length content) - int a, ra_range = (int a, int (length content) - 1), ra_body = drop a content, ra_err = None\<rparr>"
    if "a \<le> length content"
  proof -
    have i: "in_i64 (int a)" "in_i64 (int (length content) - int a)" using that size by (auto simp: in_i64_def)
    show ?thesis unfolding en
      using i that read_range_within [of "int (length content) - int a" "drop a content" "[]"] by (simp add: range_bounds_def parse_or_FormatNat nat_diff_distrib)
  qed
  show "dataRangeResponse content (''bytes='' @ ''-'' @ FormatNat n) =
       \<lparr>ra_partial = True, ra_length = int n, ra_range = (int (length content - n), int (length content) - 1),
        ra_body = drop (length content - n) content, ra_err = None\<rparr>"
    if "n \<le> length content"
  proof -
    have i: "in_i64 (int n)" "in_i64 (int (length content - n))" "in_i64 (int (length content) - int n)" using that size by (auto simp: in_i64_def)
    show ?thesis unfolding la
      using i that read_range_within [of "int n" "drop (length content - n) content" "[]"]
      by (simp add: range_bounds_def parse_or_FormatNat of_nat_diff nat_diff_distrib Let_def)
  qed
  show "dataRangeResponse content (''bytes='' @ FormatNat a @ ''-'' @ FormatNat b) =
       \<lparr>ra_partial = True, ra_length = int b - int a + 1, ra_range = (int a, int b), ra_body = drop a content, ra_err = Some ''Error reading file''\<rparr>"
    if "a \<le> b" "length content \<le> b" "int b < 2 ^ 63 - 1"
  proof -
    have i: "in_i64 (int a)" "in_i64 (int b)" "in_i64 (int b - int a + 1)" using that by (auto simp: in_i64_def)
    have "int (length (drop a content)) < int b - int a + 1" using that by auto
    then show ?thesis unfolding ab
      using i read_range_beyond [of "drop a content" "int b - int a + 1" "[]"] by (simp add: range_bounds_def parse_or_FormatNat)
  qed
  show "dataRangeResponse content (''bytes='' @ ''-'' @ FormatNat n) =
       \<lparr>ra_partial = True, ra_length = int n, ra_range = (int (length content) - int n, int (length content) - 1), ra_body = [],
        ra_err = Some ''error seeking file''\<rparr>"
    if "length content < n" "int n < 2 ^ 63 - 1"
  proof -
    have i: "in_i64 (int n)" "in_i64 (int (length content) - int n)" using that by (auto simp: in_i64_def)
    show ?thesis unfolding la using i that by (simp add: range_bounds_def parse_or_FormatNat)
  qed
qed

theorem dataRangeResponse_exact_witness:
  "ra_body (dataRangeResponse ''hello'' (''bytes='' @ FormatNat 1 @ ''-'' @ FormatNat 3)) = ''ell''
   \<and> ra_body (dataRangeResponse ''hello'' (''bytes='' @ ''-'' @ FormatNat 2)) = ''lo''
   \<and> ra_err (dataRangeResponse ''hello'' (''bytes='' @ ''-'' @ FormatNat 9)) = Some ''error seeking file''"
proof -
  have "int (length ''hello'') < 2 ^ 63 - 1" by simp
  from dataRangeResponse_exact [OF this, of 1 3 2] dataRangeResponse_exact [OF this, of 1 3 9] show ?thesis by (simp del: append.simps)
qed

text \<open>
  The key of the rate limiter is the Origin header and the client address, and the whitelist is
  looked up in all its comma-separated parts: a client is excluded from the limit as soon as any part
  of the Origin header it sends is a whitelisted address, whatever its own address is.
\<close>

theorem limiter_excluded_by_origin:
  assumes "CHR '','' \<notin> set ip"
  shows "limiter_excluded (Some wl) (limiter_key origin ip)
    \<longleftrightarrow> ip \<in> wl \<or> (\<exists>s \<in> set (Split (CHR '','') origin). s \<in> wl)"
  using Split_append [of "CHR '',''" origin ip] Split_none [OF assms]
  by (auto simp: limiter_excluded_def limiter_key_def list_ex_iff)

theorem limiter_excluded_by_origin_witness:
  "limiter_excluded (Some {''10.0.0.1''}) (limiter_key ''x,10.0.0.1'' ''203.0.113.9'')"
  using limiter_excluded_by_origin [of "''203.0.113.9''" "{''10.0.0.1''}" "''x,10.0.0.1''"] by simp

end
