(* ===== verification/Submit.thy ===== *)
theory Submit
  imports Offsets TaskManager Wdb Routing
begin

text \<open>
  submit.go: the three ways a transaction reaches the store, a submitted chunk, a submitted
  transaction and one that is fetched from the network. \<open>seeding\<close> is the part of Arseeding they
  change: the store, the database and the table of tasks. submitLocker and endOffsetLocker make each
  of the first two a single step on the store.
\<close>

record seeding =
  s_store :: kvdb
  s_wdb :: wdb
  s_tasks :: task_map

definition on_store :: "(kvdb \<Rightarrow> 'a go \<times> kvdb) \<Rightarrow> seeding \<Rightarrow> 'a go \<times> seeding" where
  "on_store m s = (case m (s_store s) of (r, d) \<Rightarrow> (r, s\<lparr>s_store := d\<rparr>))"

definition on_wdb :: "(wdb \<Rightarrow> 'a go \<times> wdb) \<Rightarrow> seeding \<Rightarrow> 'a go \<times> seeding" where
  "on_wdb m s = (case m (s_wdb s) of (r, w) \<Rightarrow> (r, s\<lparr>s_wdb := w\<rparr>))"

definition on_tasks :: "(task_map \<Rightarrow> 'a go \<times> task_map) \<Rightarrow> seeding \<Rightarrow> 'a go \<times> seeding" where
  "on_tasks m s = (case m (s_tasks s) of (r, t) \<Rightarrow> (r, s\<lparr>s_tasks := t\<rparr>))"

subsection \<open>Chunks and transactions from clients\<close>

definition verify_err :: err where "verify_err = ErrMsg ''verifyChunk error''"

definition SaveSubmitChunk :: "goar \<Rightarrow> chunk \<Rightarrow> kvdb \<Rightarrow> unit go \<times> kvdb" where
  "SaveSubmitChunk G c d = (case verifyChunk G c of
      Panic p \<Rightarrow> (Panic p, d)
    | Err _ \<Rightarrow> (Err verify_err, d)
    | Ret ok \<Rightarrow> if \<not> ok then (Err verify_err, d)
        else bindG (IsExistTxDataEndOffset (cod G) (ck_DataRoot c) (ck_DataSize c)) (\<lambda>ex.
          bindG (if ex then Pair (Ret ()) else syncAddTxDataEndOffset G (ck_DataRoot c) (ck_DataSize c)) (\<lambda>_.
            storeChunk G c)) d)"

definition submitData :: "goar \<Rightarrow> transaction \<Rightarrow> kvdb \<Rightarrow> unit go \<times> kvdb" where
  "submitData G arTx d = (if tx_Data arTx = [] then (Ret (), d)
     else case Base64Decode G (tx_Data arTx) of
         Ret dataBy \<Rightarrow> setTxDataChunks G arTx dataBy d
       | Err e \<Rightarrow> (Err e, d)
       | Panic p \<Rightarrow> (Panic p, d))"

definition registerBundle :: "goar \<Rightarrow> tag list \<Rightarrow> string \<Rightarrow> kvdb \<Rightarrow> unit go \<times> kvdb" where
  "registerBundle G tags arId d = (if isBundleTx G tags then SaveWaitParseBundleArId arId d else (Ret (), d))"

definition SaveSubmitTx :: "goar \<Rightarrow> transaction \<Rightarrow> kvdb \<Rightarrow> unit go \<times> kvdb" where
  "SaveSubmitTx G arTx d = (case VerifyTransaction G arTx of
      Some e \<Rightarrow> (Err e, d)
    | None \<Rightarrow> bindG (IsExistTxMeta (tx_ID arTx)) (\<lambda>ex d1.
        if ex then (Err ErrExistTx, d1)
        else bindG (SaveTxMeta arTx) (\<lambda>_.
          bindG (IsExistTxDataEndOffset (cod G) (tx_DataRoot arTx) (tx_DataSize arTx)) (\<lambda>ex d2.
            if ex then (Ret (), d2)
            else bindG (syncAddTxDataEndOffset G (tx_DataRoot arTx) (tx_DataSize arTx)) (\<lambda>_.
              bindG (submitData G arTx) (\<lambda>_. registerBundle G (tx_Tags arTx) (tx_ID arTx))) d2)) d1) d)"

subsection \<open>FetchAndStoreTx\<close>

definition fetchMeta :: "net \<Rightarrow> string list \<Rightarrow> string \<Rightarrow> seeding \<Rightarrow> transaction go \<times> seeding" where
  "fetchMeta N peers arId s = (case on_store (LoadTxMeta arId) s of
      (Ret meta, s1) \<Rightarrow> (Ret meta, s1)
    | (Panic p, s1) \<Rightarrow> (Panic p, s1)
    | (Err _, s1) \<Rightarrow> (case gw_tx N arId of
          Ret meta \<Rightarrow> (Ret meta, s1)
        | Panic p \<Rightarrow> (Panic p, s1)
        | Err _ \<Rightarrow> on_tasks (GetUnconfirmedTxFromPeers N arId TaskTypeSync peers) s1))"

definition fetchData :: "net \<Rightarrow> string list \<Rightarrow> string \<Rightarrow> seeding \<Rightarrow> string go \<times> seeding" where
  "fetchData N peers arId s = (case gw_data N arId of
      Ret data \<Rightarrow> (Ret data, s)
    | Panic p \<Rightarrow> (Panic p, s)
    | Err _ \<Rightarrow> on_tasks (GetTxDataFromPeers N arId TaskTypeSync peers) s)"

definition storeMeta :: "goar \<Rightarrow> string \<Rightarrow> transaction \<Rightarrow> kvdb \<Rightarrow> unit go \<times> kvdb" where
  "storeMeta G arId meta = bindG (IsExistTxMeta arId) (\<lambda>ex.
     bindG (if ex then Pair (Ret ()) else SaveTxMeta meta) (\<lambda>_.
       bindG (IsExistTxDataEndOffset (cod G) (tx_DataRoot meta) (tx_DataSize meta)) (\<lambda>ex.
         if ex then Pair (Ret ()) else syncAddTxDataEndOffset G (tx_DataRoot meta) (tx_DataSize meta))))"

definition recordManifest :: "goar \<Rightarrow> bool \<Rightarrow> tag list \<Rightarrow> string \<Rightarrow> wdb \<Rightarrow> unit go \<times> wdb" where
  "recordManifest G enableManifest tags i w =
     (if enableManifest \<and> getTagValue tags ContentType = ManifestType then
        let mfUrl = expectedTxSandbox (cod G) i in
        case GetManifestId mfUrl w of
          (Err e, w1) \<Rightarrow> if e = ErrRecordNotFound then InsertManifest mfUrl i w1 else (Ret (), w1)
        | (Panic p, w1) \<Rightarrow> (Panic p, w1)
        | (Ret _, w1) \<Rightarrow> (Ret (), w1)
      else (Ret (), w))"

definition storeFetched :: "goar \<Rightarrow> net \<Rightarrow> bool \<Rightarrow> string list \<Rightarrow> string \<Rightarrow> transaction \<Rightarrow> seeding \<Rightarrow> unit go \<times> seeding" where
  "storeFetched G N enableManifest peers arId meta = bindG (fetchData N peers arId) (\<lambda>data.
     bindG (on_store (setTxDataChunks G meta data)) (\<lambda>_.
       bindG (on_wdb (recordManifest G enableManifest (fst (TagsDecode G (tx_Tags meta))) arId)) (\<lambda>_.
         on_store (registerBundle G (tx_Tags meta) arId))))"

definition FetchAndStoreTx :: "goar \<Rightarrow> net \<Rightarrow> bool \<Rightarrow> string list \<Rightarrow> string \<Rightarrow> seeding \<Rightarrow> (unit go \<times> seeding) option" where
  "FetchAndStoreTx G N enableManifest peers arId s = (case fetchMeta N peers arId s of
      (Err e, s1) \<Rightarrow> Some (Err e, s1)
    | (Panic p, s1) \<Rightarrow> Some (Panic p, s1)
    | (Ret meta, s1) \<Rightarrow>
        if tx_ID meta = [] then Some (Err (ErrMsg ''get arTxMeta failed''), s1)
        else (case on_store (storeMeta G arId meta) s1 of
            (Err e, s2) \<Rightarrow> Some (Err e, s2)
          | (Panic p, s2) \<Rightarrow> Some (Panic p, s2)
          | (Ret _, s2) \<Rightarrow>
              (case SetString (tx_DataSize meta) of
                 None \<Rightarrow> Some (Err (ErrMsg ''SetString(arTxMeta.DataSize,10) failed''), s2)
               | Some sz \<Rightarrow> if sz \<le> 0 then Some (Ret (), s2)
                   else (case getArTxData G (tx_DataRoot meta) (tx_DataSize meta) (s_store s2) of
                       None \<Rightarrow> None
                     | Some (Ret _, d3) \<Rightarrow> Some (Ret (), s2\<lparr>s_store := d3\<rparr>)
                     | Some (Panic p, d3) \<Rightarrow> Some (Panic p, s2\<lparr>s_store := d3\<rparr>)
                     | Some (Err _, d3) \<Rightarrow>
                         Some (storeFetched G N enableManifest peers arId meta (s2\<lparr>s_store := d3\<rparr>))))))"

subsection \<open>Facts\<close>

lemma IsExistTxMeta_absent:
  assumes "healthy d" and "kv_lookup d TxMetaBucket i = None"
  shows "IsExistTxMeta i d = (Ret (kv_kind d = Mongo), d)"
  using assms by (simp add: IsExistTxMeta_def LoadTxMeta_def not_exist_err_def probe_def)

lemma LoadTxMeta_stored:
  "healthy d \<Longrightarrow> kv_lookup d TxMetaBucket i = Some (JsonTx t) \<Longrightarrow> LoadTxMeta i d = (Ret t, d)"
  by (simp add: LoadTxMeta_def blob_empty_def unmarshal_tx_def)

lemma SaveTxMeta_healthy:
  "healthy d \<Longrightarrow> SaveTxMeta tx d = (Ret (), kv_store TxMetaBucket (tx_ID tx) (JsonTx (tx\<lparr>tx_Data := []\<rparr>)) d)"
  by (simp add: SaveTxMeta_def)

text \<open>The state of a transaction that was never submitted, on a backend that can tell.\<close>

definition fresh_tx :: "goar \<Rightarrow> transaction \<Rightarrow> 64 word \<Rightarrow> kvdb \<Rightarrow> bool" where
  "fresh_tx G tx cur d \<longleftrightarrow> healthy d \<and> kv_kind d \<noteq> Mongo \<and> kv_lookup d TxMetaBucket (tx_ID tx) = None
     \<and> kv_lookup d TxDataEndOffSetBucket (generateOffSetKey (cod G) (tx_DataRoot tx) (tx_DataSize tx)) = None
     \<and> fst (LoadAllDataEndOffset (cod G) d) = Ret cur"

lemma LoadAll_other: "b \<noteq> ConstantsBucket \<Longrightarrow> healthy d
    \<Longrightarrow> fst (LoadAllDataEndOffset E (kv_store b k v d)) = fst (LoadAllDataEndOffset E d)"
  by (cases "kv_kind d") (auto simp: fst_LoadAllDataEndOffset kv_get_def bolt_get_def s3_get_def aliyun_get_def
    mongo_get_def healthy_def split: option.splits)

lemma bucket_neq2 [simp]:
  "BundleWaitParseArIdBucket \<noteq> ChunkBucket" "BundleWaitParseArIdBucket \<noteq> TxDataEndOffSetBucket"
  "TxMetaBucket \<noteq> BundleWaitParseArIdBucket"
  by (simp_all add: bucket_defs)

lemma registerBundle_healthy:
  "healthy d \<Longrightarrow> registerBundle G tags i d = (Ret (), if isBundleTx G tags
     then kv_store BundleWaitParseArIdBucket i (Bytes ''0x01'') d else d)"
  by (simp add: registerBundle_def SaveWaitParseBundleArId_def mark_def)

text \<open>No chunk lies above allDataEndOffset, so a range that is allocated next holds none.\<close>

definition chunks_upto :: "goar \<Rightarrow> kvdb \<Rightarrow> bool" where
  "chunks_upto G d \<longleftrightarrow> (\<forall>off. kv_lookup d ChunkBucket (itob (cod G) off) \<noteq> None \<longrightarrow> unat off \<le> total_end G d)"

lemma chunks_upto_empty: "chunks_upto G (empty_kv K [])"
  by (simp add: chunks_upto_def)

lemma unat_end:
  assumes "tx_room G tx data (cur + of_nat (length data))"
  shows "unat (cur + of_nat (length data)) = unat cur + length data"
proof -
  have "unat (of_nat (length data) :: 64 word) = length data" using assms by (simp add: tx_room_def unat_of_nat maxAlloc_def)
  then show ?thesis using assms unfolding tx_room_def
    by (metis (no_types, opaque_lifting) add.commute add_diff_cancel_right' le_add_diff_inverse unat_sub_if' word_le_nat_alt)
qed

lemma chunks_upto_range:
  assumes "chunks_upto G d" and "total_end G d1 = unat (cur + of_nat (length data))" and "total_end G d = unat cur"
    and "\<forall>k. kv_lookup d1 ChunkBucket k = kv_lookup d ChunkBucket k \<or> (\<exists>q < length data. k = itob (cod G) (cur + 1 + of_nat q))"
    and room: "tx_room G tx data (cur + of_nat (length data))" and E: "base64_ok (cod G)"
  shows "chunks_upto G d1"
  unfolding chunks_upto_def
proof (intro allI impI)
  fix off
  assume in1: "kv_lookup d1 ChunkBucket (itob (cod G) off) \<noteq> None"
  note e = unat_end [OF room]
  have lt: "unat (cur + of_nat (length data)) < 2 ^ 64" using room by (simp add: tx_room_def)
  consider (old) "kv_lookup d ChunkBucket (itob (cod G) off) \<noteq> None" | (new) q where "q < length data" "off = cur + 1 + of_nat q"
    using in1 assms(4) [rule_format, of "itob (cod G) off"] E by auto
  then show "unat off \<le> total_end G d1"
  proof cases
    case old
    then show ?thesis using assms(1-3) e by (auto simp: chunks_upto_def)
  next
    case new
    have "unat (cur + of_nat (Suc q)) = unat cur + Suc q"
      using new(1) e lt by (simp add: unat_word_ariths(1) unat_of_nat del: of_nat_Suc)
    then show ?thesis using new e assms(2) by (simp add: algebra_simps)
  qed
qed

lemma chunks_upto_other:
  assumes "chunks_upto G d" and "healthy d" and "b \<noteq> ChunkBucket" and "b \<noteq> ConstantsBucket"
  shows "chunks_upto G (kv_store b k v d)"
  using assms LoadAll_other [of b d "cod G" k v] by (simp add: chunks_upto_def total_end_def)

lemma chunks_upto_clear:
  assumes "chunks_upto G d" and "fresh_tx G tx cur d" and "tx_room G tx data (cur + of_nat (length data))"
  shows "kv_lookup d ChunkBucket (itob (cod G) (cur + 1)) = None"
proof (rule ccontr)
  assume "\<not> ?thesis"
  then have "unat (cur + 1) \<le> unat cur" using assms(1,2) by (auto simp: chunks_upto_def fresh_tx_def total_end_def)
  moreover have "1 \<le> length data" using assms(3) by (cases data) (simp_all add: tx_room_def)
  then have "unat cur + 1 < 2 ^ 64" using unat_end [OF assms(3)] assms(3) by (simp add: tx_room_def)
  then have "unat (cur + 1) = unat cur + 1" by (simp add: unat_word_ariths(1))
  ultimately show False by simp
qed

lemma two_bytes:
  assumes "tx_room G tx data e" and "chunked G tx data parts cs" and "2 \<le> length (last parts)"
  shows "2 \<le> length data"
proof -
  have "parts \<noteq> []" using assms by (auto simp: tx_room_def chunked_def)
  then show ?thesis using assms(2,3) length_part [OF last_in_set] by (fastforce simp: chunked_def)
qed

text \<open>The row of a manifest.\<close>

definition manifest_tx :: "goar \<Rightarrow> bool \<Rightarrow> transaction \<Rightarrow> bool" where
  "manifest_tx G enableManifest tx \<longleftrightarrow> enableManifest \<and> getTagValue (fst (TagsDecode G (tx_Tags tx))) ContentType = ManifestType"

lemma recordManifest_healthy:
  assumes "enableManifest \<longrightarrow> db_healthy w"
  obtains w1 where "recordManifest G enableManifest (fst (TagsDecode G (tx_Tags tx))) i w = (Ret (), w1)"
    and "manifest_tx G enableManifest tx \<longrightarrow> (\<exists>m. GetManifestId (expectedTxSandbox (cod G) i) w1 = (Ret m, w1)
      \<and> (fst (GetManifestId (expectedTxSandbox (cod G) i) w) = Err ErrRecordNotFound \<longrightarrow> m = i))"
    and "\<not> manifest_tx G enableManifest tx \<longrightarrow> w1 = w" and "w1\<lparr>manifests := manifests w, next_manifest := next_manifest w\<rparr> = w"
proof (cases "manifest_tx G enableManifest tx")
  case False
  then show thesis using that [of w] by (auto simp: recordManifest_def manifest_tx_def)
next
  case True
  let ?url = "expectedTxSandbox (cod G) i"
  let ?w1 = "w\<lparr>manifests := manifests w @ [\<lparr>m_ID = next_manifest w, m_Url = ?url, m_Id = i\<rparr>], next_manifest := Suc (next_manifest w)\<rparr>"
  have h: "db_healthy w" "db_healthy ?w1" using True assms by (auto simp: manifest_tx_def db_healthy_def)
  show thesis
  proof (cases "filter (\<lambda>m. m_Url m = ?url) (manifests w) = []")
    case none: True
    then have "GetManifestId ?url w = (Err ErrRecordNotFound, w)" using h by (simp add: GetManifestId_def last_row_def)
    moreover have "\<not> list_ex (\<lambda>m. m_Url m = ?url) (manifests w)" using none by (auto simp: filter_empty_conv list_ex_iff)
    then have "InsertManifest ?url i w = (Ret (), ?w1)" using h by (simp add: InsertManifest_def)
    moreover have "GetManifestId ?url ?w1 = (Ret i, ?w1)" using h by (simp add: GetManifestId_def last_row_def)
    ultimately show thesis using True by (intro that [of ?w1]) (simp_all add: recordManifest_def manifest_tx_def)
  next
    case False
    then have "GetManifestId ?url w = (Ret (m_Id (last (filter (\<lambda>m. m_Url m = ?url) (manifests w)))), w)"
      using h by (simp add: GetManifestId_def last_row_def)
    then show thesis using True by (intro that [of w]) (auto simp: recordManifest_def manifest_tx_def)
  qed
qed

text \<open>Allocating the range of a fresh transaction and storing its data.\<close>

lemma fresh_store:
  assumes fresh: "fresh_tx G tx cur d" and room: "tx_room G tx data (cur + of_nat (length data))"
    and ck: "chunked G tx data parts cs"
    and dm: "dm = kv_store TxMetaBucket (tx_ID tx) (JsonTx (tx\<lparr>tx_Data := []\<rparr>)) d"
  obtains da d1 where "syncAddTxDataEndOffset G (tx_DataRoot tx) (tx_DataSize tx) dm = (Ret (), da)"
    and "healthy da" and "end_stored G (tx_DataRoot tx) (tx_DataSize tx) (cur + of_nat (length data)) da"
    and "kv_kind da = kv_kind d" and "kv_lookup da TxMetaBucket (tx_ID tx) = Some (JsonTx (tx\<lparr>tx_Data := []\<rparr>))"
    and "setTxDataChunks G tx data da = (Ret (), d1)"
    and "stored_tx G tx data (cur + of_nat (length data)) parts cs d1" and "kv_kind d1 = kv_kind d"
    and "kv_lookup d1 TxMetaBucket (tx_ID tx) = Some (JsonTx (tx\<lparr>tx_Data := []\<rparr>))"
    and "chunks_upto G d \<Longrightarrow> chunks_upto G d1"
proof -
  note f = fresh [unfolded fresh_tx_def] and r = room [unfolded tx_room_def]
  let ?da = "allocated (cod G) (tx_DataRoot tx) (tx_DataSize tx) (cur + of_nat (length data)) dm"
  have hm: "healthy dm" "kv_kind dm = kv_kind d" using f dm by simp_all
  have sync: "syncAddTxDataEndOffset G (tx_DataRoot tx) (tx_DataSize tx) dm = (Ret (), ?da)"
    using f r dm by (intro syncAdd_new) (auto simp: LoadAll_other)
  have da: "healthy ?da" "end_stored G (tx_DataRoot tx) (tx_DataSize tx) (cur + of_nat (length data)) ?da"
    "kv_kind ?da = kv_kind d" "kv_lookup ?da TxMetaBucket (tx_ID tx) = Some (JsonTx (tx\<lparr>tx_Data := []\<rparr>))"
    using hm r dm by (simp_all add: allocated_def end_stored_def)
  obtain d1 where d1: "setTxDataChunks G tx data ?da = (Ret (), d1)"
    "stored_tx G tx data (cur + of_nat (length data)) parts cs d1" "kv_kind d1 = kv_kind ?da"
    "\<forall>b k. b \<noteq> ChunkBucket \<longrightarrow> kv_lookup d1 b k = kv_lookup ?da b k"
    "\<forall>k. kv_lookup d1 ChunkBucket k = kv_lookup ?da ChunkBucket k
          \<or> (\<exists>q < length data. k = itob (cod G) (cur + of_nat (length data) - of_nat (length data) + 1 + of_nat q))"
    using setTxDataChunks_stored [OF room ck da(1,2)] by blast
  have "chunks_upto G d1" if upto: "chunks_upto G d"
  proof (rule chunks_upto_range [OF upto _ _ _ room])
    have "healthy d1" using d1(2) by (simp add: stored_tx_def)
    moreover have "kv_lookup d1 ConstantsBucket all_end_key = Some (Bytes (itob (cod G) (cur + of_nat (length data))))"
      using d1(4) by (simp add: allocated_def)
    ultimately show "total_end G d1 = unat (cur + of_nat (length data))" using r by (simp add: total_end_def)
    show "total_end G d = unat cur" using f by (simp add: total_end_def)
    show "\<forall>k. kv_lookup d1 ChunkBucket k = kv_lookup d ChunkBucket k \<or> (\<exists>q < length data. k = itob (cod G) (cur + 1 + of_nat q))"
      using d1(5) dm by (simp add: allocated_def)
  qed (use r in simp)
  then show ?thesis
    using that [OF sync da d1(1,2)] d1(3,4) da(3,4) by simp
qed

lemma stored_tx_same:
  assumes "stored_tx G tx data e parts cs d" and "healthy d1"
    and "\<forall>b k. b \<noteq> TaskBucket \<and> b \<noteq> TaskIdPendingPoolBucket \<longrightarrow> kv_lookup d1 b k = kv_lookup d b k"
  shows "stored_tx G tx data e parts cs d1"
proof -
  have "TxDataEndOffSetBucket \<noteq> TaskBucket \<and> TxDataEndOffSetBucket \<noteq> TaskIdPendingPoolBucket
      \<and> ChunkBucket \<noteq> TaskBucket \<and> ChunkBucket \<noteq> TaskIdPendingPoolBucket"
    by (simp add: bucket_defs)
  then have "\<forall>k. kv_lookup d1 TxDataEndOffSetBucket k = kv_lookup d TxDataEndOffSetBucket k
      \<and> kv_lookup d1 ChunkBucket k = kv_lookup d ChunkBucket k"
    using assms(3) by blast
  then show ?thesis using assms(1,2) chunks_at_same unfolding stored_tx_def end_stored_def by metis
qed

text \<open>Submitting a transaction that is not there.\<close>

lemma SaveSubmitTx_run:
  assumes fresh: "fresh_tx G tx cur d" and room: "tx_room G tx data (cur + of_nat (length data))"
    and ok: "VerifyTransaction G tx = None" and data: "tx_Data tx \<noteq> []" "b64dec (cod G) (tx_Data tx) = Some data"
    and ck: "chunked G tx data parts cs"
  obtains d2 where "SaveSubmitTx G tx d = (Ret (), d2)" and "healthy d2" and "kv_kind d2 = kv_kind d"
    and "stored_tx G tx data (cur + of_nat (length data)) parts cs d2"
    and "kv_lookup d2 TxMetaBucket (tx_ID tx) = Some (JsonTx (tx\<lparr>tx_Data := []\<rparr>))"
    and "isBundleTx G (tx_Tags tx) \<longrightarrow> kv_lookup d2 BundleWaitParseArIdBucket (tx_ID tx) \<noteq> None"
    and "chunks_upto G d \<Longrightarrow> chunks_upto G d2"
proof -
  note f = fresh [unfolded fresh_tx_def]
  let ?dm = "kv_store TxMetaBucket (tx_ID tx) (JsonTx (tx\<lparr>tx_Data := []\<rparr>)) d"
  obtain da d1 where st: "syncAddTxDataEndOffset G (tx_DataRoot tx) (tx_DataSize tx) ?dm = (Ret (), da)"
    "setTxDataChunks G tx data da = (Ret (), d1)" "stored_tx G tx data (cur + of_nat (length data)) parts cs d1"
    "kv_lookup d1 TxMetaBucket (tx_ID tx) = Some (JsonTx (tx\<lparr>tx_Data := []\<rparr>))" "kv_kind d1 = kv_kind d"
    "chunks_upto G d \<Longrightarrow> chunks_upto G d1"
    using fresh_store [OF fresh room ck refl] by metis
  let ?d2 = "if isBundleTx G (tx_Tags tx) then kv_store BundleWaitParseArIdBucket (tx_ID tx) (Bytes ''0x01'') d1 else d1"
  have h1: "healthy d1" using st(3) by (simp add: stored_tx_def)
  have new: "IsExistTxMeta (tx_ID tx) d = (Ret False, d)"
    "IsExistTxDataEndOffset (cod G) (tx_DataRoot tx) (tx_DataSize tx) ?dm = (Ret False, ?dm)"
    using f IsExistTxMeta_absent [of d "tx_ID tx"] IsExistEnd_absent [of ?dm] by simp_all
  have sub: "submitData G tx da = (Ret (), d1)"
    using data st(2) by (simp add: submitData_def Base64Decode_def)
  have save: "SaveSubmitTx G tx d = (Ret (), ?d2)"
    using ok new f SaveTxMeta_healthy [of d tx] st(1) sub registerBundle_healthy [OF h1, of G "tx_Tags tx" "tx_ID tx"]
    by (simp add: SaveSubmitTx_def bindG_def)
  have st2: "stored_tx G tx data (cur + of_nat (length data)) parts cs ?d2"
    using st(3) stored_tx_other [OF st(3), of BundleWaitParseArIdBucket] by simp
  have meta: "kv_lookup ?d2 TxMetaBucket (tx_ID tx) = Some (JsonTx (tx\<lparr>tx_Data := []\<rparr>))" "healthy ?d2"
    using st(4) h1 by simp_all
  have "chunks_upto G ?d2" if "chunks_upto G d"
    using chunks_upto_other [OF st(6) [OF that] h1, of BundleWaitParseArIdBucket] st(6) [OF that] by (simp add: bucket_defs)
  then show thesis using that [OF save meta(2) _ st2 meta(1)] st(5) by simp
qed

text \<open>Fetching a transaction that is not there.\<close>

lemma FetchAndStoreTx_run:
  assumes fresh: "fresh_tx G meta cur (s_store s)" and room: "tx_room G meta data (cur + of_nat (length data))"
    and gw: "gw_tx N arId = Ret meta" "gw_data N arId = Ret data" and i: "tx_ID meta = arId" "arId \<noteq> []"
    and ck: "chunked G meta data parts cs" and two: "2 \<le> length data"
    and upto: "chunks_upto G (s_store s)" and sz: "SetString (tx_DataSize meta) = Some (int (length data))"
    and db: "enableManifest \<longrightarrow> db_healthy (s_wdb s)"
  obtains d2 w2 where "FetchAndStoreTx G N enableManifest peers arId s = Some (Ret (), s\<lparr>s_store := d2, s_wdb := w2\<rparr>)" and "healthy d2"
    and "stored_tx G meta data (cur + of_nat (length data)) parts cs d2"
    and "kv_lookup d2 TxMetaBucket arId = Some (JsonTx (meta\<lparr>tx_Data := []\<rparr>))"
    and "isBundleTx G (tx_Tags meta) \<longrightarrow> kv_lookup d2 BundleWaitParseArIdBucket arId \<noteq> None"
    and "chunks_upto G d2"
    and "manifest_tx G enableManifest meta \<longrightarrow> (\<exists>m. GetManifestId (expectedTxSandbox (cod G) arId) w2 = (Ret m, w2)
      \<and> (fst (GetManifestId (expectedTxSandbox (cod G) arId) (s_wdb s)) = Err ErrRecordNotFound \<longrightarrow> m = arId))"
    and "\<not> manifest_tx G enableManifest meta \<longrightarrow> w2 = s_wdb s"
    and "w2\<lparr>manifests := manifests (s_wdb s), next_manifest := next_manifest (s_wdb s)\<rparr> = s_wdb s"
proof -
  note clear = chunks_upto_clear [OF upto fresh room]
  note f = fresh [unfolded fresh_tx_def] and rm = room [unfolded tx_room_def]
  let ?dm = "kv_store TxMetaBucket (tx_ID meta) (JsonTx (meta\<lparr>tx_Data := []\<rparr>)) (s_store s)"
  let ?e = "cur + of_nat (length data)"
  obtain da d1 where st: "syncAddTxDataEndOffset G (tx_DataRoot meta) (tx_DataSize meta) ?dm = (Ret (), da)" "healthy da"
    "end_stored G (tx_DataRoot meta) (tx_DataSize meta) ?e da" "setTxDataChunks G meta data da = (Ret (), d1)"
    "stored_tx G meta data ?e parts cs d1" "kv_lookup d1 TxMetaBucket (tx_ID meta) = Some (JsonTx (meta\<lparr>tx_Data := []\<rparr>))"
    "chunks_upto G d1"
    using fresh_store [OF fresh room ck(1) refl] upto by metis
  obtain w2 where w2: "recordManifest G enableManifest (fst (TagsDecode G (tx_Tags meta))) arId (s_wdb s) = (Ret (), w2)"
    "manifest_tx G enableManifest meta \<longrightarrow> (\<exists>m. GetManifestId (expectedTxSandbox (cod G) arId) w2 = (Ret m, w2)
      \<and> (fst (GetManifestId (expectedTxSandbox (cod G) arId) (s_wdb s)) = Err ErrRecordNotFound \<longrightarrow> m = arId))"
    "\<not> manifest_tx G enableManifest meta \<longrightarrow> w2 = s_wdb s"
    "w2\<lparr>manifests := manifests (s_wdb s), next_manifest := next_manifest (s_wdb s)\<rparr> = s_wdb s"
    by (rule recordManifest_healthy [OF db])
  have "fetchMeta N peers arId s = (Ret meta, s)"
    using f gw(1) i(1) by (simp add: fetchMeta_def on_store_def LoadTxMeta_def not_exist_err_def)
  moreover have sm: "on_store (storeMeta G arId meta) s = (Ret (), s\<lparr>s_store := da\<rparr>)"
    using st(1) SaveTxMeta_healthy [of "s_store s" meta] f i(1) IsExistTxMeta_absent [of "s_store s" arId] IsExistEnd_absent [of ?dm]
    by (simp add: on_store_def storeMeta_def bindG_def)
  moreover have miss: "getArTxData G (tx_DataRoot meta) (tx_DataSize meta) da = Some (Err ErrNotExist, da)"
  proof -
    have "da = allocated (cod G) (tx_DataRoot meta) (tx_DataSize meta) ?e ?dm"
      using f rm st(1) syncAdd_new [of ?dm "tx_DataSize meta" "of_nat (length data)" G "tx_DataRoot meta" cur]
      by (auto simp: LoadAll_other)
    then have "kv_lookup da ChunkBucket (itob (cod G) (cur + 1)) = None" "kv_kind da \<noteq> Mongo"
      using clear f by (simp_all add: allocated_def)
    then have load: "LoadChunk (cod G) (cur + 1) da = (Err ErrNotExist, da)"
      using st(2) by (simp add: LoadChunk_def not_exist_err_def)
    have len: "unat (of_nat (length data) :: 64 word) = length data"
      using rm by (simp add: unat_of_nat maxAlloc_def)
    have "cur + 1 < ?e"
    proof -
      have "unat ?e = unat cur + length data" by (rule unat_end [OF room])
      moreover from this have "unat (cur + 1) \<le> unat cur + 1" by (simp add: unat_word_ariths(1))
      ultimately show ?thesis using two by (simp add: word_less_nat_alt)
    qed
    then have "readChunks G (cur + 1) ?e 0 [] da = Some (Err ErrNotExist, da)"
      using load by (subst readChunks.simps) simp
    moreover have "(of_nat (length data) :: 64 word) \<noteq> 0" using len two by (metis le_zero_eq rel_simps(76) unat_0)
    moreover have "?e - of_nat (length data) + 1 = cur + 1" by simp
    ultimately show ?thesis
      using rm st(2,3) LoadTxDataEndOffSet_stored [of G da "tx_DataRoot meta" "tx_DataSize meta" ?e] len
      by (simp only: getArTxData_def) simp
  qed
  let ?d2 = "if isBundleTx G (tx_Tags meta) then kv_store BundleWaitParseArIdBucket arId (Bytes ''0x01'') d1 else d1"
  have h1: "healthy d1" using st(5) by (simp add: stored_tx_def)
  have "storeFetched G N enableManifest peers arId meta (s\<lparr>s_store := da\<rparr>) = (Ret (), s\<lparr>s_store := ?d2, s_wdb := w2\<rparr>)"
    using gw(2) st(4) registerBundle_healthy [OF h1, of G "tx_Tags meta" arId] w2(1)
    by (simp add: storeFetched_def fetchData_def on_store_def on_wdb_def bindG_def)
  moreover have "0 < int (length data)" using two by linarith
  ultimately have run: "FetchAndStoreTx G N enableManifest peers arId s = Some (Ret (), s\<lparr>s_store := ?d2, s_wdb := w2\<rparr>)"
    using i sz miss by (simp add: FetchAndStoreTx_def)
  have st2: "stored_tx G meta data ?e parts cs ?d2"
    using st(5) stored_tx_other [OF st(5), of BundleWaitParseArIdBucket] by simp
  have "kv_lookup ?d2 TxMetaBucket arId = Some (JsonTx (meta\<lparr>tx_Data := []\<rparr>))" "healthy ?d2"
    using st(6) h1 i by simp_all
  moreover have "chunks_upto G ?d2"
    using chunks_upto_other [OF st(7) h1, of BundleWaitParseArIdBucket] st(7) by (simp add: bucket_defs)
  ultimately show thesis using run st2 w2(2-4) by (intro that [of w2 ?d2]) simp_all
qed

text \<open>The transaction that the witnesses submit, and its two chunks.\<close>

definition hello_tx :: transaction where
  "hello_tx = (plain_tx ''t'' ''r'' ''5'' [])\<lparr>tx_Data := ''hello''\<rparr>"

definition hello_chunk :: "string \<Rightarrow> string \<Rightarrow> chunk" where
  "hello_chunk off p = \<lparr>ck_DataRoot = ''r'', ck_DataSize = ''5'', ck_DataPath = [], ck_Offset = off, ck_Chunk = p\<rparr>"

definition hello_chunks :: "chunk list" where
  "hello_chunks = [hello_chunk (FormatNat (Suc (Suc 0))) ''hel'', hello_chunk (FormatNat (Suc (Suc (Suc (Suc 0))))) ''lo'']"

lemma hello_tx_simps [simp]: "tx_DataRoot hello_tx = ''r''" "tx_DataSize hello_tx = ''5''" "tx_ID hello_tx = ''t''"
  "tx_Tags hello_tx = []" "tx_Data hello_tx = ''hello''"
  by (simp_all add: hello_tx_def plain_tx_def)

lemma hello_chunked: "chunked plain_goar hello_tx ''hello'' [''hel'', ''lo''] hello_chunks"
  by (simp add: chunked_def less_Suc_eq hello_chunks_def hello_chunk_def) (simp add: plain_goar_def)

lemma hello_fresh: "K \<noteq> Mongo \<Longrightarrow> fresh_tx plain_goar hello_tx 0 (empty_kv K [])"
  by (simp add: fresh_tx_def LoadAllDataEndOffset_def)

subsection \<open>Properties\<close>



text \<open>
  The end offset of a transaction's (dataRoot, dataSize) may exist before the transaction is
  submitted, since a chunk of it, or another transaction with the same data, may have come first.
  Then SaveSubmitTx stores the record, returns nil and skips the rest: its data is not stored and a
  bundle is not registered for parsing; and the transaction can not be submitted again.
\<close>

theorem SaveSubmitTx_skips_known_data:
  assumes h: "healthy d" and new: "kv_kind d \<noteq> Mongo" "kv_lookup d TxMetaBucket (tx_ID tx) = None"
    and E: "base64_ok (cod G)" and e: "end_stored G (tx_DataRoot tx) (tx_DataSize tx) e d"
    and ok: "VerifyTransaction G tx = None"
  shows "\<exists>d1. SaveSubmitTx G tx d = (Ret (), d1)
    \<and> (\<forall>k. kv_lookup d1 ChunkBucket k = kv_lookup d ChunkBucket k)
    \<and> kv_lookup d1 BundleWaitParseArIdBucket (tx_ID tx) = kv_lookup d BundleWaitParseArIdBucket (tx_ID tx)
    \<and> SaveSubmitTx G tx d1 = (Err ErrExistTx, d1)"
proof -
  let ?d1 = "kv_store TxMetaBucket (tx_ID tx) (JsonTx (tx\<lparr>tx_Data := []\<rparr>)) d"
  have h1: "healthy ?d1" using h by simp
  have e1: "end_stored G (tx_DataRoot tx) (tx_DataSize tx) e ?d1" using e by (simp add: end_stored_def)
  have "SaveSubmitTx G tx d = (Ret (), ?d1)"
    using ok IsExistTxMeta_absent [OF h new(2)] new(1) SaveTxMeta_healthy [OF h, of tx] IsExistEnd_stored [OF E h1 e1]
    by (simp add: SaveSubmitTx_def bindG_def)
  moreover have "LoadTxMeta (tx_ID tx) ?d1 = (Ret (tx\<lparr>tx_Data := []\<rparr>), ?d1)"
    using h1 by (intro LoadTxMeta_stored) simp_all
  then have "SaveSubmitTx G tx ?d1 = (Err ErrExistTx, ?d1)"
    using ok by (simp add: SaveSubmitTx_def IsExistTxMeta_def probe_def bindG_def)
  ultimately show ?thesis by (intro exI [of _ ?d1]) simp
qed

theorem SaveSubmitTx_skips_known_data_witness:
  "\<exists>d1. SaveSubmitTx plain_goar hello_tx (kv_store TxDataEndOffSetBucket ''r5'' (Bytes (itob plain_codec 5)) (empty_kv Bolt []))
       = (Ret (), d1) \<and> kv_lookup d1 ChunkBucket (itob plain_codec 1) = None"
proof -
  let ?d = "kv_store TxDataEndOffSetBucket ''r5'' (Bytes (itob plain_codec 5)) (empty_kv Bolt [])"
  have "end_stored plain_goar ''r'' ''5'' 5 ?d" by (simp add: end_stored_def generateOffSetKey_def)
  then show ?thesis
    using SaveSubmitTx_skips_known_data [of ?d hello_tx plain_goar 5] by auto
qed

text \<open>
  MongoDB answers mongo.ErrNoDocuments for a missing key, and the probes of the store take
  every error but ErrNotExist for a hit. So on MongoDB no transaction that verifies can be submitted
  (ErrExistTx for one that was never stored), no range is allocated, and a chunk that verifies is
  refused because its end offset can not be loaded; the store stays as it was.
\<close>

theorem mongo_refuses_everything:
  assumes K: "kv_kind d = Mongo" and h: "healthy d"
    and tx: "VerifyTransaction G tx = None" "kv_lookup d TxMetaBucket (tx_ID tx) = None"
    and c: "verifyChunk G c = Ret True"
      "kv_lookup d TxDataEndOffSetBucket (generateOffSetKey (cod G) (ck_DataRoot c) (ck_DataSize c)) = None"
  shows "SaveSubmitTx G tx d = (Err ErrExistTx, d) \<and> SaveSubmitChunk G c d = (Err ErrNoDocuments, d)
    \<and> syncAddTxDataEndOffset G (ck_DataRoot c) (ck_DataSize c) d = (Ret (), d)"
proof -
  have load: "LoadTxDataEndOffSet (cod G) (ck_DataRoot c) (ck_DataSize c) d = (Err ErrNoDocuments, d)"
    using K h c(2) by (simp add: LoadTxDataEndOffSet_def not_exist_err_def)
  then have ex: "IsExistTxDataEndOffset (cod G) (ck_DataRoot c) (ck_DataSize c) d = (Ret True, d)"
    by (simp add: IsExistTxDataEndOffset_def probe_def)
  have "SaveSubmitTx G tx d = (Err ErrExistTx, d)"
    using tx IsExistTxMeta_absent [OF h tx(2)] K by (simp add: SaveSubmitTx_def bindG_def)
  moreover have "SaveSubmitChunk G c d = (Err ErrNoDocuments, d)"
    using c(1) ex load by (simp add: SaveSubmitChunk_def storeChunk_def bindG_def)
  ultimately show ?thesis using ex by (simp add: syncAddTxDataEndOffset_def bindG_def)
qed

theorem mongo_refuses_everything_witness:
  "SaveSubmitTx plain_goar hello_tx (empty_kv Mongo []) = (Err ErrExistTx, empty_kv Mongo [])"
proof -
  have "verifyChunk plain_goar (hello_chunk ''2'' ''hel'') = Ret True"
    by (simp add: verifyChunk_def hello_chunk_def Base64Decode_def Atoi_def ParseInt_def SetString_def split_sign_def
      digits_eval in_i64_def)
  then show ?thesis
    using mongo_refuses_everything [of "empty_kv Mongo []" plain_goar hello_tx "hello_chunk ''2'' ''hel''"] by simp
qed

text \<open>
  VerifyChunk does not look at the bytes of the chunk, and storeChunk places the chunk by their
  length. When the transaction B was allocated right after A, a chunk that verifies for the last
  offset of A, sent with no bytes, is accepted and stored under the first offset of B, over B's
  first chunk; getArTxData of B (of two bytes or more) then never returns.
\<close>

theorem empty_chunk_blocks_next_tx:
  assumes E: "base64_ok (cod G)" and h: "healthy d"
    and A: "end_stored G (ck_DataRoot c) (ck_DataSize c) eA d" "ParseUint (ck_DataSize c) = Ret szA"
      "ParseUint (ck_Offset c) = Ret (szA - 1)" "verifyChunk G c = Ret True"
    and x: "b64dec (cod G) x = Some []"
    and B: "end_stored G rootB sizeB (eA + szB) d" "ParseUint sizeB = Ret szB" "2 \<le> unat szB"
      "unat eA + unat szB < 2 ^ 64" "unat szB \<le> maxAlloc"
  shows "\<exists>d1. SaveSubmitChunk G (c\<lparr>ck_Chunk := x\<rparr>) d = (Ret (), d1) \<and> getArTxData G rootB sizeB d1 = None"
proof -
  let ?c = "c\<lparr>ck_Chunk := x\<rparr>"
  let ?d1 = "kv_store ChunkBucket (itob (cod G) (eA + 1)) (JsonChunk ?c) d"
  have v: "verifyChunk G ?c = Ret True" using A(4) by (simp add: verifyChunk_def)
  have ex: "IsExistTxDataEndOffset (cod G) (ck_DataRoot c) (ck_DataSize c) d = (Ret True, d)"
    by (rule IsExistEnd_stored [OF E h A(1)])
  have "storeChunk G ?c d = (Ret (), ?d1)"
    using LoadTxDataEndOffSet_stored [OF E h A(1)] A(2,3) x h
    by (simp add: storeChunk_def Base64Decode_def SaveChunk_def Let_def bindG_def algebra_simps)
  then have sub: "SaveSubmitChunk G ?c d = (Ret (), ?d1)"
    using v ex by (simp add: SaveSubmitChunk_def bindG_def)
  have h1: "healthy ?d1" using h by simp
  have B1: "end_stored G rootB sizeB (eA + szB) ?d1" using B(1) by simp
  have un: "unat (eA + szB) = unat eA + unat szB" using B(4) by (simp add: unat_word_ariths(1))
  have lt: "eA + 1 < eA + szB"
  proof -
    have "unat (eA + 1) \<le> unat eA + 1" by (simp add: unat_word_ariths(1))
    then show ?thesis using un B(3) by (simp add: word_less_nat_alt)
  qed
  have "readChunks G (eA + 1) (eA + szB) 0 [] ?d1 = None"
    using lt h1 x by (intro readChunks_stuck [of _ _ _ _ _ ?c]) simp_all
  moreover have "szB \<noteq> 0" using B(3) by auto
  ultimately have "getArTxData G rootB sizeB ?d1 = None"
    using B(2,5) LoadTxDataEndOffSet_stored [OF E h1 B1] by (simp add: getArTxData_def)
  with sub show ?thesis by blast
qed

theorem empty_chunk_blocks_next_tx_witness:
  "\<exists>d1. SaveSubmitChunk plain_goar (hello_chunk ''4'' '''')
       (kv_store TxDataEndOffSetBucket ''q7'' (Bytes (itob plain_codec 12))
         (kv_store TxDataEndOffSetBucket ''r5'' (Bytes (itob plain_codec 5)) (empty_kv Bolt []))) = (Ret (), d1)
     \<and> getArTxData plain_goar ''q'' ''7'' d1 = None"
proof -
  let ?d = "kv_store TxDataEndOffSetBucket ''q7'' (Bytes (itob plain_codec 12))
         (kv_store TxDataEndOffSetBucket ''r5'' (Bytes (itob plain_codec 5)) (empty_kv Bolt []))"
  let ?c = "hello_chunk ''4'' ''lo''"
  have "verifyChunk plain_goar ?c = Ret True"
    by (simp add: verifyChunk_def hello_chunk_def Base64Decode_def Atoi_def ParseInt_def SetString_def split_sign_def
      digits_eval in_i64_def)
  moreover have "end_stored plain_goar ''r'' ''5'' 5 ?d" "end_stored plain_goar ''q'' ''7'' (5 + 7) ?d"
    by (simp_all add: end_stored_def generateOffSetKey_def)
  moreover have "?c\<lparr>ck_Chunk := ''''\<rparr> = hello_chunk ''4'' ''''" by (simp add: hello_chunk_def)
  ultimately show ?thesis
    using empty_chunk_blocks_next_tx [of plain_goar ?d ?c 5 5 "''''" "''q''" "''7''" 7]
    by (simp add: hello_chunk_def digits_eval maxAlloc_def)
qed

text \<open>
  FetchAndStoreTx of a new transaction whose data has one byte: the record is stored and nil is
  returned, but the empty result of getArTxData is taken for local data, so the data is never asked
  from the network and no chunk is stored.
\<close>

theorem FetchAndStoreTx_never_fetches_one_byte:
  assumes fresh: "fresh_tx G meta cur (s_store s)" and E: "base64_ok (cod G)"
    and gw: "gw_tx N arId = Ret meta" and i: "tx_ID meta = arId" "arId \<noteq> []" and sz: "tx_DataSize meta = ''1''"
    and room: "unat cur + 1 < 2 ^ 64"
  shows "\<exists>s1. FetchAndStoreTx G N mf peers arId s = Some (Ret (), s1)
    \<and> kv_lookup (s_store s1) TxMetaBucket arId \<noteq> None
    \<and> (\<forall>k. kv_lookup (s_store s1) ChunkBucket k = kv_lookup (s_store s) ChunkBucket k)
    \<and> s_tasks s1 = s_tasks s \<and> s_wdb s1 = s_wdb s"
proof -
  note f = fresh [unfolded fresh_tx_def]
  let ?dm = "kv_store TxMetaBucket arId (JsonTx (meta\<lparr>tx_Data := []\<rparr>)) (s_store s)"
  let ?da = "allocated (cod G) (tx_DataRoot meta) ''1'' (cur + 1) ?dm"
  have hm: "healthy ?dm" using f by simp
  have pu: "ParseUint ''1'' = Ret 1" "SetString ''1'' = Some 1"
    by (simp_all add: digits_eval SetString_def split_sign_def)
  have load: "LoadTxMeta arId (s_store s) = (Err ErrNotExist, s_store s)"
    using f i(1) by (simp add: LoadTxMeta_def not_exist_err_def)
  have s_id: "s\<lparr>s_store := s_store s\<rparr> = s" by simp
  have fm: "fetchMeta N peers arId s = (Ret meta, s)"
    using load gw by (simp add: fetchMeta_def on_store_def)
  have sync: "syncAddTxDataEndOffset G (tx_DataRoot meta) ''1'' ?dm = (Ret (), ?da)"
    using f hm pu(1) sz by (intro syncAdd_new) (simp_all add: LoadAll_other)
  have "IsExistTxMeta arId (s_store s) = (Ret False, s_store s)"
    using f i(1) IsExistTxMeta_absent [of "s_store s" arId] by simp
  moreover have "IsExistTxDataEndOffset (cod G) (tx_DataRoot meta) ''1'' ?dm = (Ret False, ?dm)"
    using f hm sz by (intro IsExistEnd_absent) simp_all
  ultimately have sm: "on_store (storeMeta G arId meta) s = (Ret (), s\<lparr>s_store := ?da\<rparr>)"
    using sync SaveTxMeta_healthy [of "s_store s" meta] f i(1) sz by (simp add: on_store_def storeMeta_def bindG_def)
  have hd: "healthy ?da" "end_stored G (tx_DataRoot meta) ''1'' (cur + 1) ?da"
    using hm by (simp_all add: allocated_def end_stored_def)
  have "getArTxData G (tx_DataRoot meta) ''1'' ?da = Some (Ret [], ?da)"
    using LoadTxDataEndOffSet_stored [OF E hd] pu(1) by (subst getArTxData_def) (simp add: maxAlloc_def readChunks.simps)
  then have run: "FetchAndStoreTx G N mf peers arId s = Some (Ret (), s\<lparr>s_store := ?da\<rparr>)"
    using fm sm i sz pu(2) by (simp add: FetchAndStoreTx_def)
  show ?thesis
    using run by (intro exI [of _ "s\<lparr>s_store := ?da\<rparr>"]) (simp add: allocated_def)
qed


theorem FetchAndStoreTx_never_fetches_one_byte_witness:
  "\<exists>s1. FetchAndStoreTx plain_goar (plain_net\<lparr>gw_tx := (\<lambda>i. Ret (plain_tx i ''r'' ''1'' []))\<rparr>) False [''p''] ''t''
       \<lparr>s_store = empty_kv Bolt [], s_wdb = empty_wdb, s_tasks = []\<rparr> = Some (Ret (), s1)
     \<and> kv_lookup (s_store s1) ChunkBucket (itob plain_codec 1) = None"
proof -
  have "fresh_tx plain_goar (plain_tx ''t'' ''r'' ''1'' []) 0 (empty_kv Bolt [])"
    by (simp add: fresh_tx_def LoadAllDataEndOffset_def)
  then show ?thesis
    using FetchAndStoreTx_never_fetches_one_byte [of plain_goar "plain_tx ''t'' ''r'' ''1'' []" 0
      "\<lparr>s_store = empty_kv Bolt [], s_wdb = empty_wdb, s_tasks = []\<rparr>"
      "plain_net\<lparr>gw_tx := (\<lambda>i. Ret (plain_tx i ''r'' ''1'' []))\<rparr>" "''t''" False "[''p'']"] by auto
qed

text \<open>
  C12: fetching a transaction. On Bolt, S3 and Aliyun, while no request fails and no chunk lies above allDataEndOffset,
  FetchAndStoreTx of a new transaction that the gateway has, whose last part has two bytes or more, returns nil, with
  manifests enabled or not; afterwards its record, its end offset and exactly the data of the gateway can be read, a bundle of items waits
  to be parsed, still no chunk lies above allDataEndOffset, the table of tasks is as before, and of the database only the table of
  manifests can have changed: with manifests enabled the sandbox name of a manifest leads to an id, to its own
  unless the name was taken.
\<close>

theorem FetchAndStoreTx_stores:
  assumes fresh: "fresh_tx G meta cur (s_store s)" and room: "tx_room G meta data (cur + of_nat (length data))"
    and gw: "gw_tx N arId = Ret meta" "gw_data N arId = Ret data" and i: "tx_ID meta = arId" "arId \<noteq> []"
    and ck: "chunked G meta data parts cs" and last: "2 \<le> length (last parts)" and upto: "chunks_upto G (s_store s)"
    and sz: "SetString (tx_DataSize meta) = Some (int (length data))" and db: "enableManifest \<longrightarrow> db_healthy (s_wdb s)"
  shows "\<exists>s1. FetchAndStoreTx G N enableManifest peers arId s = Some (Ret (), s1)
    \<and> LoadTxMeta arId (s_store s1) = (Ret (meta\<lparr>tx_Data := []\<rparr>), s_store s1)
    \<and> getArTxData G (tx_DataRoot meta) (tx_DataSize meta) (s_store s1) = Some (Ret data, s_store s1)
    \<and> LoadTxDataEndOffSet (cod G) (tx_DataRoot meta) (tx_DataSize meta) (s_store s1)
        = (Ret (cur + of_nat (length data)), s_store s1)
    \<and> (isBundleTx G (tx_Tags meta) \<longrightarrow> kv_lookup (s_store s1) BundleWaitParseArIdBucket arId \<noteq> None)
    \<and> chunks_upto G (s_store s1) \<and> s_tasks s1 = s_tasks s
    \<and> (s_wdb s1)\<lparr>manifests := manifests (s_wdb s), next_manifest := next_manifest (s_wdb s)\<rparr> = s_wdb s
    \<and> (manifest_tx G enableManifest meta \<longrightarrow> (\<exists>m. GetManifestId (expectedTxSandbox (cod G) arId) (s_wdb s1) = (Ret m, s_wdb s1)
        \<and> (fst (GetManifestId (expectedTxSandbox (cod G) arId) (s_wdb s)) = Err ErrRecordNotFound \<longrightarrow> m = arId)))
    \<and> (\<not> manifest_tx G enableManifest meta \<longrightarrow> s_wdb s1 = s_wdb s)"
proof -
  obtain d2 w2 where d2: "FetchAndStoreTx G N enableManifest peers arId s = Some (Ret (), s\<lparr>s_store := d2, s_wdb := w2\<rparr>)" "healthy d2"
    "stored_tx G meta data (cur + of_nat (length data)) parts cs d2"
    "kv_lookup d2 TxMetaBucket arId = Some (JsonTx (meta\<lparr>tx_Data := []\<rparr>))"
    "isBundleTx G (tx_Tags meta) \<longrightarrow> kv_lookup d2 BundleWaitParseArIdBucket arId \<noteq> None" "chunks_upto G d2"
    "manifest_tx G enableManifest meta \<longrightarrow> (\<exists>m. GetManifestId (expectedTxSandbox (cod G) arId) w2 = (Ret m, w2)
      \<and> (fst (GetManifestId (expectedTxSandbox (cod G) arId) (s_wdb s)) = Err ErrRecordNotFound \<longrightarrow> m = arId))"
    "\<not> manifest_tx G enableManifest meta \<longrightarrow> w2 = s_wdb s"
    "w2\<lparr>manifests := manifests (s_wdb s), next_manifest := next_manifest (s_wdb s)\<rparr> = s_wdb s"
    by (rule FetchAndStoreTx_run [OF fresh room gw i ck two_bytes [OF room ck last] upto sz db])
  have "LoadTxDataEndOffSet (cod G) (tx_DataRoot meta) (tx_DataSize meta) d2 = (Ret (cur + of_nat (length data)), d2)"
    using d2(3) room by (intro LoadTxDataEndOffSet_stored) (auto simp: stored_tx_def tx_room_def)
  then show ?thesis
    using d2(1,5-9) LoadTxMeta_stored [OF d2(2,4)] getArTxData_stored(1) [OF room ck d2(3) last]
    by (intro exI [of _ "s\<lparr>s_store := d2, s_wdb := w2\<rparr>"]) simp
qed

theorem FetchAndStoreTx_stores_witness:
  "\<exists>s1. FetchAndStoreTx plain_goar (plain_net\<lparr>gw_tx := (\<lambda>_. Ret (hello_tx\<lparr>tx_Tags := [\<lparr>tag_name = ContentType, tag_value = ManifestType\<rparr>]\<rparr>)),
       gw_data := (\<lambda>_. Ret ''hello'')\<rparr>) True [''p''] ''t'' \<lparr>s_store = empty_kv S3 [], s_wdb = empty_wdb, s_tasks = []\<rparr> = Some (Ret (), s1)
     \<and> getArTxData plain_goar ''r'' ''5'' (s_store s1) = Some (Ret ''hello'', s_store s1)
     \<and> GetManifestId (expectedTxSandbox plain_codec ''t'') (s_wdb s1) = (Ret ''t'', s_wdb s1)"
proof -
  let ?tx = "hello_tx\<lparr>tx_Tags := [\<lparr>tag_name = ContentType, tag_value = ManifestType\<rparr>]\<rparr>"
  have room: "tx_room plain_goar ?tx ''hello'' (0 + of_nat (length ''hello''))"
    by (simp add: tx_room_def maxAlloc_def digits_eval)
  have sz: "SetString ''5'' = Some 5" by (simp add: SetString_def split_sign_def digits_eval)
  have fresh: "fresh_tx plain_goar ?tx 0 (empty_kv S3 [])" using hello_fresh [of S3] by (simp add: fresh_tx_def)
  have ck: "chunked plain_goar ?tx ''hello'' [''hel'', ''lo''] hello_chunks"
    by (simp add: chunked_def less_Suc_eq hello_chunks_def hello_chunk_def) (simp add: plain_goar_def)
  have mani: "manifest_tx plain_goar True ?tx" by (simp add: manifest_tx_def plain_goar_def)
  have none: "GetManifestId u empty_wdb = (Err ErrRecordNotFound, empty_wdb)" for u
    by (simp add: GetManifestId_def empty_wdb_def db_read_def db_tick_def last_row_def)
  show ?thesis
    using FetchAndStoreTx_stores [of plain_goar ?tx 0 "\<lparr>s_store = empty_kv S3 [], s_wdb = empty_wdb, s_tasks = []\<rparr>" "''hello''"
      "plain_net\<lparr>gw_tx := (\<lambda>_. Ret ?tx), gw_data := (\<lambda>_. Ret ''hello'')\<rparr>" "''t''" "[''hel'', ''lo'']" hello_chunks True "[''p'']"]
      fresh room ck sz chunks_upto_empty [of plain_goar S3] mani none by (auto simp: empty_wdb_def db_healthy_def)
qed

end
