(* ===== verification/Fees.thy ===== *)
theory Fees
  imports Complex_Main Wdb
begin

text \<open>
  Prices and fees: calculatePrice and getTxPrice (api.go), calculateFactor (jobs.go), and
  GetPerFee, SetPerFee (arseeding.go), CalcItemFee and GetBundlePerFees (bundle.go). The decimal
  package is the record \<open>decimal_lib\<close> over the rationals; a float64 price is the rational it stands for.
\<close>

record ar_fee =
  fee_Base :: int
  fee_PerChunk :: int

text \<open>\<^verbatim>\<open>types.MAX_CHUNK_SIZE\<close>, 256 KB.\<close>

definition MAX_CHUNK_SIZE :: int where "MAX_CHUNK_SIZE = 262144"

definition chunk_count :: "int \<Rightarrow> int" where
  "chunk_count dataSize = (if dataSize > 0 then (dataSize - 1) div MAX_CHUNK_SIZE + 1 else 0)"

definition calculatePrice :: "ar_fee \<Rightarrow> int \<Rightarrow> int" where
  "calculatePrice fee dataSize = i64 (fee_Base fee + i64 (chunk_count dataSize * fee_PerChunk fee))"

text \<open>int64 division truncates; a division by zero panics.\<close>

definition calculateFactor :: "int \<Rightarrow> int \<Rightarrow> int go" where
  "calculateFactor price speedFee = (if speedFee = 0 then Ret 0
     else if price = 0 then Panic ''integer divide by zero''
     else let val = i64 (i64 (i64 (i64 (price + speedFee) * 100) sdiv price) - 100)
       in Ret (if val = 0 then 1 else val))"

text \<open>The bodies that the price endpoint writes; after the error it goes on, with the value ParseInt gave.\<close>

datatype price_body = PriceError err | PriceText string

definition parse_value :: "string \<Rightarrow> int" where
  "parse_value s = (case SetString s of None \<Rightarrow> 0
     | Some i \<Rightarrow> if in_i64 i then i else if i < 0 then - (2 ^ 63) else 2 ^ 63 - 1)"

definition getTxPrice :: "ar_fee \<Rightarrow> string \<Rightarrow> price_body list" where
  "getTxPrice fee sz = (case ParseInt sz of Err e \<Rightarrow> [PriceError e] | _ \<Rightarrow> [])
     @ [PriceText (FormatInt (calculatePrice fee (parse_value sz)))]"

subsection \<open>Fees in tokens\<close>

record decimal_lib =
  NewFromString :: "string \<Rightarrow> rat go"
  DString :: "rat \<Rightarrow> string"
  DAdd :: "rat \<Rightarrow> rat \<Rightarrow> rat"
  DSub :: "rat \<Rightarrow> rat \<Rightarrow> rat"
  DMul :: "rat \<Rightarrow> rat \<Rightarrow> rat"
  DDiv :: "rat \<Rightarrow> rat \<Rightarrow> rat"
  DRound :: "rat \<Rightarrow> rat"
  DDivRound :: "rat \<Rightarrow> rat \<Rightarrow> rat"
  NewFromFloat :: "rat \<Rightarrow> rat"
  Pow10 :: "int \<Rightarrow> rat"

text \<open>Addition, subtraction and multiplication are exact.\<close>

definition decimal_ok :: "decimal_lib \<Rightarrow> bool" where
  "decimal_ok L \<longleftrightarrow> DAdd L = (+) \<and> DSub L = (-) \<and> DMul L = (*)"

text \<open>What a printed decimal reads back as.\<close>

definition printable :: "decimal_lib \<Rightarrow> rat \<Rightarrow> bool" where
  "printable L x \<longleftrightarrow> NewFromString L (DString L x) = Ret x"

record token_fee =
  f_Currency :: string
  f_Decimals :: int
  f_Base :: rat
  f_PerChunk :: rat

record resp_fee =
  rf_Currency :: string
  rf_Decimals :: int
  rf_FinalFee :: string

type_synonym fee_map = "string \<rightharpoonup> token_fee"

definition GetPerFee :: "fee_map \<Rightarrow> string \<Rightarrow> token_fee option" where
  "GetPerFee M tokenSymbol = M (ToUpper tokenSymbol)"

definition CalcItemFee :: "decimal_lib \<Rightarrow> fee_map \<Rightarrow> string \<Rightarrow> int \<Rightarrow> resp_fee go" where
  "CalcItemFee L M currency itemSize = (case GetPerFee M currency of
      None \<Rightarrow> Err (ErrMsg ''not support currency'')
    | Some perFee \<Rightarrow> Ret \<lparr>rf_Currency = f_Currency perFee, rf_Decimals = f_Decimals perFee,
        rf_FinalFee = DString L (DAdd L (f_Base perFee)
          (DMul L (of_int (chunk_count itemSize)) (f_PerChunk perFee)))\<rparr>)"

definition token_amount :: "decimal_lib \<Rightarrow> rat \<Rightarrow> int \<Rightarrow> token_price \<Rightarrow> rat" where
  "token_amount L arPrice fee tp = DRound L (DDiv L (DDiv L (DMul L (DMul L (NewFromFloat L (Pow10 L (p_Decimals tp)))
     (NewFromFloat L arPrice)) (of_int fee)) (NewFromFloat L (Pow10 L 12))) (NewFromFloat L (p_Price tp)))"

fun bundle_fees :: "decimal_lib \<Rightarrow> rat \<Rightarrow> ar_fee \<Rightarrow> token_price list \<Rightarrow> fee_map" where
  "bundle_fees L arPrice arFee [] = Map.empty"
| "bundle_fees L arPrice arFee (tp # tps) = (if p_Price tp \<le> 0 then bundle_fees L arPrice arFee tps
     else case bundle_fees L arPrice arFee tps (ToUpper (p_Symbol tp)) of
       Some _ \<Rightarrow> bundle_fees L arPrice arFee tps
     | None \<Rightarrow> (bundle_fees L arPrice arFee tps)(ToUpper (p_Symbol tp) \<mapsto>
         \<lparr>f_Currency = p_Symbol tp, f_Decimals = p_Decimals tp,
          f_Base = token_amount L arPrice (fee_Base arFee) tp,
          f_PerChunk = token_amount L arPrice (fee_PerChunk arFee) tp\<rparr>))"

text \<open>The AR price and the price table are two requests; a later row of the same symbol wins.\<close>

definition GetBundlePerFees :: "decimal_lib \<Rightarrow> ar_fee \<Rightarrow> int \<Rightarrow> wdb \<Rightarrow> fee_map go \<times> wdb" where
  "GetBundlePerFees L arFee serveFee = bindG GetArPrice (\<lambda>ar. bindG GetPrices (\<lambda>tps.
     Pair (Ret (bundle_fees L ar \<lparr>fee_Base = i64 (fee_Base arFee + serveFee), fee_PerChunk = i64 (fee_PerChunk arFee + serveFee)\<rparr> tps))))"

subsection \<open>Facts\<close>

lemma chunk_count_ceiling: "0 < n \<Longrightarrow> MAX_CHUNK_SIZE * (chunk_count n - 1) < n \<and> n \<le> MAX_CHUNK_SIZE * chunk_count n"
proof -
  assume n: "0 < n"
  have "MAX_CHUNK_SIZE * ((n - 1) div MAX_CHUNK_SIZE) + (n - 1) mod MAX_CHUNK_SIZE = n - 1"
    by (rule mult_div_mod_eq)
  moreover have "0 \<le> (n - 1) mod MAX_CHUNK_SIZE" "(n - 1) mod MAX_CHUNK_SIZE < MAX_CHUNK_SIZE"
    by (simp_all add: MAX_CHUNK_SIZE_def)
  moreover have "chunk_count n = (n - 1) div MAX_CHUNK_SIZE + 1" using n by (simp add: chunk_count_def)
  ultimately show ?thesis by (simp only: distrib_left add_diff_cancel_right') linarith
qed

lemma chunk_count_nonneg [simp]: "0 \<le> chunk_count n"
  by (auto simp: chunk_count_def MAX_CHUNK_SIZE_def pos_imp_zdiv_nonneg_iff)

lemma chunk_count_mono: "m \<le> n \<Longrightarrow> chunk_count m \<le> chunk_count n"
  by (auto simp: chunk_count_def MAX_CHUNK_SIZE_def intro!: zdiv_mono1 intro: order_trans simp: pos_imp_zdiv_nonneg_iff)

text \<open>A decimal package for the witnesses: integers in base 10.\<close>

definition int_decimal :: decimal_lib where
  "int_decimal = \<lparr>NewFromString = (\<lambda>s. case SetString s of Some i \<Rightarrow> Ret (of_int i) | None \<Rightarrow> Err (ErrMsg ''decimal'')),
     DString = (\<lambda>x. FormatInt \<lfloor>x\<rfloor>), DAdd = (+), DSub = (-), DMul = (*), DDiv = (/), DRound = (\<lambda>x. of_int \<lfloor>x\<rfloor>), DDivRound = (\<lambda>x y. of_int \<lfloor>x / y\<rfloor>),
     NewFromFloat = (\<lambda>x. x), Pow10 = (\<lambda>n. 10 ^ nat n)\<rparr>"

lemma int_decimal_ok [simp]: "decimal_ok int_decimal"
  by (simp add: decimal_ok_def int_decimal_def)

lemma printable_int [simp]: "printable int_decimal (of_int i)"
  by (simp add: printable_def int_decimal_def)

subsection \<open>Properties\<close>

text \<open>
  As long as nothing overflows int64, calculatePrice is the base fee plus the fee per chunk for
  every started 256 KB; it never decreases with the size, and without size it is the base fee.
\<close>

theorem calculatePrice_per_started_chunk:
  assumes "0 \<le> fee_PerChunk fee" and "0 < n"
    and "in_i64 (fee_Base fee + k * fee_PerChunk fee)" and "in_i64 (k * fee_PerChunk fee)"
    and "MAX_CHUNK_SIZE * (k - 1) < n" and "n \<le> MAX_CHUNK_SIZE * k" and "in_i64 (fee_Base fee)"
    and "m \<le> n" and "0 \<le> fee_Base fee"
  shows "calculatePrice fee n = fee_Base fee + k * fee_PerChunk fee
    \<and> calculatePrice fee m \<le> calculatePrice fee n \<and> calculatePrice fee 0 = fee_Base fee"
proof -
  have "MAX_CHUNK_SIZE * (k - 1) < MAX_CHUNK_SIZE * chunk_count n"
    "MAX_CHUNK_SIZE * (chunk_count n - 1) < MAX_CHUNK_SIZE * k"
    using chunk_count_ceiling [OF assms(2)] assms(5,6) by linarith+
  then have k: "chunk_count n = k" by (simp add: MAX_CHUNK_SIZE_def)
  have m: "0 \<le> chunk_count m * fee_PerChunk fee" "chunk_count m * fee_PerChunk fee \<le> k * fee_PerChunk fee"
    using chunk_count_mono [OF assms(8)] assms(1) k by (auto intro: mult_right_mono)
  then have "in_i64 (chunk_count m * fee_PerChunk fee)" "in_i64 (fee_Base fee + chunk_count m * fee_PerChunk fee)"
    using assms(3,4,9) by (auto simp: in_i64_def)
  with k m assms show ?thesis by (simp add: calculatePrice_def chunk_count_def)
qed

theorem calculatePrice_per_started_chunk_witness:
  "calculatePrice \<lparr>fee_Base = 100, fee_PerChunk = 7\<rparr> 262145 = 114"
  using calculatePrice_per_started_chunk [of "\<lparr>fee_Base = 100, fee_PerChunk = 7\<rparr>" 262145 2 0]
  by (simp add: MAX_CHUNK_SIZE_def in_i64_def)

text \<open>
  The speed factor of a bundle is the added fee in per cent of the price, rounded down but at
  least 1, as long as a hundred times the sum fits in int64; without a speed fee it is 0, and with a
  speed fee and a price of 0 the call panics.
\<close>

theorem calculateFactor_percent:
  assumes "0 < price" and "0 < speedFee" and "in_i64 ((price + speedFee) * 100)"
  shows "\<exists>f. calculateFactor price speedFee = Ret f \<and> 1 \<le> f
    \<and> (if price \<le> 100 * speedFee then price * f \<le> 100 * speedFee \<and> 100 * speedFee < price * (f + 1) else f = 1)
    \<and> calculateFactor price 0 = Ret 0 \<and> calculateFactor 0 speedFee = Panic ''integer divide by zero''"
proof -
  let ?q = "100 * speedFee div price"
  have "in_i64 (price + speedFee)" using assms by (auto simp: in_i64_def)
  moreover have div: "((price + speedFee) * 100) sdiv price = 100 + ?q"
  proof -
    have "((price + speedFee) * 100) sdiv price = ((price + speedFee) * 100) div price"
      using assms by (simp add: signed_divide_int_def)
    moreover have "((price + speedFee) * 100) div price = (price * 100 + 100 * speedFee) div price"
      by (simp add: algebra_simps)
    moreover have "(price * 100 + 100 * speedFee) div price = 100 + ?q" using assms(1) by simp
    ultimately show ?thesis by simp
  qed
  moreover have q: "0 \<le> ?q" "price * ?q \<le> 100 * speedFee" "100 * speedFee < price * (?q + 1)"
  proof -
    show "0 \<le> ?q" using assms by (simp add: pos_imp_zdiv_nonneg_iff)
    have e: "price * ?q + 100 * speedFee mod price = 100 * speedFee" by (rule mult_div_mod_eq)
    have "0 \<le> 100 * speedFee mod price" "100 * speedFee mod price < price" using assms(1) by simp_all
    with e show "price * ?q \<le> 100 * speedFee" "100 * speedFee < price * (?q + 1)"
      unfolding distrib_left by linarith+
  qed
  moreover have "in_i64 (100 + ?q)" "in_i64 ?q"
  proof -
    have "?q \<le> 100 * speedFee" using q(1,2) assms(1) mult_right_mono [of 1 price ?q] by simp
    then show "in_i64 (100 + ?q)" "in_i64 ?q" using q(1) assms by (auto simp: in_i64_def)
  qed
  ultimately have f: "calculateFactor price speedFee = Ret (if ?q = 0 then 1 else ?q)"
    using assms by (simp add: calculateFactor_def Let_def)
  show ?thesis
  proof (cases "price \<le> 100 * speedFee")
    case True
    then have "1 \<le> ?q" using assms(1) by (simp add: pos_imp_zdiv_pos_iff int_one_le_iff_zero_less)
    then show ?thesis using f q True assms(2) by (auto simp: calculateFactor_def)
  next
    case False
    then have "?q = 0" using assms by (simp add: div_pos_pos_trivial)
    then show ?thesis using f False assms(2) by (auto simp: calculateFactor_def)
  qed
qed

theorem calculateFactor_percent_witness:
  "calculateFactor 1000 250 = Ret 25"
  using calculateFactor_percent [of 1000 250] by (auto simp: in_i64_def)

text \<open>
  CalcItemFee of a listed currency, in whatever case its name is written, is the base fee plus
  the fee per chunk for each started 256 KB of the item, as the decimal package prints it; a currency
  that is not listed is an error.
\<close>

theorem CalcItemFee_formula:
  assumes "decimal_ok L"
  shows "(M (ToUpper currency) = Some fee \<longrightarrow> CalcItemFee L M currency n = Ret \<lparr>rf_Currency = f_Currency fee,
      rf_Decimals = f_Decimals fee, rf_FinalFee = DString L (f_Base fee + of_int (chunk_count n) * f_PerChunk fee)\<rparr>)
    \<and> (M (ToUpper currency) = None \<longrightarrow> CalcItemFee L M currency n = Err (ErrMsg ''not support currency''))
    \<and> CalcItemFee L M (ToLower currency) n = CalcItemFee L M currency n"
  using assms by (simp add: CalcItemFee_def GetPerFee_def decimal_ok_def)

theorem CalcItemFee_formula_witness:
  "CalcItemFee int_decimal [''AR'' \<mapsto> \<lparr>f_Currency = ''AR'', f_Decimals = 12, f_Base = 5, f_PerChunk = 2\<rparr>] ''ar'' 300000
     = Ret \<lparr>rf_Currency = ''AR'', rf_Decimals = 12, rf_FinalFee = FormatInt 9\<rparr>"
proof -
  have "ToUpper ''ar'' = ''AR''" by code_simp
  then show ?thesis
    using CalcItemFee_formula [OF int_decimal_ok, of "[''AR'' \<mapsto> \<lparr>f_Currency = ''AR'', f_Decimals = 12, f_Base = 5, f_PerChunk = 2\<rparr>]"
      "''ar''" "\<lparr>f_Currency = ''AR'', f_Decimals = 12, f_Base = 5, f_PerChunk = 2\<rparr>" 300000]
    by (simp add: chunk_count_def MAX_CHUNK_SIZE_def int_decimal_def)
qed

end
