(* ===== verification/Payment.thy ===== *)
theory Payment
  imports Fees
begin

text \<open>
  Payments (jobs.go, api.go): what an everPay transfer to the bundler pays for, orders or the balance
  of an api key; refunds; and the charge of an api key for an item. A receipt's Data is the JSON that
  watchEverReceiptTxs wrote, represented by its tree. The functions of go-ethereum, go-everpay and
  uuid are the fields of \<open>pay_lib\<close>.
\<close>

subsection \<open>Receipts from everPay\<close>

record payment_meta =
  pm_AppName :: string
  pm_Action :: string
  pm_ItemIds :: "string list"

definition payment_json :: "payment_meta \<Rightarrow> json" where
  "payment_json p = JObj [(''appName'', JStr (pm_AppName p)), (''action'', JStr (pm_Action p)),
     (''itemIds'', if pm_ItemIds p = [] then JNull else ids_json (pm_ItemIds p))]"

definition payment_of_json :: "json \<Rightarrow> payment_meta option" where
  "payment_of_json j = (case j of
      JObj fs \<Rightarrow> (case (jstr fs ''appName'', jstr fs ''action'', case map_of fs ''itemIds'' of
            None \<Rightarrow> Some [] | Some v \<Rightarrow> ids_of_json v) of
          (Some a, Some b, Some ids) \<Rightarrow> Some \<lparr>pm_AppName = a, pm_Action = b, pm_ItemIds = ids\<rparr>
        | _ \<Rightarrow> None)
    | JNull \<Rightarrow> Some \<lparr>pm_AppName = [], pm_Action = [], pm_ItemIds = []\<rparr>
    | _ \<Rightarrow> None)"

interpretation payment_codec: json_codec payment_json payment_of_json "\<lambda>_. True"
  by unfold_locales (auto simp: payment_json_def payment_of_json_def jstr_def ids_json_def ids_of_json_def)

record ever_tx =
  et_RawId :: nat
  et_EverHash :: string
  et_Nonce :: int
  et_To :: string
  et_From :: string
  et_TokenSymbol :: string
  et_TokenTag :: string
  et_Amount :: string
  et_Data :: json
  et_Sig :: string

record pay_lib =
  bundler_addr :: string
  IDCheck :: "string \<Rightarrow> string go"
  NewUUID :: "string go"
  HexToAddress :: "string \<Rightarrow> string"
  FromHex :: "string \<Rightarrow> string"
  Bytes2Hex :: "string \<Rightarrow> string"
  EcrecoverKey :: "string \<Rightarrow> string \<Rightarrow> string go"
  encryptKey :: "string \<Rightarrow> string \<Rightarrow> string go"
  Transfer :: "string \<Rightarrow> int \<Rightarrow> string \<Rightarrow> string \<Rightarrow> err option"

text \<open>One transaction of the subscription.\<close>

definition watchEverReceiptTx :: "pay_lib \<Rightarrow> ever_tx \<Rightarrow> wdb \<Rightarrow> wdb" where
  "watchEverReceiptTx L tt w = (if et_To tt \<noteq> bundler_addr L then w
     else case IDCheck L (et_From tt) of
       Ret from' \<Rightarrow> (case payment_of_json (et_Data tt) of
           None \<Rightarrow> w
         | Some meta \<Rightarrow> snd (InsertReceiptTx \<lparr>r_RawId = et_RawId tt, r_EverHash = et_EverHash tt, r_Nonce = et_Nonce tt,
             r_Symbol = et_TokenSymbol tt, r_TokenTag = et_TokenTag tt, r_From = from', r_Amount = et_Amount tt,
             r_Data = payment_json meta, r_Sig = et_Sig tt, r_Status = UnSpent, r_ErrMsg = []\<rparr> w))
     | _ \<Rightarrow> w)"

text \<open>
  A run of the subscription, from the last receipt that is stored: \<open>feed\<close> gives the transactions that Everpay sends
  for a start cursor.
\<close>

definition watchEverReceiptTxs :: "pay_lib \<Rightarrow> (nat \<Rightarrow> ever_tx list) \<Rightarrow> wdb \<Rightarrow> unit go \<times> wdb" where
  "watchEverReceiptTxs L feed w = (case GetLastEverRawId w of
      (Ret startCursor, w1) \<Rightarrow> (Ret (), fold (watchEverReceiptTx L) (feed startCursor) w1)
    | (_, w1) \<Rightarrow> (Panic ''GetLastEverRawId'', w1))"

subsection \<open>What a receipt asks for\<close>

definition ItemPaymentAction :: string where "ItemPaymentAction = ''payment''"
definition ApikeyPaymentAction :: string where "ApikeyPaymentAction = ''apikeyPayment''"

text \<open>gjson's Get, String and Array on the tree.\<close>

definition gget :: "json \<Rightarrow> string \<Rightarrow> json" where
  "gget j k = (case j of JObj fs \<Rightarrow> (case map_of fs k of Some v \<Rightarrow> v | None \<Rightarrow> JNull) | _ \<Rightarrow> JNull)"

definition gstring :: "json \<Rightarrow> string" where
  "gstring j = (case j of JStr s \<Rightarrow> s | JNum i \<Rightarrow> FormatInt i | JBool b \<Rightarrow> if b then ''true'' else ''false'' | _ \<Rightarrow> [])"

definition garray :: "json \<Rightarrow> json list" where
  "garray j = (case j of JArr js \<Rightarrow> js | JNull \<Rightarrow> [] | _ \<Rightarrow> [j])"

definition parseTxData :: "json \<Rightarrow> (string \<times> string list) go" where
  "parseTxData res = (if gstring (gget res ''appName'') \<noteq> ''arseeding''
     then Err (ErrMsg ''txData.appName not be arseeding'')
     else let act = gstring (gget res ''action'') in
       if act = ItemPaymentAction then
         (let itemIds = map gstring (garray (gget res ''itemIds'')) in
          if itemIds = [] then Err (ErrMsg ''itemIds is empty'') else Ret (ItemPaymentAction, itemIds))
       else if act = ApikeyPaymentAction then Ret (ApikeyPaymentAction, [])
       else Err (ErrMsg ''not support action''))"

fun total_fee :: "order list \<Rightarrow> int option" where
  "total_fee [] = Some 0"
| "total_fee (ord # ords) = (case (SetString (o_Fee ord), total_fee ords) of
      (Some f, Some t) \<Rightarrow> Some (f + t) | _ \<Rightarrow> None)"

definition checkOrdersAmount :: "order list \<Rightarrow> string \<Rightarrow> err option" where
  "checkOrdersAmount ordArr txAmount = (case SetString txAmount of
      None \<Rightarrow> Some (ErrMsg ''txAmount incorrect'')
    | Some amount \<Rightarrow> (case total_fee ordArr of
        None \<Rightarrow> Some (ErrMsg ''order fee incorrect'')
      | Some fee \<Rightarrow> if amount < fee then Some (ErrMsg ''payAmount fee not enough'') else None))"

definition checkOrdersCurrency :: "order list \<Rightarrow> string \<Rightarrow> err option" where
  "checkOrdersCurrency ordArr txSymbol = (if list_all (\<lambda>ord. ToUpper (o_Currency ord) = ToUpper txSymbol) ordArr
     then None else Some (ErrMsg ''currency incorrect''))"

fun getUnPaidOrdersByItemIds :: "string list \<Rightarrow> wdb \<Rightarrow> order list go \<times> wdb" where
  "getUnPaidOrdersByItemIds [] w = (Ret [], w)"
| "getUnPaidOrdersByItemIds (itemId # ids) w = bindG (GetUnPaidOrder itemId) (\<lambda>ord.
     bindG (getUnPaidOrdersByItemIds ids) (\<lambda>ords w2. (Ret (ord # ords), w2))) w"

subsection \<open>Payment of orders\<close>

fun payAll :: "order list \<Rightarrow> string \<Rightarrow> wdb \<Rightarrow> unit go \<times> wdb" where
  "payAll [] everHash w = (Ret (), w)"
| "payAll (ord # ords) everHash w = bindG (UpdateOrderPay (o_ID ord) everHash SuccPayment) (\<lambda>_. payAll ords everHash) w"

definition tx_done :: err where "tx_done = ErrMsg ''sql: transaction has already been committed or rolled back''"

text \<open>
  The transaction starts at \<open>w0\<close>. After a failed order update it is rolled back, and the status update
  that follows is refused by the finished transaction. The error of Commit is dropped.
\<close>

definition payTransaction :: "order list \<Rightarrow> receipt \<Rightarrow> wdb \<Rightarrow> unit go \<times> wdb" where
  "payTransaction ordArr urtx w0 = (case payAll ordArr (r_EverHash urtx) w0 of
      (Err _, w1) \<Rightarrow> (Err tx_done, rollback w0 w1)
    | (Panic p, w1) \<Rightarrow> (Panic p, rollback w0 w1)
    | (Ret _, w1) \<Rightarrow> (case UpdateReceiptStatus (r_RawId urtx) Spent w1 of
          (Err e, w2) \<Rightarrow> (Err e, rollback w0 w2)
        | (Panic p, w2) \<Rightarrow> (Panic p, rollback w0 w2)
        | (Ret _, w2) \<Rightarrow> (case db_tick w2 of (f, w3) \<Rightarrow> (Ret (), if f then rollback w0 w3 else w3))))"

text \<open>After a failed check the result is the result of the status update, not the error of the check.\<close>

definition processPayItems :: "string list \<Rightarrow> receipt \<Rightarrow> wdb \<Rightarrow> unit go \<times> wdb" where
  "processPayItems itemIds urtx w = (case getUnPaidOrdersByItemIds itemIds w of
      (Panic p, w1) \<Rightarrow> (Panic p, w1)
    | (Err e, w1) \<Rightarrow> if e = ErrRecordNotFound then UpdateReceiptStatus (r_RawId urtx) UnRefund w1 else (Err e, w1)
    | (Ret ordArr, w1) \<Rightarrow>
        if checkOrdersCurrency ordArr (r_Symbol urtx) \<noteq> None then UpdateReceiptStatus (r_RawId urtx) UnRefund w1
        else if checkOrdersAmount ordArr (r_Amount urtx) \<noteq> None then UpdateReceiptStatus (r_RawId urtx) UnRefund w1
        else payTransaction ordArr urtx w1)"

subsection \<open>Payment into an api key\<close>

definition json_string :: "json \<Rightarrow> string go" where
  "json_string j = (case j of JStr s \<Rightarrow> Ret s | _ \<Rightarrow> Panic ''interface conversion'')"

definition decimal_or_zero :: "decimal_lib \<Rightarrow> string \<Rightarrow> rat" where
  "decimal_or_zero D s = (case NewFromString D s of Ret x \<Rightarrow> x | _ \<Rightarrow> 0)"

definition add_balance :: "decimal_lib \<Rightarrow> (string \<times> json) list \<Rightarrow> string \<Rightarrow> string \<Rightarrow> (string \<times> json) list go" where
  "add_balance D bal symbol amount = (case map_of bal symbol of
      None \<Rightarrow> Ret (al_put symbol (JStr amount) bal)
    | Some old \<Rightarrow> andThen (json_string old) (\<lambda>s.
        Ret (al_put symbol (JStr (DString D (DAdd D (decimal_or_zero D amount) (decimal_or_zero D s)))) bal)))"

definition ecrecoverPubkey :: "pay_lib \<Rightarrow> string \<Rightarrow> string \<Rightarrow> string go" where
  "ecrecoverPubkey L everHash everSig = (let sg = FromHex L everSig in
     if length sg \<noteq> 65 then Err (ErrMsg (''invalid length of signture: '' @ FormatNat (length sg)))
     else let v = of_char (sg ! 64) :: nat in
       if v \<noteq> 27 \<and> v \<noteq> 28 \<and> v \<noteq> 1 \<and> v \<noteq> 0 then Err (ErrMsg ''invalid signature type'')
       else (case EcrecoverKey L (FromHex L everHash) (if 27 \<le> v then sg[64 := char_of (v - 27)] else sg) of
           Ret pub \<Rightarrow> Ret (Bytes2Hex L pub)
         | Err _ \<Rightarrow> Err (ErrMsg ''can not ecrecover'')
         | Panic p \<Rightarrow> Panic p))"

definition createApikey :: "pay_lib \<Rightarrow> receipt \<Rightarrow> string \<Rightarrow> wdb \<Rightarrow> unit go \<times> wdb" where
  "createApikey L urtx from' w = (case andThen (NewUUID L) (\<lambda>key. andThen (ecrecoverPubkey L (r_EverHash urtx) (r_Sig urtx)) (\<lambda>pub.
       andThen (encryptKey L pub key) (\<lambda>enc. Ret \<lparr>k_ApiKey = key, k_EncryptedKey = enc, k_Address = from', k_PubKey = pub,
          k_TokenBalance = [(ToUpper (r_Symbol urtx), JStr (r_Amount urtx))]\<rparr>))) of
      Ret ak \<Rightarrow> InsertApiKey ak w
    | Err e \<Rightarrow> (Err e, w)
    | Panic p \<Rightarrow> (Panic p, w))"

definition creditApikey :: "decimal_lib \<Rightarrow> receipt \<Rightarrow> string \<Rightarrow> api_key \<Rightarrow> wdb \<Rightarrow> unit go \<times> wdb" where
  "creditApikey D urtx from' apikey w =
     (case add_balance D (k_TokenBalance apikey) (ToUpper (r_Symbol urtx)) (r_Amount urtx) of
      Ret bal \<Rightarrow> UpdateApikeyTokenBal from' bal w
    | Err e \<Rightarrow> (Err e, w)
    | Panic p \<Rightarrow> (Panic p, w))"

definition processPayApikey :: "decimal_lib \<Rightarrow> pay_lib \<Rightarrow> receipt \<Rightarrow> wdb \<Rightarrow> unit go \<times> wdb" where
  "processPayApikey D L urtx w = (if r_Amount urtx = ''0''
     then (Err (ErrMsg ''amount can not be 0''), snd (UpdateReceiptStatus (r_RawId urtx) UnRefund w))
     else let from' = HexToAddress L (r_From urtx) in
       case ExistApikey from' w of (apikey, w1) \<Rightarrow>
         bindG (case apikey of None \<Rightarrow> createApikey L urtx from' | Some k \<Rightarrow> creditApikey D urtx from' k)
           (\<lambda>_. UpdateReceiptStatus (r_RawId urtx) Spent) w1)"

subsection \<open>mergeReceiptEverTxs\<close>

definition mergeReceipt :: "decimal_lib \<Rightarrow> pay_lib \<Rightarrow> fee_map \<Rightarrow> receipt \<Rightarrow> wdb \<Rightarrow> unit go \<times> wdb" where
  "mergeReceipt D L M urtx w = (case parseTxData (r_Data urtx) of
      Panic p \<Rightarrow> (Panic p, w)
    | Err _ \<Rightarrow> UpdateReceiptStatus (r_RawId urtx) UnRefund w
    | Ret (action, itemIds) \<Rightarrow>
        if action = ItemPaymentAction then processPayItems itemIds urtx w
        else if GetPerFee M (r_Symbol urtx) = None then UpdateReceiptStatus (r_RawId urtx) UnRefund w
        else processPayApikey D L urtx w)"

text \<open>A panic ends the process, and the receipts after it are left.\<close>

fun mergeAll :: "decimal_lib \<Rightarrow> pay_lib \<Rightarrow> fee_map \<Rightarrow> receipt list \<Rightarrow> wdb \<Rightarrow> wdb" where
  "mergeAll D L M [] w = w"
| "mergeAll D L M (urtx # rs) w = (case mergeReceipt D L M urtx w of
      (Panic p, w1) \<Rightarrow> w1 | (_, w1) \<Rightarrow> mergeAll D L M rs w1)"

definition mergeReceiptEverTxs :: "decimal_lib \<Rightarrow> pay_lib \<Rightarrow> fee_map \<Rightarrow> int \<Rightarrow> wdb \<Rightarrow> wdb" where
  "mergeReceiptEverTxs D L M now w = (case GetReceiptsByStatus now UnSpent w of
      (Ret rs, w1) \<Rightarrow> mergeAll D L M rs w1 | (_, w1) \<Rightarrow> w1)"

subsection \<open>refundReceipt\<close>

text \<open>The transfers asked for: token tag, amount, receiver and the receipt they refund.\<close>

type_synonym transfer = "string \<times> int \<times> string \<times> string"

definition refundOne :: "pay_lib \<Rightarrow> receipt \<Rightarrow> wdb \<Rightarrow> transfer list \<times> wdb" where
  "refundOne L rpt w = (case UpdateReceiptStatus (r_RawId rpt) Refund w of
      (Ret _, w1) \<Rightarrow> (case SetString (r_Amount rpt) of
          None \<Rightarrow> ([], w1)
        | Some amount \<Rightarrow> ([(r_TokenTag rpt, amount, r_From rpt, r_EverHash rpt)],
            case Transfer L (r_TokenTag rpt) amount (r_From rpt) (r_EverHash rpt) of
              None \<Rightarrow> w1
            | Some e \<Rightarrow> snd (UpdateRefundErr (r_RawId rpt) (err_text e) w1)))
    | (_, w1) \<Rightarrow> ([], w1))"

fun refundAll :: "pay_lib \<Rightarrow> receipt list \<Rightarrow> wdb \<Rightarrow> transfer list \<times> wdb" where
  "refundAll L [] w = ([], w)"
| "refundAll L (rpt # rs) w = (case refundOne L rpt w of (ts, w1) \<Rightarrow>
     (case refundAll L rs w1 of (ts', w2) \<Rightarrow> (ts @ ts', w2)))"

definition refundReceipt :: "pay_lib \<Rightarrow> int \<Rightarrow> wdb \<Rightarrow> transfer list \<times> wdb" where
  "refundReceipt L now w = (case GetReceiptsByStatus now UnRefund w of
      (Ret rs, w1) \<Rightarrow> refundAll L rs w1 | (_, w1) \<Rightarrow> ([], w1))"

text \<open>collectFee moves every positive balance of the bundler to the address of the configuration.\<close>

definition collectFee :: "string \<Rightarrow> (string \<times> string) list option \<Rightarrow> (string \<times> int \<times> string) list" where
  "collectFee collectAddr balances = (if collectAddr = [] then []
     else case balances of None \<Rightarrow> []
     | Some bals \<Rightarrow> List.map_filter (\<lambda>(tag, amount). case SetString amount of
         None \<Rightarrow> None | Some amt \<Rightarrow> if amt \<le> 0 then None else Some (tag, amt, collectAddr)) bals)"

subsection \<open>Charging an api key\<close>

definition insufficient :: err where "insufficient = ErrMsg ''balance is insufficient''"

definition processApikeySpendBal :: "decimal_lib \<Rightarrow> fee_map \<Rightarrow> string \<Rightarrow> string \<Rightarrow> int \<Rightarrow> wdb \<Rightarrow> unit go \<times> wdb" where
  "processApikeySpendBal D M currency apikey dataSize = bindG (GetApiKeyDetail apikey) (\<lambda>k w1.
     case (case map_of (k_TokenBalance k) (ToUpper currency) of
         None \<Rightarrow> Err (ErrMsg ''apiKey not the currency balance'')
       | Some curBal \<Rightarrow> andThen (json_string curBal) (\<lambda>s. andThen (NewFromString D s) (\<lambda>cur.
           andThen (CalcItemFee D M currency dataSize) (\<lambda>fee. andThen (NewFromString D (rf_FinalFee fee)) (\<lambda>f.
             let endBal = DSub D cur f in
             if endBal < 0 then Err insufficient
             else Ret (al_put (ToUpper currency) (JStr (DString D endBal)) (k_TokenBalance k))))))) of
       Ret bal \<Rightarrow> UpdateApikeyTokenBal (k_Address k) bal w1
     | Err e \<Rightarrow> (Err e, w1)
     | Panic p \<Rightarrow> (Panic p, w1))"

subsection \<open>Facts\<close>

definition unpaid_for :: "string \<Rightarrow> order \<Rightarrow> bool" where
  "unpaid_for itemId r \<longleftrightarrow> o_ItemId r = itemId \<and> o_PaymentStatus r = UnPayment"

text \<open>\<open>ords\<close> are the orders a payment of \<open>itemIds\<close> is for: the last unpaid order of each item.\<close>

definition orders_for :: "string list \<Rightarrow> order list \<Rightarrow> wdb \<Rightarrow> bool" where
  "orders_for itemIds ords w \<longleftrightarrow> list_all2 (\<lambda>i r. last_row (unpaid_for i) (orders w) = Ret r) itemIds ords"

definition pay_rows :: "order list \<Rightarrow> string \<Rightarrow> order list \<Rightarrow> order list" where
  "pay_rows ords everHash = update_rows (\<lambda>r. o_ID r \<in> o_ID ` set ords)
     (\<lambda>r. r\<lparr>o_PaymentStatus := SuccPayment, o_PaymentId := everHash\<rparr>)"

lemma pay_rows_Nil [simp]: "pay_rows [] h os = os"
  by (simp add: pay_rows_def update_rows_def)

lemma pay_rows_Cons: "pay_rows ords h (update_rows (\<lambda>r. o_ID r = o_ID x)
    (\<lambda>r. r\<lparr>o_PaymentStatus := SuccPayment, o_PaymentId := h\<rparr>) os) = pay_rows (x # ords) h os"
  by (auto simp: pay_rows_def update_rows_def)

lemma getUnPaid_cases:
  "getUnPaidOrdersByItemIds ids w = (r, w1) \<Longrightarrow> core w1 = core w
    \<and> (case r of Ret ords \<Rightarrow> orders_for ids ords w | Err _ \<Rightarrow> True | Panic _ \<Rightarrow> False)"
proof (induction ids arbitrary: w r w1)
  case Nil
  then show ?case by (auto simp: orders_for_def)
next
  case (Cons i ids)
  obtain r0 w0 where g: "GetUnPaidOrder i w = (r0, w0)" by fastforce
  obtain r2 w2 where rest: "getUnPaidOrdersByItemIds ids w0 = (r2, w2)" by fastforce
  have s0: "core w0 = core w" and r0: "r0 = last_row (unpaid_for i) (orders w) \<or> r0 = Err db_err"
  proof -
    from g show "core w0 = core w" unfolding GetUnPaidOrder_def by (elim db_read_cases)
    then have o: "orders w0 = orders w" by (rule core_fields)
    from g show "r0 = last_row (unpaid_for i) (orders w) \<or> r0 = Err db_err"
      unfolding GetUnPaidOrder_def by (elim db_read_cases) (simp_all add: o unpaid_for_def [abs_def])
  qed
  have notp: "r0 \<noteq> Panic p" for p using r0 by (auto simp: last_row_def split: if_splits)
  have ih: "core w2 = core w0 \<and> (case r2 of Ret ords \<Rightarrow> orders_for ids ords w0 | Err _ \<Rightarrow> True | Panic _ \<Rightarrow> False)"
    by (rule Cons.IH [OF rest])
  have o: "orders w0 = orders w" by (rule core_fields [OF s0])
  show ?case
  proof (cases r0)
    case (Ret x)
    then have x: "last_row (unpaid_for i) (orders w) = Ret x" using r0 by auto
    show ?thesis
      using Cons.prems g rest Ret ih x o s0 by (cases r2) (auto simp: bindG_def orders_for_def)
  qed (use Cons.prems g s0 notp in \<open>auto simp: bindG_def\<close>)
qed

lemma payAll_cases:
  "payAll ords h w = (r, w1) \<Longrightarrow> (\<forall>p. r \<noteq> Panic p)
    \<and> (r = Ret () \<longrightarrow> core w1 = (core w)\<lparr>orders := pay_rows ords h (orders w)\<rparr>)"
proof (induction ords arbitrary: w)
  case Nil
  then show ?case by auto
next
  case (Cons x ords)
  obtain r0 w0 where u: "UpdateOrderPay (o_ID x) h SuccPayment w = (r0, w0)" by fastforce
  from u show ?case
  proof (cases rule: UpdateOrderPay_cases)
    case 1
    then have run: "payAll ords h w0 = (r, w1)" using Cons.prems u by (simp add: bindG_def)
    have "orders w0 = update_rows (\<lambda>r. o_ID r = o_ID x)
        (\<lambda>r. r\<lparr>o_PaymentStatus := SuccPayment, o_PaymentId := h\<rparr>) (orders w)"
      using arg_cong [OF 1(2), of orders] by simp
    with Cons.IH [OF run] 1(2) show ?thesis by (simp add: pay_rows_Cons)
  next
    case 2
    then show ?thesis using Cons.prems u by (auto simp: bindG_def)
  qed
qed

lemma payTransaction_cases:
  assumes "payTransaction ords urtx w = (r, w1)"
  shows "core w1 = core w \<or> r = Ret () \<and> core w1 = set_receipt_status (r_RawId urtx) Spent
    ((core w)\<lparr>orders := pay_rows ords (r_EverHash urtx) (orders w)\<rparr>)"
proof -
  obtain r0 w0 where p: "payAll ords (r_EverHash urtx) w = (r0, w0)" by fastforce
  note c = payAll_cases [OF p]
  show ?thesis
  proof (cases r0)
    case (Ret x)
    obtain r2 w2 where u: "UpdateReceiptStatus (r_RawId urtx) Spent w0 = (r2, w2)" by fastforce
    obtain f w3 where t: "db_tick w2 = (f, w3)" by fastforce
    from u show ?thesis
    proof (cases rule: UpdateReceiptStatus_cases)
      case 1
      then show ?thesis
        using assms p Ret u t c db_tick_core [OF t] by (auto simp: payTransaction_def)
    qed (use assms p Ret u in \<open>auto simp: payTransaction_def\<close>)
  qed (use assms p in \<open>auto simp: payTransaction_def\<close>)
qed

lemma settle_cases:
  assumes "UpdateReceiptStatus i st w = (r, w1)" and "core w = core w0"
  shows "core w1 = core w0 \<or> core w1 = set_receipt_status i st (core w0)"
  using assms by (cases rule: UpdateReceiptStatus_cases) simp_all

definition sample_order :: order where
  "sample_order = \<lparr>o_ID = 1, o_ItemId = ''i'', o_Signer = ''s'', o_SignType = 1, o_Size = 10, o_Currency = ''AR'', o_Decimals = 12,
     o_Fee = ''100'', o_PaymentExpiredTime = 1000, o_ExpectedBlock = 50, o_PaymentStatus = UnPayment, o_PaymentId = [],
     o_OnChainStatus = WaitOnChain, o_ApiKey = [], o_Sort = False, o_Kafka = False\<rparr>"

definition sample_receipt :: receipt where
  "sample_receipt = \<lparr>r_RawId = 7, r_EverHash = ''0xabc'', r_Nonce = 5000, r_Symbol = ''AR'', r_TokenTag = ''ar-tag'', r_From = ''0xf'',
     r_Amount = ''100'', r_Data = JNull, r_Sig = [], r_Status = UnSpent, r_ErrMsg = []\<rparr>"

definition sample_wdb :: wdb where
  "sample_wdb = empty_wdb\<lparr>orders := [sample_order], receipts := [sample_receipt], next_order := 2\<rparr>"

definition sample_pay :: pay_lib where
  "sample_pay = \<lparr>bundler_addr = ''0xb'', IDCheck = Ret, NewUUID = Ret ''key'', HexToAddress = (\<lambda>s. s),
     FromHex = (\<lambda>_. replicate 65 (CHR 0x00)), Bytes2Hex = (\<lambda>s. s), EcrecoverKey = (\<lambda>_ _. Ret ''pub''), encryptKey = (\<lambda>_ _. Ret ''enc''), Transfer = (\<lambda>_ _ _ _. None)\<rparr>"

lemma sample_eval [simp]: "SetString ''100'' = Some 100" "SetString ''20'' = Some 20" "db_healthy sample_wdb"
  "orders sample_wdb = [sample_order]" "receipts sample_wdb = [sample_receipt]" "apiKeys sample_wdb = []"
  by (simp_all add: digits_eval SetString_def split_sign_def sample_wdb_def empty_wdb_def db_healthy_def)

subsection \<open>Properties\<close>

lemma processPayItems_cases:
  assumes "processPayItems itemIds urtx w = (r, w1)"
  shows "core w1 = core w \<or> core w1 = set_receipt_status (r_RawId urtx) UnRefund (core w)
    \<or> (\<exists>ords amount fee. r = Ret () \<and> orders_for itemIds ords w
        \<and> (\<forall>ord \<in> set ords. ToUpper (o_Currency ord) = ToUpper (r_Symbol urtx))
        \<and> SetString (r_Amount urtx) = Some amount \<and> total_fee ords = Some fee \<and> fee \<le> amount
        \<and> core w1 = set_receipt_status (r_RawId urtx) Spent
             ((core w)\<lparr>orders := pay_rows ords (r_EverHash urtx) (orders w)\<rparr>))"
proof -
  obtain r0 w0 where g: "getUnPaidOrdersByItemIds itemIds w = (r0, w0)" by fastforce
  note g' = getUnPaid_cases [OF g]
  have c0: "core w0 = core w" using g' by simp
  show ?thesis
  proof (cases r0)
    case (Err e)
    then show ?thesis
      using assms g c0 settle_cases [OF _ c0, of "r_RawId urtx" UnRefund r w1]
      by (auto simp: processPayItems_def split: if_splits)
  next
    case (Panic p)
    then show ?thesis using g' by simp
  next
    case (Ret ords)
    show ?thesis
    proof (cases "checkOrdersCurrency ords (r_Symbol urtx) = None \<and> checkOrdersAmount ords (r_Amount urtx) = None")
      case False
      then show ?thesis
        using assms g Ret c0 settle_cases [OF _ c0, of "r_RawId urtx" UnRefund r w1]
        by (auto simp: processPayItems_def split: if_splits)
    next
      case True
      then have pay: "payTransaction ords urtx w0 = (r, w1)" using assms g Ret by (simp add: processPayItems_def)
      have "\<forall>ord \<in> set ords. ToUpper (o_Currency ord) = ToUpper (r_Symbol urtx)"
        using True by (auto simp: checkOrdersCurrency_def list_all_iff split: if_splits)
      moreover have "\<exists>amount fee. SetString (r_Amount urtx) = Some amount \<and> total_fee ords = Some fee \<and> fee \<le> amount"
        using True by (auto simp: checkOrdersAmount_def not_less split: option.splits if_splits)
      ultimately show ?thesis
        using payTransaction_cases [OF pay] c0 core_fields(1) [OF c0] g' Ret by auto
    qed
  qed
qed

text \<open>
  C4: a payment for items is all or nothing, whichever requests to the database fail, Begin and
  Commit included. Either nothing changes, or only the receipt's status does, to unrefund; or the
  receipt is spent and exactly the last unpaid order of each item is paid by it, and then all the
  orders are in the receipt's currency and the amount covers the sum of their fees.
\<close>

theorem processPayItems_all_or_nothing:
  assumes "processPayItems itemIds urtx w = (r, w1)"
  shows "core w1 = core w \<or> core w1 = set_receipt_status (r_RawId urtx) UnRefund (core w)
    \<or> (\<exists>ords amount fee. r = Ret () \<and> orders_for itemIds ords w
        \<and> (\<forall>ord \<in> set ords. ToUpper (o_Currency ord) = ToUpper (r_Symbol urtx))
        \<and> SetString (r_Amount urtx) = Some amount \<and> total_fee ords = Some fee \<and> fee \<le> amount
        \<and> core w1 = set_receipt_status (r_RawId urtx) Spent
             ((core w)\<lparr>orders := pay_rows ords (r_EverHash urtx) (orders w)\<rparr>))"
  by (rule processPayItems_cases [OF assms])

theorem processPayItems_all_or_nothing_witness:
  "orders (snd (processPayItems [''i''] sample_receipt (sample_wdb\<lparr>db_faults := [False, False, True]\<rparr>))) = [sample_order]"
proof -
  let ?w = "sample_wdb\<lparr>db_faults := [False, False, True]\<rparr>"
  have "fst (processPayItems [''i''] sample_receipt ?w) = Err db_err"
    by (simp add: processPayItems_def GetUnPaidOrder_def db_read_def db_tick_def bindG_def last_row_def
      sample_order_def sample_receipt_def checkOrdersCurrency_def checkOrdersAmount_def payTransaction_def
      UpdateOrderPay_def UpdateReceiptStatus_def db_write_def)
  then have "core (snd (processPayItems [''i''] sample_receipt ?w)) = core ?w
      \<or> core (snd (processPayItems [''i''] sample_receipt ?w)) = set_receipt_status (r_RawId sample_receipt) UnRefund (core ?w)"
    using processPayItems_all_or_nothing [OF surjective_pairing, of "[''i'']" sample_receipt ?w] by auto
  then show ?thesis by (auto dest!: arg_cong [where f = orders] simp: set_receipt_status_def)
qed

text \<open>
  A receipt that credits an existing api key is not safe against a failure: the balance is
  written before the receipt is marked spent, in two requests and no transaction. When the second
  one fails the receipt stays unspent, and the next run credits its amount again: the balance grows
  by twice the amount that was paid once.
\<close>

theorem apikey_credit_counts_twice:
  assumes D: "decimal_ok D" and amt: "NewFromString D (r_Amount urtx) = Ret a" "r_Amount urtx \<noteq> ''0''"
    and k: "first_row (\<lambda>k. k_Address k = HexToAddress L (r_From urtx)) (apiKeys w) = Ret k"
    and bal: "map_of (k_TokenBalance k) (ToUpper (r_Symbol urtx)) = Some (JStr s)" "NewFromString D s = Ret b"
    and pr: "printable D (a + b)"
    and f: "db_faults w = [False, False, True]"
  shows "\<exists>w1 w2 k2. processPayApikey D L urtx w = (Err db_err, w1) \<and> receipts w1 = receipts w
    \<and> processPayApikey D L urtx w1 = (Ret (), w2)
    \<and> first_row (\<lambda>k. k_Address k = HexToAddress L (r_From urtx)) (apiKeys w2) = Ret k2
    \<and> map_of (k_TokenBalance k2) (ToUpper (r_Symbol urtx)) = Some (JStr (DString D (a + (a + b))))"
proof -
  let ?addr = "HexToAddress L (r_From urtx)" and ?sym = "ToUpper (r_Symbol urtx)"
  let ?put = "\<lambda>x bal. al_put ?sym (JStr (DString D x)) bal"
  let ?k1 = "k\<lparr>k_TokenBalance := ?put (a + b) (k_TokenBalance k)\<rparr>"
  let ?k2 = "k\<lparr>k_TokenBalance := ?put (a + (a + b)) (k_TokenBalance ?k1)\<rparr>"
  define upd where "upd x ks = update_rows (\<lambda>k. k_Address k = ?addr) (\<lambda>k. k\<lparr>k_TokenBalance := x\<rparr>) ks" for x and ks :: "api_key list"
  have row: "first_row (\<lambda>k. k_Address k = ?addr) (upd x ks) = Ret (k'\<lparr>k_TokenBalance := x\<rparr>)"
    if "first_row (\<lambda>k. k_Address k = ?addr) ks = Ret k'" for x ks k'
    using that by (induction ks) (auto simp: first_row_def upd_def)
  let ?w1 = "w\<lparr>db_faults := [], apiKeys := upd (k_TokenBalance ?k1) (apiKeys w)\<rparr>"
  let ?w2 = "set_receipt_status (r_RawId urtx) Spent (?w1\<lparr>apiKeys := upd (k_TokenBalance ?k2) (apiKeys ?w1)\<rparr>)"
  have bal1: "add_balance D (k_TokenBalance k) ?sym (r_Amount urtx) = Ret (k_TokenBalance ?k1)"
    using D amt(1) bal by (simp add: add_balance_def json_string_def decimal_or_zero_def decimal_ok_def)
  have one: "processPayApikey D L urtx w = (Err db_err, ?w1)"
    using amt(2) k f bal1 by (simp add: processPayApikey_def ExistApikey_def GetApiKeyDetailByAddress_def db_read_def
      db_tick_def Let_def bindG_def creditApikey_def UpdateApikeyTokenBal_def UpdateReceiptStatus_def db_write_def upd_def)
  have k1: "first_row (\<lambda>k. k_Address k = ?addr) (apiKeys ?w1) = Ret ?k1" using row [OF k] by simp
  have bal2: "add_balance D (k_TokenBalance ?k1) ?sym (r_Amount urtx) = Ret (k_TokenBalance ?k2)"
    using D amt(1) pr by (simp add: add_balance_def json_string_def decimal_or_zero_def decimal_ok_def printable_def)
  have h: "db_healthy ?w1" by (simp add: db_healthy_def)
  have two: "processPayApikey D L urtx ?w1 = (Ret (), ?w2)"
    using amt(2) k1 bal2 h by (simp add: processPayApikey_def ExistApikey_def GetApiKeyDetailByAddress_def Let_def bindG_def
      creditApikey_def UpdateApikeyTokenBal_def UpdateReceiptStatus_def upd_def)
  have "first_row (\<lambda>k. k_Address k = ?addr) (apiKeys ?w2) = Ret ?k2"
    using row [OF k1, of "k_TokenBalance ?k2"] by (simp add: set_receipt_status_def)
  moreover have "receipts ?w1 = receipts w" by simp
  ultimately show ?thesis using one two by (intro exI conjI) auto
qed

text \<open>
  C30: processApikeySpendBal, while no request fails: with a balance of at least the fee it returns
  nil and the new balance is exactly the old one less the fee, in that currency and that key only;
  with less it returns an error and changes nothing. A balance never becomes negative.
\<close>

theorem processApikeySpendBal_exact:
  assumes D: "decimal_ok D" and h: "db_healthy w" and k: "first_row (\<lambda>k. k_ApiKey k = key) (apiKeys w) = Ret k"
    and bal: "map_of (k_TokenBalance k) (ToUpper currency) = Some (JStr s)" "NewFromString D s = Ret b"
    and fee: "CalcItemFee D M currency n = Ret rf" "NewFromString D (rf_FinalFee rf) = Ret f"
  shows "processApikeySpendBal D M currency key n w = (if f \<le> b
      then (Ret (), w\<lparr>apiKeys := update_rows (\<lambda>r. k_Address r = k_Address k)
        (\<lambda>r. r\<lparr>k_TokenBalance := al_put (ToUpper currency) (JStr (DString D (b - f))) (k_TokenBalance k)\<rparr>) (apiKeys w)\<rparr>)
      else (Err insufficient, w))"
  using assms by (auto simp: processApikeySpendBal_def bindG_def GetApiKeyDetail_def json_string_def decimal_ok_def
    UpdateApikeyTokenBal_def not_less)

theorem apikey_credit_counts_twice_witness:
  "\<exists>w1 w2. processPayApikey int_decimal sample_pay sample_receipt
       (sample_wdb\<lparr>apiKeys := [\<lparr>k_ApiKey = ''key'', k_EncryptedKey = [], k_Address = ''0xf'', k_PubKey = [],
          k_TokenBalance = [(''AR'', JStr ''20'')]\<rparr>], db_faults := [False, False, True]\<rparr>) = (Err db_err, w1)
     \<and> processPayApikey int_decimal sample_pay sample_receipt w1 = (Ret (), w2)
     \<and> map_of (k_TokenBalance (hd (apiKeys w2))) ''AR'' = Some (JStr (FormatInt 220))"
proof -
  let ?k = "\<lparr>k_ApiKey = ''key'', k_EncryptedKey = [], k_Address = ''0xf'', k_PubKey = [], k_TokenBalance = [(''AR'', JStr ''20'')]\<rparr>"
  let ?w = "sample_wdb\<lparr>apiKeys := [?k], db_faults := [False, False, True]\<rparr>"
  have up: "ToUpper ''AR'' = ''AR''" by code_simp
  have len: "length (apiKeys w2) = 1" if "processPayApikey int_decimal sample_pay sample_receipt ?w = (Err db_err, w1)"
    "processPayApikey int_decimal sample_pay sample_receipt w1 = (Ret (), w2)" for w1 w2
    using that by (auto simp: processPayApikey_def ExistApikey_def GetApiKeyDetailByAddress_def db_read_def db_tick_def Let_def
      bindG_def creditApikey_def UpdateApikeyTokenBal_def UpdateReceiptStatus_def db_write_def sample_pay_def sample_receipt_def
      first_row_def add_balance_def up json_string_def set_receipt_status_def)
  have "NewFromString int_decimal ''100'' = Ret 100" "NewFromString int_decimal ''20'' = Ret 20"
    by (simp_all add: int_decimal_def)
  moreover have "printable int_decimal 120" using printable_int [of 120] by simp
  moreover have "DString int_decimal 220 = FormatInt 220" by (simp add: int_decimal_def)
  ultimately obtain w1 w2 k2 where w: "processPayApikey int_decimal sample_pay sample_receipt ?w = (Err db_err, w1)"
    "processPayApikey int_decimal sample_pay sample_receipt w1 = (Ret (), w2)"
    "first_row (\<lambda>k. k_Address k = ''0xf'') (apiKeys w2) = Ret k2"
    "map_of (k_TokenBalance k2) ''AR'' = Some (JStr (FormatInt 220))"
    using apikey_credit_counts_twice [of int_decimal sample_receipt 100 sample_pay ?w ?k "''20''" 20] up
    by (auto simp: sample_receipt_def sample_pay_def first_row_def)
  have "hd (apiKeys w2) = k2"
    using len [OF w(1,2)] w(3) by (cases "apiKeys w2") (auto simp: first_row_def split: if_splits)
  with w show ?thesis by blast
qed

theorem processApikeySpendBal_exact_witness:
  "fst (processApikeySpendBal int_decimal [''AR'' \<mapsto> \<lparr>f_Currency = ''AR'', f_Decimals = 12, f_Base = 5, f_PerChunk = 16\<rparr>] ''AR'' ''key'' 1
     (sample_wdb\<lparr>apiKeys := [\<lparr>k_ApiKey = ''key'', k_EncryptedKey = [], k_Address = ''0xf'', k_PubKey = [],
          k_TokenBalance = [(''AR'', JStr ''20'')]\<rparr>]\<rparr>)) = Err insufficient"
proof -
  let ?M = "[''AR'' \<mapsto> \<lparr>f_Currency = ''AR'', f_Decimals = 12, f_Base = 5, f_PerChunk = 16\<rparr>]"
  let ?k = "\<lparr>k_ApiKey = ''key'', k_EncryptedKey = [], k_Address = ''0xf'', k_PubKey = [], k_TokenBalance = [(''AR'', JStr ''20'')]\<rparr>"
  have up: "ToUpper ''AR'' = ''AR''" by code_simp
  have "CalcItemFee int_decimal ?M ''AR'' 1 = Ret \<lparr>rf_Currency = ''AR'', rf_Decimals = 12, rf_FinalFee = FormatInt 21\<rparr>"
    by (simp add: CalcItemFee_def GetPerFee_def up chunk_count_def MAX_CHUNK_SIZE_def int_decimal_def)
  moreover have "NewFromString int_decimal (FormatInt 21) = Ret 21" "NewFromString int_decimal ''20'' = Ret 20"
    by (simp_all add: int_decimal_def)
  ultimately show ?thesis
    using processApikeySpendBal_exact [OF int_decimal_ok, of "sample_wdb\<lparr>apiKeys := [?k]\<rparr>" "''key''" ?k "''AR''" "''20''" 20 ?M 1] up
    by (simp add: first_row_def)
qed

subsection \<open>Refunds\<close>

definition strip :: "receipt \<Rightarrow> receipt" where
  "strip r = r\<lparr>r_Status := [], r_ErrMsg := []\<rparr>"

text \<open>The receipts that still wait for their refund.\<close>

definition unrefunded :: "wdb \<Rightarrow> nat set" where
  "unrefunded w = r_RawId ` {r \<in> set (receipts w). r_Status r = UnRefund}"

lemma strip_update [simp]:
  assumes "\<And>r. strip (f r) = strip r"
  shows "map strip (update_rows P f xs) = map strip xs"
  using assms by (simp add: update_rows_def)

lemma refundOne_cases:
  assumes "refundOne L rpt w = (ts, w1)"
  shows "map strip (receipts w1) = map strip (receipts w) \<and> unrefunded w1 \<subseteq> unrefunded w
    \<and> (ts = [] \<or> (\<exists>amount. SetString (r_Amount rpt) = Some amount
        \<and> ts = [(r_TokenTag rpt, amount, r_From rpt, r_EverHash rpt)] \<and> r_RawId rpt \<notin> unrefunded w1))"
proof -
  obtain r0 w0 where u: "UpdateReceiptStatus (r_RawId rpt) Refund w = (r0, w0)" by fastforce
  from u show ?thesis
  proof (cases rule: UpdateReceiptStatus_cases)
    case 1
    have rec0: "receipts w0 = update_rows (\<lambda>r. r_RawId r = r_RawId rpt) (\<lambda>r. r\<lparr>r_Status := Refund\<rparr>) (receipts w)"
      using arg_cong [OF 1(2), of receipts] by (simp add: set_receipt_status_def)
    then have w0: "map strip (receipts w0) = map strip (receipts w)" "unrefunded w0 \<subseteq> unrefunded w - {r_RawId rpt}"
      by (auto simp: strip_def unrefunded_def)
    have err: "map strip (receipts w2) = map strip (receipts w0) \<and> unrefunded w2 \<subseteq> unrefunded w0"
      if "UpdateRefundErr (r_RawId rpt) m w0 = (r2, w2)" for m r2 w2
      using that unfolding UpdateRefundErr_def
    proof (elim db_write_cases)
      fix w' assume "core w' = core w0" and w2: "w2 = w'\<lparr>receipts := update_rows (\<lambda>r. r_RawId r = r_RawId rpt)
        (\<lambda>r. r\<lparr>r_Status := RefundErr, r_ErrMsg := m\<rparr>) (receipts w')\<rparr>"
      then have "receipts w' = receipts w0" by (auto dest: core_fields)
      then show ?thesis using w2 by (auto simp: strip_def unrefunded_def)
    next
      assume "core w2 = core w0"
      then have "receipts w2 = receipts w0" by (rule core_fields)
      then show ?thesis by (simp add: unrefunded_def)
    qed
    show ?thesis
    proof (cases "SetString (r_Amount rpt)")
      case None
      then show ?thesis using assms u 1(1) w0 by (auto simp: refundOne_def)
    next
      case (Some amount)
      show ?thesis
      proof (cases "Transfer L (r_TokenTag rpt) amount (r_From rpt) (r_EverHash rpt)")
        case None
        then show ?thesis using assms u 1(1) w0 Some by (auto simp: refundOne_def)
      next
        case (Some e)
        obtain m r2 w2 where "UpdateRefundErr (r_RawId rpt) m w0 = (r2, w2)"
          and "w1 = w2" and "ts = [(r_TokenTag rpt, amount, r_From rpt, r_EverHash rpt)]"
          using assms u 1(1) Some \<open>SetString (r_Amount rpt) = Some amount\<close>
          by (cases "UpdateRefundErr (r_RawId rpt) (err_text e) w0") (auto simp: refundOne_def)
        then show ?thesis using err [of m r2 w2] w0 \<open>SetString (r_Amount rpt) = Some amount\<close> by auto
      qed
    qed
  next
    case 2
    have "receipts w0 = receipts w" by (rule core_fields [OF 2(2)])
    then show ?thesis using assms u 2 by (auto simp: refundOne_def unrefunded_def)
  qed
qed

definition transfer_of :: "receipt \<Rightarrow> transfer \<Rightarrow> bool" where
  "transfer_of r t \<longleftrightarrow> (\<exists>amount. SetString (r_Amount r) = Some amount \<and> t = (r_TokenTag r, amount, r_From r, r_EverHash r))"

lemma refundAll_cases:
  "refundAll L rs w = (ts, w1) \<Longrightarrow> distinct (map r_EverHash rs)
    \<Longrightarrow> map strip (receipts w1) = map strip (receipts w) \<and> unrefunded w1 \<subseteq> unrefunded w
      \<and> distinct (map (\<lambda>(tag, amount, to, h). h) ts)
      \<and> (\<forall>t \<in> set ts. \<exists>r \<in> set rs. transfer_of r t \<and> r_RawId r \<notin> unrefunded w1)"
proof (induction rs arbitrary: w ts w1)
  case Nil
  then show ?case by auto
next
  case (Cons r rs)
  obtain t0 w0 where o: "refundOne L r w = (t0, w0)" by fastforce
  obtain t2 w2 where a: "refundAll L rs w0 = (t2, w2)" by fastforce
  have ts: "ts = t0 @ t2" "w1 = w2" using Cons.prems(1) o a by auto
  note one = refundOne_cases [OF o]
  have ih: "map strip (receipts w2) = map strip (receipts w0)" "unrefunded w2 \<subseteq> unrefunded w0"
    "distinct (map (\<lambda>(tag, amount, to, h). h) t2)" "\<forall>t \<in> set t2. \<exists>r \<in> set rs. transfer_of r t \<and> r_RawId r \<notin> unrefunded w2"
    using Cons.IH [OF a] Cons.prems(2) by auto
  have new: "(tag, amount, to, r_EverHash r) \<notin> set t2" for tag amount to
    using ih(4) Cons.prems(2) by (auto simp: transfer_of_def)
  show ?case using ts one ih new by (auto simp: transfer_of_def)
qed

text \<open>
  C17: a receipt is refunded at most once, whichever requests to the database and whichever
  transfers fail: refundReceipt asks for one transfer per receipt at most, only for receipts that
  wait for a refund, with their amount and to their sender; and a later run, at any time, asks for
  no transfer for the same receipt. (EverHash and RawId are unique in the table.)
\<close>

theorem refund_at_most_once:
  assumes run: "refundReceipt L now w = (ts, w1)"
    and uniq: "distinct (map r_EverHash (receipts w))" "distinct (map r_RawId (receipts w))"
  shows "distinct (map (\<lambda>(tag, amount, to, h). h) ts)
    \<and> (\<forall>t \<in> set ts. \<exists>r \<in> set (receipts w). r_Status r = UnRefund \<and> transfer_of r t)
    \<and> (\<forall>now2 ts2 w2. refundReceipt L now2 w1 = (ts2, w2)
        \<longrightarrow> (\<lambda>(tag, amount, to, h). h) ` set ts \<inter> (\<lambda>(tag, amount, to, h). h) ` set ts2 = {})"
proof -
  have step: "\<exists>rs v. set rs \<subseteq> {r \<in> set (receipts u). r_Status r = UnRefund} \<and> distinct (map r_EverHash rs)
      \<and> receipts v = receipts u \<and> refundAll L rs v = (ts', u')"
    if run': "refundReceipt L now' u = (ts', u')" and d: "distinct (map r_EverHash (receipts u))" for now' u ts' u'
  proof -
    obtain r0 v where g: "GetReceiptsByStatus now' UnRefund u = (r0, v)" by fastforce
    from g have "core v = core u" unfolding GetReceiptsByStatus_def by (elim db_read_cases)
    then have v: "receipts v = receipts u" by (rule core_fields)
    show ?thesis
    proof (cases r0)
      case (Ret rs)
      have "rs = filter (\<lambda>r. r_Status r = UnRefund \<and> now' - 24 * 60 * 60 * 1000 < r_Nonce r) (receipts u)"
        using g Ret v unfolding GetReceiptsByStatus_def by (elim db_read_cases) simp_all
      then have "set rs \<subseteq> {r \<in> set (receipts u). r_Status r = UnRefund}" "distinct (map r_EverHash rs)"
        using d by (auto simp: distinct_map_filter)
      then show ?thesis using run' g Ret v by (intro exI [of _ rs] exI [of _ v]) (simp add: refundReceipt_def)
    qed (use run' g v in \<open>auto simp: refundReceipt_def intro!: exI [of _ "[]"]\<close>)
  qed
  obtain rs v where rs: "set rs \<subseteq> {r \<in> set (receipts w). r_Status r = UnRefund}" "distinct (map r_EverHash rs)"
    "receipts v = receipts w" "refundAll L rs v = (ts, w1)" using step [OF run uniq(1)] by blast
  note all = refundAll_cases [OF rs(4,2)]
  have strip1: "map strip (receipts w1) = map strip (receipts w)" using all rs(3) by simp
  have hash: "map r_EverHash (receipts w1) = map r_EverHash (receipts w)"
    "map (\<lambda>r. (r_EverHash r, r_RawId r)) (receipts w1) = map (\<lambda>r. (r_EverHash r, r_RawId r)) (receipts w)"
    using arg_cong [OF strip1, of "map r_EverHash"] arg_cong [OF strip1, of "map (\<lambda>r. (r_EverHash r, r_RawId r))"]
    by (simp_all add: strip_def comp_def)
  have "(\<lambda>(tag, amount, to, h). h) ` set ts \<inter> (\<lambda>(tag, amount, to, h). h) ` set ts2 = {}"
    if run2: "refundReceipt L now2 w1 = (ts2, w2)" for now2 ts2 w2
  proof -
    obtain rs2 v2 where rs2: "set rs2 \<subseteq> {r \<in> set (receipts w1). r_Status r = UnRefund}" "distinct (map r_EverHash rs2)"
      "refundAll L rs2 v2 = (ts2, w2)" using step [OF run2] hash(1) uniq(1) by auto
    have False if t: "t \<in> set ts" and t2: "t2 \<in> set ts2" and
      eq: "(\<lambda>(tag, amount, to, h). h) t = (\<lambda>(tag, amount, to, h). h) t2" for t t2
    proof -
      obtain r where r: "r \<in> set rs" "transfer_of r t" "r_RawId r \<notin> unrefunded w1" using all t by blast
      obtain r2 where r2: "r2 \<in> set rs2" "transfer_of r2 t2" using refundAll_cases [OF rs2(3,2)] t2 by blast
      have h: "r_EverHash r2 = r_EverHash r" using r(2) r2(2) eq by (auto simp: transfer_of_def)
      have "(r_EverHash r2, r_RawId r2) \<in> set (map (\<lambda>r. (r_EverHash r, r_RawId r)) (receipts w1))" using r2(1) rs2(1) by auto
      then obtain r3 where r3: "r3 \<in> set (receipts w)" "r_EverHash r3 = r_EverHash r2" "r_RawId r3 = r_RawId r2"
        unfolding hash(2) by auto
      have "r \<in> set (receipts w)" using r(1) rs(1) by auto
      then have "r3 = r" using r3 h uniq(1) by (auto simp: distinct_map dest: inj_onD)
      then have "r_RawId r \<in> unrefunded w1" using r3(3) r2(1) rs2(1) by (auto simp: unrefunded_def)
      then show False using r(3) by blast
    qed
    then show ?thesis by blast
  qed
  moreover have "\<forall>t \<in> set ts. \<exists>r \<in> set (receipts w). r_Status r = UnRefund \<and> transfer_of r t"
    using all rs(1) by blast
  ultimately show ?thesis using all by blast
qed

theorem refund_at_most_once_witness:
  "distinct (map (\<lambda>(tag, amount, to, h). h)
     (fst (refundReceipt sample_pay 5000 (sample_wdb\<lparr>receipts := [sample_receipt\<lparr>r_Status := UnRefund\<rparr>]\<rparr>))))"
  using refund_at_most_once [OF surjective_pairing, where w = "sample_wdb\<lparr>receipts := [sample_receipt\<lparr>r_Status := UnRefund\<rparr>]\<rparr>"
    and L = sample_pay and now = 5000]
  by simp

end
