(* ===== verification/Node.thy ===== *)
theory Node
  imports Fees Store Routing
begin

text \<open>
  What a node keeps in memory beside its tables: cache.go, its refresh jobs and arTxWatcher (jobs.go),
  the start of New (arseeding.go), and the package config. \<open>ar_net\<close> is what the gateway of the node and
  the peers answer; None is an error. \<^verbatim>\<open>types.NetworkInfo\<close> is a type parameter, as the code only
  copies it. A map is iterated in the order of its list.
\<close>

record 'a cache =
  ca_arInfo :: 'a
  ca_anchor :: string
  ca_fee :: ar_fee
  ca_peerMap :: "(string \<times> int) list"
  ca_constTx :: transaction

text \<open>An info of None is a nil pointer; the price is asked for a data size.\<close>

record 'a ar_net =
  cli_anchor :: "string option"
  cli_info :: "'a option option"
  cli_price :: "int \<Rightarrow> int option"
  cli_peers :: "string list option"
  node_anchor :: "string \<Rightarrow> string option"
  node_info :: "string \<Rightarrow> 'a option option"
  node_price :: "string \<Rightarrow> int \<Rightarrow> int option"
  node_submit :: "string \<Rightarrow> transaction \<Rightarrow> int option"

subsection \<open>cache.go: asking the peers\<close>

text \<open>The loops break at the first good answer; otherwise the last answer is the result.\<close>

fun anchor_from :: "'a ar_net \<Rightarrow> string option \<Rightarrow> string list \<Rightarrow> string option" where
  "anchor_from N r [] = r"
| "anchor_from N r (peer # peers) = (case node_anchor N peer of
      Some anchor \<Rightarrow> if anchor \<noteq> [] then Some anchor else anchor_from N (Some anchor) peers
    | None \<Rightarrow> anchor_from N None peers)"

definition fetchAnchor :: "'a ar_net \<Rightarrow> string list \<Rightarrow> string option" where
  "fetchAnchor N peers = (case cli_anchor N of Some anchor \<Rightarrow> Some anchor | None \<Rightarrow> anchor_from N None peers)"

fun info_from :: "'a ar_net \<Rightarrow> 'a option option \<Rightarrow> string list \<Rightarrow> 'a option option" where
  "info_from N r [] = r"
| "info_from N r (peer # peers) = (case node_info N peer of
      Some info \<Rightarrow> if info \<noteq> None then Some info else info_from N (Some info) peers
    | None \<Rightarrow> info_from N None peers)"

definition fetchArInfo :: "'a ar_net \<Rightarrow> string list \<Rightarrow> 'a option option" where
  "fetchArInfo N peers = (case cli_info N of Some info \<Rightarrow> Some info | None \<Rightarrow> info_from N None peers)"

definition both_prices :: "(int \<Rightarrow> int option) \<Rightarrow> (int \<times> int) option" where
  "both_prices price = (case (price 0, price 1) of (Some b, Some d) \<Rightarrow> Some (b, d) | _ \<Rightarrow> None)"

fun price_from :: "'a ar_net \<Rightarrow> (int \<times> int) option \<Rightarrow> string list \<Rightarrow> (int \<times> int) option" where
  "price_from N r [] = r"
| "price_from N r (peer # peers) = (case both_prices (node_price N peer) of
      Some bd \<Rightarrow> Some bd | None \<Rightarrow> price_from N None peers)"

definition fetchArFee :: "'a ar_net \<Rightarrow> string list \<Rightarrow> ar_fee option" where
  "fetchArFee N peers = (case (case both_prices (cli_price N) of Some bd \<Rightarrow> Some bd | None \<Rightarrow> price_from N None peers) of
      Some (basePrice, deltaPrice) \<Rightarrow> Some \<lparr>fee_Base = basePrice, fee_PerChunk = i64 (deltaPrice - basePrice)\<rparr>
    | None \<Rightarrow> None)"

subsection \<open>cache.go: the cache\<close>

definition UpdateInfo :: "'a \<Rightarrow> 'a cache \<Rightarrow> 'a cache" where "UpdateInfo info c = c\<lparr>ca_arInfo := info\<rparr>"
definition UpdateAnchor :: "string \<Rightarrow> 'a cache \<Rightarrow> 'a cache" where "UpdateAnchor anchor c = c\<lparr>ca_anchor := anchor\<rparr>"
definition UpdateFee :: "ar_fee \<Rightarrow> 'a cache \<Rightarrow> 'a cache" where "UpdateFee price c = c\<lparr>ca_fee := price\<rparr>"
definition UpdatePeers :: "(string \<times> int) list \<Rightarrow> 'a cache \<Rightarrow> 'a cache" where "UpdatePeers m c = c\<lparr>ca_peerMap := m\<rparr>"

text \<open>sort.Slice is not stable; peers of the same count come here in the order of the map.\<close>

definition arweave_net :: string where "arweave_net = ''arweave.net''"

definition peer_order :: "(string \<times> int) list \<Rightarrow> string list" where
  "peer_order m = arweave_net # map fst (sort_key (\<lambda>p. - snd p) m)"

definition GetPeers :: "'a cache \<Rightarrow> string list" where
  "GetPeers c = peer_order (ca_peerMap c)"

text \<open>The info is dereferenced without a test.\<close>

definition NewCache :: "'a ar_net \<Rightarrow> transaction option \<Rightarrow> (string \<times> int) list \<Rightarrow> 'a cache go" where
  "NewCache N constTx peerMap = (let peers = peer_order peerMap in
     case fetchArInfo N peers of
       None \<Rightarrow> Panic ''fetch info failed''
     | Some None \<Rightarrow> Panic ''nil pointer dereference''
     | Some (Some info) \<Rightarrow> (case fetchArFee N peers of
         None \<Rightarrow> Panic ''fetch fee failed''
       | Some fee \<Rightarrow> (case fetchAnchor N peers of
           None \<Rightarrow> Panic ''fetch anchor failed''
         | Some anchor \<Rightarrow> (case constTx of
             None \<Rightarrow> Panic ''unmarshal failed''
           | Some tx \<Rightarrow> Ret \<lparr>ca_arInfo = info, ca_anchor = anchor, ca_fee = fee, ca_peerMap = peerMap, ca_constTx = tx\<rparr>))))"

subsection \<open>jobs.go: refreshing the cache\<close>

definition updateAnchor :: "'a ar_net \<Rightarrow> 'a cache \<Rightarrow> 'a cache" where
  "updateAnchor N c = (case fetchAnchor N (GetPeers c) of Some anchor \<Rightarrow> UpdateAnchor anchor c | None \<Rightarrow> c)"

definition updateInfo :: "'a ar_net \<Rightarrow> 'a cache \<Rightarrow> 'a cache" where
  "updateInfo N c = (case fetchArInfo N (GetPeers c) of Some (Some info) \<Rightarrow> UpdateInfo info c | _ \<Rightarrow> c)"

definition updateArFee :: "'a ar_net \<Rightarrow> 'a cache \<Rightarrow> 'a cache" where
  "updateArFee N c = (case fetchArFee N (GetPeers c) of Some txPrice \<Rightarrow> UpdateFee txPrice c | None \<Rightarrow> c)"

text \<open>The keys of the map of available peers, in the order in which the peers were given.\<close>

definition peer_available :: "'a ar_net \<Rightarrow> transaction \<Rightarrow> string \<Rightarrow> bool" where
  "peer_available N tx peer \<longleftrightarrow> (case node_submit N peer tx of
      None \<Rightarrow> False | Some code \<Rightarrow> code sdiv 100 = 2 \<or> code sdiv 100 = 4)"

definition filterPeers :: "'a ar_net \<Rightarrow> string list \<Rightarrow> transaction \<Rightarrow> string list" where
  "filterPeers N peers tx = remdups (filter (peer_available N tx) peers)"

definition count_peer :: "bool \<Rightarrow> int \<Rightarrow> int" where
  "count_peer available cnt = (if available then i64 (cnt + 1) else if cnt > 0 then cnt - 1 else cnt)"

definition updatePeerMap :: "(string \<times> int) list \<Rightarrow> string list \<Rightarrow> (string \<times> int) list" where
  "updatePeerMap old avail = (let m = map (\<lambda>(p, cnt). (p, count_peer (p \<in> set avail) cnt)) old
     in fold (\<lambda>p m. if p \<in> fst ` set old then m else al_put p 1 m) avail m)"

definition refreshPeers :: "'a ar_net \<Rightarrow> 'a cache \<times> kvdb \<Rightarrow> unit go \<times> 'a cache \<times> kvdb" where
  "refreshPeers N = (\<lambda>(c, d). case cli_peers N of
      None \<Rightarrow> (Ret (), c, d)
    | Some peers \<Rightarrow> let avail = filterPeers N peers (ca_constTx c) in
        if avail = [] then (Ret (), c, d)
        else let c1 = UpdatePeers (updatePeerMap (ca_peerMap c) avail) c in
          case SavePeers (ca_peerMap c1) d of (Panic p, d1) \<Rightarrow> (Panic p, c1, d1) | (_, d1) \<Rightarrow> (Ret (), c1, d1))"

text \<open>arseeding.go, New: the peers a node starts with.\<close>

definition initialPeers :: "kvdb \<Rightarrow> (string \<times> int) list go \<times> kvdb" where
  "initialPeers d = (case LoadPeers d of (Err _, d1) \<Rightarrow> (Ret [], d1) | r \<Rightarrow> r)"

text \<open>21 polls; the status of a transaction at a poll is its number of confirmations, None is an error.\<close>

definition arTxWatcher :: "(nat \<Rightarrow> string \<Rightarrow> int option) \<Rightarrow> string \<Rightarrow> bool" where
  "arTxWatcher status arTxHash = list_ex (\<lambda>i. case status i arTxHash of None \<Rightarrow> False | Some n \<Rightarrow> \<not> n < 3) [1..<22]"

subsection \<open>arseeding.go: the backend of New\<close>

datatype backend = S3Store string | AliyunStore | MongoDBStore | BoltStore

definition chooseStore :: "bool \<Rightarrow> bool \<Rightarrow> bool \<Rightarrow> bool \<Rightarrow> string \<Rightarrow> string \<Rightarrow> backend go" where
  "chooseStore useS3 useAliyun useMongoDb use4EVER s3Endpoint ForeverLandEndpoint =
     (if useS3 \<and> useAliyun then Panic ''can not use both s3 and aliyun''
      else if useS3 then Ret (S3Store (if use4EVER then ForeverLandEndpoint else s3Endpoint))
      else if useAliyun then Ret AliyunStore
      else if useMongoDb then Ret MongoDBStore
      else Ret BoltStore)"

subsection \<open>config: wdb.go, jobs.go and config.go\<close>

record fee_config =
  SpeedTxFee :: int
  BundleServeFee :: int
  FeeCollectAddr :: string

record ip_rate_whitelist =
  OriginOrIP :: string
  Available :: bool

text \<open>The tables; as in wdb.go, a True in the list of faults is a request that fails.\<close>

record config_db =
  fee_rows :: "fee_config list"
  ip_rows :: "ip_rate_whitelist list"
  param_rows :: "int list"
  cfg_faults :: "bool list"

definition cfg_read :: "(config_db \<Rightarrow> 'a go) \<Rightarrow> config_db \<Rightarrow> 'a go \<times> config_db" where
  "cfg_read q b = (case cfg_faults b of [] \<Rightarrow> (q b, b)
     | f # fs \<Rightarrow> (if f then Err db_err else q b, b\<lparr>cfg_faults := fs\<rparr>))"

definition first_or :: "'a \<Rightarrow> 'a go \<Rightarrow> 'a go" where
  "first_or dflt r = (if r = Err ErrRecordNotFound then Ret dflt else r)"

definition GetFee :: "config_db \<Rightarrow> fee_config go \<times> config_db" where
  "GetFee = cfg_read (\<lambda>b. first_or \<lparr>SpeedTxFee = 0, BundleServeFee = 0, FeeCollectAddr = []\<rparr> (first_row (\<lambda>_. True) (fee_rows b)))"

definition GetAllAvailableIpRateWhitelist :: "config_db \<Rightarrow> ip_rate_whitelist list go \<times> config_db" where
  "GetAllAvailableIpRateWhitelist = cfg_read (\<lambda>b. Ret (filter Available (ip_rows b)))"

definition GetParam :: "config_db \<Rightarrow> int go \<times> config_db" where
  "GetParam = cfg_read (\<lambda>b. first_or 0 (first_row (\<lambda>_. True) (param_rows b)))"

text \<open>The whitelist is a set; the rate limiter holds a pointer to it.\<close>

record config =
  speedTxFee :: int
  bundleServeFee :: int
  ipWhiteList :: "string list"
  Param :: int
  cf_db :: config_db

definition GetSpeedFee :: "config \<Rightarrow> int" where "GetSpeedFee c = speedTxFee c"
definition GetServeFee :: "config \<Rightarrow> int" where "GetServeFee c = bundleServeFee c"
definition GetIPWhiteList :: "config \<Rightarrow> string set option" where "GetIPWhiteList c = Some (set (ipWhiteList c))"

definition updateFee :: "config \<Rightarrow> config" where
  "updateFee c = (case GetFee (cf_db c) of
      (Ret fee, b) \<Rightarrow> c\<lparr>speedTxFee := SpeedTxFee fee, bundleServeFee := BundleServeFee fee, cf_db := b\<rparr>
    | (_, b) \<Rightarrow> c\<lparr>cf_db := b\<rparr>)"

definition updateIPWhiteList :: "config \<Rightarrow> config" where
  "updateIPWhiteList c = (case GetAllAvailableIpRateWhitelist (cf_db c) of
      (Ret ips, b) \<Rightarrow> c\<lparr>ipWhiteList := remdups (map OriginOrIP (filter Available ips)), cf_db := b\<rparr>
    | (_, b) \<Rightarrow> c\<lparr>cf_db := b\<rparr>)"

definition updateParam :: "config \<Rightarrow> config" where
  "updateParam c = (case GetParam (cf_db c) of
      (Ret param, b) \<Rightarrow> c\<lparr>Param := param, cf_db := b\<rparr>
    | (_, b) \<Rightarrow> c\<lparr>cf_db := b\<rparr>)"

definition NewConfig :: "config_db \<Rightarrow> config go" where
  "NewConfig b = (case GetFee b of
      (Ret fee, b1) \<Rightarrow> (case GetParam b1 of
          (Ret param, b2) \<Rightarrow> Ret \<lparr>speedTxFee = SpeedTxFee fee, bundleServeFee = BundleServeFee fee,
            ipWhiteList = [], Param = param, cf_db = b2\<rparr>
        | _ \<Rightarrow> Panic ''get param failed'')
    | _ \<Rightarrow> Panic ''get fee failed'')"

text \<open>\<open>IDCheck\<close> is account.IDCheck of go-everpay; the empty address stands for every failure.\<close>

definition FeeCollectAddress :: "(string \<Rightarrow> string go) \<Rightarrow> config_db \<Rightarrow> string \<times> config_db" where
  "FeeCollectAddress IDCheck b = (case GetFee b of
      (Ret feeCfg, b1) \<Rightarrow> (case IDCheck (FeeCollectAddr feeCfg) of Ret accId \<Rightarrow> accId | _ \<Rightarrow> [], b1)
    | (_, b1) \<Rightarrow> ([], b1))"

subsection \<open>jobs.go: the prices and fees of the tokens\<close>

text \<open>What everPay lists, the prices in USDC, and the requests of one run to the database.\<close>

fun setPrices :: "(string \<Rightarrow> rat option) \<Rightarrow> token_price list \<Rightarrow> wdb \<Rightarrow> wdb" where
  "setPrices usdc [] w = w"
| "setPrices usdc (tp # tps) w = (if p_ManualSet tp then setPrices usdc tps w
     else case usdc (p_Symbol tp) of
       None \<Rightarrow> setPrices usdc tps w
     | Some price \<Rightarrow> if price \<le> 0 then setPrices usdc tps w
         else setPrices usdc tps (snd (UpdatePrice (p_Symbol tp) price w)))"

definition updateTokenPrice :: "(string \<times> int) list \<Rightarrow> (string \<Rightarrow> rat option) \<Rightarrow> wdb \<Rightarrow> wdb" where
  "updateTokenPrice tokens usdc w =
     (case InsertPrices (map (\<lambda>(symbol, decimals). \<lparr>p_Symbol = ToUpper symbol, p_Decimals = decimals,
          p_Price = 0, p_ManualSet = False\<rparr>) tokens) w of
       (Ret _, w1) \<Rightarrow> (case GetPrices w1 of (Ret tps, w2) \<Rightarrow> setPrices usdc tps w2 | (_, w2) \<Rightarrow> w2)
     | (_, w1) \<Rightarrow> w1)"

definition SetPerFee :: "fee_map \<Rightarrow> fee_map \<Rightarrow> fee_map" where
  "SetPerFee feeMap old = feeMap"

definition updateBundlePerFee :: "decimal_lib \<Rightarrow> ar_fee \<Rightarrow> int \<Rightarrow> fee_map \<times> wdb \<Rightarrow> fee_map \<times> wdb" where
  "updateBundlePerFee L arFee serveFee = (\<lambda>(M, w). case GetBundlePerFees L arFee serveFee w of
     (Ret feeMap, w1) \<Rightarrow> (SetPerFee feeMap M, w1) | (_, w1) \<Rightarrow> (M, w1))"

subsection \<open>Fallback to the peers\<close>

text \<open>
  The contract of the three loops: \<open>ask\<close> is one peer's answer, \<open>good\<close> the test after which the loop
  breaks. The result is the answer of the first good peer; without one it is the last answer.
\<close>

locale fallback =
  fixes ask :: "string \<Rightarrow> 'v option" and good :: "'v \<Rightarrow> bool"
    and loop :: "'v option \<Rightarrow> string list \<Rightarrow> 'v option"
  assumes loop_Nil: "loop r [] = r"
    and loop_Cons: "loop r (peer # peers) = (case ask peer of
      Some v \<Rightarrow> if good v then Some v else loop (Some v) peers | None \<Rightarrow> loop None peers)"
begin

lemma loop_first: "find (\<lambda>p. case ask p of Some v \<Rightarrow> good v | None \<Rightarrow> False) peers = Some peer
    \<Longrightarrow> loop r peers = ask peer"
  by (induction peers arbitrary: r) (auto simp: loop_Cons split: option.splits if_splits)

lemma loop_last: "find (\<lambda>p. case ask p of Some v \<Rightarrow> good v | None \<Rightarrow> False) peers = None
    \<Longrightarrow> loop r peers = (if peers = [] then r else ask (last peers))"
  by (induction peers arbitrary: r) (auto simp: loop_Nil loop_Cons split: option.splits if_splits)

lemma loop_cases:
  obtains peer where "peer \<in> set peers" and "loop None peers = ask peer" | "loop None peers = None"
proof (cases "find (\<lambda>p. case ask p of Some v \<Rightarrow> good v | None \<Rightarrow> False) peers")
  case None
  then show thesis using that loop_last [OF None, of None] last_in_set by (cases "peers = []") auto
next
  case (Some peer)
  then show thesis using that loop_first by (auto simp: find_Some_iff intro: nth_mem)
qed

lemma loop_good:
  assumes "peer \<in> set peers" and "ask peer = Some v" and "good v"
  obtains p u where "p \<in> set peers" and "loop r peers = Some u" and "ask p = Some u" and "good u"
proof (cases "find (\<lambda>p. case ask p of Some v \<Rightarrow> good v | None \<Rightarrow> False) peers")
  case None
  then show thesis using assms by (auto simp: find_None_iff split: option.splits)
next
  case (Some p)
  then have "p \<in> set peers" and "case ask p of Some v \<Rightarrow> good v | None \<Rightarrow> False" by (auto simp: find_Some_iff)
  then show thesis using that loop_first [OF Some] by (auto split: option.splits)
qed

end

interpretation anchor_loop: fallback "node_anchor N" "\<lambda>anchor. anchor \<noteq> []" "anchor_from N" for N
  by unfold_locales simp_all

interpretation info_loop: fallback "node_info N" "\<lambda>info. info \<noteq> None" "info_from N" for N
  by unfold_locales simp_all

interpretation price_loop: fallback "\<lambda>peer. both_prices (node_price N peer)" "\<lambda>_. True" "price_from N" for N
  by unfold_locales (simp_all split: option.splits)

subsection \<open>Facts on the peers\<close>

lemma map_of_new_peers: "map_of (fold (\<lambda>p m. if p \<in> K then m else al_put p 1 m) ps M)
    = (\<lambda>q. if q \<in> set ps \<and> q \<notin> K then Some 1 else map_of M q)"
  by (induction ps arbitrary: M) (auto simp: fun_eq_iff)

lemma map_of_map_val: "map_of (map (\<lambda>(p, n). (p, f p n)) m) q = map_option (f q) (map_of m q)"
  by (induction m) auto

definition peer_step :: "bool \<Rightarrow> int option \<Rightarrow> int option" where
  "peer_step b c = (case c of Some n \<Rightarrow> Some (count_peer b n) | None \<Rightarrow> if b then Some 1 else None)"

lemma map_of_updatePeerMap: "map_of (updatePeerMap m avail) q = peer_step (q \<in> set avail) (map_of m q)"
proof -
  have "map_of m q = None \<longleftrightarrow> q \<notin> fst ` set m" by (rule map_of_eq_None_iff)
  then show ?thesis
    by (auto simp: updatePeerMap_def Let_def map_of_new_peers map_of_map_val peer_step_def split: option.splits)
qed

lemma al_sorted_updatePeerMap: "al_sorted m \<Longrightarrow> al_sorted (updatePeerMap m avail)"
proof -
  assume "al_sorted m"
  then have "al_sorted (map (\<lambda>(p, n). (p, count_peer (p \<in> set avail) n)) m)"
    by (simp add: al_sorted_def case_prod_unfold comp_def)
  moreover have "al_sorted (fold (\<lambda>p m. if p \<in> K then m else al_put p 1 m) ps M)" if "al_sorted M"
    for K ps and M :: "(string \<times> int) list"
    using that by (induction ps arbitrary: M) auto
  ultimately show ?thesis by (simp add: updatePeerMap_def Let_def)
qed

lemma peers_wf_updatePeerMap: "peers_wf m \<Longrightarrow> peers_wf (updatePeerMap m avail)"
proof -
  have put: "peers_wf (al_put p 1 M)" if "peers_wf M" for p :: string and M
    using that by (induction p "1::int" M rule: al_put.induct) (auto simp: peers_wf_def in_i64_def)
  have "peers_wf (fold (\<lambda>p m. if p \<in> K then m else al_put p 1 m) ps M)" if "peers_wf M" for K ps M
    using that by (induction ps arbitrary: M) (auto intro: put)
  moreover have "in_i64 (count_peer b n)" if "in_i64 n" for b n
    using that by (auto simp: count_peer_def) (auto simp: in_i64_def)
  then have "peers_wf m \<Longrightarrow> peers_wf (map (\<lambda>(p, n). (p, count_peer (p \<in> set avail) n)) m)"
    by (auto simp: peers_wf_def)
  ultimately show "peers_wf m \<Longrightarrow> peers_wf (updatePeerMap m avail)" by (simp add: updatePeerMap_def Let_def)
qed

lemma map_of_rounds: "map_of (foldl updatePeerMap m rounds) q
    = foldl (\<lambda>c avail. peer_step (q \<in> set avail) c) (map_of m q) rounds"
  by (induction rounds arbitrary: m) (simp_all add: map_of_updatePeerMap)

lemma score_once:
  "c0 \<noteq> None \<or> (\<exists>avail \<in> set rounds. p \<in> set avail)
    \<Longrightarrow> foldl (\<lambda>c avail. peer_step (p \<in> set avail) c) c0 rounds \<noteq> None"
  by (induction rounds arbitrary: c0) (auto simp: peer_step_def split: option.splits)

text \<open>The count of a peer after rounds of checks, below the number of rounds as soon as it missed one.\<close>

lemma score_bounds:
  assumes "int (length rounds) < 2 ^ 63"
  shows "foldl (\<lambda>c avail. peer_step (q \<in> set avail) c) None rounds = Some n \<Longrightarrow> 0 \<le> n \<and> n \<le> int (length rounds)
     \<and> (n = int (length rounds) \<longleftrightarrow> (\<forall>avail \<in> set rounds. q \<in> set avail))"
  using assms
proof (induction rounds arbitrary: n rule: rev_induct)
  case (snoc a rounds)
  let ?c = "foldl (\<lambda>c avail. peer_step (q \<in> set avail) c) None rounds"
  have len: "int (length rounds) < 2 ^ 63" using snoc.prems(2) by simp
  show ?case
  proof (cases ?c)
    case None
    then have "\<forall>avail \<in> set rounds. q \<notin> set avail" using score_once [of None rounds q] by blast
    then show ?thesis using None snoc.prems(1) by (cases rounds) (auto simp: peer_step_def split: if_splits)
  next
    case (Some k)
    have k: "0 \<le> k" "k \<le> int (length rounds)" "(k = int (length rounds)) = (\<forall>avail \<in> set rounds. q \<in> set avail)"
      using snoc.IH [OF Some len] by blast+
    have "i64 (k + 1) = k + 1" using k snoc.prems(2) by (intro i64_id) (simp add: in_i64_def)
    then have "n = (if q \<in> set a then k + 1 else if k > 0 then k - 1 else k)"
      using snoc.prems(1) Some by (auto simp: peer_step_def count_peer_def)
    then show ?thesis using k by (auto split: if_splits)
  qed
qed simp

lemma sort_before:
  assumes "(p, n) \<in> set m" and "(q, k) \<in> set m" and "k < (n :: int)"
  shows "\<exists>xs ys zs. map fst (sort_key (\<lambda>x. - snd x) m) = xs @ p # ys @ q # zs"
proof -
  let ?s = "sort_key (\<lambda>x. - snd x) m"
  obtain us vs where s: "?s = us @ (p, n) # vs" using assms(1) split_list [of "(p, n)" ?s] by auto
  have "sorted (map (\<lambda>x. - snd x) ?s)" by simp
  then have "\<forall>x \<in> set us. n \<le> snd x" unfolding s by (auto simp: sorted_append)
  then have "(q, k) \<in> set vs" using assms(2,3) s set_sort [of "\<lambda>x. - snd x" m] by fastforce
  then obtain ys zs where "vs = ys @ (q, k) # zs" by (meson split_list)
  with s show ?thesis by auto
qed

lemma LoadPeers_SavePeers:
  assumes "healthy d" and "peers_wf m"
  shows "\<exists>d1. SavePeers m d = (Ret (), d1) \<and> healthy d1 \<and> LoadPeers d1 = (Ret m, d1)"
proof -
  let ?d1 = "kv_store ConstantsBucket peer_list_key (Json (peers_json m)) d"
  have "SavePeers m d = (Ret (), ?d1)" using assms(1) by (simp add: SavePeers_def)
  moreover have "kv_get ConstantsBucket peer_list_key ?d1 = (Ret (Json (peers_json m)), ?d1)"
    using assms(1) by (intro kv_get_healthy) (simp_all add: blob_empty_def)
  ultimately show ?thesis
    using assms peers_codec.dec_enc [OF assms(2)] by (simp add: LoadPeers_def unmarshal_def)
qed

subsection \<open>Samples\<close>

definition node_fee :: ar_fee where "node_fee = \<lparr>fee_Base = 10, fee_PerChunk = 2\<rparr>"

definition no_tx :: transaction where
  "no_tx = \<lparr>tx_Format = 2, tx_ID = [], tx_LastTx = [], tx_Owner = [], tx_Tags = [], tx_Target = [], tx_Quantity = ''0'',
     tx_Data = [], tx_DataSize = ''0'', tx_DataRoot = [], tx_Reward = [], tx_Signature = []\<rparr>"

definition plain_cache :: "nat cache" where
  "plain_cache = \<lparr>ca_arInfo = 0, ca_anchor = ''a0'', ca_fee = node_fee, ca_peerMap = [(''p1'', 1)], ca_constTx = no_tx\<rparr>"

text \<open>The gateway is down, peer p2 answers everything, p1 nothing.\<close>

definition p2_net :: "nat ar_net" where
  "p2_net = \<lparr>cli_anchor = None, cli_info = None, cli_price = (\<lambda>_. None), cli_peers = Some [''p1'', ''p2''],
     node_anchor = (\<lambda>p. if p = ''p2'' then Some ''a2'' else None),
     node_info = (\<lambda>p. if p = ''p2'' then Some (Some 7) else None),
     node_price = (\<lambda>p n. if p = ''p2'' then Some (100 + 5 * n) else None),
     node_submit = (\<lambda>p tx. if p = ''p2'' then Some 208 else None)\<rparr>"

subsection \<open>Properties\<close>

text \<open>
  The fee of the network is the one of the first source that answers both price requests, the
  gateway of the node first and then the peers in the order of GetPeers; without one it is an error.
\<close>

theorem fetchArFee_first_source:
  "fetchArFee N peers = (case find (\<lambda>price. both_prices price \<noteq> None) (cli_price N # map (node_price N) peers) of
      None \<Rightarrow> None
    | Some price \<Rightarrow> map_option (\<lambda>(b, d). \<lparr>fee_Base = b, fee_PerChunk = i64 (d - b)\<rparr>) (both_prices price))"
proof -
  let ?ok = "\<lambda>p. case both_prices (node_price N p) of Some _ \<Rightarrow> True | None \<Rightarrow> False"
  have f: "find (\<lambda>price. both_prices price \<noteq> None) (map (node_price N) peers) = map_option (node_price N) (find ?ok peers)"
    by (induction peers) (auto split: option.splits)
  show ?thesis
  proof (cases "find ?ok peers")
    case None
    then have "\<forall>p \<in> set peers. both_prices (node_price N p) = None"
      by (auto simp: find_None_iff split: option.splits) (metis option.exhaust surj_pair)
    moreover have "price_from N None peers = (if peers = [] then None else both_prices (node_price N (last peers)))"
      using price_loop.loop_last [OF None] by blast
    ultimately have "price_from N None peers = None" using last_in_set [of peers] by auto
    then show ?thesis using f None by (auto simp: fetchArFee_def split: option.splits)
  next
    case (Some p)
    then have "price_from N None peers = both_prices (node_price N p)" by (rule price_loop.loop_first)
    then show ?thesis using f Some by (auto simp: fetchArFee_def split: option.splits)
  qed
qed

text \<open>
  Whatever the gateway and the peers answer, a refresh of the cache keeps the old value or takes one
  that the gateway or a listed peer gave; and when the gateway or any listed peer gives an info or a
  non-empty anchor, the new value is one that was given, never the old one and never empty.
\<close>

theorem refresh_takes_given_values:
  "(ca_anchor (updateAnchor N c) = ca_anchor c \<or> cli_anchor N = Some (ca_anchor (updateAnchor N c))
      \<or> (\<exists>p \<in> set (GetPeers c). node_anchor N p = Some (ca_anchor (updateAnchor N c))))
   \<and> (ca_arInfo (updateInfo N c) = ca_arInfo c \<or> cli_info N = Some (Some (ca_arInfo (updateInfo N c)))
      \<or> (\<exists>p \<in> set (GetPeers c). node_info N p = Some (Some (ca_arInfo (updateInfo N c)))))
   \<and> (cli_anchor N = None \<and> (\<exists>p \<in> set (GetPeers c). \<exists>a. node_anchor N p = Some a \<and> a \<noteq> [])
      \<longrightarrow> ca_anchor (updateAnchor N c) \<noteq> [] \<and> (\<exists>p \<in> set (GetPeers c). node_anchor N p = Some (ca_anchor (updateAnchor N c))))
   \<and> (cli_info N = None \<and> (\<exists>p \<in> set (GetPeers c). \<exists>i. node_info N p = Some (Some i))
      \<longrightarrow> (\<exists>p \<in> set (GetPeers c). node_info N p = Some (Some (ca_arInfo (updateInfo N c)))))"
proof (intro conjI impI)
  show "ca_anchor (updateAnchor N c) = ca_anchor c \<or> cli_anchor N = Some (ca_anchor (updateAnchor N c))
      \<or> (\<exists>p \<in> set (GetPeers c). node_anchor N p = Some (ca_anchor (updateAnchor N c)))"
    by (rule anchor_loop.loop_cases [of "GetPeers c" N])
      (auto simp: updateAnchor_def fetchAnchor_def UpdateAnchor_def split: option.splits)
  show "ca_arInfo (updateInfo N c) = ca_arInfo c \<or> cli_info N = Some (Some (ca_arInfo (updateInfo N c)))
      \<or> (\<exists>p \<in> set (GetPeers c). node_info N p = Some (Some (ca_arInfo (updateInfo N c))))"
    by (rule info_loop.loop_cases [of "GetPeers c" N])
      (auto simp: updateInfo_def fetchArInfo_def UpdateInfo_def split: option.splits)
next
  assume a: "cli_anchor N = None \<and> (\<exists>p \<in> set (GetPeers c). \<exists>a. node_anchor N p = Some a \<and> a \<noteq> [])"
  then obtain p u where "p \<in> set (GetPeers c)" "anchor_from N None (GetPeers c) = Some u" "node_anchor N p = Some u" "u \<noteq> []"
    by (blast elim: anchor_loop.loop_good)
  with a show "ca_anchor (updateAnchor N c) \<noteq> []"
    and "\<exists>p \<in> set (GetPeers c). node_anchor N p = Some (ca_anchor (updateAnchor N c))"
    by (auto simp: updateAnchor_def fetchAnchor_def UpdateAnchor_def)
next
  assume a: "cli_info N = None \<and> (\<exists>p \<in> set (GetPeers c). \<exists>i. node_info N p = Some (Some i))"
  then obtain p u where "p \<in> set (GetPeers c)" "info_from N None (GetPeers c) = Some u" "node_info N p = Some u" "u \<noteq> None"
    by (blast elim: info_loop.loop_good)
  with a show "\<exists>p \<in> set (GetPeers c). node_info N p = Some (Some (ca_arInfo (updateInfo N c)))"
    by (auto simp: updateInfo_def fetchArInfo_def UpdateInfo_def)
qed

theorem refresh_takes_given_values_witness:
  "ca_anchor (updateAnchor p2_net (plain_cache\<lparr>ca_peerMap := [(''p1'', 4), (''p2'', 1)]\<rparr>)) \<noteq> []"
proof -
  let ?c = "plain_cache\<lparr>ca_peerMap := [(''p1'', 4), (''p2'', 1)]\<rparr>"
  have "''p2'' \<in> set (GetPeers ?c)" by (simp add: GetPeers_def peer_order_def)
  then show ?thesis using refresh_takes_given_values [of p2_net ?c] by (auto simp: p2_net_def)
qed

text \<open>
  C40: the counts of the peers never wrap. After any number of rounds below 2^63, from an empty map, every count is between 0 and
  the number of rounds, and it is that number only for a peer that answered in all of them.
\<close>

theorem peer_scores_bounded:
  assumes "int (length rounds) < 2 ^ 63" and "map_of (foldl updatePeerMap [] rounds) p = Some n"
  shows "0 \<le> n \<and> n \<le> int (length rounds) \<and> (n = int (length rounds) \<longleftrightarrow> (\<forall>avail \<in> set rounds. p \<in> set avail))"
  using score_bounds [OF assms(1), of p n] assms(2) by (simp add: map_of_rounds)

theorem peer_scores_bounded_witness: "the (map_of (foldl updatePeerMap [] [[''p''], [''p'', ''q'']]) ''p'') = 2"
proof -
  let ?r = "[[''p''], [''p'', ''q'']]"
  have "map_of (foldl updatePeerMap [] ?r) ''p'' \<noteq> None"
    unfolding map_of_rounds by (rule score_once) simp
  then obtain n where n: "map_of (foldl updatePeerMap [] ?r) ''p'' = Some n" by blast
  then show ?thesis using peer_scores_bounded [OF _ n] by simp
qed

text \<open>
  A peer that answered in every round of checks is asked before every peer that missed one, and
  arweave.net is asked before all of them.
\<close>

theorem peer_ranking:
  assumes "int (length rounds) < 2 ^ 63" and "\<forall>avail \<in> set rounds. p \<in> set avail"
    and "a \<in> set rounds" and "q \<notin> set a" and "b \<in> set rounds" and "q \<in> set b"
  shows "\<exists>xs ys zs. peer_order (foldl updatePeerMap [] rounds) = arweave_net # xs @ p # ys @ q # zs"
proof -
  let ?m = "foldl updatePeerMap [] rounds" and ?s = "\<lambda>q. foldl (\<lambda>c avail. peer_step (q \<in> set avail) c) None rounds"
  obtain n k where n: "?s p = Some n" and k: "?s q = Some k"
    using score_once [of None rounds p] score_once [of None rounds q] assms by blast
  then have "map_of ?m p = Some n" "map_of ?m q = Some k" by (simp_all add: map_of_rounds)
  then have "(p, n) \<in> set ?m" "(q, k) \<in> set ?m" by (auto dest: map_of_SomeD)
  moreover have "k < n" using score_bounds [OF assms(1) n] score_bounds [OF assms(1) k] assms by force
  ultimately show ?thesis using sort_before by (fastforce simp: peer_order_def)
qed

theorem peer_ranking_witness:
  "\<exists>xs ys zs. peer_order (foldl updatePeerMap [] [[''q'', ''p''], [''p'']]) = arweave_net # xs @ ''p'' # ys @ ''q'' # zs"
  by (rule peer_ranking [where a = "[''p'']" and b = "[''q'', ''p'']"]) simp_all

text \<open>
  A refresh of the peers changes the cache and the store together or neither: while no request to
  the store fails, either nothing changes, or the cache holds the updated map and a node that is
  started on the store begins with exactly that map. The counts stay in int64 and the keys in order.
\<close>

theorem refreshPeers_persisted:
  assumes "refreshPeers N (c, d) = (r, c1, d1)" and "healthy d" and "peers_wf (ca_peerMap c)" and "al_sorted (ca_peerMap c)"
  shows "r = Ret () \<and> peers_wf (ca_peerMap c1) \<and> al_sorted (ca_peerMap c1)
    \<and> ((c1 = c \<and> d1 = d) \<or> initialPeers d1 = (Ret (ca_peerMap c1), d1))
    \<and> (\<forall>p. map_of (ca_peerMap c1) p = map_of (ca_peerMap c) p \<or> (\<exists>avail peers. cli_peers N = Some peers
        \<and> set avail = {q \<in> set peers. peer_available N (ca_constTx c) q} \<and> avail \<noteq> []
        \<and> map_of (ca_peerMap c1) p = peer_step (p \<in> set avail) (map_of (ca_peerMap c) p)))"
proof (cases "\<exists>peers. cli_peers N = Some peers \<and> filterPeers N peers (ca_constTx c) \<noteq> []")
  case False
  then show ?thesis using assms by (auto simp: refreshPeers_def Let_def split: option.splits)
next
  case True
  then obtain peers where p: "cli_peers N = Some peers" "filterPeers N peers (ca_constTx c) \<noteq> []" by blast
  let ?avail = "filterPeers N peers (ca_constTx c)" and ?m = "updatePeerMap (ca_peerMap c) (filterPeers N peers (ca_constTx c))"
  have wf: "peers_wf ?m" "al_sorted ?m" using peers_wf_updatePeerMap al_sorted_updatePeerMap assms by blast+
  obtain d2 where d2: "SavePeers ?m d = (Ret (), d2)" "LoadPeers d2 = (Ret ?m, d2)"
    using LoadPeers_SavePeers [OF assms(2) wf(1)] by blast
  have "r = Ret ()" "c1 = UpdatePeers ?m c" "d1 = d2"
    using assms(1) p d2(1) by (simp_all add: refreshPeers_def Let_def UpdatePeers_def)
  moreover have "set ?avail = {q \<in> set peers. peer_available N (ca_constTx c) q}" by (auto simp: filterPeers_def)
  ultimately show ?thesis
    using wf d2 p by (auto simp: UpdatePeers_def initialPeers_def map_of_updatePeerMap)
qed

theorem refreshPeers_persisted_witness:
  "initialPeers (snd (snd (refreshPeers p2_net (plain_cache, empty_kv Bolt []))))
     = (Ret [(''p1'', 0), (''p2'', 1)], snd (snd (refreshPeers p2_net (plain_cache, empty_kv Bolt []))))"
proof -
  obtain r c1 d1 where r: "refreshPeers p2_net (plain_cache, empty_kv Bolt []) = (r, c1, d1)"
    by (metis surj_pair)
  have c1: "ca_peerMap c1 = [(''p1'', 0), (''p2'', 1)]"
    using r by (auto simp: refreshPeers_def p2_net_def plain_cache_def filterPeers_def peer_available_def Let_def UpdatePeers_def
      updatePeerMap_def count_peer_def SavePeers_def signed_divide_int_def)
  have "peers_wf (ca_peerMap plain_cache)" "al_sorted (ca_peerMap plain_cache)"
    by (simp_all add: plain_cache_def peers_wf_def in_i64_def al_sorted_def)
  with refreshPeers_persisted [OF r] c1 r show ?thesis by (auto simp: plain_cache_def)
qed

subsection \<open>Facts on prices\<close>

definition quoted_row :: "(string \<Rightarrow> rat option) \<Rightarrow> token_price \<Rightarrow> bool" where
  "quoted_row usdc x \<longleftrightarrow> \<not> p_ManualSet x \<and> (p_Price x = 0 \<or> 0 < p_Price x \<and> usdc (p_Symbol x) = Some (p_Price x))"

definition prices_from :: "(string \<Rightarrow> rat option) \<Rightarrow> token_price list \<Rightarrow> token_price list \<Rightarrow> bool" where
  "prices_from usdc old new \<longleftrightarrow> distinct (map p_Symbol new) \<and> p_Symbol ` set old \<subseteq> p_Symbol ` set new
     \<and> (\<forall>x \<in> set new. x \<in> set old \<or> quoted_row usdc x) \<and> (\<forall>x \<in> set old. p_ManualSet x \<longrightarrow> x \<in> set new)"

lemma prices_from_refl: "distinct (map p_Symbol ps) \<Longrightarrow> prices_from usdc ps ps"
  by (simp add: prices_from_def)

lemma prices_from_trans: "prices_from usdc a b \<Longrightarrow> prices_from usdc b c \<Longrightarrow> prices_from usdc a c"
  unfolding prices_from_def by (elim conjE, intro conjI) (assumption, (rule subset_trans; assumption), metis, metis)

lemma prices_from_add:
  assumes "distinct (map p_Symbol ps)" and "p_Price tp = 0" and "\<not> p_ManualSet tp"
  shows "prices_from usdc ps (add_price tp ps)"
  using assms by (auto simp: prices_from_def add_price_def quoted_row_def list_ex_iff)

lemma prices_from_adds:
  assumes "distinct (map p_Symbol ps)" and "\<forall>tp \<in> set tps. p_Price tp = 0 \<and> \<not> p_ManualSet tp"
  shows "prices_from usdc ps (fold add_price tps ps)"
  using assms
proof (induction tps arbitrary: ps)
  case (Cons tp tps)
  then have a: "prices_from usdc ps (add_price tp ps)" by (simp add: prices_from_add)
  then have "distinct (map p_Symbol (add_price tp ps))" by (simp add: prices_from_def)
  then have "prices_from usdc (add_price tp ps) (fold add_price tps (add_price tp ps))" using Cons by simp
  with a show ?case by (auto intro: prices_from_trans)
qed (simp add: prices_from_refl)

lemma symbol_unique: "distinct (map p_Symbol ps) \<Longrightarrow> x \<in> set ps \<Longrightarrow> y \<in> set ps \<Longrightarrow> p_Symbol x = p_Symbol y \<Longrightarrow> x = y"
  by (auto simp: distinct_map dest: inj_onD)

lemma map_update_rows: "(\<And>x. f (g x) = f x) \<Longrightarrow> map f (update_rows P g xs) = map f xs"
  by (induction xs) auto

lemma prices_from_update:
  assumes d: "distinct (map p_Symbol ps)" and tp: "tp \<in> set ps" "\<not> p_ManualSet tp"
    and price: "usdc (p_Symbol tp) = Some price" "0 < price"
  shows "prices_from usdc ps (update_rows (\<lambda>x. p_Symbol x = p_Symbol tp) (\<lambda>x. x\<lparr>p_Price := price\<rparr>) ps)"
proof -
  let ?new = "update_rows (\<lambda>x. p_Symbol x = p_Symbol tp) (\<lambda>x. x\<lparr>p_Price := price\<rparr>) ps"
  have syms: "map p_Symbol ?new = map p_Symbol ps" by (rule map_update_rows) simp
  then have "p_Symbol ` set ?new = p_Symbol ` set ps" by (metis set_map)
  moreover have "\<forall>x \<in> set ps. p_Symbol x = p_Symbol tp \<longrightarrow> x = tp" using symbol_unique [OF d _ tp(1)] by blast
  ultimately show ?thesis using syms d tp price by (auto simp: prices_from_def quoted_row_def)
qed

lemma core_prices: "core w1 = core w \<Longrightarrow> tokenPrices w1 = tokenPrices w"
  by (drule arg_cong [of _ _ tokenPrices]) (simp add: core_def)

lemma UpdatePrice_rows:
  assumes "UpdatePrice symbol price w = (r, w1)"
  shows "tokenPrices w1 = tokenPrices w
    \<or> tokenPrices w1 = update_rows (\<lambda>x. p_Symbol x = symbol) (\<lambda>x. x\<lparr>p_Price := price\<rparr>) (tokenPrices w)"
  using assms unfolding UpdatePrice_def
  by (elim db_write_cases) (auto dest: core_prices)

lemma update_rows_kept:
  assumes "y \<in> set ps"
  shows "\<exists>z \<in> set (update_rows P (\<lambda>x. x\<lparr>p_Price := price\<rparr>) ps). p_Symbol z = p_Symbol y \<and> p_ManualSet z = p_ManualSet y"
proof -
  have "(if P y then y\<lparr>p_Price := price\<rparr> else y) \<in> set (update_rows P (\<lambda>x. x\<lparr>p_Price := price\<rparr>) ps)"
    using assms by simp
  then show ?thesis by (rule rev_bexI) simp
qed

lemma setPrices_from:
  assumes "distinct (map p_Symbol (tokenPrices w))"
    and "\<forall>x \<in> set tps. p_ManualSet x \<or> (\<exists>y \<in> set (tokenPrices w). p_Symbol y = p_Symbol x \<and> \<not> p_ManualSet y)"
  shows "prices_from usdc (tokenPrices w) (tokenPrices (setPrices usdc tps w))"
  using assms
proof (induction usdc tps w rule: setPrices.induct)
  case (1 usdc w)
  then show ?case by (simp add: prices_from_refl)
next
  case (2 usdc tp tps w)
  show ?case
  proof (cases "\<not> p_ManualSet tp \<and> (\<exists>price. usdc (p_Symbol tp) = Some price \<and> 0 < price)")
    case False
    then show ?thesis using 2 by (cases "usdc (p_Symbol tp)") (auto simp: not_less)
  next
    case True
    then obtain price where price: "usdc (p_Symbol tp) = Some price" "0 < price" "\<not> p_ManualSet tp" by blast
    then obtain y where y: "y \<in> set (tokenPrices w)" "p_Symbol y = p_Symbol tp" "\<not> p_ManualSet y" using 2(6) by auto
    let ?w1 = "snd (UpdatePrice (p_Symbol tp) price w)"
    have ps: "tokenPrices ?w1 = tokenPrices w \<or> tokenPrices ?w1
        = update_rows (\<lambda>x. p_Symbol x = p_Symbol tp) (\<lambda>x. x\<lparr>p_Price := price\<rparr>) (tokenPrices w)"
      by (rule UpdatePrice_rows [OF surjective_pairing])
    then have from1: "prices_from usdc (tokenPrices w) (tokenPrices ?w1)"
      using prices_from_update [OF 2(5) y(1,3), of usdc price] price y(2) prices_from_refl [OF 2(5)] by auto
    have "\<forall>x \<in> set tps. p_ManualSet x \<or> (\<exists>y \<in> set (tokenPrices ?w1). p_Symbol y = p_Symbol x \<and> \<not> p_ManualSet y)"
    proof (intro ballI)
      fix x assume x: "x \<in> set tps"
      show "p_ManualSet x \<or> (\<exists>y \<in> set (tokenPrices ?w1). p_Symbol y = p_Symbol x \<and> \<not> p_ManualSet y)"
      proof (cases "p_ManualSet x")
        case False
        then obtain y where "y \<in> set (tokenPrices w)" "p_Symbol y = p_Symbol x" "\<not> p_ManualSet y" using x 2(6) by auto
        then show ?thesis using ps update_rows_kept by metis
      qed simp
    qed
    with from1 have "prices_from usdc (tokenPrices ?w1) (tokenPrices (setPrices usdc tps ?w1))"
      using 2(4) price by (simp add: prices_from_def)
    with from1 show ?thesis using price by (auto intro: prices_from_trans)
  qed
qed

lemma bundle_fees_iff: "bundle_fees L ar f tps s = None \<longleftrightarrow> (\<forall>tp \<in> set tps. ToUpper (p_Symbol tp) = s \<longrightarrow> p_Price tp \<le> 0)"
  by (induction tps) (auto split: option.splits)

lemma bundle_fees_Some: "bundle_fees L ar f tps s = Some fee \<Longrightarrow> \<exists>tp \<in> set tps. ToUpper (p_Symbol tp) = s \<and> 0 < p_Price tp
    \<and> fee = \<lparr>f_Currency = p_Symbol tp, f_Decimals = p_Decimals tp, f_Base = token_amount L ar (fee_Base f) tp,
        f_PerChunk = token_amount L ar (fee_PerChunk f) tp\<rparr>"
  by (induction tps) (auto split: option.splits if_splits)

lemma GetBundlePerFees_Ret:
  assumes "GetBundlePerFees L arFee serveFee w = (Ret M, w1)"
  obtains ar where "\<exists>x \<in> set (tokenPrices w). p_Symbol x = ''AR'' \<and> p_Price x = ar"
    and "M = bundle_fees L ar \<lparr>fee_Base = i64 (fee_Base arFee + serveFee), fee_PerChunk = i64 (fee_PerChunk arFee + serveFee)\<rparr> (tokenPrices w)"
    and "tokenPrices w1 = tokenPrices w"
proof -
  obtain ar w2 where ar: "GetArPrice w = (Ret ar, w2)"
    and M: "bindG GetPrices (\<lambda>tps. Pair (Ret (bundle_fees L ar \<lparr>fee_Base = i64 (fee_Base arFee + serveFee),
        fee_PerChunk = i64 (fee_PerChunk arFee + serveFee)\<rparr> tps))) w2 = (Ret M, w1)"
    using assms unfolding GetBundlePerFees_def by (rule bindG_RetE)
  obtain r where r: "db_read (\<lambda>w. first_row (\<lambda>x. p_Symbol x = ''AR'') (tokenPrices w)) w = (r, w2)" "andThen r (\<lambda>x. Ret (p_Price x)) = Ret ar"
    using ar by (auto simp: GetArPrice_def split: prod.splits)
  then obtain x where x: "r = Ret x" "p_Price x = ar" by (auto simp: andThen_Ret_iff)
  have w2: "tokenPrices w2 = tokenPrices w" and row: "first_row (\<lambda>x. p_Symbol x = ''AR'') (tokenPrices w2) = Ret x"
    using r(1) x(1) by (auto elim!: db_read_cases dest: core_prices)
  obtain tps where "GetPrices w2 = (Ret tps, w1)"
    and "M = bundle_fees L ar \<lparr>fee_Base = i64 (fee_Base arFee + serveFee), fee_PerChunk = i64 (fee_PerChunk arFee + serveFee)\<rparr> tps"
    using M by (rule bindG_RetE) simp
  moreover from this have "tps = tokenPrices w" "tokenPrices w1 = tokenPrices w"
    using w2 unfolding GetPrices_def by (auto elim!: db_read_cases dest: core_prices)
  ultimately show thesis using that first_row_Ret [OF row] x(2) w2 by metis
qed

definition price_wdb :: "rat \<Rightarrow> wdb" where
  "price_wdb ar = empty_wdb\<lparr>tokenPrices := [\<lparr>p_Symbol = ''AR'', p_Decimals = 12, p_Price = ar, p_ManualSet = False\<rparr>,
     \<lparr>p_Symbol = ''USDC'', p_Decimals = 6, p_Price = 1, p_ManualSet = True\<rparr>]\<rparr>"

text \<open>
  Whichever requests fail, a run of updateTokenPrice keeps one row per symbol, loses no symbol and
  leaves every price that was set by hand; each other row is an old one, a new token without a price,
  or has the positive price that the price service gives for its symbol.
\<close>

theorem updateTokenPrice_safe:
  assumes "distinct (map p_Symbol (tokenPrices w))"
  shows "prices_from usdc (tokenPrices w) (tokenPrices (updateTokenPrice tokens usdc w))"
proof -
  let ?tps = "map (\<lambda>(symbol, decimals). \<lparr>p_Symbol = ToUpper symbol, p_Decimals = decimals, p_Price = 0, p_ManualSet = False\<rparr>) tokens"
  obtain r1 w1 where i: "InsertPrices ?tps w = (r1, w1)" by fastforce
  have a: "prices_from usdc (tokenPrices w) (tokenPrices w1)"
  proof (cases "?tps = []")
    case True
    then show ?thesis using i assms by (simp add: InsertPrices_def prices_from_refl)
  next
    case False
    then have "db_write (\<lambda>w. w\<lparr>tokenPrices := fold add_price ?tps (tokenPrices w)\<rparr>) w = (r1, w1)"
      using i by (simp add: InsertPrices_def)
    then have "tokenPrices w1 = tokenPrices w \<or> tokenPrices w1 = fold add_price ?tps (tokenPrices w)"
      by (elim db_write_cases) (auto dest: core_prices)
    moreover have "\<forall>tp \<in> set ?tps. p_Price tp = 0 \<and> \<not> p_ManualSet tp" by auto
    ultimately show ?thesis using prices_from_adds [OF assms, of ?tps usdc] prices_from_refl [OF assms] by metis
  qed
  obtain r2 w2 where g: "GetPrices w1 = (r2, w2)" by fastforce
  have w2: "tokenPrices w2 = tokenPrices w1" "r2 = Ret (tokenPrices w2) \<or> r2 = Err db_err"
    using g unfolding GetPrices_def by (auto elim!: db_read_cases dest: core_prices)
  have "prices_from usdc (tokenPrices w1) (tokenPrices (setPrices usdc (tokenPrices w2) w2))"
    using setPrices_from [of w2 "tokenPrices w2" usdc] a w2 by (auto simp: prices_from_def)
  then show ?thesis using a i g w2 by (cases r1; cases r2) (auto simp: updateTokenPrice_def intro: prices_from_trans)
qed

theorem updateTokenPrice_safe_witness:
  "prices_from (\<lambda>_. Some 9) (tokenPrices (price_wdb 5)) (tokenPrices (updateTokenPrice [(''eth'', 18)] (\<lambda>_. Some 9) (price_wdb 5)))"
  by (rule updateTokenPrice_safe) (simp add: price_wdb_def)

text \<open>
  The fees in tokens are kept when a request for them fails; otherwise a currency is supported
  exactly when a token of that name, in upper case, has a positive price, and its fees are the fees of
  the network with the service fee, converted by the price of AR.
\<close>

theorem updateBundlePerFee_supported:
  assumes "updateBundlePerFee L arFee serveFee (M, w) = (M1, w1)"
  shows "M1 = M \<or> ((\<forall>s. M1 s = None \<longleftrightarrow> (\<forall>tp \<in> set (tokenPrices w). ToUpper (p_Symbol tp) = s \<longrightarrow> p_Price tp \<le> 0))
    \<and> (\<exists>ar \<in> set (tokenPrices w). p_Symbol ar = ''AR'' \<and> (\<forall>s fee. M1 s = Some fee \<longrightarrow> (\<exists>tp \<in> set (tokenPrices w).
        ToUpper (p_Symbol tp) = s \<and> 0 < p_Price tp \<and> f_Currency fee = p_Symbol tp
        \<and> f_Base fee = token_amount L (p_Price ar) (i64 (fee_Base arFee + serveFee)) tp
        \<and> f_PerChunk fee = token_amount L (p_Price ar) (i64 (fee_PerChunk arFee + serveFee)) tp))))"
proof (cases "GetBundlePerFees L arFee serveFee w")
  case (Pair r w2)
  show ?thesis
  proof (cases r)
    case (Ret M2)
    with Pair obtain ar where ar: "\<exists>x \<in> set (tokenPrices w). p_Symbol x = ''AR'' \<and> p_Price x = ar"
      and M2: "M2 = bundle_fees L ar \<lparr>fee_Base = i64 (fee_Base arFee + serveFee), fee_PerChunk = i64 (fee_PerChunk arFee + serveFee)\<rparr> (tokenPrices w)"
      by (blast elim: GetBundlePerFees_Ret)
    have "M1 = M2" using assms Pair Ret by (simp add: updateBundlePerFee_def SetPerFee_def)
    obtain x where x: "x \<in> set (tokenPrices w)" "p_Symbol x = ''AR''" "p_Price x = ar" using ar by blast
    have "\<exists>tp \<in> set (tokenPrices w). ToUpper (p_Symbol tp) = s \<and> 0 < p_Price tp \<and> f_Currency fee = p_Symbol tp
        \<and> f_Base fee = token_amount L (p_Price x) (i64 (fee_Base arFee + serveFee)) tp
        \<and> f_PerChunk fee = token_amount L (p_Price x) (i64 (fee_PerChunk arFee + serveFee)) tp" if "M1 s = Some fee" for s fee
      using bundle_fees_Some [OF that [unfolded \<open>M1 = M2\<close> M2]] x(3) by auto
    moreover have "\<forall>s. M1 s = None \<longleftrightarrow> (\<forall>tp \<in> set (tokenPrices w). ToUpper (p_Symbol tp) = s \<longrightarrow> p_Price tp \<le> 0)"
      unfolding \<open>M1 = M2\<close> M2 bundle_fees_iff by blast
    ultimately show ?thesis using x(1,2) by blast
  qed (use assms Pair in \<open>auto simp: updateBundlePerFee_def\<close>)
qed

theorem updateBundlePerFee_supported_witness:
  "fst (updateBundlePerFee int_decimal node_fee 3 (Map.empty, price_wdb 5)) ''AR'' \<noteq> None"
proof -
  have up: "ToUpper ''AR'' = ''AR''" "ToUpper ''USDC'' = ''USDC''" by code_simp+
  obtain M1 w1 where r: "updateBundlePerFee int_decimal node_fee 3 (Map.empty, price_wdb 5) = (M1, w1)" by fastforce
  have "M1 ''USDC'' \<noteq> None"
    using r up by (auto simp: updateBundlePerFee_def GetBundlePerFees_def GetArPrice_def GetPrices_def price_wdb_def bindG_def
      SetPerFee_def first_row_def db_read_def db_tick_def empty_wdb_def)
  with updateBundlePerFee_supported [OF r] r up show ?thesis by (auto simp: price_wdb_def)
qed

text \<open>
  While AR itself has no price (a new row starts with 0, and nothing asks for a positive one),
  every other supported token gets a fee of 0, and its items cost nothing.
\<close>

theorem no_ar_price_no_fee:
  assumes "decimal_ok L" and "NewFromFloat L 0 = 0" and "\<And>x. DDiv L 0 x = 0" and "DRound L 0 = 0"
    and "\<forall>x \<in> set (tokenPrices w). p_Symbol x = ''AR'' \<longrightarrow> p_Price x = 0"
    and "GetBundlePerFees L arFee serveFee w = (Ret M, w1)" and "M (ToUpper currency) \<noteq> None"
  shows "\<exists>resp. CalcItemFee L M currency n = Ret resp \<and> rf_FinalFee resp = DString L 0"
proof -
  obtain ar where ar: "\<exists>x \<in> set (tokenPrices w). p_Symbol x = ''AR'' \<and> p_Price x = ar"
    and M: "M = bundle_fees L ar \<lparr>fee_Base = i64 (fee_Base arFee + serveFee), fee_PerChunk = i64 (fee_PerChunk arFee + serveFee)\<rparr> (tokenPrices w)"
    using assms(6) by (blast elim: GetBundlePerFees_Ret)
  obtain fee where fee: "M (ToUpper currency) = Some fee" using assms(7) by blast
  have zero: "token_amount L 0 k tp = 0" for k tp using assms(1-4) by (simp add: token_amount_def decimal_ok_def)
  have "f_Base fee = 0" "f_PerChunk fee = 0"
    using bundle_fees_Some [OF fee [unfolded M]] ar assms(5) zero by auto
  then show ?thesis using fee assms(1) by (simp add: CalcItemFee_def GetPerFee_def decimal_ok_def)
qed

theorem no_ar_price_no_fee_witness:
  "\<exists>M resp. fst (GetBundlePerFees int_decimal node_fee 3 (price_wdb 0)) = Ret M
     \<and> CalcItemFee int_decimal M ''usdc'' 1000000 = Ret resp \<and> rf_FinalFee resp = FormatInt 0"
proof -
  have up: "ToUpper ''usdc'' = ''USDC''" "ToUpper ''AR'' = ''AR''" "ToUpper ''USDC'' = ''USDC''" by code_simp+
  obtain r w1 where r: "GetBundlePerFees int_decimal node_fee 3 (price_wdb 0) = (r, w1)" by fastforce
  then obtain M where M: "r = Ret M" "M ''USDC'' \<noteq> None"
    using up by (auto simp: GetBundlePerFees_def GetArPrice_def GetPrices_def price_wdb_def bindG_def
      first_row_def db_read_def db_tick_def empty_wdb_def)
  have "\<exists>resp. CalcItemFee int_decimal M ''usdc'' 1000000 = Ret resp \<and> rf_FinalFee resp = DString int_decimal 0"
    by (rule no_ar_price_no_fee [where w = "price_wdb 0" and arFee = node_fee and serveFee = 3])
      (use r M up in \<open>auto simp: int_decimal_def decimal_ok_def price_wdb_def\<close>)
  then show ?thesis using r M by (auto simp: int_decimal_def)
qed

text \<open>
  After updateIPWhiteList the rate limiter lets pass exactly the addresses that the table lists as
  available, or, when the request fails, those it let pass before.
\<close>

theorem updateIPWhiteList_takes_effect:
  assumes "CHR '','' \<notin> set ip" and "CHR '','' \<notin> set origin"
  shows "limiter_excluded (GetIPWhiteList (updateIPWhiteList c)) (limiter_key origin ip)
    \<longleftrightarrow> (if cfg_faults (cf_db c) = [] \<or> \<not> hd (cfg_faults (cf_db c))
      then \<exists>row \<in> set (ip_rows (cf_db c)). Available row \<and> (OriginOrIP row = ip \<or> OriginOrIP row = origin)
      else limiter_excluded (GetIPWhiteList c) (limiter_key origin ip))"
  using Split_append [of "CHR '',''" origin ip] Split_none [OF assms(1)] Split_none [OF assms(2)]
  by (auto simp: limiter_excluded_def limiter_key_def list_ex_iff GetIPWhiteList_def updateIPWhiteList_def
    GetAllAvailableIpRateWhitelist_def cfg_read_def neq_Nil_conv split: list.splits)

theorem updateIPWhiteList_takes_effect_witness:
  "\<not> limiter_excluded (GetIPWhiteList (updateIPWhiteList \<lparr>speedTxFee = 0, bundleServeFee = 0, ipWhiteList = [''10.0.0.1''],
     Param = 0, cf_db = \<lparr>fee_rows = [], ip_rows = [\<lparr>OriginOrIP = ''10.0.0.1'', Available = False\<rparr>], param_rows = [], cfg_faults = []\<rparr>\<rparr>))
     (limiter_key [] ''10.0.0.1'')"
  using updateIPWhiteList_takes_effect [of "''10.0.0.1''" "[]"] by simp

end
