(* ===== verification/Bundle.thy ===== *)
theory Bundle
  imports Submit Payment Node "HOL-Library.Sublist"
begin

text \<open>
  Bundle items, from their submission to the chain: bundle.go, the item endpoints of api.go, and the
  bundling jobs of jobs.go. The ANS-104 functions of goar/utils, the sending of a bundle and the
  status of a transaction are the fields of \<open>chain_lib\<close>; the settings of Arseeding are \<open>bundler_cfg\<close>.
\<close>

datatype chain_status = Confirmed string int int | StillPending | StatusErr err

record chain_lib =
  VerifyBundleItem :: "bundle_item \<Rightarrow> err option"
  ItemSignerAddr :: "bundle_item \<Rightarrow> string go"
  DecodeBundle :: "string \<Rightarrow> bundle_item list go"
  DecodeItem :: "binary \<Rightarrow> bundle_item go"
  NewBundle :: "bundle_item list \<Rightarrow> string go"
  SendBundleTx :: "string \<Rightarrow> int \<Rightarrow> transaction go"
  TxStatus :: "string \<Rightarrow> chain_status"

record bundler_cfg =
  cfg_goar :: goar
  cfg_chain :: chain_lib
  cfg_pay :: pay_lib
  cfg_dec :: decimal_lib
  cfg_fees :: fee_map
  cfg_arFee :: ar_fee
  cfg_speedFee :: int
  cfg_height :: int
  cfg_expectedRange :: int
  cfg_expiredRange :: int
  cfg_manifest :: bool
  cfg_noFee :: bool

subsection \<open>bundle.go: items in the store\<close>

definition saveItem :: "codec \<Rightarrow> bundle_item \<Rightarrow> kvdb \<Rightarrow> unit go \<times> kvdb" where
  "saveItem E item d = (case IsExistItemBinary (it_Id item) d of (ex, d1) \<Rightarrow>
     if ex then (Ret (), d1) else AtomicSaveItem E item d1)"

definition DelItem :: "string \<Rightarrow> kvdb \<Rightarrow> unit go \<times> kvdb" where
  "DelItem itemId d = (case IsExistItemBinary itemId d of (ex, d1) \<Rightarrow>
     if ex then AtomicDelItem itemId d1 else (Ret (), d1))"

definition new_order :: "bundler_cfg \<Rightarrow> int \<Rightarrow> bundle_item \<Rightarrow> string \<Rightarrow> resp_fee \<Rightarrow> string \<Rightarrow> bool \<Rightarrow> string \<Rightarrow> bool \<Rightarrow> int \<Rightarrow> order" where
  "new_order C now item accId fee currency isNoFeeMode apiKey isSort sz = \<lparr>o_ID = 0, o_ItemId = it_Id item, o_Signer = accId,
     o_SignType = it_SignatureType item, o_Size = sz, o_Currency = ToUpper currency, o_Decimals = rf_Decimals fee,
     o_Fee = rf_FinalFee fee, o_PaymentExpiredTime = (if isNoFeeMode then 0 else i64 (now + cfg_expiredRange C)),
     o_ExpectedBlock = i64 (cfg_height C + cfg_expectedRange C),
     o_PaymentStatus = (if isNoFeeMode then SuccPayment else UnPayment), o_PaymentId = [], o_OnChainStatus = WaitOnChain,
     o_ApiKey = apiKey, o_Sort = isSort, o_Kafka = False\<rparr>"

definition ProcessSubmitItem ::
  "bundler_cfg \<Rightarrow> int \<Rightarrow> bundle_item \<Rightarrow> string \<Rightarrow> bool \<Rightarrow> string \<Rightarrow> bool \<Rightarrow> int \<Rightarrow> seeding \<Rightarrow> order go \<times> seeding" where
  "ProcessSubmitItem C now item currency isNoFeeMode apiKey isSort sz s =
     (case VerifyBundleItem (cfg_chain C) item of
        Some e \<Rightarrow> (Err e, s)
      | None \<Rightarrow> bindG (on_store (saveItem (cod (cfg_goar C)) item)) (\<lambda>_ s1.
          case andThen (ItemSignerAddr (cfg_chain C) item) (\<lambda>signer. andThen (IDCheck (cfg_pay C) signer) (\<lambda>accId.
               andThen (CalcItemFee (cfg_dec C) (cfg_fees C) currency sz) (\<lambda>fee.
                 Ret (new_order C now item accId fee currency isNoFeeMode apiKey isSort sz)))) of
            Ret ord \<Rightarrow> bindG (on_wdb (InsertOrder ord)) (\<lambda>_ s2. (Ret ord, s2)) s1
          | Err e \<Rightarrow> (Err e, s1)
          | Panic p \<Rightarrow> (Panic p, s1)) s)"

fun saveItems :: "goar \<Rightarrow> bool \<Rightarrow> bundle_item list \<Rightarrow> seeding \<Rightarrow> unit go \<times> seeding" where
  "saveItems G mf [] s = (Ret (), s)"
| "saveItems G mf (item # items) s = bindG (on_store (saveItem (cod G) item)) (\<lambda>_.
     bindG (on_wdb (recordManifest G mf (it_Tags item) (it_Id item))) (\<lambda>_. saveItems G mf items)) s"

definition ParseAndSaveBundleItems :: "bundler_cfg \<Rightarrow> string \<Rightarrow> string \<Rightarrow> seeding \<Rightarrow> unit go \<times> seeding" where
  "ParseAndSaveBundleItems C arId data = bindG (on_store (ExistArIdToItemIds arId)) (\<lambda>ex s1.
     if ex then (Ret (), s1)
     else case DecodeBundle (cfg_chain C) data of
         Err e \<Rightarrow> (Err e, s1)
       | Panic p \<Rightarrow> (Panic p, s1)
       | Ret items \<Rightarrow> bindG (saveItems (cfg_goar C) (cfg_manifest C) items) (\<lambda>_.
           on_store (SaveArIdToItemIds arId (map it_Id items))) s1)"

subsection \<open>api.go: an item that an api key pays for\<close>

text \<open>The end of submitNativeData, once the item is signed; submitItem does the same with its key.\<close>

definition submitPaidItem :: "bundler_cfg \<Rightarrow> int \<Rightarrow> bundle_item \<Rightarrow> string \<Rightarrow> string \<Rightarrow> bool \<Rightarrow> int \<Rightarrow> seeding \<Rightarrow> order go \<times> seeding" where
  "submitPaidItem C now item currency apiKey isSort sz =
     bindG (on_wdb (processApikeySpendBal (cfg_dec C) (cfg_fees C) currency apiKey sz)) (\<lambda>_.
       ProcessSubmitItem C now item currency True apiKey isSort sz)"

definition submitItem :: "bundler_cfg \<Rightarrow> int \<Rightarrow> bundle_item \<Rightarrow> string \<Rightarrow> string \<Rightarrow> bool \<Rightarrow> int \<Rightarrow> seeding \<Rightarrow> order go \<times> seeding" where
  "submitItem C now item currency apikey isSort sz s = (if sz > 1024 * 1024 * 1024 then (Err ErrDataTooBig, s)
     else if apikey \<noteq> [] then submitPaidItem C now item currency apikey isSort sz s
     else ProcessSubmitItem C now item currency (cfg_noFee C) apikey isSort sz s)"

subsection \<open>jobs.go: expired orders\<close>

fun expireAll :: "order list \<Rightarrow> seeding \<Rightarrow> seeding" where
  "expireAll [] s = s"
| "expireAll (ord # ords) s = expireAll ords (case on_wdb (UpdateOrdToExpiredStatus (o_ID ord)) s of
      (Ret _, s1) \<Rightarrow> (case ExistPaidOrd (o_ItemId ord) (s_wdb s1) of (paid, w2) \<Rightarrow>
          if paid then s1\<lparr>s_wdb := w2\<rparr>
          else (case IsLatestUnpaidOrd (o_ItemId ord) (o_PaymentExpiredTime ord) w2 of (latest, w3) \<Rightarrow>
              if \<not> latest then s1\<lparr>s_wdb := w3\<rparr>
              else snd (bindG (on_store (DelItem (o_ItemId ord))) (\<lambda>_. on_wdb (DelManifest (o_ItemId ord))) (s1\<lparr>s_wdb := w3\<rparr>))))
    | (_, s1) \<Rightarrow> s1)"

definition processExpiredOrd :: "int \<Rightarrow> seeding \<Rightarrow> seeding" where
  "processExpiredOrd now s = (case on_wdb (GetExpiredOrders now) s of
      (Ret ords, s1) \<Rightarrow> expireAll ords s1 | (_, s1) \<Rightarrow> s1)"

subsection \<open>jobs.go: bundles to parse\<close>

fun parseAll :: "bundler_cfg \<Rightarrow> string list \<Rightarrow> seeding \<Rightarrow> seeding option" where
  "parseAll C [] s = Some s"
| "parseAll C (arId # ids) s = (case on_store (LoadTxMeta arId) s of
      (Ret meta, s1) \<Rightarrow> (case getArTxData (cfg_goar C) (tx_DataRoot meta) (tx_DataSize meta) (s_store s1) of
          None \<Rightarrow> None
        | Some (Ret data, d2) \<Rightarrow>
            parseAll C ids (snd (on_store (DelParsedBundleArId arId) (snd (ParseAndSaveBundleItems C arId data (s1\<lparr>s_store := d2\<rparr>)))))
        | Some (_, d2) \<Rightarrow> parseAll C ids (s1\<lparr>s_store := d2\<rparr>))
    | (_, s1) \<Rightarrow> parseAll C ids s1)"

definition parseAndSaveBundleTx :: "bundler_cfg \<Rightarrow> seeding \<Rightarrow> seeding option" where
  "parseAndSaveBundleTx C s = (case on_store LoadWaitParseBundleArIds s of
      (Ret ids, s1) \<Rightarrow> parseAll C ids s1 | (_, s1) \<Rightarrow> Some s1)"

subsection \<open>jobs.go: the items of a bundle\<close>

fun loadItems :: "chain_lib \<Rightarrow> string list \<Rightarrow> kvdb \<Rightarrow> bundle_item list \<times> kvdb" where
  "loadItems I [] d = ([], d)"
| "loadItems I (itemId # ids) d = (case LoadItemBinary itemId d of
      (Ret b, d1) \<Rightarrow> (case DecodeItem I b of
          Ret item \<Rightarrow> (case loadItems I ids d1 of (items, d2) \<Rightarrow> (item # items, d2))
        | _ \<Rightarrow> loadItems I ids d1)
    | (_, d1) \<Rightarrow> loadItems I ids d1)"

text \<open>The first item with data goes to the end when the last one has none.\<close>

definition data_last :: "bundle_item list \<Rightarrow> bundle_item list \<times> err option" where
  "data_last items = (if items = [] then ([], Some (ErrMsg ''onChainItems is null''))
     else if it_Data (last items) \<noteq> [] then (items, None)
     else case dropWhile (\<lambda>i. it_Data i = []) items of
         [] \<Rightarrow> (items, Some (ErrMsg ''all bundle items data are null''))
       | x # r \<Rightarrow> (takeWhile (\<lambda>i. it_Data i = []) items @ r @ [x], None))"

definition getOnChainBundle :: "chain_lib \<Rightarrow> string list \<Rightarrow> kvdb \<Rightarrow> (bundle_item list \<times> err option) \<times> kvdb" where
  "getOnChainBundle I itemIds d = (case loadItems I itemIds d of (items, d1) \<Rightarrow> (data_last items, d1))"

definition getOnChainBundleStream :: "chain_lib \<Rightarrow> string list \<Rightarrow> kvdb \<Rightarrow> (bundle_item list \<times> err option) \<times> kvdb" where
  "getOnChainBundleStream I itemIds d = (case loadItems I itemIds d of (items, d1) \<Rightarrow>
     ((items, if items = [] then Some (ErrMsg ''onChainItems is null'') else None), d1))"

text \<open>
  Off S3 the error of getOnChainBundle is overwritten by the error of NewBundle. Beside its result
  onChainBundleTx gives the bundles it has sent. On S3 its deferred clean-up reads the fields of the bundle and of the decoded bundle, which
  goar leaves nil when it fails: an error there is a panic of the job, not an error that onChainBundleTx returns.
\<close>

definition nil_panic :: string where
  "nil_panic = ''invalid memory address or nil pointer dereference''"

definition sendBundle :: "bundler_cfg \<Rightarrow> string \<Rightarrow> string list \<Rightarrow> (transaction \<times> string list) go \<times> string list" where
  "sendBundle C b ids = (case calculateFactor (calculatePrice (cfg_arFee C) (int (length b))) (cfg_speedFee C) of
      Panic p \<Rightarrow> (Panic p, [])
    | Err e \<Rightarrow> (Err e, [])
    | Ret f \<Rightarrow> (andThen (SendBundleTx (cfg_chain C) b f) (\<lambda>tx. Ret (tx, ids)), [b]))"

definition onChainBundleTx :: "bundler_cfg \<Rightarrow> string list \<Rightarrow> kvdb \<Rightarrow> ((transaction \<times> string list) go \<times> string list) \<times> kvdb" where
  "onChainBundleTx C itemIds d = (let I = cfg_chain C in
     if kv_kind d \<noteq> S3 then
       (case getOnChainBundle I itemIds d of ((items, _), d1) \<Rightarrow>
         (case NewBundle I items of
            Err e \<Rightarrow> ((Err e, []), d1)
          | Panic p \<Rightarrow> ((Panic p, []), d1)
          | Ret b \<Rightarrow> if \<not> is_ret (DecodeBundle I b) then ((Err (ErrMsg ''Verify bundle failed''), []), d1)
              else if b = [] then ((Err (ErrMsg ''invalid argument''), []), d1)
              else (sendBundle C b (map it_Id items), d1)))
     else
       (case getOnChainBundleStream I itemIds d of
          ((items, Some e), d1) \<Rightarrow> ((Err e, []), d1)
        | ((items, None), d1) \<Rightarrow>
         (case NewBundle I items of
            Err e \<Rightarrow> ((Panic nil_panic, []), d1)
          | Panic p \<Rightarrow> ((Panic p, []), d1)
          | Ret b \<Rightarrow> (case DecodeBundle I b of
                Ret vs \<Rightarrow> if list_ex (\<lambda>i. VerifyBundleItem I i \<noteq> None) vs
                    then ((Err (ErrMsg ''utils.VerifyBundleItem(item) failed''), []), d1)
                  else if b = [] then ((Err (ErrMsg ''bundle.BundleDataReader is null''), []), d1)
                  else (sendBundle C b (map it_Id items), d1)
              | _ \<Rightarrow> ((Panic nil_panic, []), d1)))))"

subsection \<open>jobs.go: bundles on the chain\<close>

definition MaxPerOnChainSize :: int where "MaxPerOnChainSize = 2 * 1024 * 1024 * 1024"

fun selectOrds :: "order list \<Rightarrow> int \<Rightarrow> wdb \<Rightarrow> string list \<times> wdb" where
  "selectOrds [] totalSize w = ([], w)"
| "selectOrds (ord # ords) totalSize w =
     (if i64 (totalSize + o_Size ord) > MaxPerOnChainSize then selectOrds ords totalSize w
      else case ExistProcessedOrderItem (o_ItemId ord) w of
          (Some od, w1) \<Rightarrow> selectOrds ords totalSize (snd (UpdateOrdOnChainStatus (o_ItemId od) (o_OnChainStatus od) w1))
        | (None, w1) \<Rightarrow> (case selectOrds ords (i64 (totalSize + o_Size ord)) w1 of (ids, w2) \<Rightarrow> (o_ItemId ord # ids, w2)))"

definition onChainOrds :: "bundler_cfg \<Rightarrow> order list \<Rightarrow> seeding \<Rightarrow> ((transaction \<times> string list) go \<times> string list) \<times> seeding" where
  "onChainOrds C ords s = (case selectOrds ords 0 (s_wdb s) of (itemIds, w1) \<Rightarrow>
     (case onChainBundleTx C itemIds (s_store s) of (r, d1) \<Rightarrow> (r, s\<lparr>s_wdb := w1, s_store := d1\<rparr>)))"

fun setChainStatus :: "string list \<Rightarrow> string \<Rightarrow> wdb \<Rightarrow> wdb" where
  "setChainStatus [] status w = w"
| "setChainStatus (itemId # ids) status w = setChainStatus ids status (snd (UpdateOrdOnChainStatus itemId status w))"

definition updateOnChainInfo :: "bundler_cfg \<Rightarrow> string list \<Rightarrow> transaction \<Rightarrow> string \<Rightarrow> wdb \<Rightarrow> wdb" where
  "updateOnChainInfo C onChainItemIds arTx onChainStatus w =
     (case InsertArTx \<lparr>c_ID = 0, c_ArId = tx_ID arTx, c_CurHeight = cfg_height C, c_BlockId = [], c_BlockHeight = 0,
         c_DataSize = tx_DataSize arTx, c_Reward = tx_Reward arTx, c_Status = PendingOnChain,
         c_ItemIds = ids_json onChainItemIds, c_ItemNum = int (length onChainItemIds), c_Kafka = False\<rparr> w of
       (Ret _, w1) \<Rightarrow> setChainStatus onChainItemIds onChainStatus w1
     | (_, w1) \<Rightarrow> w1)"

text \<open>
  A job that puts items on the chain gives the bundles it has sent and the state it leaves. A panic is there as an error is: nothing more is written. The
  process stops at it, and the state is what the next start finds.
\<close>

definition onChainBundleItems :: "bundler_cfg \<Rightarrow> seeding \<Rightarrow> string list \<times> seeding" where
  "onChainBundleItems C s = (case on_wdb GetNeedOnChainOrders s of
      (Ret ords, s1) \<Rightarrow> if ords = [] then ([], s1)
        else (case onChainOrds C ords s1 of
            ((Ret (arTx, ids), sent), s2) \<Rightarrow> (sent, s2\<lparr>s_wdb := updateOnChainInfo C ids arTx PendingOnChain (s_wdb s2)\<rparr>)
          | ((_, sent), s2) \<Rightarrow> (sent, s2))
    | (_, s1) \<Rightarrow> ([], s1))"

text \<open>\<open>status\<close> is what the polls of arTxWatcher see; it waits for three blocks.\<close>

definition onChainItemsBySeq :: "bundler_cfg \<Rightarrow> (nat \<Rightarrow> string \<Rightarrow> int option) \<Rightarrow> seeding \<Rightarrow> string list \<times> seeding" where
  "onChainItemsBySeq C status s = (case on_wdb GetNeedOnChainOrdersSorted s of
      (Ret ords, s1) \<Rightarrow> if ords = [] then ([], s1)
        else (case onChainOrds C ords s1 of
            ((Ret (arTx, ids), sent), s2) \<Rightarrow>
              if \<not> arTxWatcher status (tx_ID arTx) then (sent, s2)
              else (sent, s2\<lparr>s_wdb := updateOnChainInfo C ids arTx SuccOnChain (s_wdb s2)\<rparr>)
          | ((_, sent), s2) \<Rightarrow> (sent, s2))
    | (_, s1) \<Rightarrow> ([], s1))"

text \<open>The order updates of one database transaction: one failure rolls all of it back.\<close>

fun setChainStatusTx :: "string list \<Rightarrow> string \<Rightarrow> wdb \<Rightarrow> unit go \<times> wdb" where
  "setChainStatusTx [] status w = (Ret (), w)"
| "setChainStatusTx (itemId # ids) status w = bindG (UpdateOrdOnChainStatus itemId status) (\<lambda>_. setChainStatusTx ids status) w"

definition confirmArTx :: "on_chain_tx \<Rightarrow> string \<Rightarrow> int \<Rightarrow> wdb \<Rightarrow> wdb" where
  "confirmArTx tx blockId height w0 = (case UpdateArTxStatus (c_ArId tx) SuccOnChain (Some (blockId, height)) w0 of
      (Ret _, w1) \<Rightarrow> (case ids_of_json (c_ItemIds tx) of
          None \<Rightarrow> rollback w0 w1
        | Some ids \<Rightarrow> (case setChainStatusTx ids SuccOnChain w1 of
              (Ret _, w2) \<Rightarrow> (case db_tick w2 of (f, w3) \<Rightarrow> if f then rollback w0 w3 else w3)
            | (_, w2) \<Rightarrow> rollback w0 w2))
    | (_, w1) \<Rightarrow> rollback w0 w1)"

fun watchAll :: "bundler_cfg \<Rightarrow> on_chain_tx list \<Rightarrow> wdb \<Rightarrow> wdb" where
  "watchAll C [] w = w"
| "watchAll C (tx # txs) w = watchAll C txs (case TxStatus (cfg_chain C) (c_ArId tx) of
      Confirmed blockId height n \<Rightarrow> if n > 3 then confirmArTx tx blockId height w else w
    | StillPending \<Rightarrow> w
    | StatusErr _ \<Rightarrow> if i64 (cfg_height C - c_CurHeight tx) > 50
        then snd (UpdateArTxStatus (c_ArId tx) FailedOnChain None w) else w)"

definition watchArTx :: "bundler_cfg \<Rightarrow> wdb \<Rightarrow> wdb" where
  "watchArTx C w = (case GetArTxByStatus PendingOnChain w of (Ret txs, w1) \<Rightarrow> watchAll C txs w1 | (_, w1) \<Rightarrow> w1)"

fun retryAll :: "bundler_cfg \<Rightarrow> on_chain_tx list \<Rightarrow> seeding \<Rightarrow> string list \<times> seeding" where
  "retryAll C [] s = ([], s)"
| "retryAll C (tx # txs) s = (case ids_of_json (c_ItemIds tx) of
      None \<Rightarrow> ([], s)
    | Some itemIds \<Rightarrow> (case onChainBundleTx C itemIds (s_store s) of
        ((Ret (arTx, _), sent), d1) \<Rightarrow>
          (case retryAll C txs (snd (on_wdb (UpdateArTx (c_ID tx) (tx_ID arTx) (cfg_height C) (tx_DataSize arTx)
                (tx_Reward arTx) PendingOnChain) (s\<lparr>s_store := d1\<rparr>))) of
             (sent2, s2) \<Rightarrow> (sent @ sent2, s2))
      | ((_, sent), d1) \<Rightarrow> (sent, s\<lparr>s_store := d1\<rparr>)))"

definition retryOnChainArTx :: "bundler_cfg \<Rightarrow> seeding \<Rightarrow> string list \<times> seeding" where
  "retryOnChainArTx C s = (case on_wdb (GetArTxByStatus FailedOnChain) s of
      (Ret txs, s1) \<Rightarrow> retryAll C txs s1 | (_, s1) \<Rightarrow> ([], s1))"

subsection \<open>Facts\<close>

lemma DelItem_other:
  assumes "DelItem i d = (r, d1)" and "k \<noteq> i"
  shows "kv_lookup d1 b k = kv_lookup d b k"
proof -
  obtain ex d0 where e: "kv_exist BundleItemBinary i d = (ex, d0)" by fastforce
  have d0: "kv_lookup d0 = kv_lookup d"
  proof -
    obtain f t where t: "tick d = (f, t)" by (cases "tick d")
    show ?thesis
      using e t tickE [OF t] by (cases f; cases "kv_kind d")
        (auto simp: kv_exist_def bolt_exist_def bolt_get_def mongo_exist_def head_exist_def split: option.splits)
  qed
  obtain r1 d2 where m: "kv_delete BundleItemMeta i d0 = (r1, d2)" by fastforce
  obtain r2 d3 where n: "kv_delete BundleItemBinary i d2 = (r2, d3)" by fastforce
  note del = kv_delete_cases [OF m] kv_delete_cases [OF n]
  show ?thesis
    using assms e m n d0 del
    by (cases ex; cases r1) (auto simp: DelItem_def IsExistItemBinary_def AtomicDelItem_def DelItemMeta_def
      DelItemBinary_def bindG_def)
qed

text \<open>An order for which its item must stay: paid, or unpaid and not expired.\<close>

definition keeps :: "int \<Rightarrow> string \<Rightarrow> order \<Rightarrow> bool" where
  "keeps now i r \<longleftrightarrow> o_ItemId r = i \<and> (o_PaymentStatus r = SuccPayment
     \<or> o_PaymentStatus r = UnPayment \<and> now \<le> o_PaymentExpiredTime r)"

lemma db_read_notfound:
  assumes "db_read q w = (r, w1)" and "r = Err ErrRecordNotFound"
  shows "core w1 = core w" and "q w1 = Err ErrRecordNotFound"
  using assms by (auto elim: db_read_cases simp: db_err_def)

lemma kept_paid_or_not_latest:
  assumes "r \<in> set (orders w)" and "keeps now i r" and "cur < now" and "ExistPaidOrd i w = (False, w2)"
  shows "fst (IsLatestUnpaidOrd i cur w2) = False \<and> core w2 = core w"
proof -
  obtain q w0 where q: "db_read (\<lambda>w. first_row (\<lambda>r. o_ItemId r = i \<and> o_PaymentStatus r = SuccPayment) (orders w)) w = (q, w0)"
    by fastforce
  have w2: "w2 = w0" "q = Err ErrRecordNotFound" using assms(4) q by (auto simp: ExistPaidOrd_def)
  have c: "core w0 = core w" using q by (rule db_read_notfound) (rule w2)
  then have o: "orders w0 = orders w" by (rule core_fields)
  have "first_row (\<lambda>r. o_ItemId r = i \<and> o_PaymentStatus r = SuccPayment) (orders w0) = Err ErrRecordNotFound"
    using q w2(2) by (rule db_read_notfound)
  then have "\<forall>x \<in> set (orders w0). \<not> (o_ItemId x = i \<and> o_PaymentStatus x = SuccPayment)"
    by (simp only: first_row_none)
  then have "\<not> (o_ItemId r = i \<and> o_PaymentStatus r = SuccPayment)" using o assms(1) by simp
  then have r: "o_PaymentStatus r = UnPayment" "cur < o_PaymentExpiredTime r" "o_ItemId r = i"
    using assms(2,3) by (auto simp: keeps_def)
  obtain p w3 where p: "db_read (\<lambda>w. first_row (\<lambda>r. o_ItemId r = i \<and> o_PaymentStatus r = UnPayment
      \<and> cur < o_PaymentExpiredTime r) (orders w)) w0 = (p, w3)" by fastforce
  have "p \<noteq> Err ErrRecordNotFound"
  proof
    assume "p = Err ErrRecordNotFound"
    note e = db_read_notfound [OF p this]
    have "orders w3 = orders w0" using e(1) by (rule core_fields)
    with e(2) have "first_row (\<lambda>r. o_ItemId r = i \<and> o_PaymentStatus r = UnPayment \<and> cur < o_PaymentExpiredTime r) (orders w0)
        = Err ErrRecordNotFound" by simp
    then have "\<forall>x \<in> set (orders w0). \<not> (o_ItemId x = i \<and> o_PaymentStatus x = UnPayment \<and> cur < o_PaymentExpiredTime x)"
      by (simp only: first_row_none)
    then show False using r o assms(1) by auto
  qed
  then show ?thesis using p w2 c by (simp add: IsLatestUnpaidOrd_def)
qed

lemma db_bool_core:
  shows "ExistPaidOrd i w = (b, w1) \<Longrightarrow> core w1 = core w"
    and "IsLatestUnpaidOrd i c w = (b, w1) \<Longrightarrow> core w1 = core w"
  unfolding ExistPaidOrd_def IsLatestUnpaidOrd_def
  by (auto split: prod.splits elim: db_read_cases)

lemma DelManifest_orders:
  assumes "DelManifest i w = (y, w1)"
  shows "orders w1 = orders w"
  using assms unfolding DelManifest_def
proof (elim db_write_cases)
  fix w' assume "core w' = core w" and w1: "w1 = w'\<lparr>manifests := filter (\<lambda>m. m_Id m \<noteq> i) (manifests w')\<rparr>"
  then have "orders w' = orders w" by (intro core_fields)
  then show ?thesis using w1 by simp
qed (rule core_fields)

lemma UpdateOrdToExpired_cases:
  assumes "UpdateOrdToExpiredStatus j w = (r, w1)"
  obtains "r = Ret ()" and "orders w1 = update_rows (\<lambda>r. o_ID r = j)
      (\<lambda>r. r\<lparr>o_PaymentStatus := ExpiredPayment, o_OnChainStatus := FailedOnChain\<rparr>) (orders w)"
  | "r = Err db_err" and "orders w1 = orders w"
  using assms unfolding UpdateOrdToExpiredStatus_def
proof (elim db_write_cases)
  fix w' assume "core w' = core w" "r = Ret ()" "w1 = w'\<lparr>orders := update_rows (\<lambda>r. o_ID r = j)
      (\<lambda>r. r\<lparr>o_PaymentStatus := ExpiredPayment, o_OnChainStatus := FailedOnChain\<rparr>) (orders w')\<rparr>"
  then show thesis using that(1) core_fields(1) [of w' w] by simp
next
  assume "core w1 = core w" "r = Err db_err"
  then show thesis using that(2) core_fields(1) [of w1 w] by simp
qed

text \<open>One expired order leaves an item alone that another order keeps.\<close>

definition expireOne :: "order \<Rightarrow> seeding \<Rightarrow> seeding" where
  "expireOne ord s = expireAll [ord] s"

lemma expireAll_Cons: "expireAll (ord # ords) s = expireAll ords (expireOne ord s)"
  by (simp add: expireOne_def)

lemma expireOne_keeps:
  assumes r: "r \<in> set (orders (s_wdb s))" "keeps now i r" "o_ID r \<noteq> o_ID ord" and old: "o_PaymentExpiredTime ord < now"
  shows "kv_lookup (s_store (expireOne ord s)) b i = kv_lookup (s_store s) b i \<and> r \<in> set (orders (s_wdb (expireOne ord s)))"
proof -
  obtain q w1 where u: "UpdateOrdToExpiredStatus (o_ID ord) (s_wdb s) = (q, w1)" by fastforce
  have r1: "r \<in> set (orders w1)" using u r(1,3) by (cases rule: UpdateOrdToExpired_cases) force+
  show ?thesis
  proof (cases "q = Ret ()")
    case False
    with u have "q = Err db_err" by (cases rule: UpdateOrdToExpired_cases) simp_all
    then show ?thesis using u r1 by (simp add: expireOne_def on_wdb_def)
  next
    case True
    obtain paid w2 where p: "ExistPaidOrd (o_ItemId ord) w1 = (paid, w2)" by fastforce
    have o2: "orders w2 = orders w1" using db_bool_core(1) [OF p] by (rule core_fields)
    obtain latest w3 where l: "IsLatestUnpaidOrd (o_ItemId ord) (o_PaymentExpiredTime ord) w2 = (latest, w3)" by fastforce
    have o3: "orders w3 = orders w1" using db_bool_core(2) [OF l] o2 core_fields(1) by metis
    show ?thesis
    proof (cases "paid \<or> \<not> latest")
      case True
      then show ?thesis using u \<open>q = Ret ()\<close> p l r1 o2 o3 by (auto simp: expireOne_def on_wdb_def)
    next
      case False
      then have ne: "o_ItemId ord \<noteq> i"
        using kept_paid_or_not_latest [OF r1 r(2) old, of w2] p l by auto
      obtain x d1 where d: "DelItem (o_ItemId ord) (s_store s) = (x, d1)" by fastforce
      have look: "kv_lookup d1 b i = kv_lookup (s_store s) b i" using DelItem_other [OF d] ne by metis
      obtain y w4 where m: "DelManifest (o_ItemId ord) w3 = (y, w4)" by fastforce
      have "orders w4 = orders w3" using DelManifest_orders [OF m] .
      then show ?thesis
        using u \<open>q = Ret ()\<close> p l False d m look r1 o3
        by (cases x) (auto simp: expireOne_def on_wdb_def on_store_def bindG_def)
    qed
  qed
qed

lemma expireAll_keeps:
  "r \<in> set (orders (s_wdb s)) \<Longrightarrow> keeps now i r \<Longrightarrow> o_ID r \<notin> o_ID ` set ords
    \<Longrightarrow> \<forall>ord \<in> set ords. o_PaymentExpiredTime ord < now
    \<Longrightarrow> kv_lookup (s_store (expireAll ords s)) b i = kv_lookup (s_store s) b i"
proof (induction ords arbitrary: s)
  case (Cons ord ords)
  note one = expireOne_keeps [OF Cons.prems(1,2), of ord b]
  have "kv_lookup (s_store (expireAll ords (expireOne ord s))) b i = kv_lookup (s_store (expireOne ord s)) b i"
    using one Cons.prems by (intro Cons.IH) auto
  then show ?case using one Cons.prems by (simp add: expireAll_Cons del: expireAll.simps)
qed simp

lemma expireOne_other:
  assumes "o_ItemId ord \<noteq> i"
  shows "kv_lookup (s_store (expireOne ord s)) b i = kv_lookup (s_store s) b i"
proof -
  obtain q w1 where u: "UpdateOrdToExpiredStatus (o_ID ord) (s_wdb s) = (q, w1)" by fastforce
  obtain paid w2 where p: "ExistPaidOrd (o_ItemId ord) w1 = (paid, w2)" by fastforce
  obtain latest w3 where l: "IsLatestUnpaidOrd (o_ItemId ord) (o_PaymentExpiredTime ord) w2 = (latest, w3)" by fastforce
  obtain x d1 where d: "DelItem (o_ItemId ord) (s_store s) = (x, d1)" by fastforce
  obtain y w4 where m: "DelManifest (o_ItemId ord) w3 = (y, w4)" by fastforce
  have "kv_lookup d1 b i = kv_lookup (s_store s) b i" using DelItem_other [OF d] assms by metis
  then show ?thesis using u p l d m
    by (cases q; cases x) (auto simp: expireOne_def on_wdb_def on_store_def bindG_def)
qed

lemma expireAll_other:
  "\<forall>ord \<in> set ords. o_ItemId ord \<noteq> i \<Longrightarrow> kv_lookup (s_store (expireAll ords s)) b i = kv_lookup (s_store s) b i"
  by (induction ords arbitrary: s) (simp_all add: expireAll_Cons expireOne_other del: expireAll.simps(2))

lemma GetExpiredOrders_Ret:
  assumes "GetExpiredOrders now w = (q, w1)"
  shows "orders w1 = orders w"
    and "q = Ret ords \<Longrightarrow> ords = filter (\<lambda>r. o_PaymentStatus r = UnPayment \<and> o_PaymentExpiredTime r < now) (orders w)"
proof -
  have c: "core w1 = core w" using assms unfolding GetExpiredOrders_def by (elim db_read_cases)
  then show o: "orders w1 = orders w" by (rule core_fields)
  show "q = Ret ords \<Longrightarrow> ords = filter (\<lambda>r. o_PaymentStatus r = UnPayment \<and> o_PaymentExpiredTime r < now) (orders w)"
    using assms o unfolding GetExpiredOrders_def by (elim db_read_cases) simp_all
qed

lemma processExpiredOrd_other:
  assumes "\<forall>r \<in> set (orders (s_wdb s)). o_ItemId r \<noteq> i"
  shows "kv_lookup (s_store (processExpiredOrd now s)) b i = kv_lookup (s_store s) b i"
proof -
  obtain q w1 where g: "GetExpiredOrders now (s_wdb s) = (q, w1)" by fastforce
  show ?thesis
  proof (cases q)
    case (Ret ords)
    then have "\<forall>ord \<in> set ords. o_ItemId ord \<noteq> i" using assms GetExpiredOrders_Ret(2) [OF g] by simp
    then show ?thesis using g Ret by (simp add: processExpiredOrd_def on_wdb_def expireAll_other)
  qed (use g in \<open>simp_all add: processExpiredOrd_def on_wdb_def\<close>)
qed

lemma kv_get_same:
  "healthy d \<Longrightarrow> healthy d' \<Longrightarrow> kv_kind d' = kv_kind d \<Longrightarrow> kv_lookup d' b k = kv_lookup d b k
    \<Longrightarrow> fst (kv_get b k d') = fst (kv_get b k d) \<and> snd (kv_get b k d') = d'"
  by (cases "kv_kind d") (simp_all add: kv_get_def bolt_get_def s3_get_def aliyun_get_def mongo_get_def healthy_def
    split: option.splits)

subsection \<open>Properties\<close>

text \<open>
  C13: processExpiredOrd never deletes an item that a paid order, or an unpaid order whose time has
  not come, refers to, whichever requests to the store and to the database fail. (The primary key of
  the orders is unique.)
\<close>

theorem processExpiredOrd_keeps_items:
  assumes r: "r \<in> set (orders (s_wdb s))" and keep: "keeps now i r" and uniq: "distinct (map o_ID (orders (s_wdb s)))"
  shows "kv_lookup (s_store (processExpiredOrd now s)) b i = kv_lookup (s_store s) b i"
proof -
  obtain q w1 where g: "GetExpiredOrders now (s_wdb s) = (q, w1)" by fastforce
  show ?thesis
  proof (cases q)
    case (Ret ords)
    have ords: "ords = filter (\<lambda>r. o_PaymentStatus r = UnPayment \<and> o_PaymentExpiredTime r < now) (orders (s_wdb s))"
      using GetExpiredOrders_Ret(2) [OF g Ret] .
    have "r \<notin> set ords" using keep ords by (auto simp: keeps_def)
    then have "o_ID r \<notin> o_ID ` set ords" using r uniq ords by (auto simp: distinct_map dest: inj_onD)
    moreover have "r \<in> set (orders w1)" using r GetExpiredOrders_Ret(1) [OF g] by simp
    moreover have "\<forall>ord \<in> set ords. o_PaymentExpiredTime ord < now" using ords by simp
    ultimately have "kv_lookup (s_store (expireAll ords (s\<lparr>s_wdb := w1\<rparr>))) b i = kv_lookup (s_store (s\<lparr>s_wdb := w1\<rparr>)) b i"
      using keep by (intro expireAll_keeps) simp_all
    then show ?thesis using g Ret by (simp add: processExpiredOrd_def on_wdb_def)
  qed (use g in \<open>simp_all add: processExpiredOrd_def on_wdb_def\<close>)
qed

theorem processExpiredOrd_keeps_items_witness:
  "let s = \<lparr>s_store = kv_store BundleItemBinary ''i'' (Bytes ''binary'') (empty_kv Bolt []),
     s_wdb = empty_wdb\<lparr>orders := [sample_order\<lparr>o_ID := 1, o_ItemId := ''i'', o_PaymentStatus := UnPayment, o_PaymentExpiredTime := 5\<rparr>,
       sample_order\<lparr>o_ID := 2, o_ItemId := ''i'', o_PaymentStatus := SuccPayment\<rparr>]\<rparr>, s_tasks = []\<rparr>
   in kv_lookup (s_store (processExpiredOrd 10 s)) BundleItemBinary ''i'' = Some (Bytes ''binary'')"
  unfolding Let_def
  by (subst processExpiredOrd_keeps_items
    [where r = "sample_order\<lparr>o_ID := 2, o_ItemId := ''i'', o_PaymentStatus := SuccPayment\<rparr>"]) (simp_all add: keeps_def empty_wdb_def)

text \<open>
  An expired order takes its item out of the store even when the item came from a bundle on the
  chain. With that order alone in the table and no failing request, processExpiredOrd deletes the item
  of an unpaid order whose time has passed, while every list of the items of a parsed bundle stays, so
  that parsing the bundle again does nothing and the item does not come back.
\<close>

theorem expired_order_deletes_parsed_item:
  assumes h: "healthy (s_store s)" "db_healthy (s_wdb s)"
    and ord: "orders (s_wdb s) = [ord]" "o_PaymentStatus ord = UnPayment" "o_PaymentExpiredTime ord < now"
    and item: "kv_lookup (s_store s) BundleItemBinary (o_ItemId ord) = Some v"
    and parsed: "LoadArIdToItemIds arId (s_store s) = (Ret ids, s_store s)" "o_ItemId ord \<in> set ids"
    and run: "s1 = processExpiredOrd now s"
  shows "kv_lookup (s_store s1) BundleItemBinary (o_ItemId ord) = None
    \<and> LoadArIdToItemIds arId (s_store s1) = (Ret ids, s_store s1)
    \<and> ParseAndSaveBundleItems C arId data s1 = (Ret (), s1)"
proof -
  let ?i = "o_ItemId ord"
  let ?ord = "ord\<lparr>o_PaymentStatus := ExpiredPayment, o_OnChainStatus := FailedOnChain\<rparr>"
  have store: "s_store s1 = kv_drop BundleItemBinary ?i (kv_drop BundleItemMeta ?i (s_store s))"
    using h ord item run
    by (simp add: processExpiredOrd_def on_wdb_def GetExpiredOrders_def UpdateOrdToExpiredStatus_def ExistPaidOrd_def
      IsLatestUnpaidOrd_def first_row_def on_store_def DelItem_def IsExistItemBinary_def AtomicDelItem_def DelItemMeta_def
      DelItemBinary_def bindG_def DelManifest_def)
  have "fst (kv_get BundleArIdToItemIdsBucket arId (s_store s1)) = fst (kv_get BundleArIdToItemIdsBucket arId (s_store s))"
    "snd (kv_get BundleArIdToItemIdsBucket arId (s_store s1)) = s_store s1"
    using kv_get_same [of "s_store s" "s_store s1"] store h(1)
    by (simp_all add: BundleArIdToItemIdsBucket_def BundleItemBinary_def BundleItemMeta_def)
  then have load: "LoadArIdToItemIds arId (s_store s1) = (Ret ids, s_store s1)"
    using parsed(1) by (cases "kv_get BundleArIdToItemIdsBucket arId (s_store s)"; cases "kv_get BundleArIdToItemIdsBucket arId (s_store s1)")
      (auto simp: LoadArIdToItemIds_def bindG_def split: go.splits)
  then have "ParseAndSaveBundleItems C arId data s1 = (Ret (), s1)"
    by (simp add: ParseAndSaveBundleItems_def bindG_def on_store_def ExistArIdToItemIds_def probe_def)
  with load store show ?thesis by simp
qed

text \<open>
  ProcessSubmitItem, whichever requests fail. It returns an order only after it has inserted
  exactly that order for the item, paid in no-fee mode and else unpaid with its expiry time, in the upper-case
  currency, with the fee of CalcItemFee; on an error the orders are as they were. It deletes no item.
\<close>

theorem ProcessSubmitItem_order:
  assumes run: "ProcessSubmitItem C now item currency noFee apiKey isSort sz s = (r, s1)"
  shows "(\<forall>ord. r = Ret ord \<longrightarrow> orders (s_wdb s1) = orders (s_wdb s) @ [ord\<lparr>o_ID := next_order (s_wdb s)\<rparr>]
        \<and> o_ItemId ord = it_Id item \<and> o_Size ord = sz \<and> o_OnChainStatus ord = WaitOnChain
        \<and> o_PaymentStatus ord = (if noFee then SuccPayment else UnPayment)
        \<and> (\<exists>fee. CalcItemFee (cfg_dec C) (cfg_fees C) currency sz = Ret fee \<and> o_Fee ord = rf_FinalFee fee))
    \<and> ((\<forall>ord. r \<noteq> Ret ord) \<longrightarrow> orders (s_wdb s1) = orders (s_wdb s))"
proof (cases "VerifyBundleItem (cfg_chain C) item")
  case (Some e)
  then show ?thesis using run by (auto simp: ProcessSubmitItem_def)
next
  case None
  let ?o = "andThen (ItemSignerAddr (cfg_chain C) item) (\<lambda>signer. andThen (IDCheck (cfg_pay C) signer) (\<lambda>accId.
               andThen (CalcItemFee (cfg_dec C) (cfg_fees C) currency sz) (\<lambda>fee.
                 Ret (new_order C now item accId fee currency noFee apiKey isSort sz))))"
  obtain q d1 where q: "saveItem (cod (cfg_goar C)) item (s_store s) = (q, d1)" by fastforce
  show ?thesis
  proof (cases "\<exists>ord. q = Ret () \<and> ?o = Ret ord")
    case False
    then show ?thesis using run None q
      by (cases q; cases ?o) (auto simp: ProcessSubmitItem_def bindG_def on_store_def)
  next
    case True
    then obtain ord where ord: "q = Ret ()" "?o = Ret ord" by blast
    then obtain signer accId fee where fee: "CalcItemFee (cfg_dec C) (cfg_fees C) currency sz = Ret fee"
      "ord = new_order C now item accId fee currency noFee apiKey isSort sz"
      by (auto simp: andThen_Ret_iff)
    obtain p w1 where ins: "InsertOrder ord (s_wdb s) = (p, w1)" by fastforce
    have res: "r = (case p of Ret _ \<Rightarrow> Ret ord | Err e \<Rightarrow> Err e | Panic m \<Rightarrow> Panic m)" "s_wdb s1 = w1"
    proof -
      have "ProcessSubmitItem C now item currency noFee apiKey isSort sz s
          = (case p of Ret _ \<Rightarrow> Ret ord | Err e \<Rightarrow> Err e | Panic m \<Rightarrow> Panic m, s\<lparr>s_store := d1, s_wdb := w1\<rparr>)"
        unfolding ProcessSubmitItem_def None option.case bindG_def on_store_def q ord prod.case go.case on_wdb_def
        by (simp add: ins split: go.split)
      then show "r = (case p of Ret _ \<Rightarrow> Ret ord | Err e \<Rightarrow> Err e | Panic m \<Rightarrow> Panic m)" "s_wdb s1 = w1"
        unfolding run by simp_all
    qed
    from ins have "p = Ret () \<and> orders w1 = orders (s_wdb s) @ [ord\<lparr>o_ID := next_order (s_wdb s)\<rparr>]
        \<or> p = Err db_err \<and> orders w1 = orders (s_wdb s)"
      unfolding InsertOrder_def
    proof (elim db_write_cases)
      fix w' assume w': "core w' = core (s_wdb s)" "p = Ret ()"
        "w1 = w'\<lparr>orders := orders w' @ [ord\<lparr>o_ID := next_order w'\<rparr>], next_order := Suc (next_order w')\<rparr>"
      have "orders w' = orders (s_wdb s)" using w'(1) by (rule core_fields)
      moreover have "next_order w' = next_order (s_wdb s)" using arg_cong [OF w'(1), of next_order] by (simp add: core_def)
      ultimately show ?thesis using w' by simp
    next
      assume c: "core w1 = core (s_wdb s)" and "p = Err db_err"
      then show ?thesis using core_fields(1) [OF c] by simp
    qed
    then show ?thesis
    proof (elim disjE conjE)
      assume w: "p = Ret ()" "orders w1 = orders (s_wdb s) @ [ord\<lparr>o_ID := next_order (s_wdb s)\<rparr>]"
      have "r = Ret ord" using res w by simp
      then show ?thesis using res(2) w(2) fee by (simp add: new_order_def)
    qed (use res in simp)
  qed
qed

text \<open>Concrete functions and settings for the witnesses.\<close>

definition plain_chain :: chain_lib where
  "plain_chain = \<lparr>VerifyBundleItem = (\<lambda>_. None), ItemSignerAddr = (\<lambda>_. Ret ''addr''), DecodeBundle = (\<lambda>_. Ret []),
     DecodeItem = (\<lambda>_. Ret sample_item), NewBundle = (\<lambda>items. Ret (''bundle'' @ concat (map it_Data items))),
     SendBundleTx = (\<lambda>b f. Ret sample_tx), TxStatus = (\<lambda>_. StillPending)\<rparr>"

definition plain_cfg :: bundler_cfg where
  "plain_cfg = \<lparr>cfg_goar = plain_goar, cfg_chain = plain_chain, cfg_pay = sample_pay, cfg_dec = int_decimal,
     cfg_fees = [''AR'' \<mapsto> \<lparr>f_Currency = ''AR'', f_Decimals = 12, f_Base = 5, f_PerChunk = 2\<rparr>],
     cfg_arFee = \<lparr>fee_Base = 100, fee_PerChunk = 10\<rparr>, cfg_speedFee = 0, cfg_height = 1000, cfg_expectedRange = 50,
     cfg_expiredRange = 3600, cfg_manifest = True, cfg_noFee = False\<rparr>"

lemma plain_cfg_simps [simp]: "cfg_chain plain_cfg = plain_chain" "cfg_goar plain_cfg = plain_goar"
  "cfg_pay plain_cfg = sample_pay" "cfg_dec plain_cfg = int_decimal" "VerifyBundleItem plain_chain item = None"
  "ItemSignerAddr plain_chain item = Ret ''addr''" "DecodeBundle plain_chain data = Ret []" "IDCheck sample_pay a = Ret a"
  "NewBundle plain_chain items = Ret (''bundle'' @ concat (map it_Data items))" "SendBundleTx plain_chain b f = Ret sample_tx"
  "cfg_speedFee plain_cfg = 0"
  by (simp_all add: plain_cfg_def plain_chain_def sample_pay_def)

definition one_item :: seeding where
  "one_item = \<lparr>s_store = kv_store BundleArIdToItemIdsBucket ''ar'' (Json (ids_json [''i'']))
       (kv_store BundleItemBinary ''i'' (Bytes ''binary'') (empty_kv Bolt [])),
     s_wdb = empty_wdb\<lparr>orders := [sample_order]\<rparr>, s_tasks = []\<rparr>"

theorem expired_order_deletes_parsed_item_witness:
  "kv_lookup (s_store (processExpiredOrd 2000 one_item)) BundleItemBinary ''i'' = None"
proof -
  have "LoadArIdToItemIds ''ar'' (s_store one_item) = (Ret [''i''], s_store one_item)"
    by (simp add: one_item_def LoadArIdToItemIds_def bindG_def unmarshal_def blob_empty_def ids_codec.dec_enc)
  then show ?thesis
    using expired_order_deletes_parsed_item [of one_item sample_order 2000 "Bytes ''binary''" "''ar''" "[''i'']"
      "processExpiredOrd 2000 one_item"]
    by (simp add: one_item_def sample_order_def BundleArIdToItemIdsBucket_def BundleItemBinary_def)
qed

theorem ProcessSubmitItem_order_witness:
  "length (orders (s_wdb (snd (ProcessSubmitItem plain_cfg 0 sample_item ''AR'' False [] False 10 one_item)))) \<le> 2"
  using ProcessSubmitItem_order [OF surjective_pairing, of plain_cfg 0 sample_item "''AR''" False "[]" False 10 one_item]
  by (cases "fst (ProcessSubmitItem plain_cfg 0 sample_item ''AR'' False [] False 10 one_item)") (simp_all add: one_item_def)

text \<open>
  An item whose currency has no price is stored although the call fails. While no request fails
  and no order refers to the item, ProcessSubmitItem answers with an error and inserts no order, and
  the item stays: no later run of processExpiredOrd deletes it.
\<close>

theorem unpriced_item_is_kept:
  assumes ok: "VerifyBundleItem (cfg_chain C) item = None" "ItemSignerAddr (cfg_chain C) item = Ret a" "IDCheck (cfg_pay C) a = Ret b"
    and price: "GetPerFee (cfg_fees C) currency = None"
    and h: "healthy (s_store s)" "it_DataReader item = None"
    and fresh: "\<forall>r \<in> set (orders (s_wdb s)). o_ItemId r \<noteq> it_Id item"
    and run: "ProcessSubmitItem C now item currency noFee apiKey isSort sz s = (r, s1)"
  shows "r = Err (ErrMsg ''not support currency'') \<and> orders (s_wdb s1) = orders (s_wdb s)
    \<and> kv_lookup (s_store s1) BundleItemBinary (it_Id item) \<noteq> None
    \<and> kv_lookup (s_store (processExpiredOrd later s1)) BundleItemBinary (it_Id item) \<noteq> None"
proof -
  let ?old = "kv_lookup (s_store s) BundleItemBinary (it_Id item) \<noteq> None"
  let ?d = "if ?old then s_store s else kv_store BundleItemMeta (it_Id item)
      (JsonItem (item_meta.truncate (item\<lparr>it_Data := []\<rparr>))) (kv_store BundleItemBinary (it_Id item) (Bytes (it_ItemBinary item)) (s_store s))"
  have "saveItem (cod (cfg_goar C)) item (s_store s) = (Ret (), ?d)"
    using h by (simp add: saveItem_def IsExistItemBinary_def AtomicSaveItem_def SaveItemBinary_def SaveItemMeta_def bindG_def)
  then have r: "r = Err (ErrMsg ''not support currency'')" "s1 = s\<lparr>s_store := ?d\<rparr>"
    using run ok price by (simp_all add: ProcessSubmitItem_def bindG_def on_store_def CalcItemFee_def)
  then have "kv_lookup (s_store s1) BundleItemBinary (it_Id item) \<noteq> None"
    by (simp add: BundleItemMeta_def BundleItemBinary_def)
  moreover have "\<forall>r \<in> set (orders (s_wdb s1)). o_ItemId r \<noteq> it_Id item" using r(2) fresh by simp
  ultimately show ?thesis using r processExpiredOrd_other [of s1 "it_Id item" later BundleItemBinary] by simp
qed

theorem unpriced_item_is_kept_witness:
  "kv_lookup (s_store (snd (ProcessSubmitItem plain_cfg 0 sample_item ''DOGE'' False [] False 10
      \<lparr>s_store = empty_kv S3 [], s_wdb = empty_wdb, s_tasks = []\<rparr>))) BundleItemBinary ''i'' \<noteq> None"
proof -
  have "ToUpper ''DOGE'' = ''DOGE''" by code_simp
  then have "GetPerFee (cfg_fees plain_cfg) ''DOGE'' = None" by (simp add: GetPerFee_def plain_cfg_def)
  then show ?thesis
    using unpriced_item_is_kept [OF _ _ _ _ _ _ _ surjective_pairing, where C = plain_cfg and item = sample_item and currency = "''DOGE''"
      and s = "\<lparr>s_store = empty_kv S3 [], s_wdb = empty_wdb, s_tasks = []\<rparr>" and now = 0 and noFee = False
      and apiKey = "[]" and isSort = False and sz = 10 and a = "''addr''" and b = "''addr''" and later = 0]
    by (simp add: sample_item_def empty_wdb_def)
qed

text \<open>
  An api key is charged for an item that is then refused. When the balance covers the fee and no
  database request fails, but storing the item fails, submitPaidItem answers with that error, no order
  is inserted, and the balance of the key stays lower by the fee.
\<close>

theorem submitPaidItem_keeps_the_charge:
  assumes D: "decimal_ok (cfg_dec C)" and h: "db_healthy (s_wdb s)"
    and k: "first_row (\<lambda>k. k_ApiKey k = key) (apiKeys (s_wdb s)) = Ret k"
    and bal: "map_of (k_TokenBalance k) (ToUpper currency) = Some (JStr t)" "NewFromString (cfg_dec C) t = Ret b"
    and fee: "CalcItemFee (cfg_dec C) (cfg_fees C) currency sz = Ret rf" "NewFromString (cfg_dec C) (rf_FinalFee rf) = Ret f" "f \<le> b"
    and bad: "VerifyBundleItem (cfg_chain C) item = None" "saveItem (cod (cfg_goar C)) item (s_store s) = (Err e, d1)"
    and run: "submitPaidItem C now item currency key isSort sz s = (r, s1)"
  shows "r = Err e \<and> orders (s_wdb s1) = orders (s_wdb s)
    \<and> apiKeys (s_wdb s1) = update_rows (\<lambda>r. k_Address r = k_Address k)
        (\<lambda>r. r\<lparr>k_TokenBalance := al_put (ToUpper currency) (JStr (DString (cfg_dec C) (b - f))) (k_TokenBalance k)\<rparr>) (apiKeys (s_wdb s))"
  using assms by (auto simp: submitPaidItem_def on_wdb_def processApikeySpendBal_def bindG_def GetApiKeyDetail_def json_string_def
    decimal_ok_def UpdateApikeyTokenBal_def not_less ProcessSubmitItem_def on_store_def)

definition ar_key :: api_key where
  "ar_key = \<lparr>k_ApiKey = ''key'', k_EncryptedKey = [], k_Address = ''0xf'', k_PubKey = [], k_TokenBalance = [(''AR'', JStr ''20'')]\<rparr>"

lemma plain_fee: "CalcItemFee int_decimal (cfg_fees plain_cfg) ''AR'' 10
    = Ret \<lparr>rf_Currency = ''AR'', rf_Decimals = 12, rf_FinalFee = FormatInt 7\<rparr>"
proof -
  have "ToUpper ''AR'' = ''AR''" by code_simp
  then show ?thesis
    by (simp add: CalcItemFee_def GetPerFee_def plain_cfg_def chunk_count_def MAX_CHUNK_SIZE_def int_decimal_def)
qed

theorem submitPaidItem_keeps_the_charge_witness:
  "map k_TokenBalance (apiKeys (s_wdb (snd (submitPaidItem plain_cfg 0 sample_item ''AR'' ''key'' False 10
     \<lparr>s_store = empty_kv Bolt [NoFault, NetFault], s_wdb = empty_wdb\<lparr>apiKeys := [ar_key]\<rparr>, s_tasks = []\<rparr>))))
   = [[(''AR'', JStr (FormatInt 13))]]"
proof -
  let ?s = "\<lparr>s_store = empty_kv Bolt [NoFault, NetFault], s_wdb = empty_wdb\<lparr>apiKeys := [ar_key]\<rparr>, s_tasks = []\<rparr>"
  have up: "ToUpper ''AR'' = ''AR''" by code_simp
  have bad: "\<exists>d1. saveItem plain_codec sample_item (s_store ?s) = (Err io_err, d1)"
    by (simp add: saveItem_def IsExistItemBinary_def kv_exist_def bolt_exist_def bolt_get_def tick_def kv_lookup_def empty_kv_def
      AtomicSaveItem_def SaveItemBinary_def bindG_def kv_put_def bolt_put_def sample_item_def)
  then obtain d1 where d1: "saveItem plain_codec sample_item (s_store ?s) = (Err io_err, d1)" by blast
  have n: "NewFromString int_decimal ''20'' = Ret 20" "NewFromString int_decimal (FormatInt 7) = Ret 7"
    "DString int_decimal 13 = FormatInt 13"
    by (simp_all add: int_decimal_def)
  show ?thesis
    using submitPaidItem_keeps_the_charge [where C = plain_cfg and s = ?s and key = "''key''" and k = ar_key and currency = "''AR''"
      and t = "''20''" and b = 20 and sz = 10 and f = 7 and item = sample_item and e = io_err and ?d1.0 = d1 and now = 0 and isSort = False,
      OF _ _ _ _ _ _ _ _ _ _ surjective_pairing] plain_fee n d1 up
    by (simp add: ar_key_def first_row_def empty_wdb_def db_healthy_def)
qed

text \<open>
  The items of a bundle keep their number and contents: getOnChainBundle only moves one item to
  the end, the first with data, and only when the last one has none. Without an error the last item
  has data; it fails exactly when no item has data.
\<close>

theorem data_last_correct:
  "mset (fst (data_last items)) = mset items
    \<and> (snd (data_last items) = None \<longleftrightarrow> (\<exists>i \<in> set items. it_Data i \<noteq> []))
    \<and> (snd (data_last items) = None \<longrightarrow> it_Data (last (fst (data_last items))) \<noteq> [])
    \<and> (items \<noteq> [] \<longrightarrow> it_Data (last items) \<noteq> [] \<longrightarrow> fst (data_last items) = items)"
proof (cases "dropWhile (\<lambda>i. it_Data i = []) items")
  case Nil
  then have none: "\<forall>i \<in> set items. it_Data i = []" by (simp add: dropWhile_eq_Nil_conv)
  then have "items \<noteq> [] \<Longrightarrow> it_Data (last items) = []" by simp
  then have "data_last items = (items, snd (data_last items)) \<and> snd (data_last items) \<noteq> None"
    using Nil by (auto simp: data_last_def simp del: dropWhile_eq_Nil_conv)
  then show ?thesis using none by (cases "data_last items") auto
next
  case (Cons x r)
  have eq: "items = takeWhile (\<lambda>i. it_Data i = []) items @ x # r"
    using takeWhile_dropWhile_id [of "\<lambda>i. it_Data i = []" items] Cons by simp
  have x: "it_Data x \<noteq> []" using hd_dropWhile [of "\<lambda>i. it_Data i = []" items] Cons by simp
  have "x \<in> set items" using eq by (metis in_set_conv_decomp)
  moreover have "mset items = mset (takeWhile (\<lambda>i. it_Data i = []) items @ r @ [x])"
    using arg_cong [OF eq, of mset] by simp
  ultimately show ?thesis using Cons x by (auto simp: data_last_def)
qed

theorem data_last_correct_witness:
  "mset (fst (data_last [sample_item, sample_item\<lparr>it_Data := []\<rparr>])) = {#sample_item, sample_item\<lparr>it_Data := []\<rparr>#}"
  using data_last_correct [of "[sample_item, sample_item\<lparr>it_Data := []\<rparr>]"] by (simp add: ac_simps)

text \<open>
  When none of the items of the orders can be loaded, a bundle is paid for and sent all the same
  unless the store is S3: off S3 the error of getOnChainBundle is overwritten, so the empty
  bundle that NewBundle makes of no item is sent; on S3 the error is returned and nothing is sent.
\<close>

theorem onChainBundleTx_empty:
  assumes none: "loadItems (cfg_chain C) ids d = ([], d1)"
    and made: "NewBundle (cfg_chain C) [] = Ret b" "b \<noteq> []" "is_ret (DecodeBundle (cfg_chain C) b)"
    and fee: "calculateFactor (calculatePrice (cfg_arFee C) (int (length b))) (cfg_speedFee C) = Ret f"
  shows "onChainBundleTx C ids d = (if kv_kind d = S3 then ((Err (ErrMsg ''onChainItems is null''), []), d1)
      else ((andThen (SendBundleTx (cfg_chain C) b f) (\<lambda>tx. Ret (tx, [])), [b]), d1))"
  using assms by (simp add: onChainBundleTx_def getOnChainBundle_def getOnChainBundleStream_def data_last_def sendBundle_def)

theorem onChainBundleTx_empty_witness:
  "snd (fst (onChainBundleTx plain_cfg [''gone''] (empty_kv Bolt []))) = [''bundle'']"
proof -
  have "loadItems plain_chain [''gone''] (empty_kv Bolt []) = ([], empty_kv Bolt [])"
    by (simp add: LoadItemBinary_def bindG_def)
  moreover have "\<exists>f. calculateFactor (calculatePrice (cfg_arFee plain_cfg) 6) 0 = Ret f"
    by (simp add: calculateFactor_def)
  ultimately show ?thesis
    using onChainBundleTx_empty [of plain_cfg "[''gone'']" "empty_kv Bolt []" "empty_kv Bolt []" "''bundle''"]
    by auto
qed

lemma UpdateOrdOnChainStatus_cases:
  assumes "UpdateOrdOnChainStatus i st w = (r, w1)"
  obtains "r = Ret ()" and "core w1 = (core w)\<lparr>orders := update_rows (\<lambda>r. o_ItemId r = i)
      (\<lambda>r. r\<lparr>o_OnChainStatus := st\<rparr>) (orders w)\<rparr>"
  | "r = Err db_err" and "core w1 = core w"
  using assms unfolding UpdateOrdOnChainStatus_def
proof (elim db_write_cases)
  fix w' assume c: "core w' = core w" and "r = Ret ()" "w1 = w'\<lparr>orders := update_rows (\<lambda>r. o_ItemId r = i)
      (\<lambda>r. r\<lparr>o_OnChainStatus := st\<rparr>) (orders w')\<rparr>"
  then show thesis using that(1) core_fields(1) [OF c] by simp
qed (use that in auto)

lemma update_rows_compose:
  "update_rows (\<lambda>r. o_ItemId r \<in> S) (\<lambda>r. r\<lparr>o_OnChainStatus := st\<rparr>)
     (update_rows (\<lambda>r. o_ItemId r = i) (\<lambda>r. r\<lparr>o_OnChainStatus := st\<rparr>) os)
   = update_rows (\<lambda>r. o_ItemId r \<in> insert i S) (\<lambda>r. r\<lparr>o_OnChainStatus := st\<rparr>) os"
  by (induction os) auto

lemma setChainStatusTx_cases:
  "setChainStatusTx ids st w = (r, w1) \<Longrightarrow> r = Ret () \<and> core w1 = (core w)\<lparr>orders := update_rows (\<lambda>r. o_ItemId r \<in> set ids)
      (\<lambda>r. r\<lparr>o_OnChainStatus := st\<rparr>) (orders w)\<rparr> \<or> r = Err db_err"
proof (induction ids arbitrary: w)
  case Nil
  then show ?case by (simp add: core_def)
next
  case (Cons i ids)
  obtain q w0 where u: "UpdateOrdOnChainStatus i st w = (q, w0)" by fastforce
  from u show ?case
  proof (cases rule: UpdateOrdOnChainStatus_cases)
    case 1
    have rest: "setChainStatusTx ids st w0 = (r, w1)" using Cons.prems u 1(1) by (simp add: bindG_def)
    have o: "orders w0 = update_rows (\<lambda>r. o_ItemId r = i) (\<lambda>r. r\<lparr>o_OnChainStatus := st\<rparr>) (orders w)"
      using arg_cong [OF 1(2), of orders] by simp
    from Cons.IH [OF rest] show ?thesis
      unfolding 1(2) o update_rows_compose by simp
  next
    case 2
    then show ?thesis using Cons.prems u by (simp add: bindG_def)
  qed
qed

lemma UpdateArTxStatus_cases:
  assumes "UpdateArTxStatus a st x w = (r, w1)"
  obtains "r = Ret ()" and "core w1 = (core w)\<lparr>arTxs := update_rows (\<lambda>t. c_ArId t = a)
      (\<lambda>t. case x of None \<Rightarrow> t\<lparr>c_Status := st\<rparr>
        | Some (blockId, height) \<Rightarrow> t\<lparr>c_Status := st, c_BlockId := blockId, c_BlockHeight := height\<rparr>) (arTxs w)\<rparr>"
  | "r = Err db_err" and "core w1 = core w"
proof -
  let ?f = "\<lambda>t. case x of None \<Rightarrow> t\<lparr>c_Status := st\<rparr>
        | Some (blockId, height) \<Rightarrow> t\<lparr>c_Status := st, c_BlockId := blockId, c_BlockHeight := height\<rparr>"
  have "db_write (\<lambda>w. w\<lparr>arTxs := update_rows (\<lambda>t. c_ArId t = a) ?f (arTxs w)\<rparr>) w = (r, w1)"
    using assms by (simp add: UpdateArTxStatus_def)
  then show thesis
  proof (cases rule: db_write_cases)
    case (1 w')
    then show thesis using that(1) core_fields(3) [OF 1(1)] by simp
  qed (rule that(2))
qed

text \<open>
  C15: the confirmation of a bundle is atomic, whichever requests of its transaction fail, Commit
  included: either the database keeps its content, or the bundle is marked successful with its block and
  exactly the orders of its items are marked successful.
\<close>

theorem confirmArTx_atomic:
  "core (confirmArTx tx blockId height w) = core w
   \<or> (\<exists>ids. ids_of_json (c_ItemIds tx) = Some ids
      \<and> core (confirmArTx tx blockId height w) = (core w)\<lparr>
          arTxs := update_rows (\<lambda>t. c_ArId t = c_ArId tx)
            (\<lambda>t. t\<lparr>c_Status := SuccOnChain, c_BlockId := blockId, c_BlockHeight := height\<rparr>) (arTxs w),
          orders := update_rows (\<lambda>r. o_ItemId r \<in> set ids) (\<lambda>r. r\<lparr>o_OnChainStatus := SuccOnChain\<rparr>) (orders w)\<rparr>)"
proof -
  obtain q w1 where u: "UpdateArTxStatus (c_ArId tx) SuccOnChain (Some (blockId, height)) w = (q, w1)" by fastforce
  from u show ?thesis
  proof (cases rule: UpdateArTxStatus_cases)
    case 1
    show ?thesis
    proof (cases "ids_of_json (c_ItemIds tx)")
      case None
      then show ?thesis using u 1(1) by (simp add: confirmArTx_def)
    next
      case (Some ids)
      obtain p w2 where s: "setChainStatusTx ids SuccOnChain w1 = (p, w2)" by fastforce
      obtain f w3 where t: "db_tick w2 = (f, w3)" by fastforce
      have o1: "orders w1 = orders w" using arg_cong [OF 1(2), of orders] by simp
      from setChainStatusTx_cases [OF s] show ?thesis
      proof
        assume p: "p = Ret () \<and> core w2 = (core w1)\<lparr>orders := update_rows (\<lambda>r. o_ItemId r \<in> set ids)
          (\<lambda>r. r\<lparr>o_OnChainStatus := SuccOnChain\<rparr>) (orders w1)\<rparr>"
        have "core w3 = (core w)\<lparr>
          arTxs := update_rows (\<lambda>t. c_ArId t = c_ArId tx)
            (\<lambda>t. t\<lparr>c_Status := SuccOnChain, c_BlockId := blockId, c_BlockHeight := height\<rparr>) (arTxs w),
          orders := update_rows (\<lambda>r. o_ItemId r \<in> set ids) (\<lambda>r. r\<lparr>o_OnChainStatus := SuccOnChain\<rparr>) (orders w)\<rparr>"
          using p 1(2) o1 db_tick_core [OF t] by simp
        moreover have "confirmArTx tx blockId height w = (if f then rollback w w3 else w3)"
          using u 1(1) Some s p t by (simp add: confirmArTx_def)
        ultimately show ?thesis using Some by simp
      next
        assume "p = Err db_err"
        then have "confirmArTx tx blockId height w = rollback w w2" using u 1(1) Some s by (simp add: confirmArTx_def)
        then show ?thesis by simp
      qed
    qed
  next
    case 2
    then show ?thesis using u by (simp add: confirmArTx_def)
  qed
qed

definition processed :: "wdb \<Rightarrow> string \<Rightarrow> bool" where
  "processed w i \<longleftrightarrow> (\<exists>r \<in> set (orders w). o_ItemId r = i \<and> (o_OnChainStatus r = PendingOnChain \<or> o_OnChainStatus r = SuccOnChain))"

lemma ExistProcessed_cases:
  assumes "db_healthy w"
  obtains od where "ExistProcessedOrderItem i w = (Some od, w)" and "o_ItemId od = i" and "processed w i"
      and "o_OnChainStatus od = PendingOnChain \<or> o_OnChainStatus od = SuccOnChain"
  | "ExistProcessedOrderItem i w = (None, w)" and "\<not> processed w i"
proof (cases "filter (\<lambda>r. o_ItemId r = i \<and> (o_OnChainStatus r = PendingOnChain \<or> o_OnChainStatus r = SuccOnChain)) (orders w)")
  case Nil
  then have "\<not> processed w i" by (auto simp: processed_def filter_empty_conv)
  then show thesis using that(2) assms Nil by (simp add: ExistProcessedOrderItem_def first_row_def)
next
  case (Cons od rest)
  then have "od \<in> set (filter (\<lambda>r. o_ItemId r = i \<and> (o_OnChainStatus r = PendingOnChain \<or> o_OnChainStatus r = SuccOnChain)) (orders w))"
    by simp
  then have od: "od \<in> set (orders w)" "o_ItemId od = i" "o_OnChainStatus od = PendingOnChain \<or> o_OnChainStatus od = SuccOnChain"
    by auto
  moreover have "ExistProcessedOrderItem i w = (Some od, w)"
    using assms Cons by (simp add: ExistProcessedOrderItem_def first_row_def)
  ultimately show thesis using that(1) by (auto simp: processed_def)
qed

lemma processed_update:
  assumes "processed w i" and "st = PendingOnChain \<or> st = SuccOnChain"
  shows "processed (w\<lparr>orders := update_rows (\<lambda>r. o_ItemId r = i) (\<lambda>r. r\<lparr>o_OnChainStatus := st\<rparr>) (orders w)\<rparr>) j = processed w j"
proof (cases "j = i")
  case True
  have "(\<exists>r \<in> set (update_rows (\<lambda>r. o_ItemId r = i) (\<lambda>r. r\<lparr>o_OnChainStatus := st\<rparr>) os). o_ItemId r = i
      \<and> (o_OnChainStatus r = PendingOnChain \<or> o_OnChainStatus r = SuccOnChain)) = (\<exists>r \<in> set os. o_ItemId r = i)" for os
    using assms(2) by (induction os) (simp_all del: update_rows_simps(3))
  then show ?thesis using assms(1) True by (auto simp: processed_def simp del: update_rows_simps(3))
next
  case False
  have "(\<exists>r \<in> set (update_rows (\<lambda>r. o_ItemId r = i) (\<lambda>r. r\<lparr>o_OnChainStatus := st\<rparr>) os). o_ItemId r = j
      \<and> (o_OnChainStatus r = PendingOnChain \<or> o_OnChainStatus r = SuccOnChain)) = (\<exists>r \<in> set os. o_ItemId r = j
      \<and> (o_OnChainStatus r = PendingOnChain \<or> o_OnChainStatus r = SuccOnChain))" for os
    using False by (induction os) (simp_all del: update_rows_simps(3))
  then show ?thesis by (simp add: processed_def del: update_rows_simps(3))
qed

lemma subseq_in:
  assumes "subseq xs ys" and "x \<in> set xs"
  shows "x \<in> set ys"
  using list_emb_set [OF assms] by blast

definition total_size :: "order list \<Rightarrow> int" where
  "total_size os = sum_list (map o_Size os)"

lemma total_size_simps [simp]: "total_size [] = 0" "total_size (r # rs) = o_Size r + total_size rs"
  by (simp_all add: total_size_def)

lemma selectOrds_sound:
  "selectOrds ords tot w = (ids, w1) \<Longrightarrow> db_healthy w \<Longrightarrow> \<forall>r \<in> set ords. 0 \<le> o_Size r \<and> o_Size r < 2 ^ 62
    \<Longrightarrow> 0 \<le> tot \<Longrightarrow> tot \<le> MaxPerOnChainSize
    \<Longrightarrow> \<exists>sel. subseq sel ords \<and> ids = map o_ItemId sel \<and> tot + total_size sel \<le> MaxPerOnChainSize
      \<and> (\<forall>r \<in> set sel. \<not> processed w (o_ItemId r))
      \<and> (\<forall>r \<in> set ords. r \<notin> set sel \<longrightarrow> processed w (o_ItemId r) \<or> tot + total_size sel + o_Size r > MaxPerOnChainSize)"
proof (induction ords arbitrary: tot w ids)
  case Nil
  then show ?case by simp
next
  case (Cons r rs)
  let ?t = "tot + o_Size r"
  have t: "i64 ?t = ?t" using Cons.prems(3-5) by (intro i64_id) (auto simp: in_i64_def MaxPerOnChainSize_def)
  note hyps = Cons.prems
  show ?case
  proof (cases "?t > MaxPerOnChainSize")
    case True
    then have "selectOrds rs tot w = (ids, w1)" using hyps(1) t by simp
    from Cons.IH [OF this hyps(2)] hyps(3-5) obtain sel where
      sel: "subseq sel rs" "ids = map o_ItemId sel" "tot + total_size sel \<le> MaxPerOnChainSize"
        "\<forall>r \<in> set sel. \<not> processed w (o_ItemId r)"
        "\<forall>r \<in> set rs. r \<notin> set sel \<longrightarrow> processed w (o_ItemId r) \<or> tot + total_size sel + o_Size r > MaxPerOnChainSize" by auto
    have "0 \<le> total_size sel" using sel(1) hyps(3) unfolding total_size_def
      by (intro sum_list_nonneg) (auto dest: subseq_in [OF sel(1)])
    then show ?thesis using sel True by (intro exI [of _ sel]) auto
  next
    case fits: False
    from hyps(2) show ?thesis
    proof (cases rule: ExistProcessed_cases [where i = "o_ItemId r"])
      case (1 od)
      let ?w = "w\<lparr>orders := update_rows (\<lambda>x. o_ItemId x = o_ItemId r) (\<lambda>x. x\<lparr>o_OnChainStatus := o_OnChainStatus od\<rparr>) (orders w)\<rparr>"
      have "selectOrds rs tot ?w = (ids, w1)"
        using hyps(1,2) t fits 1 by (simp add: UpdateOrdOnChainStatus_def)
      from Cons.IH [OF this] hyps obtain sel where sel: "subseq sel rs" "ids = map o_ItemId sel"
        "tot + total_size sel \<le> MaxPerOnChainSize" "\<forall>r \<in> set sel. \<not> processed ?w (o_ItemId r)"
        "\<forall>r \<in> set rs. r \<notin> set sel \<longrightarrow> processed ?w (o_ItemId r) \<or> tot + total_size sel + o_Size r > MaxPerOnChainSize" by auto
      then show ?thesis using 1(3) processed_update [OF 1(3,4)] by (intro exI [of _ sel]) auto
    next
      case 2
      obtain js where js: "selectOrds rs ?t w = (js, w1)" "ids = o_ItemId r # js"
        using hyps(1) t fits 2 by (auto split: prod.splits)
      from Cons.IH [OF js(1) hyps(2)] hyps fits obtain sel where sel: "subseq sel rs" "js = map o_ItemId sel"
        "?t + total_size sel \<le> MaxPerOnChainSize" "\<forall>r \<in> set sel. \<not> processed w (o_ItemId r)"
        "\<forall>r \<in> set rs. r \<notin> set sel \<longrightarrow> processed w (o_ItemId r) \<or> ?t + total_size sel + o_Size r > MaxPerOnChainSize" by auto
      then show ?thesis using js 2 by (intro exI [of _ "r # sel"]) auto
    qed
  qed
qed

text \<open>
  C18: what goes into a bundle. While no request fails, the items that onChainOrds selects are those of
  a subsequence of the orders: their sizes add up to at most 2 GB, none of them has an order
  that is already pending or successful, and every order left out has such an item, or its size would
  not fit any more.
\<close>

theorem selectOrds_correct:
  assumes "selectOrds ords 0 w = (ids, w1)" and "db_healthy w" and "\<forall>r \<in> set ords. 0 \<le> o_Size r \<and> o_Size r < 2 ^ 62"
  shows "\<exists>sel. subseq sel ords \<and> ids = map o_ItemId sel \<and> total_size sel \<le> MaxPerOnChainSize
      \<and> (\<forall>r \<in> set sel. \<not> processed w (o_ItemId r))
      \<and> (\<forall>r \<in> set ords. r \<notin> set sel \<longrightarrow> processed w (o_ItemId r) \<or> total_size sel + o_Size r > MaxPerOnChainSize)"
  using selectOrds_sound [OF assms(1,2)] assms(3) by (simp add: MaxPerOnChainSize_def)

theorem selectOrds_correct_witness:
  "length (fst (selectOrds [sample_order, sample_order\<lparr>o_Size := 2147483647\<rparr>] 0 (empty_wdb\<lparr>orders := [sample_order]\<rparr>))) \<le> 2"
proof -
  have "\<exists>sel. subseq sel [sample_order, sample_order\<lparr>o_Size := 2147483647\<rparr>]
     \<and> fst (selectOrds [sample_order, sample_order\<lparr>o_Size := 2147483647\<rparr>] 0 (empty_wdb\<lparr>orders := [sample_order]\<rparr>)) = map o_ItemId sel"
    using selectOrds_correct [OF surjective_pairing, where ords = "[sample_order, sample_order\<lparr>o_Size := 2147483647\<rparr>]"
      and w = "empty_wdb\<lparr>orders := [sample_order]\<rparr>"] by (auto simp: sample_order_def)
  then obtain sel where sel: "subseq sel [sample_order, sample_order\<lparr>o_Size := 2147483647\<rparr>]"
    "fst (selectOrds [sample_order, sample_order\<lparr>o_Size := 2147483647\<rparr>] 0 (empty_wdb\<lparr>orders := [sample_order]\<rparr>)) = map o_ItemId sel"
    by blast
  have "length sel \<le> 2" using list_emb_length [OF sel(1)] by simp
  then show ?thesis using sel(2) by simp
qed

end
