(* ===== verification/Kafka.thy ===== *)
theory Kafka
  imports Submit Payment
begin

text \<open>
  The Kafka jobs of jobs.go, with schema/kafka.go: a message for every paid item and for every
  confirmed bundle, and the mark on the row when the message is written. \<open>kafka_lib\<close> is what is
  outside: the writers of the two topics and the block of the gateway.
\<close>

subsection \<open>schema/kafka.go\<close>

record kafka_item =
  ki_SignatureType :: int
  ki_Signature :: string
  ki_Owner :: string
  ki_Target :: string
  ki_Anchor :: string
  ki_Tags :: "tag list"
  ki_Id :: string
  ki_Size :: int
  ki_Address :: string
  ki_Type :: string

record kafka_on_chain =
  kc_BundleIn :: string
  kc_ItemIds :: "string list"
  kc_Id :: string
  kc_Height :: int
  kc_Timestamp :: int
  kc_Previous :: string

record kafka_lib =
  k_goar :: goar
  item_writer :: bool
  block_writer :: bool
  writeItem :: "kafka_item \<Rightarrow> err option"
  writeBlock :: "kafka_on_chain \<Rightarrow> err option"
  GetBlockByID :: "string \<Rightarrow> (int \<times> string) go"

subsection \<open>jobs.go: items\<close>

definition ArweaveSignType :: int where "ArweaveSignType = 1"

definition Base64Address :: "goar \<Rightarrow> string \<Rightarrow> string go" where
  "Base64Address G pubkey = andThen (Base64Decode G pubkey) (\<lambda>bby. Ret (b64enc (cod G) (sha256 (cod G) bby)))"

definition kafka_address :: "kafka_lib \<Rightarrow> order \<Rightarrow> item_meta \<Rightarrow> string go" where
  "kafka_address K ord meta = (if it_SignatureType meta \<noteq> ArweaveSignType then Base64Address (k_goar K) (it_Owner meta)
     else Ret (o_Signer ord))"

definition kafka_message :: "order \<Rightarrow> item_meta \<Rightarrow> string \<Rightarrow> kafka_item" where
  "kafka_message ord meta addr = \<lparr>ki_SignatureType = it_SignatureType meta, ki_Signature = it_Signature meta,
     ki_Owner = it_Owner meta, ki_Target = it_Target meta, ki_Anchor = it_Anchor meta, ki_Tags = it_Tags meta,
     ki_Id = it_Id meta, ki_Size = o_Size ord, ki_Address = addr, ki_Type = getTagValue (it_Tags meta) ContentType\<rparr>"

text \<open>One order: the messages written, each with the id of its order, and the state after it.\<close>

definition kafkaItem :: "kafka_lib \<Rightarrow> order \<Rightarrow> seeding \<Rightarrow> (nat \<times> kafka_item) list \<times> seeding" where
  "kafkaItem K ord s = (case on_store (LoadItemMeta (o_ItemId ord)) s of
      (Ret meta, s1) \<Rightarrow> (case kafka_address K ord meta of
          Ret addr \<Rightarrow> (case writeItem K (kafka_message ord meta addr) of
              Some _ \<Rightarrow> ([], s1)
            | None \<Rightarrow> ([(o_ID ord, kafka_message ord meta addr)], snd (on_wdb (KafkaDone (o_ID ord)) s1)))
        | _ \<Rightarrow> ([], s1))
    | (_, s1) \<Rightarrow> ([], s1))"

fun kafkaAll :: "kafka_lib \<Rightarrow> order list \<Rightarrow> seeding \<Rightarrow> (nat \<times> kafka_item) list \<times> seeding" where
  "kafkaAll K [] s = ([], s)"
| "kafkaAll K (ord # ords) s = (case kafkaItem K ord s of (a, s1) \<Rightarrow>
     (case kafkaAll K ords s1 of (b, s2) \<Rightarrow> (a @ b, s2)))"

definition broadcastItemToKafka :: "kafka_lib \<Rightarrow> seeding \<Rightarrow> (nat \<times> kafka_item) list \<times> seeding" where
  "broadcastItemToKafka K s = (case on_wdb GetKafkaOrderInfos s of
      (Ret ords, s1) \<Rightarrow> if ords = [] \<or> \<not> item_writer K then ([], s1) else kafkaAll K ords s1
    | (_, s1) \<Rightarrow> ([], s1))"

subsection \<open>jobs.go: bundles\<close>

definition kafkaBlock :: "kafka_lib \<Rightarrow> on_chain_tx \<Rightarrow> wdb \<Rightarrow> kafka_on_chain list \<times> wdb" where
  "kafkaBlock K onchain w = (case GetBlockByID K (c_BlockId onchain) of
      Ret (timestamp, previous) \<Rightarrow> (case ids_of_json (c_ItemIds onchain) of
          None \<Rightarrow> ([], w)
        | Some itemIds \<Rightarrow>
            let info = \<lparr>kc_BundleIn = c_ArId onchain, kc_ItemIds = itemIds, kc_Id = c_BlockId onchain,
                  kc_Height = c_BlockHeight onchain, kc_Timestamp = timestamp, kc_Previous = previous\<rparr>
            in case writeBlock K info of
                Some _ \<Rightarrow> ([], w)
              | None \<Rightarrow> ([info], snd (KafkaOnChainDone (c_ID onchain) w)))
    | _ \<Rightarrow> ([], w))"

fun kafkaBlocks :: "kafka_lib \<Rightarrow> on_chain_tx list \<Rightarrow> wdb \<Rightarrow> kafka_on_chain list \<times> wdb" where
  "kafkaBlocks K [] w = ([], w)"
| "kafkaBlocks K (t # ts) w = (case kafkaBlock K t w of (a, w1) \<Rightarrow>
     (case kafkaBlocks K ts w1 of (b, w2) \<Rightarrow> (a @ b, w2)))"

definition broadcastBlockToKafka :: "kafka_lib \<Rightarrow> wdb \<Rightarrow> kafka_on_chain list \<times> wdb" where
  "broadcastBlockToKafka K w = (case GetKafkaOnChains w of
      (Ret ts, w1) \<Rightarrow> if block_writer K then kafkaBlocks K ts w1 else ([], w1)
    | (_, w1) \<Rightarrow> ([], w1))"

subsection \<open>Facts\<close>

lemma KafkaDone_cases:
  assumes "KafkaDone i w = (r, w1)"
  obtains "orders w1 = update_rows (\<lambda>r. o_ID r = i) (\<lambda>r. r\<lparr>o_Kafka := True\<rparr>) (orders w)" | "orders w1 = orders w"
  using assms unfolding KafkaDone_def
proof (elim db_write_cases)
  fix w' assume c: "core w' = core w" and "w1 = w'\<lparr>orders := update_rows (\<lambda>r. o_ID r = i) (\<lambda>r. r\<lparr>o_Kafka := True\<rparr>) (orders w')\<rparr>"
  then show thesis using that(1) core_fields(1) [OF c] by simp
next
  assume c: "core w1 = core w"
  then show thesis using that(2) core_fields(1) [OF c] by simp
qed

definition mark_done :: "nat set \<Rightarrow> order list \<Rightarrow> order list" where
  "mark_done D = update_rows (\<lambda>r. o_ID r \<in> D) (\<lambda>r. r\<lparr>o_Kafka := True\<rparr>)"

lemma mark_done_simps [simp]: "mark_done {} os = os" "mark_done D (mark_done D' os) = mark_done (D' \<union> D) os"
  by (induction os) (auto simp: mark_done_def)

lemma LoadItemMeta_lookup:
  assumes "LoadItemMeta i d = (r, d1)"
  shows "kv_lookup d1 b k = kv_lookup d b k" and "r = Ret m \<Longrightarrow> kv_lookup d BundleItemMeta i = Some (JsonItem m)"
proof -
  obtain q d2 where q: "kv_get BundleItemMeta i d = (q, d2)" by fastforce
  then have d2: "d1 = d2" and r: "r = (case q of Ret v \<Rightarrow> unmarshal_item v | Err e \<Rightarrow> Err e | Panic p \<Rightarrow> Panic p)"
    using assms by (cases q; simp add: LoadItemMeta_def bindG_def)+
  show "kv_lookup d1 b k = kv_lookup d b k" using kv_get_lookup [OF q] d2 by simp
  show "kv_lookup d BundleItemMeta i = Some (JsonItem m)" if "r = Ret m"
  proof -
    have "q = Ret (JsonItem m)" using r that by (cases q) (auto simp: unmarshal_item_def split: blob.splits)
    then show ?thesis using kv_get_Ret [of BundleItemMeta i d "JsonItem m" d2] q by simp
  qed
qed

lemma kafkaItem_cases:
  assumes "kafkaItem K ord s = (ms, s1)"
  shows "\<exists>D. orders (s_wdb s1) = mark_done D (orders (s_wdb s)) \<and> (D = {} \<or> D = {o_ID ord} \<and> o_ID ord \<in> fst ` set ms)
    \<and> (ms = [] \<or> (\<exists>meta addr. ms = [(o_ID ord, kafka_message ord meta addr)] \<and> kafka_address K ord meta = Ret addr
          \<and> kv_lookup (s_store s) BundleItemMeta (o_ItemId ord) = Some (JsonItem meta) \<and> writeItem K (kafka_message ord meta addr) = None))
    \<and> (\<forall>b k. kv_lookup (s_store s1) b k = kv_lookup (s_store s) b k)"
proof -
  obtain q d1 where q: "LoadItemMeta (o_ItemId ord) (s_store s) = (q, d1)" by fastforce
  note look = LoadItemMeta_lookup [OF q]
  let ?s = "s\<lparr>s_store := d1\<rparr>"
  have quiet: ?thesis if "ms = []" "s1 = ?s" using that look(1) by (intro exI [of _ "{}"]) simp
  show ?thesis
  proof (cases q)
    case (Ret meta)
    show ?thesis
    proof (cases "kafka_address K ord meta")
      case addr: (Ret addr)
      show ?thesis
      proof (cases "writeItem K (kafka_message ord meta addr)")
        case None
        obtain p w1 where k: "KafkaDone (o_ID ord) (s_wdb s) = (p, w1)" by fastforce
        have "kafkaItem K ord s = ([(o_ID ord, kafka_message ord meta addr)], s\<lparr>s_store := d1, s_wdb := w1\<rparr>)"
          using q Ret addr None k by (simp add: kafkaItem_def on_store_def on_wdb_def)
        then have ms: "ms = [(o_ID ord, kafka_message ord meta addr)]" "s_wdb s1 = w1" "s_store s1 = d1" unfolding assms by simp_all
        moreover from k have "\<exists>D. orders w1 = mark_done D (orders (s_wdb s)) \<and> (D = {} \<or> D = {o_ID ord})"
          by (cases rule: KafkaDone_cases) (auto simp: mark_done_def intro: exI [of _ "{o_ID ord}"] exI [of _ "{}"])
        ultimately show ?thesis using look Ret addr None by auto
      qed (use assms q Ret addr quiet in \<open>simp add: kafkaItem_def on_store_def\<close>)
    qed (use assms q Ret quiet in \<open>simp_all add: kafkaItem_def on_store_def\<close>)
  qed (use assms q quiet in \<open>simp_all add: kafkaItem_def on_store_def\<close>)
qed

lemma kafkaAll_cases:
  "kafkaAll K ords s = (ms, s1) \<Longrightarrow> \<exists>D. orders (s_wdb s1) = mark_done D (orders (s_wdb s))
    \<and> D \<subseteq> fst ` set ms \<and> length ms \<le> length ords
    \<and> (\<forall>(i, msg) \<in> set ms. \<exists>ord \<in> set ords. \<exists>meta addr. i = o_ID ord \<and> msg = kafka_message ord meta addr
          \<and> kafka_address K ord meta = Ret addr \<and> kv_lookup (s_store s) BundleItemMeta (o_ItemId ord) = Some (JsonItem meta) \<and> writeItem K msg = None)"
proof (induction ords arbitrary: s ms)
  case Nil
  then show ?case by (auto intro: exI [of _ "{}"])
next
  case (Cons ord ords)
  obtain a s0 where a: "kafkaItem K ord s = (a, s0)" by fastforce
  obtain b s2 where b: "kafkaAll K ords s0 = (b, s2)" by fastforce
  have ms: "ms = a @ b" "s1 = s2" using Cons.prems a b by simp_all
  obtain D0 where d0: "orders (s_wdb s0) = mark_done D0 (orders (s_wdb s))" "D0 = {} \<or> D0 = {o_ID ord} \<and> o_ID ord \<in> fst ` set a"
    "a = [] \<or> (\<exists>meta addr. a = [(o_ID ord, kafka_message ord meta addr)] \<and> kafka_address K ord meta = Ret addr
      \<and> kv_lookup (s_store s) BundleItemMeta (o_ItemId ord) = Some (JsonItem meta) \<and> writeItem K (kafka_message ord meta addr) = None)"
    "\<forall>b k. kv_lookup (s_store s0) b k = kv_lookup (s_store s) b k"
    using kafkaItem_cases [OF a] by blast
  obtain D1 where d1: "orders (s_wdb s2) = mark_done D1 (orders (s_wdb s0))" "D1 \<subseteq> fst ` set b" "length b \<le> length ords"
    "\<forall>(i, msg) \<in> set b. \<exists>ord \<in> set ords. \<exists>meta addr. i = o_ID ord \<and> msg = kafka_message ord meta addr
          \<and> kafka_address K ord meta = Ret addr \<and> kv_lookup (s_store s) BundleItemMeta (o_ItemId ord) = Some (JsonItem meta) \<and> writeItem K msg = None"
    using Cons.IH [of s0 b] b ms(2) d0(4) by (simp only: simp_thms) blast
  have "length ms \<le> length (ord # ords)" using ms d0(3) d1(3) by auto
  moreover have "D0 \<union> D1 \<subseteq> fst ` set ms" using d0(2) d1(2) ms by auto
  moreover have "\<forall>(i, msg) \<in> set ms. \<exists>r \<in> set (ord # ords). \<exists>meta addr. i = o_ID r \<and> msg = kafka_message r meta addr
          \<and> kafka_address K r meta = Ret addr \<and> kv_lookup (s_store s) BundleItemMeta (o_ItemId r) = Some (JsonItem meta) \<and> writeItem K msg = None"
    using d0(3) d1(4) ms(1) by fastforce
  ultimately show ?case using d0(1) d1(1) ms by (intro exI [of _ "D0 \<union> D1"]) simp
qed

text \<open>While nothing fails and the writer accepts every message, each order is written and marked.\<close>

lemma kafkaAll_healthy:
  "kafkaAll K ords s = (ms, s1) \<Longrightarrow> healthy (s_store s) \<Longrightarrow> db_healthy (s_wdb s) \<Longrightarrow> \<forall>m. writeItem K m = None
    \<Longrightarrow> \<forall>r \<in> set ords. \<exists>meta addr. kv_lookup (s_store s) BundleItemMeta (o_ItemId r) = Some (JsonItem meta) \<and> kafka_address K r meta = Ret addr
    \<Longrightarrow> map fst ms = map o_ID ords \<and> orders (s_wdb s1) = mark_done (o_ID ` set ords) (orders (s_wdb s))"
proof (induction ords arbitrary: s ms)
  case (Cons ord ords)
  from Cons.prems(5) obtain meta addr where meta: "kv_lookup (s_store s) BundleItemMeta (o_ItemId ord) = Some (JsonItem meta)"
    "kafka_address K ord meta = Ret addr" by auto
  let ?w = "(s_wdb s)\<lparr>orders := mark_done {o_ID ord} (orders (s_wdb s))\<rparr>"
  have "LoadItemMeta (o_ItemId ord) (s_store s) = (Ret meta, s_store s)"
    using meta(1) Cons.prems(2) by (simp add: LoadItemMeta_def unmarshal_item_def blob_empty_def)
  then have item: "kafkaItem K ord s = ([(o_ID ord, kafka_message ord meta addr)], s\<lparr>s_wdb := ?w\<rparr>)"
    using meta(2) Cons.prems(3,4) by (simp add: kafkaItem_def on_store_def on_wdb_def KafkaDone_def mark_done_def)
  obtain b where b: "kafkaAll K ords (s\<lparr>s_wdb := ?w\<rparr>) = (b, s1)" "ms = (o_ID ord, kafka_message ord meta addr) # b"
    using Cons.prems(1) item by (auto split: prod.splits)
  have "db_healthy ?w" using Cons.prems(3) by (simp add: db_healthy_def)
  then show ?case using Cons.IH [OF b(1)] Cons.prems b(2) by simp
qed (simp add: mark_done_def update_rows_def)

text \<open>The orders that a run takes: the first 50 paid ones without the mark.\<close>

definition kafka_due :: "wdb \<Rightarrow> order list" where
  "kafka_due w = take 50 (filter (\<lambda>r. 1189450 < o_ExpectedBlock r \<and> o_PaymentStatus r = SuccPayment \<and> \<not> o_Kafka r) (orders w))"

subsection \<open>Properties\<close>

text \<open>
  C34: the Kafka job for items, whichever requests and writes fail. Of the orders it only changes the
  Kafka mark, and only of an order whose message it has written. There are at most 50 messages in a run, each accepted by the writer and
  of one of the first 50 paid orders without the mark; it is made of that order's size, the meta that the store has for that
  order's item, and the address of its signer: the signer itself, or the hash of the owner's key when the signature is not an Arweave one.
  When no request fails, the writer accepts every message and each of these orders has a meta with an address, all of
  them are written, in their order, and exactly they are marked.
\<close>

theorem kafka_marks_written_orders:
  assumes "broadcastItemToKafka K s = (ms, s1)"
  shows "length ms \<le> 50 \<and> (\<exists>D. orders (s_wdb s1) = mark_done D (orders (s_wdb s)) \<and> D \<subseteq> fst ` set ms)
    \<and> (\<forall>(i, msg) \<in> set ms. \<exists>ord \<in> set (kafka_due (s_wdb s)). \<exists>meta addr. i = o_ID ord \<and> msg = kafka_message ord meta addr
        \<and> kafka_address K ord meta = Ret addr \<and> kv_lookup (s_store s) BundleItemMeta (o_ItemId ord) = Some (JsonItem meta) \<and> writeItem K msg = None)
    \<and> (healthy (s_store s) \<and> db_healthy (s_wdb s) \<and> item_writer K \<and> (\<forall>m. writeItem K m = None)
        \<and> (\<forall>r \<in> set (kafka_due (s_wdb s)). \<exists>meta addr. kv_lookup (s_store s) BundleItemMeta (o_ItemId r) = Some (JsonItem meta)
              \<and> kafka_address K r meta = Ret addr)
        \<longrightarrow> map fst ms = map o_ID (kafka_due (s_wdb s))
          \<and> orders (s_wdb s1) = mark_done (o_ID ` set (kafka_due (s_wdb s))) (orders (s_wdb s)))"
proof -
  obtain q w1 where g: "GetKafkaOrderInfos (s_wdb s) = (q, w1)" by fastforce
  have o: "orders w1 = orders (s_wdb s)" using g unfolding GetKafkaOrderInfos_def by (elim db_read_cases; intro core_fields)
  have due: "q = Ret ords \<Longrightarrow> ords = kafka_due (s_wdb s)" for ords
    using g o unfolding GetKafkaOrderInfos_def kafka_due_def by (elim db_read_cases) simp_all
  have healthy: "db_healthy (s_wdb s) \<Longrightarrow> q = Ret (kafka_due (s_wdb s)) \<and> w1 = s_wdb s"
    using g by (auto simp: GetKafkaOrderInfos_def kafka_due_def)
  show ?thesis
  proof (cases "q = Ret (kafka_due (s_wdb s)) \<and> kafka_due (s_wdb s) \<noteq> [] \<and> item_writer K")
    case True
    then have all: "kafkaAll K (kafka_due (s_wdb s)) (s\<lparr>s_wdb := w1\<rparr>) = (ms, s1)"
      using assms g by (simp add: broadcastItemToKafka_def on_wdb_def)
    note c = kafkaAll_cases [OF all, simplified, unfolded o] and h = kafkaAll_healthy [OF all, simplified, unfolded o]
    have "length (kafka_due (s_wdb s)) \<le> 50" by (simp add: kafka_due_def)
    then have "length ms \<le> 50" using c by auto
    then show ?thesis using c h healthy by blast
  next
    case False
    then have "ms = [] \<and> s1 = s\<lparr>s_wdb := w1\<rparr>"
      using assms g due by (cases q) (auto simp: broadcastItemToKafka_def on_wdb_def)
    moreover from False have "db_healthy (s_wdb s) \<and> item_writer K \<longrightarrow> kafka_due (s_wdb s) = []" using healthy by blast
    ultimately show ?thesis using o by (auto intro: exI [of _ "{}"])
  qed
qed

lemma kafkaAll_stuck:
  "healthy (s_store s) \<Longrightarrow> \<forall>r \<in> set ords. kv_lookup (s_store s) BundleItemMeta (o_ItemId r) = None \<Longrightarrow> kafkaAll K ords s = ([], s)"
  by (induction ords) (simp_all add: kafkaItem_def on_store_def LoadItemMeta_def bindG_def)

text \<open>
  Head-of-line blocking. An order whose item has no stored meta is never marked: while no request
  fails, fifty such paid orders at the front leave the Kafka job without effect, and the later orders,
  whatever their items, are never written.
\<close>

theorem kafka_head_of_line:
  assumes "healthy (s_store s)" and "db_healthy (s_wdb s)" and "orders (s_wdb s) = stale @ later" and "50 \<le> length stale"
    and "\<forall>r \<in> set stale. 1189450 < o_ExpectedBlock r \<and> o_PaymentStatus r = SuccPayment \<and> \<not> o_Kafka r
      \<and> kv_lookup (s_store s) BundleItemMeta (o_ItemId r) = None"
  shows "broadcastItemToKafka K s = ([], s)"
proof -
  let ?P = "\<lambda>r. 1189450 < o_ExpectedBlock r \<and> o_PaymentStatus r = SuccPayment \<and> \<not> o_Kafka r"
  have "filter ?P stale = stale" using assms(5) by (intro filter_True) simp
  then have "GetKafkaOrderInfos (s_wdb s) = (Ret (take 50 stale), s_wdb s)"
    using assms(2-4) by (simp add: GetKafkaOrderInfos_def)
  moreover have "kafkaAll K (take 50 stale) s = ([], s)"
    using assms(1,5) by (intro kafkaAll_stuck) (auto dest: in_set_takeD)
  ultimately show ?thesis by (cases s) (auto simp: broadcastItemToKafka_def on_wdb_def)
qed

definition late_order :: order where
  "late_order = sample_order\<lparr>o_ExpectedBlock := 1500000, o_PaymentStatus := SuccPayment\<rparr>"

definition plain_kafka :: kafka_lib where
  "plain_kafka = \<lparr>k_goar = plain_goar, item_writer = True, block_writer = True, writeItem = (\<lambda>_. None),
     writeBlock = (\<lambda>_. None), GetBlockByID = (\<lambda>_. Ret (0, ''b0''))\<rparr>"

theorem kafka_marks_written_orders_witness:
  "\<exists>ms s1. broadcastItemToKafka plain_kafka \<lparr>s_store = kv_store BundleItemMeta ''i''
      (JsonItem (item_meta.truncate sample_item)) (empty_kv Bolt []), s_wdb = empty_wdb\<lparr>orders := [late_order]\<rparr>, s_tasks = []\<rparr> = (ms, s1)
    \<and> ms = [(o_ID late_order, kafka_message late_order (item_meta.truncate sample_item) (o_Signer late_order))]
    \<and> orders (s_wdb s1) = [late_order\<lparr>o_Kafka := True\<rparr>]"
proof -
  let ?s = "\<lparr>s_store = kv_store BundleItemMeta ''i'' (JsonItem (item_meta.truncate sample_item)) (empty_kv Bolt []),
    s_wdb = empty_wdb\<lparr>orders := [late_order]\<rparr>, s_tasks = []\<rparr>"
  obtain ms s1 where run: "broadcastItemToKafka plain_kafka ?s = (ms, s1)" by fastforce
  have due: "kafka_due (s_wdb ?s) = [late_order]" by (simp add: kafka_due_def late_order_def sample_order_def)
  have meta: "kv_lookup (s_store ?s) BundleItemMeta (o_ItemId late_order) = Some (JsonItem m) \<longleftrightarrow> m = item_meta.truncate sample_item" for m
    by (auto simp: late_order_def sample_order_def)
  have addr: "kafka_address plain_kafka late_order (item_meta.truncate sample_item) = Ret a \<longleftrightarrow> a = o_Signer late_order" for a
    by (auto simp: kafka_address_def sample_item_def item_meta.truncate_def ArweaveSignType_def)
  have env: "healthy (s_store ?s)" "db_healthy (s_wdb ?s)" "item_writer plain_kafka" "\<forall>m. writeItem plain_kafka m = None"
    by (simp_all add: empty_wdb_def db_healthy_def plain_kafka_def)
  note t = kafka_marks_written_orders [OF run, unfolded due]
  have "map fst ms = [o_ID late_order] \<and> orders (s_wdb s1) = mark_done {o_ID late_order} [late_order]"
    using t env meta addr by simp
  moreover from this obtain msg where "ms = [(o_ID late_order, msg)]" by (cases ms) auto
  ultimately show ?thesis using run t meta addr by (auto simp: mark_done_def update_rows_def)
qed

theorem kafka_head_of_line_witness:
  "broadcastItemToKafka plain_kafka \<lparr>s_store = empty_kv Bolt [], s_wdb = empty_wdb\<lparr>orders := replicate 50 late_order\<rparr>, s_tasks = []\<rparr>
   = ([], \<lparr>s_store = empty_kv Bolt [], s_wdb = empty_wdb\<lparr>orders := replicate 50 late_order\<rparr>, s_tasks = []\<rparr>)"
  by (rule kafka_head_of_line [where stale = "replicate 50 late_order" and later = "[]"])
    (simp_all add: late_order_def sample_order_def)

end
