(* ===== verification/Deposits.thy ===== *)
theory Deposits
  imports Payment
begin

text \<open>
  The watcher of deposits over restarts (watchEverReceiptTxs of jobs.go): the start cursor is the last raw id in the
  table, so a node that stops anywhere goes on where it was, unless an insert failed.
\<close>

subsection \<open>The receipt of a transaction\<close>

definition receipt_of :: "pay_lib \<Rightarrow> ever_tx \<Rightarrow> receipt option" where
  "receipt_of L tt = (if et_To tt \<noteq> bundler_addr L then None
     else case (IDCheck L (et_From tt), payment_of_json (et_Data tt)) of
       (Ret from', Some meta) \<Rightarrow> Some \<lparr>r_RawId = et_RawId tt, r_EverHash = et_EverHash tt, r_Nonce = et_Nonce tt,
             r_Symbol = et_TokenSymbol tt, r_TokenTag = et_TokenTag tt, r_From = from', r_Amount = et_Amount tt,
             r_Data = payment_json meta, r_Sig = et_Sig tt, r_Status = UnSpent, r_ErrMsg = []\<rparr>
     | _ \<Rightarrow> None)"

definition deposits :: "pay_lib \<Rightarrow> ever_tx list \<Rightarrow> receipt list" where
  "deposits L = List.map_filter (receipt_of L)"

lemma deposits_simps [simp]: "deposits L [] = []"
  "deposits L (t # ts) = (case receipt_of L t of None \<Rightarrow> deposits L ts | Some r \<Rightarrow> r # deposits L ts)"
  "deposits L (ts @ us) = deposits L ts @ deposits L us"
  by (auto simp: deposits_def List.map_filter_def split: option.split)

lemma receipt_of_fields: "receipt_of L t = Some r \<Longrightarrow> r_RawId r = et_RawId t \<and> r_EverHash r = et_EverHash t"
  by (auto simp: receipt_of_def split: if_splits go.splits option.splits)

lemma watchEverReceiptTx_receipt:
  "watchEverReceiptTx L t w = (case receipt_of L t of None \<Rightarrow> w | Some r \<Rightarrow> snd (InsertReceiptTx r w))"
  by (simp add: watchEverReceiptTx_def receipt_of_def split: go.split option.split)

lemma deposits_from: "r \<in> set (deposits L ts) \<Longrightarrow> \<exists>t \<in> set ts. receipt_of L t = Some r"
  by (induction ts) (auto split: option.splits)

lemma deposits_all: "t \<in> set ts \<Longrightarrow> receipt_of L t = Some r \<Longrightarrow> r \<in> set (deposits L ts)"
  by (induction ts) (auto split: option.splits)

lemma insert_by_raw_last: "\<forall>x \<in> set xs. r_RawId x < r_RawId r \<Longrightarrow> insert_by_raw r xs = xs @ [r]"
  by (induction xs) auto

text \<open>Transactions in the order of their raw ids, each hash once, all after what is stored.\<close>

definition ordered :: "ever_tx list \<Rightarrow> bool" where
  "ordered ts \<longleftrightarrow> sorted_wrt (<) (map et_RawId ts) \<and> distinct (map et_EverHash ts)"

lemma fold_deposits:
  assumes "db_healthy w" and "ordered ts" and "\<forall>x \<in> set (receipts w). \<forall>t \<in> set ts. r_RawId x < et_RawId t \<and> r_EverHash x \<noteq> et_EverHash t"
  shows "receipts (fold (watchEverReceiptTx L) ts w) = receipts w @ deposits L ts \<and> db_healthy (fold (watchEverReceiptTx L) ts w)"
  using assms
proof (induction ts arbitrary: w)
  case (Cons t ts)
  show ?case
  proof (cases "receipt_of L t")
    case None
    then show ?thesis using Cons by (simp add: watchEverReceiptTx_receipt ordered_def)
  next
    case (Some r)
    note r = receipt_of_fields [OF Some]
    have "\<not> list_ex (\<lambda>x. r_EverHash x = r_EverHash r) (receipts w)" using Cons.prems(3) r by (auto simp: list_ex_iff)
    moreover have "insert_by_raw r (receipts w) = receipts w @ [r]" using Cons.prems(3) r by (intro insert_by_raw_last) auto
    ultimately have w1: "watchEverReceiptTx L t w = w\<lparr>receipts := receipts w @ [r]\<rparr>"
      using Cons.prems(1) Some by (simp add: watchEverReceiptTx_receipt InsertReceiptTx_def)
    have "receipts (fold (watchEverReceiptTx L) ts (w\<lparr>receipts := receipts w @ [r]\<rparr>)) = (receipts w @ [r]) @ deposits L ts
        \<and> db_healthy (fold (watchEverReceiptTx L) ts (w\<lparr>receipts := receipts w @ [r]\<rparr>))"
      using Cons.IH [of "w\<lparr>receipts := receipts w @ [r]\<rparr>"] Cons.prems r by (auto simp: ordered_def)
    then show ?thesis using w1 Some by simp
  qed
qed simp

lemma ordered_take_drop:
  assumes "ordered ts"
  shows "ordered (take n ts)" and "ordered (drop n ts)"
    and "\<forall>t \<in> set (take n ts). \<forall>u \<in> set (drop n ts). et_RawId t < et_RawId u \<and> et_EverHash t \<noteq> et_EverHash u"
proof -
  have "ordered (take n ts @ drop n ts)" using assms by simp
  then show "ordered (take n ts)" "ordered (drop n ts)"
    "\<forall>t \<in> set (take n ts). \<forall>u \<in> set (drop n ts). et_RawId t < et_RawId u \<and> et_EverHash t \<noteq> et_EverHash u"
    unfolding ordered_def map_append sorted_wrt_append distinct_append by (auto dest: in_set_takeD)
qed

lemma ordered_deposits: "ordered ts \<Longrightarrow> sorted_wrt (<) (map r_RawId (deposits L ts))"
proof (induction ts)
  case (Cons t ts)
  have "\<forall>x \<in> set (deposits L ts). et_RawId t < r_RawId x"
    using Cons.prems deposits_from [of _ L ts] receipt_of_fields by (fastforce simp: ordered_def)
  then show ?case using Cons receipt_of_fields [of L t] by (auto simp: ordered_def split: option.splits)
qed simp

lemma cursor_covers:
  assumes "ordered ts" and "deposits L ts \<noteq> []"
  shows "\<forall>x \<in> set (deposits L ts). r_RawId x \<le> r_RawId (last (deposits L ts))"
proof -
  let ?d = "deposits L ts"
  have "sorted_wrt (<) (map r_RawId (butlast ?d @ [last ?d]))" using ordered_deposits [OF assms(1), of L] assms(2) by simp
  then have "\<forall>x \<in> set (butlast ?d). r_RawId x < r_RawId (last ?d)" by (simp add: sorted_wrt_append)
  moreover have "set ?d = set (butlast ?d @ [last ?d])" using assms(2) by simp
  ultimately show ?thesis by auto
qed

lemma ordered_filter: "ordered ts \<Longrightarrow> ordered (filter P ts)"
  by (induction ts) (auto simp: ordered_def)

lemma ordered_same: "ordered ts \<Longrightarrow> t \<in> set ts \<Longrightarrow> u \<in> set ts \<Longrightarrow> et_EverHash t = et_EverHash u \<Longrightarrow> t = u"
  by (auto simp: ordered_def distinct_map dest: inj_onD)

lemma GetLastEverRawId_healthy:
  "db_healthy w \<Longrightarrow> GetLastEverRawId w = (Ret (if receipts w = [] then 0 else r_RawId (last (receipts w))), w)"
  by (simp add: GetLastEverRawId_def last_row_def)

text \<open>The cursor after the first n transactions: it passes over nothing that is wanted, and over nothing that is still to come.\<close>

lemma resume_point:
  assumes ts: "ordered ts" "\<forall>t \<in> set ts. 0 < et_RawId t"
    and c: "c = (if deposits L (take n ts) = [] then 0 else r_RawId (last (deposits L (take n ts))))"
  shows "\<forall>x \<in> set (deposits L (take n ts)). r_RawId x \<le> c" and "filter (\<lambda>t. c < et_RawId t) (drop n ts) = drop n ts"
    and "deposits L (filter (\<lambda>t. c < et_RawId t) (take n ts)) = []"
proof -
  let ?d = "deposits L (take n ts)" and ?a = "take n ts"
  show cover: "\<forall>x \<in> set ?d. r_RawId x \<le> c"
    using cursor_covers [OF ordered_take_drop(1) [OF ts(1)]] by (auto simp: c)
  have "c < et_RawId t" if "t \<in> set (drop n ts)" for t
  proof (cases "?d = []")
    case True
    then show ?thesis using ts(2) in_set_dropD [OF that] by (auto simp: c)
  next
    case False
    obtain u where "u \<in> set ?a" "receipt_of L u = Some (last ?d)" using deposits_from [OF last_in_set [OF False]] by blast
    then show ?thesis using ordered_take_drop(3) [OF ts(1)] that False receipt_of_fields by (fastforce simp: c)
  qed
  then show "filter (\<lambda>t. c < et_RawId t) (drop n ts) = drop n ts" by simp
  have "receipt_of L t = None" if t: "t \<in> set (filter (\<lambda>t. c < et_RawId t) ?a)" for t
  proof (cases "receipt_of L t")
    case (Some r)
    then have "r_RawId r \<le> c" using t cover deposits_all [of t ?a L r] by simp
    then show ?thesis using t receipt_of_fields [OF Some] by simp
  qed
  then show "deposits L (filter (\<lambda>t. c < et_RawId t) ?a) = []"
    using deposits_from [of _ L "filter (\<lambda>t. c < et_RawId t) ?a"] by (metis list.set_intros(1) neq_Nil_conv option.distinct(1))
qed

subsection \<open>Properties\<close>

text \<open>
  C14: deposits are kept over a restart. Let Everpay send, for a cursor, its transactions with a greater raw id, in
  order. A node that stops after any number of them and is started again ends with exactly the receipts that
  it would have had without the stop: one for each transaction that is a payment to the bundler, in order.
\<close>

theorem watch_resumes:
  assumes w: "db_healthy w" "receipts w = []" and ts: "ordered ts" "\<forall>t \<in> set ts. 0 < et_RawId t"
    and feed: "\<And>c. feed c = filter (\<lambda>t. c < et_RawId t) ts"
  shows "fst (watchEverReceiptTxs L feed (fold (watchEverReceiptTx L) (take n ts) w)) = Ret ()
    \<and> receipts (snd (watchEverReceiptTxs L feed (fold (watchEverReceiptTx L) (take n ts) w))) = deposits L ts
    \<and> receipts (fold (watchEverReceiptTx L) ts w) = deposits L ts"
proof -
  let ?w1 = "fold (watchEverReceiptTx L) (take n ts) w"
  let ?d = "deposits L (take n ts)" and ?a = "take n ts" and ?b = "drop n ts"
  define c where "c = (if ?d = [] then 0 else r_RawId (last ?d))"
  have w1: "receipts ?w1 = ?d" "db_healthy ?w1"
    using fold_deposits [OF w(1) ordered_take_drop(1) [OF ts(1)], of n L] w(2) by simp_all
  note point = resume_point [OF ts c_def]
  have split: "feed c = filter (\<lambda>t. c < et_RawId t) ?a @ ?b" 
    using filter_append [of "\<lambda>t. c < et_RawId t" ?a ?b] point(2) unfolding feed append_take_drop_id by simp
  have "r_EverHash x \<noteq> et_EverHash t" if x: "x \<in> set ?d" and t: "t \<in> set (feed c)" for x t
  proof
    assume h: "r_EverHash x = et_EverHash t"
    obtain u where u: "u \<in> set ?a" "receipt_of L u = Some x" using deposits_from [OF x] by blast
    have "t \<in> set ts" "u \<in> set ts" "et_EverHash u = et_EverHash t"
      using t u h receipt_of_fields [OF u(2)] by (auto simp: feed dest: in_set_takeD)
    then have "t = u" using ordered_same [OF ts(1)] by metis
    then show False using point(1) x receipt_of_fields [OF u(2)] t by (auto simp: feed)
  qed
  then have "receipts (fold (watchEverReceiptTx L) (feed c) ?w1) = ?d @ deposits L (feed c)"
    using fold_deposits [OF w1(2), of "feed c" L] ordered_filter [OF ts(1)] w1(1) point(1) by (fastforce simp: feed)
  also have "\<dots> = deposits L (?a @ ?b)" unfolding split by (simp only: deposits_simps point(3) append_Nil)
  finally have "receipts (fold (watchEverReceiptTx L) (feed c) ?w1) = deposits L ts" by simp
  moreover have "watchEverReceiptTxs L feed ?w1 = (Ret (), fold (watchEverReceiptTx L) (feed c) ?w1)"
    using GetLastEverRawId_healthy [OF w1(2)] w1(1) by (simp add: watchEverReceiptTxs_def c_def)
  moreover have "receipts (fold (watchEverReceiptTx L) ts w) = deposits L ts"
    using fold_deposits [OF w(1) ts(1), of L] w(2) by simp
  ultimately show ?thesis by simp
qed

text \<open>
  A deposit whose insert fails is lost as soon as a later one is stored: the cursor is past it, so no restart reads it again,
  although Everpay sends everything after the cursor.
\<close>

theorem failed_deposit_is_lost:
  assumes "db_faults w = [True]" and "receipts w = []" and "et_RawId t1 < et_RawId t2" and "et_EverHash t1 \<noteq> et_EverHash t2"
    and "receipt_of L t1 = Some r1" and "receipt_of L t2 = Some r2" and feed: "\<And>c. feed c = filter (\<lambda>t. c < et_RawId t) [t1, t2]"
  shows "receipts (snd (watchEverReceiptTxs L feed (fold (watchEverReceiptTx L) [t1, t2] w))) = [r2]"
proof -
  have one: "watchEverReceiptTx L t1 w = w\<lparr>db_faults := []\<rparr>"
    using assms(1,5) by (simp add: watchEverReceiptTx_receipt InsertReceiptTx_def db_write_def db_tick_def)
  have "db_healthy (w\<lparr>db_faults := []\<rparr>)" by (simp add: db_healthy_def)
  then have "fold (watchEverReceiptTx L) [t1, t2] w = w\<lparr>db_faults := [], receipts := [r2]\<rparr>"
    using one assms(2,6) by (simp add: watchEverReceiptTx_receipt InsertReceiptTx_def)
  moreover have "GetLastEverRawId (w\<lparr>db_faults := [], receipts := [r2]\<rparr>) = (Ret (r_RawId r2), w\<lparr>db_faults := [], receipts := [r2]\<rparr>)"
    by (subst GetLastEverRawId_healthy) (simp_all add: db_healthy_def)
  ultimately show ?thesis
    using assms(3) receipt_of_fields [OF assms(6)] by (simp add: watchEverReceiptTxs_def feed)
qed

subsection \<open>Witnesses\<close>

definition sample_ever :: ever_tx where
  "sample_ever = \<lparr>et_RawId = 7, et_EverHash = ''0xabc'', et_Nonce = 5000, et_To = ''0xb'', et_From = ''0xf'', et_TokenSymbol = ''AR'',
     et_TokenTag = ''ar-tag'', et_Amount = ''100'', et_Data = JNull, et_Sig = []\<rparr>"

definition later_ever :: ever_tx where
  "later_ever = sample_ever\<lparr>et_RawId := 9, et_EverHash := ''0xdef''\<rparr>"

lemma sample_receipts:
  "\<exists>r1 r2. receipt_of sample_pay sample_ever = Some r1 \<and> receipt_of sample_pay later_ever = Some r2 \<and> r_RawId r1 = 7 \<and> r_RawId r2 = 9"
  by (auto simp: receipt_of_def sample_pay_def sample_ever_def later_ever_def payment_of_json_def)

theorem watch_resumes_witness:
  "length (receipts (snd (watchEverReceiptTxs sample_pay (\<lambda>c. filter (\<lambda>t. c < et_RawId t) [sample_ever, later_ever])
     (fold (watchEverReceiptTx sample_pay) [sample_ever] empty_wdb)))) = 2"
proof -
  have "receipts empty_wdb = []" "ordered [sample_ever, later_ever]" "\<forall>t \<in> set [sample_ever, later_ever]. 0 < et_RawId t"
    by (simp_all add: empty_wdb_def ordered_def sample_ever_def later_ever_def)
  from watch_resumes [OF empty_wdb_healthy this refl, of sample_pay 1] sample_receipts show ?thesis by (auto simp: numeral_2_eq_2)
qed

theorem failed_deposit_is_lost_witness:
  "map r_RawId (receipts (snd (watchEverReceiptTxs sample_pay (\<lambda>c. filter (\<lambda>t. c < et_RawId t) [sample_ever, later_ever])
     (fold (watchEverReceiptTx sample_pay) [sample_ever, later_ever] (empty_wdb\<lparr>db_faults := [True]\<rparr>))))) = [9]"
proof -
  obtain r1 r2 where r: "receipt_of sample_pay sample_ever = Some r1" "receipt_of sample_pay later_ever = Some r2" "r_RawId r2 = 9"
    using sample_receipts by blast
  have "db_faults (empty_wdb\<lparr>db_faults := [True]\<rparr>) = [True]" "receipts (empty_wdb\<lparr>db_faults := [True]\<rparr>) = []"
    "et_RawId sample_ever < et_RawId later_ever" "et_EverHash sample_ever \<noteq> et_EverHash later_ever"
    by (simp_all add: empty_wdb_def sample_ever_def later_ever_def)
  from failed_deposit_is_lost [OF this r(1,2) refl] r(3) show ?thesis by simp
qed

end
