(* ===== verification/Lifecycle.thy ===== *)
theory Lifecycle
  imports Ledger Bundle Kafka Deposits
begin

text \<open>
  The money of the orders over any sequence of jobs: every job of jobs.go that touches the database,
  and the submission of an item, does to the ledger nothing but the steps of Ledger, whichever
  requests to the database or the store fail. Jobs follow one another; what one does while another
  runs is not in it.
\<close>

subsection \<open>The ledger of a database\<close>

definition order_abs :: "order \<Rightarrow> a_order" where
  "order_abs r = \<lparr>a_id = o_ID r, a_fee = SetString (o_Fee r), a_status = o_PaymentStatus r, a_by = o_PaymentId r\<rparr>"

definition receipt_abs :: "receipt \<Rightarrow> a_receipt" where
  "receipt_abs r = \<lparr>v_id = r_RawId r, v_hash = r_EverHash r, v_amount = SetString (r_Amount r), v_status = r_Status r\<rparr>"

lemma abs_simps [simp]:
  "a_id (order_abs r) = o_ID r" "a_fee (order_abs r) = SetString (o_Fee r)" "a_status (order_abs r) = o_PaymentStatus r"
  "a_by (order_abs r) = o_PaymentId r" "v_id (receipt_abs u) = r_RawId u" "v_hash (receipt_abs u) = r_EverHash u"
  "v_amount (receipt_abs u) = SetString (r_Amount u)" "v_status (receipt_abs u) = r_Status u"
  by (simp_all add: order_abs_def receipt_abs_def)

definition transfer_hash :: "transfer \<Rightarrow> string" where
  "transfer_hash t = (case t of (tag, amount, to, h) \<Rightarrow> h)"

definition ledger_of :: "transfer list \<Rightarrow> wdb \<Rightarrow> ledger" where
  "ledger_of ts w = \<lparr>l_orders = map order_abs (orders w), l_receipts = map receipt_abs (receipts w),
     l_refunds = map transfer_hash ts, l_next = next_order w\<rparr>"

lemma ledger_of_fields [simp]:
  "l_orders (ledger_of ts w) = map order_abs (orders w)" "l_receipts (ledger_of ts w) = map receipt_abs (receipts w)"
  "l_refunds (ledger_of ts w) = map transfer_hash ts" "l_next (ledger_of ts w) = next_order w"
  by (simp_all add: ledger_of_def)

lemma ledger_of_core: "core w1 = core w \<Longrightarrow> ledger_of ts w1 = ledger_of ts w"
proof -
  have "ledger_of ts w = ledger_of ts (core w)" for w by (simp add: ledger_of_def core_def)
  then show "core w1 = core w \<Longrightarrow> ledger_of ts w1 = ledger_of ts w" by metis
qed

lemma map_update_abs: "(\<And>x. P' (g x) \<longleftrightarrow> P x) \<Longrightarrow> (\<And>x. P x \<Longrightarrow> g (f x) = f' (g x)) \<Longrightarrow> map g (update_rows P f xs) = update_rows P' f' (map g xs)"
  by (induction xs) auto

lemma map_update_keep: "(\<And>x. P x \<Longrightarrow> g (f x) = g x) \<Longrightarrow> map g (update_rows P f xs) = map g xs"
  by (induction xs) auto

text \<open>Operations that leave the ledger as it is, on the database and on the whole state.\<close>

definition quiet :: "(wdb \<Rightarrow> 'a \<times> wdb) \<Rightarrow> bool" where
  "quiet m \<longleftrightarrow> (\<forall>w ts. ledger_of ts (snd (m w)) = ledger_of ts w)"

definition quiet_u :: "(wdb \<Rightarrow> wdb) \<Rightarrow> bool" where
  "quiet_u u \<longleftrightarrow> (\<forall>w ts. ledger_of ts (u w) = ledger_of ts w)"

lemma quietD: "quiet m \<Longrightarrow> m w = (r, w1) \<Longrightarrow> ledger_of ts w1 = ledger_of ts w"
  unfolding quiet_def by (metis snd_conv)

lemma quiet_uD: "quiet_u u \<Longrightarrow> ledger_of ts (u w) = ledger_of ts w"
  by (simp add: quiet_u_def)

lemma quiet_read: "quiet (db_read q)"
  unfolding quiet_def
proof (intro allI)
  fix w ts
  obtain r w1 where r: "db_read q w = (r, w1)" by fastforce
  then have c: "core w1 = core w" by (elim db_read_cases)
  show "ledger_of ts (snd (db_read q w)) = ledger_of ts w" using r ledger_of_core [OF c, of ts] by simp
qed

lemma quiet_write:
  assumes "quiet_u u"
  shows "quiet (db_write u)"
  unfolding quiet_def
proof (intro allI)
  fix w ts
  obtain r w1 where r: "db_write u w = (r, w1)" by fastforce
  then have "ledger_of ts w1 = ledger_of ts w"
  proof (elim db_write_cases)
    fix w' assume "core w' = core w" and "w1 = u w'"
    then show ?thesis using quiet_uD [OF assms, of ts w'] ledger_of_core [of w' w ts] by simp
  qed (rule ledger_of_core)
  then show "ledger_of ts (snd (db_write u w)) = ledger_of ts w" using r by simp
qed

lemma quiet_bind:
  assumes "quiet m" and "\<And>x. quiet (f x)"
  shows "quiet (bindG m f)"
  unfolding quiet_def
proof (intro allI)
  fix w ts
  obtain r w1 where r: "m w = (r, w1)" by fastforce
  have "ledger_of ts (snd (f x w1)) = ledger_of ts w" for x
    using assms(2) [of x] quietD [OF assms(1) r] by (simp add: quiet_def)
  then show "ledger_of ts (snd (bindG m f w)) = ledger_of ts w"
    using r quietD [OF assms(1) r] by (cases r) (simp_all add: bindG_def)
qed

lemma quiet_core: "(\<And>w r w1. m w = (r, w1) \<Longrightarrow> core w1 = core w) \<Longrightarrow> quiet m"
  unfolding quiet_def by (metis ledger_of_core prod.collapse)

lemma quiet_reads:
  "quiet (GetExpiredOrders now)" "quiet GetNeedOnChainOrders" "quiet GetNeedOnChainOrdersSorted" "quiet (GetArTxByStatus st)"
  "quiet GetKafkaOrderInfos" "quiet GetKafkaOnChains" "quiet (GetApiKeyDetail k)" "quiet (GetReceiptsByStatus now st)"
  "quiet (ExistPaidOrd i)" "quiet (IsLatestUnpaidOrd i c)"
  unfolding GetExpiredOrders_def GetNeedOnChainOrders_def GetNeedOnChainOrdersSorted_def GetArTxByStatus_def
    GetKafkaOrderInfos_def GetKafkaOnChains_def GetApiKeyDetail_def GetReceiptsByStatus_def
  by (rule quiet_read quiet_core; erule db_bool_core)+

lemma quiet_processed: "quiet (ExistProcessedOrderItem i)" "quiet (ExistApikey a)"
proof -
  have "core w1 = core w" if "ExistProcessedOrderItem i w = (r, w1)" for w r w1
    using that unfolding ExistProcessedOrderItem_def by (auto split: prod.splits go.splits elim: db_read_cases)
  then show "quiet (ExistProcessedOrderItem i)" by (rule quiet_core)
  have "core w1 = core w" if "ExistApikey a w = (r, w1)" for w r w1
    using that unfolding ExistApikey_def GetApiKeyDetailByAddress_def by (auto split: prod.splits go.splits elim: db_read_cases)
  then show "quiet (ExistApikey a)" by (rule quiet_core)
qed

lemma quiet_writes:
  "quiet (UpdateOrdOnChainStatus i st)" "quiet (InsertArTx t)" "quiet (UpdateArTxStatus a st b)"
  "quiet (UpdateArTx n a h ds rw st)" "quiet (KafkaDone n)" "quiet (KafkaOnChainDone n)" "quiet (DelManifest i)"
  "quiet (UpdateApikeyTokenBal a bal)"
  unfolding UpdateOrdOnChainStatus_def InsertArTx_def UpdateArTxStatus_def UpdateArTx_def KafkaDone_def KafkaOnChainDone_def
    DelManifest_def UpdateApikeyTokenBal_def
  by (rule quiet_write; simp add: quiet_u_def ledger_of_def map_update_keep order_abs_def)+

lemma quiet_InsertApiKey: "quiet (InsertApiKey k)"
  unfolding quiet_def
proof (intro allI)
  fix w ts
  obtain f w1 where t: "db_tick w = (f, w1)" by fastforce
  show "ledger_of ts (snd (InsertApiKey k w)) = ledger_of ts w"
    using t ledger_of_core [OF db_tick_core [OF t], of ts] by (simp add: InsertApiKey_def ledger_of_def)
qed

lemmas quiet_ops = quiet_reads quiet_processed quiet_writes quiet_InsertApiKey
lemmas quiet_run = quiet_ops [THEN quietD]

lemma quiet_charge: "quiet (processApikeySpendBal D M cur key sz)"
  unfolding processApikeySpendBal_def
proof (rule quiet_bind [OF quiet_reads(7)])
  fix k
  show "quiet (\<lambda>w1. case (case map_of (k_TokenBalance k) (ToUpper cur) of
         None \<Rightarrow> Err (ErrMsg ''apiKey not the currency balance'')
       | Some curBal \<Rightarrow> andThen (json_string curBal) (\<lambda>s. andThen (NewFromString D s) (\<lambda>cur'.
           andThen (CalcItemFee D M cur sz) (\<lambda>fee. andThen (NewFromString D (rf_FinalFee fee)) (\<lambda>f.
             let endBal = DSub D cur' f in
             if endBal < 0 then Err insufficient
             else Ret (al_put (ToUpper cur) (JStr (DString D endBal)) (k_TokenBalance k))))))) of
       Ret bal \<Rightarrow> UpdateApikeyTokenBal (k_Address k) bal w1
     | Err e \<Rightarrow> (Err e, w1)
     | Panic p \<Rightarrow> (Panic p, w1))" (is "quiet (\<lambda>w1. case ?x of Ret bal \<Rightarrow> _ w1 bal | Err e \<Rightarrow> _ | Panic p \<Rightarrow> _)")
    using quiet_writes(8) by (cases ?x) (simp_all add: quiet_def)
qed

lemma quiet_createApikey: "quiet (createApikey L urtx a)"
  unfolding createApikey_def quiet_def using quiet_InsertApiKey by (auto simp: quiet_def split: go.split)

lemma quiet_creditApikey: "quiet (creditApikey D urtx a k)"
  unfolding creditApikey_def quiet_def using quiet_writes(8) by (auto simp: quiet_def split: go.split)

lemma quiet_setChainStatus:
  "ledger_of ts (setChainStatus ids st w) = ledger_of ts w"
  "quiet (setChainStatusTx ids st)"
  "ledger_of ts (updateOnChainInfo C ids tx st w) = ledger_of ts w"
proof -
  show a: "ledger_of ts (setChainStatus ids st w) = ledger_of ts w" for w ids
    using quiet_writes(1) by (induction ids arbitrary: w) (simp_all add: quiet_def)
  show "quiet (setChainStatusTx ids st)"
  proof (induction ids)
    case Nil
    then show ?case by (simp add: quiet_def)
  next
    case (Cons i ids)
    have "quiet (bindG (UpdateOrdOnChainStatus i st) (\<lambda>_. setChainStatusTx ids st))"
      by (rule quiet_bind [OF quiet_writes(1) Cons])
    then show ?case by (simp add: quiet_def)
  qed
  show "ledger_of ts (updateOnChainInfo C ids tx st w) = ledger_of ts w"
    unfolding updateOnChainInfo_def by (auto split: prod.splits go.splits simp: a dest: quiet_run)
qed

lemma quiet_selectOrds: "selectOrds ords n w = (ids, w1) \<Longrightarrow> ledger_of ts w1 = ledger_of ts w"
proof (induction ords arbitrary: n w ids)
  case (Cons ord ords)
  obtain q w0 where e: "ExistProcessedOrderItem (o_ItemId ord) w = (q, w0)" by fastforce
  note e0 = quiet_run(11) [OF e, of ts]
  show ?case
  proof (cases "i64 (n + o_Size ord) > MaxPerOnChainSize")
    case True
    then show ?thesis using Cons by simp
  next
    case False
    show ?thesis
    proof (cases q)
      case None
      then show ?thesis using Cons.prems False e e0 by (auto split: prod.splits dest: Cons.IH)
    next
      case (Some od)
      have "ledger_of ts (snd (UpdateOrdOnChainStatus (o_ItemId od) (o_OnChainStatus od) w0)) = ledger_of ts w0"
        using quiet_writes(1) by (simp add: quiet_def)
      then show ?thesis using Cons.prems False e e0 Some Cons.IH by auto
    qed
  qed
qed simp

lemma quiet_rollback: "ledger_of ts (rollback w0 w) = ledger_of ts w0"
  by (simp add: rollback_def ledger_of_def)

lemma quiet_confirm: "ledger_of ts (confirmArTx tx b h w) = ledger_of ts w"
proof -
  obtain r w1 where u: "UpdateArTxStatus (c_ArId tx) SuccOnChain (Some (b, h)) w = (r, w1)" by fastforce
  have tick: "ledger_of ts w3 = ledger_of ts w2" if "db_tick w2 = (f, w3)" for w2 w3 f
    using ledger_of_core [OF db_tick_core [OF that]] .
  show ?thesis
    using u quiet_run(15) [OF u, of ts] unfolding confirmArTx_def
    by (auto split: go.splits option.splits prod.splits simp: quiet_rollback tick dest!: quietD [OF quiet_setChainStatus(2), where ts = ts])
qed

lemma quiet_watch: "ledger_of ts (watchArTx C w) = ledger_of ts w"
proof -
  have st: "ledger_of ts (snd (UpdateArTxStatus a st b w)) = ledger_of ts w" for a st b w
    using quiet_writes(3) by (simp add: quiet_def)
  have all: "ledger_of ts (watchAll C txs w) = ledger_of ts w" for txs w
    by (induction txs arbitrary: w) (simp_all add: quiet_confirm st split: chain_status.split)
  show ?thesis unfolding watchArTx_def by (auto simp: all split: prod.splits go.splits dest: quiet_run(4))
qed

lemma quiet_onChainOrds: "onChainOrds C ords s = (r, s1) \<Longrightarrow> ledger_of ts (s_wdb s1) = ledger_of ts (s_wdb s)"
  unfolding onChainOrds_def by (auto split: prod.splits dest: quiet_selectOrds)

lemma quiet_on_wdb: "quiet m \<Longrightarrow> on_wdb m s = (r, s1) \<Longrightarrow> ledger_of ts (s_wdb s1) = ledger_of ts (s_wdb s)"
  unfolding on_wdb_def by (auto split: prod.splits dest: quietD)

lemma quiet_onChain: "ledger_of ts (s_wdb (snd (onChainBundleItems C s))) = ledger_of ts (s_wdb s)"
  unfolding onChainBundleItems_def
  by (auto split: prod.splits go.splits simp: quiet_setChainStatus dest!: quiet_onChainOrds [where ts = ts]
    quiet_on_wdb [OF quiet_reads(2), where ts = ts])

lemma quiet_onChainSeq: "ledger_of ts (s_wdb (snd (onChainItemsBySeq C st s))) = ledger_of ts (s_wdb s)"
  unfolding onChainItemsBySeq_def
  by (auto split: prod.splits go.splits simp: quiet_setChainStatus dest!: quiet_onChainOrds [where ts = ts]
    quiet_on_wdb [OF quiet_reads(3), where ts = ts])

lemma quiet_retry: "ledger_of ts (s_wdb (snd (retryOnChainArTx C s))) = ledger_of ts (s_wdb s)"
proof -
  have up: "ledger_of ts (s_wdb (snd (on_wdb (UpdateArTx i a h ds rw st) u))) = ledger_of ts (s_wdb u)" for i a h ds rw st u
    using quiet_on_wdb [OF quiet_writes(4)] by (metis prod.collapse)
  have all: "ledger_of ts (s_wdb (snd (retryAll C txs s))) = ledger_of ts (s_wdb s)" for txs s
  proof (induction txs arbitrary: s)
    case (Cons tx txs)
    show ?case
    proof (cases "ids_of_json (c_ItemIds tx)")
      case (Some ids)
      obtain r sent d1 where r: "onChainBundleTx C ids (s_store s) = ((r, sent), d1)" by (metis prod.collapse)
      show ?thesis using Cons Some r up by (cases r) (auto simp: case_prod_beta)
    qed simp
  qed simp
  show ?thesis unfolding retryOnChainArTx_def
    by (auto simp: all split: prod.splits go.splits dest: quiet_on_wdb [OF quiet_reads(4)])
qed

lemma quiet_kafka: "ledger_of ts (s_wdb (snd (broadcastItemToKafka K s))) = ledger_of ts (s_wdb s)"
proof -
  have one: "ledger_of ts (s_wdb (snd (kafkaItem K ord s))) = ledger_of ts (s_wdb s)" for ord s
    unfolding kafkaItem_def on_store_def
    by (auto split: prod.splits go.splits option.splits simp: on_wdb_def dest: quiet_run(17))
  have all: "ledger_of ts (s_wdb (snd (kafkaAll K ords s))) = ledger_of ts (s_wdb s)" for ords s
  proof (induction ords arbitrary: s)
    case (Cons ord ords)
    show ?case using one [of ord s] Cons by (simp add: case_prod_beta)
  qed simp
  show ?thesis unfolding broadcastItemToKafka_def
    by (auto simp: all split: prod.splits go.splits dest: quiet_on_wdb [OF quiet_reads(5)])
qed

lemma quiet_kafka_blocks: "ledger_of ts (snd (broadcastBlockToKafka K w)) = ledger_of ts w"
proof -
  have one: "ledger_of ts (snd (kafkaBlock K t w)) = ledger_of ts w" for t w
    unfolding kafkaBlock_def Let_def using quiet_writes(6) by (auto split: prod.splits go.splits option.splits simp: quiet_def)
  have all: "ledger_of ts (snd (kafkaBlocks K txs w)) = ledger_of ts w" for txs w
  proof (induction txs arbitrary: w)
    case (Cons t txs)
    show ?case using one [of t w] Cons by (simp add: case_prod_beta)
  qed simp
  show ?thesis unfolding broadcastBlockToKafka_def
    by (auto simp: all split: prod.splits go.splits dest: quiet_run(6))
qed

subsection \<open>The jobs that move money\<close>

lemma InsertOrder_money:
  assumes "InsertOrder ord w = (r, w1)" and "o_PaymentId ord = []" and "o_PaymentStatus ord \<in> {UnPayment, SuccPayment}"
  shows "money\<^sup>*\<^sup>* (ledger_of ts w) (ledger_of ts w1)"
  using assms(1) unfolding InsertOrder_def
proof (elim db_write_cases)
  fix w' assume c: "core w' = core w"
    and w1: "w1 = w'\<lparr>orders := orders w' @ [ord\<lparr>o_ID := next_order w'\<rparr>], next_order := Suc (next_order w')\<rparr>"
  let ?l = "ledger_of ts w'"
  have "money ?l (?l\<lparr>l_orders := l_orders ?l @ [order_abs (ord\<lparr>o_ID := next_order w'\<rparr>)], l_next := Suc (l_next ?l)\<rparr>)"
    using assms(2,3) by (intro money.Placed) simp_all
  also have "?l\<lparr>l_orders := l_orders ?l @ [order_abs (ord\<lparr>o_ID := next_order w'\<rparr>)], l_next := Suc (l_next ?l)\<rparr> = ledger_of ts w1"
    by (simp add: ledger_of_def w1)
  finally show ?thesis using ledger_of_core [OF c, of ts] by auto
next
  assume "core w1 = core w"
  then show ?thesis using ledger_of_core [of w1 w ts] by simp
qed

lemma on_store_wdb [simp]: "s_wdb (snd (on_store m s)) = s_wdb s"
  by (simp add: on_store_def split: prod.splits)

lemma ProcessSubmitItem_money:
  "money\<^sup>*\<^sup>* (ledger_of ts (s_wdb s)) (ledger_of ts (s_wdb (snd (ProcessSubmitItem C now item cur nf key isort sz s))))"
proof -
  have new: "money\<^sup>*\<^sup>* (ledger_of ts w) (ledger_of ts w1)"
    if "InsertOrder (new_order C now item acc fee cur nf key isort sz) w = (r, w1)" for acc fee w r w1
    using InsertOrder_money [OF that] by (simp add: new_order_def)
  show ?thesis
    unfolding ProcessSubmitItem_def bindG_def on_store_def on_wdb_def andThen_def
    by (auto split: option.splits prod.splits go.splits dest!: new)
qed

lemma submitPaidItem_money:
  "money\<^sup>*\<^sup>* (ledger_of ts (s_wdb s)) (ledger_of ts (s_wdb (snd (submitPaidItem C now item cur key isort sz s))))"
proof -
  obtain r s1 where c: "on_wdb (processApikeySpendBal (cfg_dec C) (cfg_fees C) cur key sz) s = (r, s1)" by fastforce
  note q = quiet_on_wdb [OF quiet_charge c, of ts]
  show ?thesis
    using c q ProcessSubmitItem_money [of ts s1] by (cases r) (simp_all add: submitPaidItem_def bindG_def)
qed

lemma submitItem_money:
  "money\<^sup>*\<^sup>* (ledger_of ts (s_wdb s)) (ledger_of ts (s_wdb (snd (submitItem C now item cur key isort sz s))))"
  by (simp add: submitItem_def submitPaidItem_money ProcessSubmitItem_money)

lemma insert_by_raw_split: "\<exists>vs vs'. xs = vs @ vs' \<and> insert_by_raw r xs = vs @ r # vs'"
proof (induction xs)
  case (Cons x xs)
  then obtain vs vs' where "xs = vs @ vs'" "insert_by_raw r xs = vs @ r # vs'" by blast
  then show ?case by (cases "r_RawId r < r_RawId x") (auto intro: exI [of _ "[]"] exI [of _ "x # vs"])
qed auto

text \<open>
  What Everpay promises of a transaction: its hash is not empty, and it is given again with the same
  raw id only.
\<close>

definition ever_fresh :: "ever_tx \<Rightarrow> wdb \<Rightarrow> bool" where
  "ever_fresh tt w \<longleftrightarrow> et_EverHash tt \<noteq> []
     \<and> (\<forall>r \<in> set (receipts w). r_RawId r = et_RawId tt \<longrightarrow> r_EverHash r = et_EverHash tt)"

lemma InsertReceipt_money:
  assumes "InsertReceiptTx u w = (r, w1)" and "r_EverHash u \<noteq> []" and "r_Status u = UnSpent"
    and fresh: "\<forall>x \<in> set (receipts w). r_RawId x = r_RawId u \<longrightarrow> r_EverHash x = r_EverHash u"
  shows "money\<^sup>*\<^sup>* (ledger_of ts w) (ledger_of ts w1)"
  using assms(1) unfolding InsertReceiptTx_def
proof (elim db_write_cases)
  fix w' assume c: "core w' = core w"
    and w1: "w1 = (if list_ex (\<lambda>x. r_EverHash x = r_EverHash u) (receipts w') then w'
      else w'\<lparr>receipts := insert_by_raw u (receipts w')\<rparr>)"
  have rec: "receipts w' = receipts w" by (rule core_fields [OF c])
  have "money\<^sup>*\<^sup>* (ledger_of ts w') (ledger_of ts w1)"
  proof (cases "list_ex (\<lambda>x. r_EverHash x = r_EverHash u) (receipts w')")
    case False
    obtain vs vs' where vs: "receipts w' = vs @ vs'" "insert_by_raw u (receipts w') = vs @ u # vs'"
      using insert_by_raw_split by blast
    have no: "\<forall>x \<in> set (vs @ vs'). r_EverHash x \<noteq> r_EverHash u" using False vs(1) by (simp add: list_ex_iff)
    then have no2: "\<forall>x \<in> set (vs @ vs'). r_RawId x \<noteq> r_RawId u" using fresh vs(1) rec by metis
    have "money (ledger_of ts w') ((ledger_of ts w')\<lparr>l_receipts := map receipt_abs vs @ receipt_abs u # map receipt_abs vs'\<rparr>)"
      using assms(2,3) vs no no2 by (intro money.Received) (auto simp: image_iff)
    also have "(ledger_of ts w')\<lparr>l_receipts := map receipt_abs vs @ receipt_abs u # map receipt_abs vs'\<rparr> = ledger_of ts w1"
      using False vs by (simp add: w1 ledger_of_def)
    finally show ?thesis by blast
  qed (simp add: w1)
  then show ?thesis using ledger_of_core [OF c, of ts] by simp
next
  assume "core w1 = core w"
  then show ?thesis using ledger_of_core [of w1 w ts] by simp
qed

lemma watchEverReceiptTx_money:
  assumes "ever_fresh tt w"
  shows "money\<^sup>*\<^sup>* (ledger_of ts w) (ledger_of ts (watchEverReceiptTx L tt w))"
proof -
  have "money\<^sup>*\<^sup>* (ledger_of ts w) (ledger_of ts (snd (InsertReceiptTx u w)))"
    if "r_EverHash u = et_EverHash tt" "r_RawId u = et_RawId tt" "r_Status u = UnSpent" for u
    using that assms by (intro InsertReceipt_money [OF prod.collapse [symmetric]]) (auto simp: ever_fresh_def)
  then show ?thesis unfolding watchEverReceiptTx_def by (simp split: go.split option.split)
qed

lemma expired_ledger:
  assumes "UpdateOrdToExpiredStatus j w = (r, w1)"
  obtains "r = Ret ()" and "ledger_of ts w1 = (ledger_of ts w)\<lparr>l_orders := update_rows (\<lambda>x. a_id x = j)
      (\<lambda>x. x\<lparr>a_status := ExpiredPayment\<rparr>) (l_orders (ledger_of ts w))\<rparr>"
  | "r = Err db_err" and "ledger_of ts w1 = ledger_of ts w"
  using assms unfolding UpdateOrdToExpiredStatus_def
proof (elim db_write_cases)
  fix w' assume c: "core w' = core w" and r: "r = Ret ()" and w1: "w1 = w'\<lparr>orders := update_rows (\<lambda>r. o_ID r = j)
      (\<lambda>r. r\<lparr>o_PaymentStatus := ExpiredPayment, o_OnChainStatus := FailedOnChain\<rparr>) (orders w')\<rparr>"
  have "map order_abs (update_rows (\<lambda>r. o_ID r = j)
      (\<lambda>r. r\<lparr>o_PaymentStatus := ExpiredPayment, o_OnChainStatus := FailedOnChain\<rparr>) (orders w'))
    = update_rows (\<lambda>x. a_id x = j) (\<lambda>x. x\<lparr>a_status := ExpiredPayment\<rparr>) (map order_abs (orders w'))"
    by (rule map_update_abs) (simp_all add: order_abs_def)
  then have "ledger_of ts w1 = (ledger_of ts w')\<lparr>l_orders := update_rows (\<lambda>x. a_id x = j)
      (\<lambda>x. x\<lparr>a_status := ExpiredPayment\<rparr>) (l_orders (ledger_of ts w'))\<rparr>"
    by (simp add: ledger_of_def w1)
  with that(1) r ledger_of_core [OF c, of ts] show thesis by simp
next
  assume c: "core w1 = core w" and r: "r = Err db_err"
  show thesis using that(2) [OF r ledger_of_core [OF c]] .
qed

lemma quiet_paid: "ExistPaidOrd i w = (b, w1) \<Longrightarrow> ledger_of ts w1 = ledger_of ts w"
  "IsLatestUnpaidOrd i c w = (b, w1) \<Longrightarrow> ledger_of ts w1 = ledger_of ts w"
  by (auto dest: db_bool_core ledger_of_core)

lemma quiet_drop_item:
  "ledger_of ts (s_wdb (snd (bindG (on_store (DelItem i)) (\<lambda>_. on_wdb (DelManifest i)) s))) = ledger_of ts (s_wdb s)"
proof -
  obtain r s1 where s1: "on_store (DelItem i) s = (r, s1)" by fastforce
  then have "s_wdb s1 = s_wdb s" by (metis on_store_wdb snd_conv)
  moreover have "ledger_of ts (s_wdb (snd (on_wdb (DelManifest i) s1))) = ledger_of ts (s_wdb s1)"
    using quiet_on_wdb [OF quiet_writes(7)] by (metis prod.collapse)
  ultimately show ?thesis using s1 by (cases r) (simp_all add: bindG_def)
qed

text \<open>The rest of the round of one order, after its status was set, leaves the ledger as it is.\<close>

definition expire_rest :: "order \<Rightarrow> seeding \<Rightarrow> seeding" where
  "expire_rest ord s1 = (case ExistPaidOrd (o_ItemId ord) (s_wdb s1) of (paid, w2) \<Rightarrow>
          if paid then s1\<lparr>s_wdb := w2\<rparr>
          else (case IsLatestUnpaidOrd (o_ItemId ord) (o_PaymentExpiredTime ord) w2 of (latest, w3) \<Rightarrow>
              if \<not> latest then s1\<lparr>s_wdb := w3\<rparr>
              else snd (bindG (on_store (DelItem (o_ItemId ord))) (\<lambda>_. on_wdb (DelManifest (o_ItemId ord))) (s1\<lparr>s_wdb := w3\<rparr>))))"

lemma quiet_expire_rest: "ledger_of ts (s_wdb (expire_rest ord s)) = ledger_of ts (s_wdb s)"
  unfolding expire_rest_def by (auto split: prod.splits simp: quiet_drop_item dest!: quiet_paid [where ts = ts])

lemma expireAll_money:
  "distinct (map o_ID ords) \<Longrightarrow> (\<forall>ord \<in> set ords. \<exists>r \<in> set (l_orders (ledger_of ts (s_wdb s))). a_id r = o_ID ord \<and> a_status r = UnPayment)
    \<Longrightarrow> money\<^sup>*\<^sup>* (ledger_of ts (s_wdb s)) (ledger_of ts (s_wdb (expireAll ords s)))"
proof (induction ords arbitrary: s)
  case (Cons ord ords)
  let ?l = "ledger_of ts (s_wdb s)"
  let ?l1 = "?l\<lparr>l_orders := update_rows (\<lambda>x. a_id x = o_ID ord) (\<lambda>x. x\<lparr>a_status := ExpiredPayment\<rparr>) (l_orders ?l)\<rparr>"
  obtain r w1 where u: "UpdateOrdToExpiredStatus (o_ID ord) (s_wdb s) = (r, w1)" by fastforce
  let ?s1 = "s\<lparr>s_wdb := w1\<rparr>"
  from u show ?case
  proof (cases rule: expired_ledger [where ts = ts])
    case 1
    have run: "expireAll (ord # ords) s = expireAll ords (expire_rest ord ?s1)"
      using u 1(1) by (simp add: on_wdb_def expire_rest_def)
    have l1: "ledger_of ts (s_wdb (expire_rest ord ?s1)) = ?l1" using 1(2) by (simp add: quiet_expire_rest)
    obtain x where x: "x \<in> set (l_orders ?l)" "a_id x = o_ID ord" "a_status x = UnPayment"
      using Cons.prems(2) by (meson list.set_intros(1))
    have "money ?l ?l1" using money.Expired [OF x(1,3)] x(2) by simp
    moreover have "\<forall>o' \<in> set ords. \<exists>r \<in> set (l_orders ?l1). a_id r = o_ID o' \<and> a_status r = UnPayment"
    proof
      fix o' assume o': "o' \<in> set ords"
      then obtain y where y: "y \<in> set (l_orders ?l)" "a_id y = o_ID o'" "a_status y = UnPayment"
        using Cons.prems(2) by (meson list.set_intros(2))
      have "o_ID o' \<in> o_ID ` set ords" using o' by simp
      then have "a_id y \<noteq> o_ID ord" using Cons.prems(1) y(2) by auto
      then have "y \<in> set (l_orders ?l1)" using y(1) by (auto intro: rev_image_eqI)
      then show "\<exists>r \<in> set (l_orders ?l1). a_id r = o_ID o' \<and> a_status r = UnPayment" using y by blast
    qed
    then have "money\<^sup>*\<^sup>* ?l1 (ledger_of ts (s_wdb (expireAll ords (expire_rest ord ?s1))))"
      using Cons.IH [of "expire_rest ord ?s1"] Cons.prems(1) unfolding l1 by simp
    ultimately show ?thesis unfolding run by (rule converse_rtranclp_into_rtranclp)
  next
    case 2
    have run: "expireAll (ord # ords) s = expireAll ords ?s1" using u 2(1) by (simp add: on_wdb_def)
    have l1: "ledger_of ts (s_wdb ?s1) = ?l" using 2(2) by simp
    have "money\<^sup>*\<^sup>* ?l (ledger_of ts (s_wdb (expireAll ords ?s1)))"
      using Cons.IH [of ?s1] Cons.prems unfolding l1 by simp
    then show ?thesis unfolding run .
  qed
qed simp

lemma processExpiredOrd_money:
  assumes "ids_ok (ledger_of ts (s_wdb s))"
  shows "money\<^sup>*\<^sup>* (ledger_of ts (s_wdb s)) (ledger_of ts (s_wdb (processExpiredOrd now s)))"
proof -
  obtain r w1 where g: "GetExpiredOrders now (s_wdb s) = (r, w1)" by fastforce
  let ?s1 = "s\<lparr>s_wdb := w1\<rparr>"
  have l1: "ledger_of ts w1 = ledger_of ts (s_wdb s)" using quiet_run(1) [OF g] .
  show ?thesis
  proof (cases r)
    case (Ret ords)
    have "core w1 = core (s_wdb s)" using g unfolding GetExpiredOrders_def by (elim db_read_cases)
    have ords: "ords = filter (\<lambda>r. o_PaymentStatus r = UnPayment \<and> o_PaymentExpiredTime r < now) (orders w1)"
      using g Ret unfolding GetExpiredOrders_def by (elim db_read_cases) auto
    have "distinct (map o_ID (orders w1))" using assms l1 [symmetric] by (simp add: ids_ok_def comp_def)
    then have "distinct (map o_ID ords)" unfolding ords by (rule distinct_map_filter)
    moreover have "\<forall>ord \<in> set ords. \<exists>r \<in> set (l_orders (ledger_of ts (s_wdb ?s1))). a_id r = o_ID ord \<and> a_status r = UnPayment"
      unfolding ords by auto
    ultimately have "money\<^sup>*\<^sup>* (ledger_of ts (s_wdb ?s1)) (ledger_of ts (s_wdb (expireAll ords ?s1)))" by (rule expireAll_money)
    then show ?thesis using g Ret l1 by (simp add: processExpiredOrd_def on_wdb_def)
  qed (use g l1 in \<open>simp_all add: processExpiredOrd_def on_wdb_def\<close>)
qed

text \<open>What the round of one receipt leaves to the rounds of the others.\<close>

definition others_stay :: "nat \<Rightarrow> ledger \<Rightarrow> ledger \<Rightarrow> bool" where
  "others_stay i l l' \<longleftrightarrow> (\<forall>u \<in> set (l_receipts l). v_id u \<noteq> i \<longrightarrow> u \<in> set (l_receipts l'))"

lemma others_stay_move: "l_receipts l = l_receipts l0 \<Longrightarrow> others_stay i l0 (move i st l)" "others_stay i l l"
  by (auto simp: others_stay_def intro: rev_image_eqI)

lemma others_stay_trans: "others_stay i a b \<Longrightarrow> others_stay i b c \<Longrightarrow> others_stay i a c"
  by (simp add: others_stay_def)

lemma set_receipt_ledger: "ledger_of ts (set_receipt_status i st w) = move i st (ledger_of ts w)"
proof -
  have "map receipt_abs (update_rows (\<lambda>r. r_RawId r = i) (\<lambda>r. r\<lparr>r_Status := st\<rparr>) (receipts w))
    = update_rows (\<lambda>v. v_id v = i) (\<lambda>v. v\<lparr>v_status := st\<rparr>) (map receipt_abs (receipts w))"
    by (rule map_update_abs) (simp_all add: receipt_abs_def)
  then show ?thesis by (simp add: ledger_of_def set_receipt_status_def move_def)
qed

lemma UpdateReceiptStatus_money:
  assumes "UpdateReceiptStatus i st w = (r, w1)" and "v \<in> set (l_receipts (ledger_of ts w))" and "v_id v = i"
    and "(v_status v, st) \<in> set status_moves"
  shows "money\<^sup>*\<^sup>* (ledger_of ts w) (ledger_of ts w1)" and "others_stay i (ledger_of ts w) (ledger_of ts w1)"
proof -
  have "ledger_of ts w1 = ledger_of ts w \<or> ledger_of ts w1 = move i st (ledger_of ts w)"
    using assms(1)
  proof (cases rule: UpdateReceiptStatus_cases)
    case 1
    then show ?thesis
      using ledger_of_core [of w1 "set_receipt_status i st w" ts] by (simp add: set_receipt_ledger)
  next
    case 2
    then show ?thesis using ledger_of_core [of w1 w ts] by simp
  qed
  then show "money\<^sup>*\<^sup>* (ledger_of ts w) (ledger_of ts w1)" "others_stay i (ledger_of ts w) (ledger_of ts w1)"
    using money.Moved [OF assms(2,4)] assms(3) by (auto simp: others_stay_move)
qed

lemma total_fee_abs: "total_fee ords = Some f \<Longrightarrow> fees (map order_abs ords) = f \<and> (\<forall>o' \<in> set ords. SetString (o_Fee o') \<noteq> None)"
  by (induction ords arbitrary: f) (auto simp: fees_def fee_value_def split: option.splits)

lemma orders_for_abs: "orders_for ids ords w \<Longrightarrow> set ords \<subseteq> {r \<in> set (orders w). o_PaymentStatus r = UnPayment}"
proof
  fix x assume o: "orders_for ids ords w" and "x \<in> set ords"
  then obtain n where "n < length ords" "x = ords ! n" by (auto simp: in_set_conv_nth)
  then obtain i where "last_row (unpaid_for i) (orders w) = Ret x"
    using list_all2_nthD2 [OF o [unfolded orders_for_def]] by blast
  then show "x \<in> {r \<in> set (orders w). o_PaymentStatus r = UnPayment}"
    by (auto dest: last_row_Ret simp: unpaid_for_def)
qed

lemma processPayItems_money:
  assumes run: "processPayItems ids urtx w = (r, w1)"
    and v: "receipt_abs urtx \<in> set (l_receipts (ledger_of ts w))" "r_Status urtx = UnSpent"
  shows "money\<^sup>*\<^sup>* (ledger_of ts w) (ledger_of ts w1) \<and> others_stay (r_RawId urtx) (ledger_of ts w) (ledger_of ts w1)"
proof -
  let ?l = "ledger_of ts w" and ?v = "receipt_abs urtx"
  from processPayItems_cases [OF run] consider
      "core w1 = core w"
    | "core w1 = set_receipt_status (r_RawId urtx) UnRefund (core w)"
    | ords amount fee where "orders_for ids ords w" "SetString (r_Amount urtx) = Some amount" "total_fee ords = Some fee"
        "fee \<le> amount" "core w1 = set_receipt_status (r_RawId urtx) Spent ((core w)\<lparr>orders := pay_rows ords (r_EverHash urtx) (orders w)\<rparr>)"
    by blast
  then show ?thesis
  proof cases
    case 1
    then show ?thesis using ledger_of_core [OF 1, of ts] by (simp add: others_stay_move)
  next
    case 2
    then have "core w1 = core (set_receipt_status (r_RawId urtx) UnRefund w)" by simp
    from ledger_of_core [OF this, of ts] have "ledger_of ts w1 = move (v_id ?v) UnRefund ?l"
      by (simp only: set_receipt_ledger abs_simps)
    moreover have "money ?l (move (v_id ?v) UnRefund ?l)"
      using v by (intro money.Moved) (simp_all add: status_moves_def)
    ultimately show ?thesis by (simp add: others_stay_move)
  next
    case 3
    let ?rs = "map order_abs ords"
    let ?l1 = "?l\<lparr>l_orders := update_rows (\<lambda>x. a_id x \<in> a_id ` set ?rs) (\<lambda>x. x\<lparr>a_status := SuccPayment, a_by := v_hash ?v\<rparr>) (l_orders ?l)\<rparr>"
    have ids: "a_id ` set ?rs = o_ID ` set ords" by (simp add: image_image)
    have "map order_abs (pay_rows ords (r_EverHash urtx) (orders w))
      = update_rows (\<lambda>x. a_id x \<in> a_id ` set ?rs) (\<lambda>x. x\<lparr>a_status := SuccPayment, a_by := v_hash ?v\<rparr>) (map order_abs (orders w))"
      unfolding pay_rows_def ids by (rule map_update_abs) (simp_all add: order_abs_def)
    then have paid: "ledger_of ts (w\<lparr>orders := pay_rows ords (r_EverHash urtx) (orders w)\<rparr>) = ?l1"
      by (simp add: ledger_of_def)
    have "core w1 = core (set_receipt_status (r_RawId urtx) Spent (w\<lparr>orders := pay_rows ords (r_EverHash urtx) (orders w)\<rparr>))"
      using 3(5) by simp
    from ledger_of_core [OF this, of ts] have l1: "ledger_of ts w1 = move (v_id ?v) Spent ?l1"
      by (simp only: set_receipt_ledger paid abs_simps)
    note f = total_fee_abs [OF 3(3)] and o = orders_for_abs [OF 3(1)]
    have "money ?l (move (v_id ?v) Spent ?l1)"
    proof (rule money.Settled [OF v(1), where amount = amount])
      show "set ?rs \<subseteq> {r \<in> set (l_orders ?l). a_status r = UnPayment \<and> a_fee r \<noteq> None}"
      proof
        fix x assume "x \<in> set ?rs"
        then obtain y where "y \<in> set ords" "x = order_abs y" by auto
        with conjunct2 [OF f] o show "x \<in> {r \<in> set (l_orders ?l). a_status r = UnPayment \<and> a_fee r \<noteq> None}" by auto
      qed
    next
      show "fees ?rs \<le> amount" using conjunct1 [OF f] 3(4) by simp
    qed (use v(2) 3(2) in simp_all)
    then show ?thesis unfolding l1 using others_stay_move(1) [of ?l1 ?l "v_id ?v" Spent] by simp
  qed
qed

lemma processPayApikey_money:
  assumes run: "processPayApikey D L urtx w = (r, w1)"
    and v: "receipt_abs urtx \<in> set (l_receipts (ledger_of ts w))" "r_Status urtx = UnSpent"
  shows "money\<^sup>*\<^sup>* (ledger_of ts w) (ledger_of ts w1) \<and> others_stay (r_RawId urtx) (ledger_of ts w) (ledger_of ts w1)"
proof (cases "r_Amount urtx = ''0''")
  case True
  then have "UpdateReceiptStatus (r_RawId urtx) UnRefund w = (fst (UpdateReceiptStatus (r_RawId urtx) UnRefund w), w1)"
    using run by (auto simp: processPayApikey_def)
  from UpdateReceiptStatus_money [OF this v(1)] show ?thesis using v(2) by (simp add: status_moves_def)
next
  case False
  let ?a = "HexToAddress L (r_From urtx)"
  obtain k w2 where k: "ExistApikey ?a w = (k, w2)" by fastforce
  let ?m = "case k of None \<Rightarrow> createApikey L urtx ?a | Some k \<Rightarrow> creditApikey D urtx ?a k"
  obtain q w3 where q: "?m w2 = (q, w3)" by fastforce
  have "quiet ?m" by (cases k) (simp_all add: quiet_createApikey quiet_creditApikey)
  then have l: "ledger_of ts w3 = ledger_of ts w" using quietD [of ?m w2 q w3 ts] q quiet_run(12) [OF k, of ts] by simp
  show ?thesis
  proof (cases q)
    case (Ret x)
    then have "UpdateReceiptStatus (r_RawId urtx) Spent w3 = (r, w1)"
      using run False k q by (simp add: processPayApikey_def Let_def bindG_def)
    from UpdateReceiptStatus_money [OF this, of "receipt_abs urtx" ts] show ?thesis
      using v l by (simp add: status_moves_def)
  qed (use run False k q l in \<open>auto simp: processPayApikey_def Let_def bindG_def others_stay_move\<close>)
qed

lemma mergeReceipt_money:
  assumes run: "mergeReceipt D L M urtx w = (r, w1)"
    and v: "receipt_abs urtx \<in> set (l_receipts (ledger_of ts w))" "r_Status urtx = UnSpent"
  shows "money\<^sup>*\<^sup>* (ledger_of ts w) (ledger_of ts w1) \<and> others_stay (r_RawId urtx) (ledger_of ts w) (ledger_of ts w1)"
proof -
  have reject: ?thesis if "UpdateReceiptStatus (r_RawId urtx) UnRefund w = (r, w1)"
    using UpdateReceiptStatus_money [OF that v(1)] v(2) by (simp add: status_moves_def)
  show ?thesis
  proof (cases "parseTxData (r_Data urtx)")
    case (Ret p)
    obtain action ids where p: "p = (action, ids)" by fastforce
    show ?thesis
    proof (cases "action = ItemPaymentAction")
      case True
      then have "processPayItems ids urtx w = (r, w1)" using run Ret p by (simp add: mergeReceipt_def)
      then show ?thesis using v by (rule processPayItems_money)
    next
      case other: False
      show ?thesis
      proof (cases "GetPerFee M (r_Symbol urtx) = None")
        case False
        then obtain fee where "GetPerFee M (r_Symbol urtx) = Some fee" by blast
        then have "processPayApikey D L urtx w = (r, w1)" using run Ret p other by (simp add: mergeReceipt_def)
        then show ?thesis using v by (rule processPayApikey_money)
      qed (rule reject, use run Ret p other in \<open>simp add: mergeReceipt_def\<close>)
    qed
  next
    case (Err e)
    then show ?thesis using reject run by (simp add: mergeReceipt_def)
  next
    case (Panic p)
    then show ?thesis using run by (simp add: mergeReceipt_def others_stay_move)
  qed
qed

lemma mergeAll_money:
  "distinct (map r_RawId rs) \<Longrightarrow> (\<forall>u \<in> set rs. receipt_abs u \<in> set (l_receipts (ledger_of ts w)) \<and> r_Status u = UnSpent)
    \<Longrightarrow> money\<^sup>*\<^sup>* (ledger_of ts w) (ledger_of ts (mergeAll D L M rs w))"
proof (induction rs arbitrary: w)
  case (Cons u rs)
  obtain r w1 where m: "mergeReceipt D L M u w = (r, w1)" by fastforce
  have step: "money\<^sup>*\<^sup>* (ledger_of ts w) (ledger_of ts w1)" "others_stay (r_RawId u) (ledger_of ts w) (ledger_of ts w1)"
    using mergeReceipt_money [OF m] Cons.prems(2) by auto
  have "receipt_abs x \<in> set (l_receipts (ledger_of ts w1)) \<and> r_Status x = UnSpent" if x: "x \<in> set rs" for x
  proof -
    have "r_RawId x \<in> r_RawId ` set rs" using x by simp
    then have "v_id (receipt_abs x) \<noteq> r_RawId u" using Cons.prems(1) by auto
    moreover have "receipt_abs x \<in> set (l_receipts (ledger_of ts w))" "r_Status x = UnSpent" using Cons.prems(2) x by auto
    ultimately show ?thesis using step(2) unfolding others_stay_def by blast
  qed
  then have "money\<^sup>*\<^sup>* (ledger_of ts w1) (ledger_of ts (mergeAll D L M rs w1))" using Cons.IH Cons.prems(1) by auto
  with step(1) have "money\<^sup>*\<^sup>* (ledger_of ts w) (ledger_of ts (mergeAll D L M rs w1))" by (rule rtranclp_trans)
  then show ?case using m step(1) by (cases r) simp_all
qed simp

text \<open>The receipts of one status, as both jobs fetch them.\<close>

lemma fetched_receipts:
  assumes "GetReceiptsByStatus now st w = (Ret rs, w1)" and "ids_ok (ledger_of ts w)"
  shows "distinct (map r_RawId rs)"
    and "\<forall>u \<in> set rs. receipt_abs u \<in> set (l_receipts (ledger_of ts w1)) \<and> r_Status u = st"
proof -
  have l: "ledger_of ts w1 = ledger_of ts w" using quiet_run(8) [OF assms(1)] .
  have rs: "rs = filter (\<lambda>r. r_Status r = st \<and> now - 24 * 60 * 60 * 1000 < r_Nonce r) (receipts w1)"
    using assms(1) unfolding GetReceiptsByStatus_def by (elim db_read_cases) auto
  have "distinct (map r_RawId (receipts w1))" using assms(2) l [symmetric] by (simp add: ids_ok_def comp_def)
  then show "distinct (map r_RawId rs)" unfolding rs by (rule distinct_map_filter)
  show "\<forall>u \<in> set rs. receipt_abs u \<in> set (l_receipts (ledger_of ts w1)) \<and> r_Status u = st" unfolding rs by auto
qed

lemma mergeReceiptEverTxs_money:
  assumes "ids_ok (ledger_of ts w)"
  shows "money\<^sup>*\<^sup>* (ledger_of ts w) (ledger_of ts (mergeReceiptEverTxs D L M now w))"
proof -
  obtain r w1 where g: "GetReceiptsByStatus now UnSpent w = (r, w1)" by fastforce
  have l: "ledger_of ts w1 = ledger_of ts w" using quiet_run(8) [OF g] .
  show ?thesis
  proof (cases r)
    case (Ret rs)
    have "money\<^sup>*\<^sup>* (ledger_of ts w1) (ledger_of ts (mergeAll D L M rs w1))"
      using fetched_receipts [OF g [unfolded Ret] assms] by (rule mergeAll_money)
    then show ?thesis using g Ret l by (simp add: mergeReceiptEverTxs_def)
  qed (use g l in \<open>simp_all add: mergeReceiptEverTxs_def\<close>)
qed

lemma UpdateRefundErr_money:
  assumes "UpdateRefundErr i m w = (r, w1)" and "v \<in> set (l_receipts (ledger_of ts w))" and "v_id v = i" and "v_status v = Refund"
  shows "money\<^sup>*\<^sup>* (ledger_of ts w) (ledger_of ts w1)" and "others_stay i (ledger_of ts w) (ledger_of ts w1)"
proof -
  have "ledger_of ts w1 = ledger_of ts w \<or> ledger_of ts w1 = move i RefundErr (ledger_of ts w)"
    using assms(1) unfolding UpdateRefundErr_def
  proof (elim db_write_cases)
    fix w' assume c: "core w' = core w" and w1: "w1 = w'\<lparr>receipts := update_rows (\<lambda>r. r_RawId r = i)
      (\<lambda>r. r\<lparr>r_Status := RefundErr, r_ErrMsg := m\<rparr>) (receipts w')\<rparr>"
    have "map receipt_abs (update_rows (\<lambda>r. r_RawId r = i) (\<lambda>r. r\<lparr>r_Status := RefundErr, r_ErrMsg := m\<rparr>) (receipts w'))
      = update_rows (\<lambda>v. v_id v = i) (\<lambda>v. v\<lparr>v_status := RefundErr\<rparr>) (map receipt_abs (receipts w'))"
      by (rule map_update_abs) (simp_all add: receipt_abs_def)
    then have "ledger_of ts w1 = move i RefundErr (ledger_of ts w')" by (simp add: ledger_of_def w1 move_def)
    then show ?thesis using ledger_of_core [OF c, of ts] by simp
  next
    assume c: "core w1 = core w"
    show ?thesis using ledger_of_core [OF c, of ts] by simp
  qed
  moreover have "money (ledger_of ts w) (move i RefundErr (ledger_of ts w))"
    using money.Moved [OF assms(2), of RefundErr] assms(3,4) by (simp add: status_moves_def)
  ultimately show "money\<^sup>*\<^sup>* (ledger_of ts w) (ledger_of ts w1)" "others_stay i (ledger_of ts w) (ledger_of ts w1)"
    by (auto simp: others_stay_move)
qed

lemma ledger_of_refund: "ledger_of (ts @ [(tag, amount, to, h)]) w = (ledger_of ts w)\<lparr>l_refunds := l_refunds (ledger_of ts w) @ [h]\<rparr>"
  by (simp add: ledger_of_def transfer_hash_def)

lemma refundOne_money:
  assumes run: "refundOne L rpt w = (ts', w1)"
    and v: "receipt_abs rpt \<in> set (l_receipts (ledger_of ts w))" "r_Status rpt = UnRefund"
  shows "money\<^sup>*\<^sup>* (ledger_of ts w) (ledger_of (ts @ ts') w1) \<and> others_stay (r_RawId rpt) (ledger_of ts w) (ledger_of (ts @ ts') w1)"
proof -
  let ?v = "receipt_abs rpt" and ?l = "ledger_of ts w"
  obtain r0 w0 where u: "UpdateReceiptStatus (r_RawId rpt) Refund w = (r0, w0)" by fastforce
  from u show ?thesis
  proof (cases rule: UpdateReceiptStatus_cases)
    case 1
    have c: "core w0 = core (set_receipt_status (r_RawId rpt) Refund w)" using 1(2) by simp
    have l0: "ledger_of ts w0 = move (v_id ?v) Refund ?l" using ledger_of_core [OF c, of ts] by (simp only: set_receipt_ledger abs_simps)
    show ?thesis
    proof (cases "SetString (r_Amount rpt)")
      case None
      have "money ?l (move (v_id ?v) Refund ?l)" using v by (intro money.Moved) (simp_all add: status_moves_def)
      then have "money ?l (ledger_of (ts @ ts') w1)" using run u 1(1) None l0 by (simp add: refundOne_def)
      moreover have "ledger_of (ts @ ts') w1 = move (v_id ?v) Refund ?l" using run u 1(1) None l0 by (simp add: refundOne_def)
      ultimately show ?thesis by (auto simp: others_stay_move)
    next
      case (Some amount)
      let ?t = "(r_TokenTag rpt, amount, r_From rpt, r_EverHash rpt)"
      let ?after = "ledger_of (ts @ [?t]) w0"
      have l0': "?after = (move (v_id ?v) Refund ?l)\<lparr>l_refunds := l_refunds ?l @ [v_hash ?v]\<rparr>"
        using ledger_of_refund [of ts "r_TokenTag rpt" amount "r_From rpt" "r_EverHash rpt" w0]
        by (simp only: l0 abs_simps move_simps)
      have step: "money ?l ?after" unfolding l0' using v by (intro money.Refunded) simp_all
      have stay: "others_stay (r_RawId rpt) ?l ?after" unfolding l0'
        using others_stay_move(1) [of ?l ?l "v_id ?v" Refund] by (simp add: others_stay_def)
      show ?thesis
      proof (cases "Transfer L (r_TokenTag rpt) amount (r_From rpt) (r_EverHash rpt)")
        case None
        then have "ts' = [?t]" "w1 = w0" using run u 1(1) Some by (simp_all add: refundOne_def)
        then show ?thesis using step stay by auto
      next
        case err: (Some e)
        define m where "m = err_text e"
        obtain r2 where e: "UpdateRefundErr (r_RawId rpt) m w0 = (r2, w1)" and ts': "ts' = [?t]"
          using run u 1(1) Some err by (cases "UpdateRefundErr (r_RawId rpt) m w0") (auto simp: refundOne_def m_def)
        have "?v\<lparr>v_status := Refund\<rparr> \<in> set (l_receipts ?after)" unfolding l0' using v(1) by (auto intro: rev_image_eqI)
        from UpdateRefundErr_money [OF e this] have "money\<^sup>*\<^sup>* ?after (ledger_of (ts @ [?t]) w1)"
          "others_stay (r_RawId rpt) ?after (ledger_of (ts @ [?t]) w1)" by simp_all
        then show ?thesis unfolding ts' using step stay others_stay_trans converse_rtranclp_into_rtranclp [of money] by blast
      qed
    qed
  next
    case 2
    then show ?thesis using run u ledger_of_core [OF 2(2), of ts] by (simp add: refundOne_def others_stay_move)
  qed
qed

lemma refundAll_money:
  "refundAll L rs w = (ts', w1) \<Longrightarrow> distinct (map r_RawId rs)
    \<Longrightarrow> (\<forall>u \<in> set rs. receipt_abs u \<in> set (l_receipts (ledger_of ts w)) \<and> r_Status u = UnRefund)
    \<Longrightarrow> money\<^sup>*\<^sup>* (ledger_of ts w) (ledger_of (ts @ ts') w1)"
proof (induction rs arbitrary: w ts ts')
  case (Cons u rs)
  obtain t0 w0 where o: "refundOne L u w = (t0, w0)" by fastforce
  obtain t2 w2 where a: "refundAll L rs w0 = (t2, w2)" by fastforce
  have ts': "ts' = t0 @ t2" "w1 = w2" using Cons.prems(1) o a by auto
  have step: "money\<^sup>*\<^sup>* (ledger_of ts w) (ledger_of (ts @ t0) w0)" "others_stay (r_RawId u) (ledger_of ts w) (ledger_of (ts @ t0) w0)"
    using refundOne_money [OF o] Cons.prems(3) by auto
  have "\<forall>x \<in> set rs. receipt_abs x \<in> set (l_receipts (ledger_of (ts @ t0) w0)) \<and> r_Status x = UnRefund"
  proof
    fix x assume x: "x \<in> set rs"
    have "r_RawId x \<in> r_RawId ` set rs" using x by simp
    then have "v_id (receipt_abs x) \<noteq> r_RawId u" using Cons.prems(2) by auto
    moreover have "receipt_abs x \<in> set (l_receipts (ledger_of ts w))" "r_Status x = UnRefund" using Cons.prems(3) x by auto
    ultimately show "receipt_abs x \<in> set (l_receipts (ledger_of (ts @ t0) w0)) \<and> r_Status x = UnRefund"
      using step(2) unfolding others_stay_def by blast
  qed
  then have "money\<^sup>*\<^sup>* (ledger_of (ts @ t0) w0) (ledger_of ((ts @ t0) @ t2) w1)"
    by (intro Cons.IH [OF a [folded ts'(2)]]) (use Cons.prems(2) in simp_all)
  with step(1) show ?case unfolding ts'(1) append_assoc by (rule rtranclp_trans)
qed simp

lemma refundReceipt_money:
  assumes "refundReceipt L now w = (ts', w1)" and "ids_ok (ledger_of ts w)"
  shows "money\<^sup>*\<^sup>* (ledger_of ts w) (ledger_of (ts @ ts') w1)"
proof -
  obtain r w0 where g: "GetReceiptsByStatus now UnRefund w = (r, w0)" by fastforce
  have l: "ledger_of ts w0 = ledger_of ts w" using quiet_run(8) [OF g] .
  show ?thesis
  proof (cases r)
    case (Ret rs)
    then have "refundAll L rs w0 = (ts', w1)" using assms(1) g by (simp add: refundReceipt_def)
    from refundAll_money [OF this fetched_receipts [OF g [unfolded Ret] assms(2)]] show ?thesis using l by simp
  qed (use assms(1) g l in \<open>simp_all add: refundReceipt_def\<close>)
qed

subsection \<open>Jobs\<close>

text \<open>
  The state of the node and the transfers it has asked for. Each job runs with the configuration,
  the prices and the answers of the network of its time.
\<close>

inductive job :: "seeding \<times> transfer list \<Rightarrow> seeding \<times> transfer list \<Rightarrow> bool" where
  Submit: "job (s, ts) (snd (submitItem C now item cur key isort sz s), ts)"
| Native: "job (s, ts) (snd (submitPaidItem C now item cur key isort sz s), ts)"
| Expire: "job (s, ts) (processExpiredOrd now s, ts)"
| Receive: "ever_fresh tt (s_wdb s) \<Longrightarrow> job (s, ts) (s\<lparr>s_wdb := watchEverReceiptTx L tt (s_wdb s)\<rparr>, ts)"
| Merge: "job (s, ts) (s\<lparr>s_wdb := mergeReceiptEverTxs D L M now (s_wdb s)\<rparr>, ts)"
| Repay: "refundReceipt L now (s_wdb s) = (ts', w') \<Longrightarrow> job (s, ts) (s\<lparr>s_wdb := w'\<rparr>, ts @ ts')"
| OnChain: "job (s, ts) (snd (onChainBundleItems C s), ts)"
| OnChainSeq: "job (s, ts) (snd (onChainItemsBySeq C status s), ts)"
| Watch: "job (s, ts) (s\<lparr>s_wdb := watchArTx C (s_wdb s)\<rparr>, ts)"
| Retry: "job (s, ts) (snd (retryOnChainArTx C s), ts)"
| KafkaItems: "job (s, ts) (snd (broadcastItemToKafka K s), ts)"
| KafkaBlocks: "job (s, ts) (s\<lparr>s_wdb := snd (broadcastBlockToKafka K (s_wdb s))\<rparr>, ts)"

definition node_ledger :: "seeding \<times> transfer list \<Rightarrow> ledger" where
  "node_ledger c = ledger_of (snd c) (s_wdb (fst c))"

lemma node_ledger_pair [simp]: "node_ledger (s, ts) = ledger_of ts (s_wdb s)"
  by (simp add: node_ledger_def)

lemma job_money:
  assumes "ledger_ok (node_ledger c)" and "job c d"
  shows "money\<^sup>*\<^sup>* (node_ledger c) (node_ledger d)"
proof -
  have ids: "ids_ok (node_ledger c)" using assms(1) by (simp add: ledger_ok_def)
  from assms(2) ids show ?thesis
  proof (induction rule: job.induct)
    case (Repay L now s ts' w' ts)
    then show ?case using refundReceipt_money [of L now "s_wdb s" ts' w' ts] by simp
  qed (simp_all add: submitItem_money submitPaidItem_money processExpiredOrd_money watchEverReceiptTx_money
    mergeReceiptEverTxs_money quiet_onChain quiet_onChainSeq quiet_watch quiet_retry quiet_kafka quiet_kafka_blocks)
qed

interpretation jobs: simulation job money node_ledger ledger_ok
  by unfold_locales (auto intro: money_ok job_money)

lemma money_keeps:
  assumes "ledger_ok l" and "money l l'"
  shows "r \<in> set (l_orders l) \<Longrightarrow> a_status r = SuccPayment \<Longrightarrow> r \<in> set (l_orders l')"
    and "v \<in> set (l_receipts l) \<Longrightarrow> v_status v = Spent \<Longrightarrow> v \<in> set (l_receipts l')"
proof -
  have ids: "ids_ok l" using assms(1) by (simp add: ledger_ok_def)
  have same: "x = y" if "x \<in> set (l_orders l)" "y \<in> set (l_orders l)" "a_id x = a_id y" for x y
    using that ids by (auto simp: ids_ok_def distinct_map dest: inj_onD)
  note keep = move_keeps [OF ids]
  show "r \<in> set (l_orders l')" if r: "r \<in> set (l_orders l)" "a_status r = SuccPayment"
    using assms(2)
  proof (cases rule: money.cases)
    case (Expired x)
    then have "a_id r \<noteq> a_id x" using same [OF r(1)] r(2) by auto
    then show ?thesis using r(1) Expired(1) by (auto intro: rev_image_eqI)
  next
    case (Settled v amount rs)
    then have "a_id r \<noteq> a_id x" if "x \<in> set rs" for x
    proof -
      have "x \<in> set (l_orders l)" "a_status x = UnPayment" using that Settled(5) by auto
      then show ?thesis using same [OF r(1)] r(2) by auto
    qed
    then have "a_id r \<notin> a_id ` set rs" by auto
    then show ?thesis using r(1) Settled(1) by (auto intro: rev_image_eqI)
  qed (use r in auto)
  show "v \<in> set (l_receipts l')" if v: "v \<in> set (l_receipts l)" "v_status v = Spent"
    using assms(2)
  proof (cases rule: money.cases)
    case (Settled u amount rs)
    then show ?thesis using keep [OF Settled(2) v(1), of Spent] v(2) by simp
  next
    case (Moved u st)
    have "v_status u \<noteq> Spent" using Moved(3) status_moves_facts(1) by auto
    then show ?thesis using keep [OF Moved(2) v(1), of st] v(2) Moved(1) by simp
  next
    case (Refunded u)
    then show ?thesis using keep [OF Refunded(2) v(1), of Refund] v(2) by simp
  qed (use v in auto)
qed

subsection \<open>Properties\<close>

definition fresh_node :: "seeding \<times> transfer list \<Rightarrow> bool" where
  "fresh_node c \<longleftrightarrow> orders (s_wdb (fst c)) = [] \<and> receipts (s_wdb (fst c)) = [] \<and> snd c = []"

lemma fresh_node_ok: "fresh_node c \<Longrightarrow> ledger_ok (node_ledger c)"
  by (simp add: fresh_node_def node_ledger_def ledger_ok_def ids_ok_def payments_ok_def refunds_ok_def amounts_ok_def)

definition sample_node :: "seeding \<times> transfer list" where
  "sample_node = (\<lparr>s_store = empty_kv Bolt [], s_wdb = sample_wdb, s_tasks = []\<rparr>, [])"

lemma sample_node_ok: "ledger_ok (node_ledger sample_node)"
  by (simp add: sample_node_def sample_wdb_def empty_wdb_def ledger_ok_def ids_ok_def payments_ok_def refunds_ok_def amounts_ok_def
    sample_order_def sample_receipt_def covered_def paid_by_def)

text \<open>
  C2: the jobs implement the ledger: whatever jobs and submissions follow one another from an ordered
  ledger, with any configuration, prices and answers of the network, and whichever requests fail,
  all that happens to the orders' fees, statuses and payments, to the receipts and to the refunds asked
  for is a sequence of the six steps of \<open>money\<close>, and the ledger stays in order.
\<close>

theorem jobs_refine_ledger:
  assumes "job\<^sup>*\<^sup>* c d" and "ledger_ok (node_ledger c)"
  shows "money\<^sup>*\<^sup>* (node_ledger c) (node_ledger d) \<and> ledger_ok (node_ledger d)"
  using jobs.refines [OF assms] jobs.reachable_inv [OF assms] by simp

lemma all_fees: "\<forall>ord \<in> set os. \<exists>f \<ge> 0. SetString (o_Fee ord) = Some f
  \<Longrightarrow> total_fee os = Some (fees (map order_abs os)) \<and> (\<forall>r \<in> set (map order_abs os). 0 \<le> fee_value r)"
  by (induction os) (auto simp: fees_def fee_value_def)

definition paid_orders :: "receipt \<Rightarrow> wdb \<Rightarrow> order list" where
  "paid_orders r w = filter (\<lambda>ord. o_PaymentId ord = r_EverHash r) (orders w)"

lemma paid_orders_abs: "paid_by (r_EverHash r) (ledger_of ts w) = map order_abs (paid_orders r w)"
  by (simp add: paid_by_def paid_orders_def filter_map comp_def)

lemma ledger_used_once:
  assumes "ledger_ok l" and v: "v \<in> set (l_receipts l)" and paid: "paid_by (v_hash v) l \<noteq> []"
  shows "v_status v = Spent" and "v_hash v \<notin> set (l_refunds l)"
proof -
  have ok: "ids_ok l" "payments_ok l" "refunds_ok l" using assms(1) by (simp_all add: ledger_ok_def)
  have status: "v_status v \<in> set sts" if "has_receipt l (v_hash v) sts" for sts
    using that same_receipt(2) [OF ok(1) _ v] by (auto simp: has_receipt_def)
  obtain r where r: "r \<in> set (l_orders l)" "a_by r = v_hash v" using paid by (auto simp: paid_by_def filter_empty_conv)
  have "v_hash v \<noteq> []" using ok(1) v by (metis ids_ok_def image_eqI)
  then have "has_receipt l (v_hash v) [Spent]" using ok(2) r by (auto simp: payments_ok_def)
  from status [OF this] show spent: "v_status v = Spent" by simp
  show "v_hash v \<notin> set (l_refunds l)"
  proof
    assume "v_hash v \<in> set (l_refunds l)"
    then have "has_receipt l (v_hash v) [Refund, RefundErr]" using ok(3) by (simp add: refunds_ok_def)
    from status [OF this] spent show False by (simp add: status_defs)
  qed
qed

lemma receipt_covered:
  assumes "amounts_ok (ledger_of ts w)" and "r \<in> set (receipts w)" and "paid_orders r w \<noteq> []"
    and f: "\<forall>ord \<in> set (orders w). \<exists>f \<ge> 0. SetString (o_Fee ord) = Some f"
  shows "\<exists>amount fee. SetString (r_Amount r) = Some amount \<and> total_fee (paid_orders r w) = Some fee \<and> fee \<le> amount"
proof -
  have "\<forall>x \<in> set (l_orders (ledger_of ts w)). 0 \<le> fee_value x" using all_fees [OF f] by simp
  then have "covered (ledger_of ts w) (receipt_abs r)" using assms(1,2) by (simp add: amounts_ok_def)
  then have "\<exists>amount. SetString (r_Amount r) = Some amount \<and> fees (map order_abs (paid_orders r w)) \<le> amount"
    using assms(3) paid_orders_abs [of r ts w] by (simp add: covered_def)
  moreover have "\<forall>ord \<in> set (paid_orders r w). \<exists>f \<ge> 0. SetString (o_Fee ord) = Some f" using f by (simp add: paid_orders_def)
  ultimately show ?thesis using all_fees by blast
qed

text \<open>
  C1: no receipt is used twice, for refunds or orders (the balances of api keys are not in the ledger). In every state that a fresh node reaches, a receipt is refunded at most
  once; an order that names a payment is paid, and a receipt of that hash is there; a receipt that
  paid an order is spent and no refund was asked for it; and the fees of all the orders one receipt
  paid, when none of the fees of the table is negative, are together within its amount.
\<close>

theorem receipts_used_once:
  assumes "job\<^sup>*\<^sup>* c (s, ts)" and "fresh_node c"
  shows "distinct (map transfer_hash ts)
    \<and> (\<forall>ord \<in> set (orders (s_wdb s)). o_PaymentId ord \<noteq> [] \<longrightarrow> o_PaymentStatus ord = SuccPayment
        \<and> (\<exists>r \<in> set (receipts (s_wdb s)). r_EverHash r = o_PaymentId ord))
    \<and> (\<forall>r \<in> set (receipts (s_wdb s)). paid_orders r (s_wdb s) \<noteq> [] \<longrightarrow> r_Status r = Spent \<and> r_EverHash r \<notin> transfer_hash ` set ts
        \<and> ((\<forall>ord \<in> set (orders (s_wdb s)). \<exists>f \<ge> 0. SetString (o_Fee ord) = Some f) \<longrightarrow>
           (\<exists>amount fee. SetString (r_Amount r) = Some amount \<and> total_fee (paid_orders r (s_wdb s)) = Some fee \<and> fee \<le> amount)))"
proof -
  let ?w = "s_wdb s" and ?l = "ledger_of ts (s_wdb s)"
  have ok: "ledger_ok ?l" using jobs.reachable_inv [OF assms(1) fresh_node_ok [OF assms(2)]] by simp
  then have "distinct (map transfer_hash ts)" "amounts_ok ?l" by (simp_all add: ledger_ok_def refunds_ok_def)
  moreover have "\<forall>ord \<in> set (orders ?w). o_PaymentId ord \<noteq> [] \<longrightarrow> o_PaymentStatus ord = SuccPayment
      \<and> (\<exists>r \<in> set (receipts ?w). r_EverHash r = o_PaymentId ord)"
    using ok by (auto simp: ledger_ok_def payments_ok_def has_receipt_def)
  moreover have "r_Status r = Spent \<and> r_EverHash r \<notin> transfer_hash ` set ts"
    if "r \<in> set (receipts ?w)" "paid_orders r ?w \<noteq> []" for r
    using ledger_used_once [OF ok, of "receipt_abs r"] that paid_orders_abs [of r ts ?w] by simp
  ultimately show ?thesis using receipt_covered [of ts ?w] by blast
qed

text \<open>
  C16: a payment is for good: an order that is paid stays in the table, paid, by the same receipt and with the same fee,
  and a receipt that is spent stays spent with its amount, whatever jobs follow.
\<close>

theorem payments_stay:
  assumes "job\<^sup>*\<^sup>* c d" and "ledger_ok (node_ledger c)"
  shows "order_abs ` {ord \<in> set (orders (s_wdb (fst c))). o_PaymentStatus ord = SuccPayment} \<subseteq> order_abs ` set (orders (s_wdb (fst d)))
    \<and> receipt_abs ` {r \<in> set (receipts (s_wdb (fst c))). r_Status r = Spent} \<subseteq> receipt_abs ` set (receipts (s_wdb (fst d)))"
proof -
  have "r \<in> set (l_orders (node_ledger d))" if "r \<in> set (l_orders (node_ledger c))" "a_status r = SuccPayment" for r
    by (rule jobs.stable [OF _ assms, where P = "\<lambda>l. r \<in> set (l_orders l)"]) (use that money_keeps(1) in auto)
  moreover have "v \<in> set (l_receipts (node_ledger d))" if "v \<in> set (l_receipts (node_ledger c))" "v_status v = Spent" for v
    by (rule jobs.stable [OF _ assms, where P = "\<lambda>l. v \<in> set (l_receipts l)"]) (use that money_keeps(2) in auto)
  ultimately show ?thesis by (auto simp: node_ledger_def)
qed

text \<open>A receipt that cannot be used is refunded; and the state between.\<close>

theorem jobs_refine_ledger_witness:
  "ledger_ok (ledger_of (fst (refundReceipt sample_pay 5000 (mergeReceiptEverTxs int_decimal sample_pay Map.empty 5000 sample_wdb)))
     (snd (refundReceipt sample_pay 5000 (mergeReceiptEverTxs int_decimal sample_pay Map.empty 5000 sample_wdb))))"
proof -
  let ?s = "\<lparr>s_store = empty_kv Bolt [], s_wdb = sample_wdb, s_tasks = []\<rparr>"
  let ?w = "mergeReceiptEverTxs int_decimal sample_pay Map.empty 5000 sample_wdb"
  have m: "job (?s, []) (?s\<lparr>s_wdb := ?w\<rparr>, [])" using job.Merge [of ?s "[]" int_decimal sample_pay Map.empty 5000] by simp
  have r: "job (?s\<lparr>s_wdb := ?w\<rparr>, []) (?s\<lparr>s_wdb := snd (refundReceipt sample_pay 5000 ?w)\<rparr>, [] @ fst (refundReceipt sample_pay 5000 ?w))"
    using job.Repay [of sample_pay 5000 "?s\<lparr>s_wdb := ?w\<rparr>" _ _ "[]"] by simp
  have "job\<^sup>*\<^sup>* sample_node (?s\<lparr>s_wdb := snd (refundReceipt sample_pay 5000 ?w)\<rparr>, [] @ fst (refundReceipt sample_pay 5000 ?w))"
    unfolding sample_node_def using m r by (meson converse_rtranclp_into_rtranclp r_into_rtranclp)
  from jobs_refine_ledger [OF this sample_node_ok] show ?thesis by simp
qed

theorem receipts_used_once_witness:
  "distinct (map transfer_hash (fst (refundReceipt sample_pay 5000
     (mergeReceiptEverTxs int_decimal sample_pay Map.empty 5000 (watchEverReceiptTx sample_pay sample_ever empty_wdb)))))"
proof -
  let ?s = "\<lambda>w. \<lparr>s_store = empty_kv Bolt [], s_wdb = w, s_tasks = []\<rparr>"
  let ?w1 = "watchEverReceiptTx sample_pay sample_ever empty_wdb"
  let ?w2 = "mergeReceiptEverTxs int_decimal sample_pay Map.empty 5000 ?w1"
  have a: "job (?s empty_wdb, []) (?s ?w1, [])"
    using job.Receive [of sample_ever "?s empty_wdb" "[]" sample_pay] by (simp add: ever_fresh_def sample_ever_def empty_wdb_def)
  have b: "job (?s ?w1, []) (?s ?w2, [])" using job.Merge [of "?s ?w1" "[]" int_decimal sample_pay Map.empty 5000] by simp
  have c: "job (?s ?w2, []) (?s (snd (refundReceipt sample_pay 5000 ?w2)), [] @ fst (refundReceipt sample_pay 5000 ?w2))"
    using job.Repay [of sample_pay 5000 "?s ?w2" _ _ "[]"] by simp
  have "job\<^sup>*\<^sup>* (?s empty_wdb, []) (?s (snd (refundReceipt sample_pay 5000 ?w2)), [] @ fst (refundReceipt sample_pay 5000 ?w2))"
    using a b c by (meson converse_rtranclp_into_rtranclp r_into_rtranclp)
  from receipts_used_once [OF this] show ?thesis by (simp add: fresh_node_def empty_wdb_def)
qed

theorem payments_stay_witness:
  "\<exists>ord \<in> set (orders (s_wdb (processExpiredOrd 5000 \<lparr>s_store = empty_kv Bolt [],
      s_wdb = sample_wdb\<lparr>orders := [sample_order\<lparr>o_PaymentStatus := SuccPayment\<rparr>]\<rparr>, s_tasks = []\<rparr>))).
    o_ID ord = 1 \<and> o_PaymentStatus ord = SuccPayment"
proof -
  let ?o = "sample_order\<lparr>o_PaymentStatus := SuccPayment\<rparr>"
  let ?s = "\<lparr>s_store = empty_kv Bolt [], s_wdb = sample_wdb\<lparr>orders := [?o]\<rparr>, s_tasks = []\<rparr>"
  have ok: "ledger_ok (node_ledger (?s, []))"
    by (simp add: sample_wdb_def empty_wdb_def ledger_ok_def ids_ok_def payments_ok_def refunds_ok_def amounts_ok_def
      sample_order_def sample_receipt_def covered_def paid_by_def)
  have "job\<^sup>*\<^sup>* (?s, []) (processExpiredOrd 5000 ?s, [])" using job.Expire by blast
  note stay = payments_stay [OF this ok]
  have "order_abs ?o \<in> order_abs ` set (orders (s_wdb (fst (processExpiredOrd 5000 ?s, [] :: transfer list))))"
    by (rule subsetD [OF conjunct1 [OF stay]], rule imageI) simp
  then have "order_abs ?o \<in> order_abs ` set (orders (s_wdb (processExpiredOrd 5000 ?s)))" by simp
  then obtain ord where "ord \<in> set (orders (s_wdb (processExpiredOrd 5000 ?s)))" "order_abs ?o = order_abs ord" by blast
  then show ?thesis by (intro bexI [of _ ord]) (simp_all add: order_abs_def sample_order_def)
qed

end
