(* ===== verification/Races.thy ===== *)
theory Races
  imports Lifecycle
begin

text \<open>
  What Lifecycle leaves out: the scheduler runs each job in a goroutine of its own, and between two requests of one job
  another may run. The expiry job reads the expired orders first and writes them one by one, without
  asking again whether they are still unpaid; a payment may come in between.
\<close>

lemma expire_rest_healthy: "db_healthy (s_wdb s) \<Longrightarrow> db_healthy (s_wdb (expire_rest ord s))"
proof -
  assume h: "db_healthy (s_wdb s)"
  then have e: "ExistPaidOrd i (s_wdb s) = (fst (ExistPaidOrd i (s_wdb s)), s_wdb s)"
    "IsLatestUnpaidOrd i t (s_wdb s) = (fst (IsLatestUnpaidOrd i t (s_wdb s)), s_wdb s)" for i t
    by (simp_all add: ExistPaidOrd_def IsLatestUnpaidOrd_def)
  obtain r d where d: "DelItem (o_ItemId ord) (s_store s) = (r, d)" by fastforce
  show ?thesis
    unfolding expire_rest_def
    by (subst e, simp, subst e) (use h d in \<open>cases r; simp add: on_store_def on_wdb_def bindG_def DelManifest_def\<close>)
qed

text \<open>The writes of the expiry job, on whatever state they find.\<close>

lemma expireAll_ledger:
  "db_healthy (s_wdb s) \<Longrightarrow> l_orders (ledger_of ts (s_wdb (expireAll ords s)))
    = update_rows (\<lambda>x. a_id x \<in> o_ID ` set ords) (\<lambda>x. x\<lparr>a_status := ExpiredPayment\<rparr>) (l_orders (ledger_of ts (s_wdb s)))"
proof (induction ords arbitrary: s)
  case (Cons ord ords)
  let ?up = "\<lambda>I. update_rows (\<lambda>x. a_id x \<in> I) (\<lambda>x. x\<lparr>a_status := ExpiredPayment\<rparr>)"
  obtain r w1 where u: "UpdateOrdToExpiredStatus (o_ID ord) (s_wdb s) = (r, w1)" by fastforce
  have w1: "r = Ret ()" "db_healthy w1" using u Cons.prems by (auto simp: UpdateOrdToExpiredStatus_def)
  let ?s1 = "expire_rest ord (s\<lparr>s_wdb := w1\<rparr>)"
  have run: "expireAll (ord # ords) s = expireAll ords ?s1" using u w1(1) by (simp add: on_wdb_def expire_rest_def)
  have "l_orders (ledger_of ts w1) = ?up {o_ID ord} (l_orders (ledger_of ts (s_wdb s)))"
    using u w1(1) by (cases rule: expired_ledger [where ts = ts]) auto
  then have one: "l_orders (ledger_of ts (s_wdb ?s1)) = ?up {o_ID ord} (l_orders (ledger_of ts (s_wdb s)))"
    by (simp add: quiet_expire_rest)
  have compose: "?up I (?up J os) = ?up (J \<union> I) os" for I J os by (induction os) auto
  have "db_healthy (s_wdb ?s1)" using w1(2) by (intro expire_rest_healthy) simp
  from Cons.IH [OF this] show ?case unfolding run one compose by simp
qed simp

text \<open>
  An expiry that comes late. The orders that the job has read are set to expired whatever has become of them: when one was paid
  in the meantime, its receipt is spent, the order is expired and will not be put on the chain, and the ledger is no longer in order.
\<close>

theorem late_expiry_overrides_payment:
  assumes "db_healthy (s_wdb s)" and "ord \<in> set (orders (s_wdb s))" and "o_PaymentId ord \<noteq> []" and "o_ID ord \<in> o_ID ` set fetched"
  shows "\<exists>r \<in> set (orders (s_wdb (expireAll fetched s))). o_ID r = o_ID ord \<and> o_PaymentId r = o_PaymentId ord \<and> o_PaymentStatus r = ExpiredPayment"
    and "\<not> payments_ok (ledger_of ts (s_wdb (expireAll fetched s)))"
proof -
  let ?l = "ledger_of ts (s_wdb (expireAll fetched s))"
  have "(order_abs ord)\<lparr>a_status := ExpiredPayment\<rparr> \<in> set (l_orders ?l)"
    unfolding expireAll_ledger [OF assms(1)] using assms(2,4) by (auto intro!: rev_image_eqI [of "order_abs ord"])
  then obtain r where r: "r \<in> set (orders (s_wdb (expireAll fetched s)))" "order_abs r = (order_abs ord)\<lparr>a_status := ExpiredPayment\<rparr>"
    by auto
  have f: "o_ID r = o_ID ord" "o_PaymentId r = o_PaymentId ord" "o_PaymentStatus r = ExpiredPayment"
    using arg_cong [OF r(2), of a_id] arg_cong [OF r(2), of a_by] arg_cong [OF r(2), of a_status] by simp_all
  then show "\<exists>r \<in> set (orders (s_wdb (expireAll fetched s))). o_ID r = o_ID ord \<and> o_PaymentId r = o_PaymentId ord
      \<and> o_PaymentStatus r = ExpiredPayment" using r(1) by blast
  show "\<not> payments_ok ?l" using f r(1) assms(3) by (auto simp: payments_ok_def intro!: bexI [of _ r])
qed

theorem late_expiry_overrides_payment_witness:
  "\<not> payments_ok (ledger_of [] (s_wdb (expireAll [sample_order] \<lparr>s_store = empty_kv Bolt [],
     s_wdb = sample_wdb\<lparr>orders := [sample_order\<lparr>o_PaymentStatus := SuccPayment, o_PaymentId := ''0xabc''\<rparr>]\<rparr>, s_tasks = []\<rparr>)))"
  by (rule late_expiry_overrides_payment(2)
    [where ord = "sample_order\<lparr>o_PaymentStatus := SuccPayment, o_PaymentId := ''0xabc''\<rparr>"]) simp_all

end
