(* ===== verification/Gateway.thy ===== *)
theory Gateway
  imports Bundle
begin

text \<open>
  The gateway: manifest.go, ManifestMiddleware (middleware.go), and the data endpoints of api.go with
  their temporary files. \<open>gw_lib\<close> is what answers outside the process: arweave.net, its GraphQL
  endpoint, the JSON text parser and the ArNS process. A manifest is read from the tree of its
  text, in which every key occurs once. A map is iterated in the order of its list.
\<close>

record gw_lib =
  parse_json :: "string \<Rightarrow> json option"
  raw_get :: "string \<Rightarrow> (bool \<times> int \<times> string \<times> string) go"
  QueryBundledIn :: "string list \<Rightarrow> (string \<times> string) list go"
  QueryTransaction :: "string \<Rightarrow> (string \<times> string) go"
  GetBundleItems :: "string \<Rightarrow> string list \<Rightarrow> bundle_item list go"
  gw_arns :: arns

subsection \<open>schema/manifest.go\<close>

record manifest_data =
  mani_index :: string
  mani_paths :: "(string \<times> string) list"

fun resources_of_json :: "(string \<times> json) list \<Rightarrow> (string \<times> string) list option" where
  "resources_of_json [] = Some []"
| "resources_of_json ((p, j) # fs) = (case (case j of JNull \<Rightarrow> Some [] | JObj r \<Rightarrow> jstr r ''id'' | _ \<Rightarrow> None, resources_of_json fs) of
      (Some i, Some rs) \<Rightarrow> Some ((p, i) # rs) | _ \<Rightarrow> None)"

definition manifest_of_json :: "json \<Rightarrow> manifest_data option" where
  "manifest_of_json j = (case j of
      JObj fs \<Rightarrow> (case (jstr fs ''manifest'', jstr fs ''version'',
            case map_of fs ''index'' of None \<Rightarrow> Some [] | Some JNull \<Rightarrow> Some [] | Some (JObj ix) \<Rightarrow> jstr ix ''path'' | _ \<Rightarrow> None,
            case map_of fs ''paths'' of None \<Rightarrow> Some [] | Some JNull \<Rightarrow> Some [] | Some (JObj ps) \<Rightarrow> resources_of_json ps | _ \<Rightarrow> None) of
          (Some _, Some _, Some ix, Some ps) \<Rightarrow> Some \<lparr>mani_index = ix, mani_paths = ps\<rparr>
        | _ \<Rightarrow> None)
    | JNull \<Rightarrow> Some \<lparr>mani_index = [], mani_paths = []\<rparr>
    | _ \<Rightarrow> None)"

definition read_manifest :: "gw_lib \<Rightarrow> string \<Rightarrow> manifest_data go" where
  "read_manifest W text = (case parse_json W text of None \<Rightarrow> Err json_err
     | Some j \<Rightarrow> (case manifest_of_json j of None \<Rightarrow> Err json_err | Some m \<Rightarrow> Ret m))"

subsection \<open>manifest.go: the data of an id\<close>

text \<open>The result is the tags, the contents of the reader if there is one, and the bytes.\<close>

type_synonym found = "tag list \<times> string option \<times> string"

definition parseBundleItem :: "chain_lib \<Rightarrow> binary \<Rightarrow> bundle_item go" where
  "parseBundleItem I b = DecodeItem I b"

definition getBundleItemData :: "goar \<Rightarrow> chain_lib \<Rightarrow> string \<Rightarrow> kvdb \<Rightarrow> found go \<times> kvdb" where
  "getBundleItemData G I i = bindG (LoadItemBinary i) (\<lambda>b d. (andThen (parseBundleItem I b) (\<lambda>item.
     case b of FileData _ \<Rightarrow> Ret (it_Tags item, it_DataReader item, [])
     | MemData _ \<Rightarrow> andThen (Base64Decode G (it_Data item)) (\<lambda>data. Ret (it_Tags item, None, data))), d))"

definition getArTxOrItemData :: "goar \<Rightarrow> chain_lib \<Rightarrow> string \<Rightarrow> kvdb \<Rightarrow> (found go \<times> kvdb) option" where
  "getArTxOrItemData G I i d = (case LoadItemMeta i d of
      (Ret _, d1) \<Rightarrow> Some (getBundleItemData G I i d1)
    | (Panic p, d1) \<Rightarrow> Some (Panic p, d1)
    | (Err _, d1) \<Rightarrow> (case LoadTxMeta i d1 of
          (Ret txMeta, d2) \<Rightarrow> (case txDataByMeta G txMeta d2 of
              None \<Rightarrow> None
            | Some (Ret data, d3) \<Rightarrow> Some (case TagsDecode G (tx_Tags txMeta) of
                  (tags, None) \<Rightarrow> (Ret (tags, None, data), d3) | (_, Some e) \<Rightarrow> (Err e, d3))
            | Some (Err e, d3) \<Rightarrow> Some (Err e, d3)
            | Some (Panic p, d3) \<Rightarrow> Some (Panic p, d3))
        | (Panic p, d2) \<Rightarrow> Some (Panic p, d2)
        | (Err _, d2) \<Rightarrow> Some (Err ErrLocalNotExist, d2)))"

definition getArTxOrItemTags :: "goar \<Rightarrow> string \<Rightarrow> kvdb \<Rightarrow> tag list go \<times> kvdb" where
  "getArTxOrItemTags G i d = (case LoadItemMeta i d of
      (Ret meta, d1) \<Rightarrow> (Ret (it_Tags meta), d1)
    | (Panic p, d1) \<Rightarrow> (Panic p, d1)
    | (Err _, d1) \<Rightarrow> (case LoadTxMeta i d1 of
          (Ret txMeta, d2) \<Rightarrow> (case TagsDecode G (tx_Tags txMeta) of (tags, None) \<Rightarrow> Ret tags | (_, Some e) \<Rightarrow> Err e, d2)
        | (Panic p, d2) \<Rightarrow> (Panic p, d2)
        | (Err _, d2) \<Rightarrow> (Err ErrLocalNotExist, d2)))"

definition found_bytes :: "found \<Rightarrow> string" where
  "found_bytes f = (case f of (tags, Some content, data) \<Rightarrow> content | (tags, None, data) \<Rightarrow> data)"

text \<open>Which id a manifest gives for a path.\<close>

definition manifest_path :: "manifest_data \<Rightarrow> string \<Rightarrow> string go" where
  "manifest_path mani path = (let p = TrimSuffix (TrimPrefix path ''/'') ''/'' in
     if p = [] \<and> mani_index mani = [] then Err ErrPageNotFound
     else let q = (if p = [] then mani_index mani else p) in
       case map_of (mani_paths mani) q of
         Some i \<Rightarrow> Ret i
       | None \<Rightarrow> (case map_of (mani_paths mani) (q @ ''/'' @ ''index.html'') of Some i \<Rightarrow> Ret i | None \<Rightarrow> Err ErrPageNotFound))"

definition handleManifest :: "goar \<Rightarrow> chain_lib \<Rightarrow> gw_lib \<Rightarrow> string \<Rightarrow> string \<Rightarrow> kvdb \<Rightarrow> ((tag list \<times> string) go \<times> kvdb) option" where
  "handleManifest G I W maniData path d = (case andThen (read_manifest W maniData) (\<lambda>mani. manifest_path mani path) of
      Err e \<Rightarrow> Some (Err e, d)
    | Panic p \<Rightarrow> Some (Panic p, d)
    | Ret i \<Rightarrow> (case getArTxOrItemData G I i d of
        None \<Rightarrow> None
      | Some (r, d1) \<Rightarrow> Some (andThen r (\<lambda>f. Ret (fst f, found_bytes f)), d1)))"

subsection \<open>manifest.go: syncManifestData\<close>

fun notStored :: "string list \<Rightarrow> kvdb \<Rightarrow> string list \<times> kvdb" where
  "notStored [] d = ([], d)"
| "notStored (i # ids) d = (case IsExistItemBinary i d of (ex, d1) \<Rightarrow>
     (case notStored ids d1 of (rest, d2) \<Rightarrow> (if ex then rest else i # rest, d2)))"

text \<open>90 ids per query; an edge is an id and the bundle it is in, \<open>[]\<close> for a transaction of the chain.\<close>

function queryAll :: "gw_lib \<Rightarrow> string list \<Rightarrow> (string \<times> string) list go" where
  "queryAll W ids = (if ids = [] then Ret [] else
     case QueryBundledIn W (take 90 ids) of
       Ret es \<Rightarrow> andThen (queryAll W (drop 90 ids)) (\<lambda>rest. Ret (es @ rest))
     | Err e \<Rightarrow> Err (ErrMsg (''BatchGetItemsBundleIn error:'' @ err_text e))
     | Panic p \<Rightarrow> Panic p)"
  by pat_completeness auto
termination
  by (relation "measure (\<lambda>(W, ids). length ids)") auto

declare queryAll.simps [simp del]

fun group_add :: "string \<Rightarrow> string \<Rightarrow> (string \<times> string list) list \<Rightarrow> (string \<times> string list) list" where
  "group_add b i [] = [(b, [i])]"
| "group_add b i ((b', ids) # gs) = (if b = b' then (b', ids @ [i]) # gs else (b', ids) # group_add b i gs)"

definition bundleInItems :: "(string \<times> string) list \<Rightarrow> (string \<times> string list) list" where
  "bundleInItems txs = foldl (\<lambda>gs (i, b). if b = [] then gs else group_add b i gs) [] txs"

fun decodeNested :: "chain_lib \<Rightarrow> string list \<Rightarrow> bundle_item list \<Rightarrow> bundle_item list go" where
  "decodeNested I itemIds [] = Ret []"
| "decodeNested I itemIds (item # items) = (if it_Id item \<in> set itemIds
     then andThen (DecodeItem I (MemData (Bytes (it_ItemBinary item)))) (\<lambda>x.
       andThen (decodeNested I itemIds items) (\<lambda>xs. Ret (x # xs)))
     else decodeNested I itemIds items)"

text \<open>The body and the content type; \<open>raw_get\<close> sends the request to arweave.net.\<close>

definition getRawById :: "gw_lib \<Rightarrow> string \<Rightarrow> (string \<times> string) go" where
  "getRawById W i = andThen (raw_get W (''/raw/'' @ i)) (\<lambda>(ok, status, contentType, data).
     if \<not> ok then Err (ErrMsg (''get raw data statuscode: '' @ FormatInt status @ ''  id: '' @ i)) else Ret (data, contentType))"

text \<open>Whether the bundle is in a bundle itself, and the size of its data.\<close>

definition checkNestBundle :: "gw_lib \<Rightarrow> string \<Rightarrow> (bool \<times> string) go" where
  "checkNestBundle W bundleId = andThen (QueryTransaction W bundleId) (\<lambda>(bundledIn, dataSize). Ret (bundledIn \<noteq> [], dataSize))"

definition getNestBundle :: "chain_lib \<Rightarrow> gw_lib \<Rightarrow> string \<Rightarrow> string list \<Rightarrow> bundle_item list go" where
  "getNestBundle I W nestBundle itemIds = andThen (getRawById W nestBundle) (\<lambda>(data, _).
     andThen (DecodeBundle I data) (decodeNested I itemIds))"

definition bundleItems :: "chain_lib \<Rightarrow> gw_lib \<Rightarrow> string \<Rightarrow> string list \<Rightarrow> bundle_item list go" where
  "bundleItems I W bundleId itemIds = (if (case checkNestBundle W bundleId of Ret (nested, _) \<Rightarrow> nested | _ \<Rightarrow> False)
     then (case getNestBundle I W bundleId itemIds of Err e \<Rightarrow> Err (ErrMsg (''getNestBundle error:'' @ err_text e)) | r \<Rightarrow> r)
     else (case GetBundleItems W bundleId itemIds of Err e \<Rightarrow> Err (ErrMsg (''GetBundleItems error:'' @ err_text e)) | r \<Rightarrow> r))"

fun storeItems :: "codec \<Rightarrow> bundle_item list \<Rightarrow> kvdb \<Rightarrow> unit go \<times> kvdb" where
  "storeItems E [] d = (Ret (), d)"
| "storeItems E (item # items) d = (case saveItem E item d of
      (Ret _, d1) \<Rightarrow> storeItems E items d1
    | (Err e, d1) \<Rightarrow> (Err (ErrMsg ''saveItem failed''), d1)
    | (Panic p, d1) \<Rightarrow> (Panic p, d1))"

fun storeBundles :: "goar \<Rightarrow> chain_lib \<Rightarrow> gw_lib \<Rightarrow> (string \<times> string list) list \<Rightarrow> kvdb \<Rightarrow> unit go \<times> kvdb" where
  "storeBundles G I W [] d = (Ret (), d)"
| "storeBundles G I W ((bundleId, itemIds) # gs) d = (case bundleItems I W bundleId itemIds of
      Err e \<Rightarrow> (Err e, d)
    | Panic p \<Rightarrow> (Panic p, d)
    | Ret items \<Rightarrow> bindG (storeItems (cod G) items) (\<lambda>_. storeBundles G I W gs) d)"

definition manifest_ids :: "gw_lib \<Rightarrow> string \<Rightarrow> string list go" where
  "manifest_ids W i = andThen (getRawById W i) (\<lambda>(data, contentType).
     if contentType = ManifestType then andThen (read_manifest W data) (\<lambda>mani. Ret (i # map snd (mani_paths mani)))
     else Ret [i])"

text \<open>The transactions of the chain are set aside, and nothing more is done with them.\<close>

definition syncManifestData :: "goar \<Rightarrow> chain_lib \<Rightarrow> gw_lib \<Rightarrow> string \<Rightarrow> kvdb \<Rightarrow> unit go \<times> kvdb" where
  "syncManifestData G I W i d = (case manifest_ids W i of
      Err e \<Rightarrow> (Err e, d)
    | Panic p \<Rightarrow> (Panic p, d)
    | Ret allItemIds \<Rightarrow> (case notStored allItemIds d of (itemIds, d1) \<Rightarrow>
        (case queryAll W itemIds of
          Err e \<Rightarrow> (Err e, d1)
        | Panic p \<Rightarrow> (Panic p, d1)
        | Ret txs \<Rightarrow> storeBundles G I W (bundleInItems txs) d1)))"

subsection \<open>The state of the gateway\<close>

text \<open>
  Beside the store, the database and the tasks: the ids the task channel holds, the cache of domains,
  and the temporary files with the number of their users.
\<close>

record gateway =
  g_seed :: seeding
  g_chan :: "string list"
  g_cache :: "(string \<times> string) list"
  g_count :: "(string \<times> int) list"
  g_files :: "(string \<times> string) list"

definition on_seed :: "(seeding \<Rightarrow> 'a go \<times> seeding) \<Rightarrow> gateway \<Rightarrow> 'a go \<times> gateway" where
  "on_seed m g = (case m (g_seed g) of (r, s) \<Rightarrow> (r, g\<lparr>g_seed := s\<rparr>))"

definition on_tasking :: "(tasking \<Rightarrow> 'a go \<times> tasking) \<Rightarrow> gateway \<Rightarrow> 'a go \<times> gateway" where
  "on_tasking m g = (case m \<lparr>tk_store = s_store (g_seed g), tk_map = s_tasks (g_seed g), tk_chan = g_chan g\<rparr> of
     (r, t) \<Rightarrow> (r, g\<lparr>g_seed := (g_seed g)\<lparr>s_store := tk_store t, s_tasks := tk_map t\<rparr>, g_chan := tk_chan t\<rparr>))"

definition put_store :: "kvdb \<Rightarrow> gateway \<Rightarrow> gateway" where
  "put_store d g = g\<lparr>g_seed := (g_seed g)\<lparr>s_store := d\<rparr>\<rparr>"

text \<open>The error of registerTask is dropped.\<close>

definition getArTxOrItemDataForManifest :: "goar \<Rightarrow> chain_lib \<Rightarrow> string \<Rightarrow> gateway \<Rightarrow> (found go \<times> gateway) option" where
  "getArTxOrItemDataForManifest G I i g = (case getArTxOrItemData G I i (s_store (g_seed g)) of
      None \<Rightarrow> None
    | Some (r, d1) \<Rightarrow> Some (if r = Err ErrLocalNotExist
        then ignoring (on_tasking (registerTask i TaskTypeSyncManifest)) (Err ErrLocalNotExist) (put_store d1 g)
        else (r, put_store d1 g)))"

datatype response = RNext | RRedirect string | RProxy | RError int string | RMessage string
  | RData string string | RRange string range_answer | RManifest string string

definition text_type :: "tag list \<Rightarrow> string" where
  "text_type tags = getTagValue tags ContentType @ ''; charset=utf-8''"

text \<open>gin answers a panic of a handler with status 500.\<close>

definition internal :: "'a go \<Rightarrow> response" where
  "internal r = (case r of Err e \<Rightarrow> RError 500 (err_text e) | _ \<Rightarrow> RError 500 [])"

definition pageResponse :: "goar \<Rightarrow> chain_lib \<Rightarrow> gw_lib \<Rightarrow> string \<Rightarrow> string \<Rightarrow> gateway \<Rightarrow> (response \<times> gateway) option" where
  "pageResponse G I W mfData path g = (case handleManifest G I W mfData path (s_store (g_seed g)) of
      None \<Rightarrow> None
    | Some (Ret (tags, data), d1) \<Rightarrow> Some (RData (text_type tags) data, put_store d1 g)
    | Some (r, d1) \<Rightarrow> Some (internal r, put_store d1 g))"

definition sandboxPage :: "goar \<Rightarrow> chain_lib \<Rightarrow> gw_lib \<Rightarrow> string \<Rightarrow> string \<Rightarrow> gateway \<Rightarrow> (response \<times> gateway) option" where
  "sandboxPage G I W prefixUri path g = (case on_seed (on_wdb (GetManifestId prefixUri)) g of
      (Ret mfId, g1) \<Rightarrow> (case getArTxOrItemData G I mfId (s_store (g_seed g1)) of
          None \<Rightarrow> None
        | Some (Ret f, d1) \<Rightarrow> pageResponse G I W (found_bytes f) path (put_store d1 g1)
        | Some (r, d1) \<Rightarrow> Some (internal r, put_store d1 g1))
    | (_, g1) \<Rightarrow> Some (RError 404 ''err_manifest_id_not_found'', g1))"

definition cache_key :: "string \<Rightarrow> string" where
  "cache_key domain = ''txId_'' @ domain"

text \<open>An empty cached value is treated as none.\<close>

definition domainTxId :: "gw_lib \<Rightarrow> string \<Rightarrow> gateway \<Rightarrow> string go \<times> gateway" where
  "domainTxId W domain g = (case map_of (g_cache g) (cache_key domain) of
      Some (c # cs) \<Rightarrow> (Ret (c # cs), g)
    | _ \<Rightarrow> (case QueryDomainTxId (gw_arns W) domain of
        Ret txId \<Rightarrow> (Ret txId, g\<lparr>g_cache := al_put (cache_key domain) txId (g_cache g)\<rparr>)
      | r \<Rightarrow> (r, g)))"

definition syncing :: string where
  "syncing = ''syncing data please wait some minutes and fresh the page''"

definition domainPage :: "goar \<Rightarrow> chain_lib \<Rightarrow> gw_lib \<Rightarrow> string \<Rightarrow> string \<Rightarrow> gateway \<Rightarrow> (response \<times> gateway) option" where
  "domainPage G I W domain path g = (case domainTxId W domain g of
      (Ret txId, g1) \<Rightarrow> (case getArTxOrItemDataForManifest G I txId g1 of
          None \<Rightarrow> None
        | Some (Ret f, g2) \<Rightarrow> if getTagValue (fst f) ContentType = ''text/html''
            then Some (RData (text_type (fst f)) (found_bytes f), g2)
            else pageResponse G I W (found_bytes f) path g2
        | Some (r, g2) \<Rightarrow> if r = Err ErrLocalNotExist then Some (RMessage syncing, g2) else Some (internal r, g2))
    | (r, g1) \<Rightarrow> Some (internal r, g1))"

definition ManifestMiddleware :: "goar \<Rightarrow> chain_lib \<Rightarrow> gw_lib \<Rightarrow> string \<Rightarrow> string \<Rightarrow> string \<Rightarrow> string \<Rightarrow> bool \<Rightarrow> gateway
    \<Rightarrow> (response \<times> gateway) option" where
  "ManifestMiddleware G I W host verb uri path tls g = (case middleware_route (cod G) host verb uri tls of
      ToRoot url \<Rightarrow> Some (RRedirect url, g)
    | ToManifest prefixUri \<Rightarrow> sandboxPage G I W prefixUri path g
    | ToDomain domain \<Rightarrow> domainPage G I W domain path g
    | ToApi \<Rightarrow> Some (RNext, g)
    | ToPanic \<Rightarrow> Some (RError 500 [], g))"

subsection \<open>api.go, jobs.go: temporary files\<close>

definition existTmpFile :: "string \<Rightarrow> gateway \<Rightarrow> bool" where
  "existTmpFile f g \<longleftrightarrow> map_of (g_count g) f \<noteq> None"

definition file_cnt :: "(string \<times> int) list \<Rightarrow> string \<Rightarrow> int" where
  "file_cnt m f = (case map_of m f of None \<Rightarrow> 0 | Some n \<Rightarrow> n)"

definition incFileCnt :: "string \<Rightarrow> gateway \<Rightarrow> gateway" where
  "incFileCnt f g = g\<lparr>g_count := al_put f (i64 (file_cnt (g_count g) f + 1)) (g_count g)\<rparr>"

definition decFileCnt :: "string \<Rightarrow> gateway \<Rightarrow> gateway" where
  "decFileCnt f g = g\<lparr>g_count := al_put f (i64 (file_cnt (g_count g) f - 1)) (g_count g)\<rparr>"

definition deleteTmpFile :: "gateway \<Rightarrow> gateway" where
  "deleteTmpFile g = (let idle = map fst (filter (\<lambda>(f, n). n \<le> 0) (g_count g)) in
     g\<lparr>g_count := filter (\<lambda>(f, n). \<not> n \<le> 0) (g_count g), g_files := filter (\<lambda>(f, c). f \<notin> set idle) (g_files g)\<rparr>)"

text \<open>
  A reader is the contents of its file, moved to the name of the temporary file; the file is in use
  while the range is written.
\<close>

definition dataResponse :: "string \<Rightarrow> string \<Rightarrow> string option \<Rightarrow> string \<Rightarrow> tag list \<Rightarrow> string \<Rightarrow> gateway \<Rightarrow> response \<times> gateway" where
  "dataResponse ip rangeHeader reader data tags i g = (case reader of
      Some content \<Rightarrow> let f = genTmpFileName ip i; g1 = incFileCnt f (g\<lparr>g_files := al_put f content (g_files g)\<rparr>)
        in (RRange (getTagValue tags ContentType) (dataRangeResponse content rangeHeader), decFileCnt f g1)
    | None \<Rightarrow> (RData (text_type tags) data, g))"

subsection \<open>api.go: dataRoute and setManifestUrl\<close>

definition dataRoute :: "goar \<Rightarrow> chain_lib \<Rightarrow> bool \<Rightarrow> string \<Rightarrow> string \<Rightarrow> string \<Rightarrow> bool \<Rightarrow> string \<Rightarrow> gateway \<Rightarrow> (response \<times> gateway) option" where
  "dataRoute G I enableManifest ip rangeHeader host tls txId g = (let f = genTmpFileName ip txId in
     if existTmpFile f g then
       (case map_of (g_files g) f of
         None \<Rightarrow> Some (RError 500 ''no such file or directory'', g)
       | Some content \<Rightarrow> Some (case on_seed (on_store (LoadItemMeta txId)) g of
             (Ret item, g1) \<Rightarrow> dataResponse ip rangeHeader (Some content) [] (it_Tags item) txId g1
           | (r, g1) \<Rightarrow> (internal r, g1)))
     else (case getArTxOrItemData G I txId (s_store (g_seed g)) of
         None \<Rightarrow> None
       | Some (Ret (tags, reader, data), d1) \<Rightarrow> Some (let g1 = put_store d1 g in
           if enableManifest \<and> getTagValue tags ContentType = ManifestType then
             (case on_seed (on_wdb (recordManifest G enableManifest tags txId)) g1 of
               (Ret _, g2) \<Rightarrow> (RRedirect ((if tls then ''https'' else ''http'') @ ''://'' @ expectedTxSandbox (cod G) txId @ ''.'' @ host), g2)
             | (r, g2) \<Rightarrow> (internal r, g2))
           else dataResponse ip rangeHeader reader data tags txId g1)
       | Some (r, d1) \<Rightarrow> Some (if r = Err ErrLocalNotExist then RProxy else internal r, put_store d1 g)))"

definition setManifestUrl :: "goar \<Rightarrow> bool \<Rightarrow> string \<Rightarrow> gateway \<Rightarrow> response \<times> gateway" where
  "setManifestUrl G enableManifest txId g = (let mfUrl = expectedTxSandbox (cod G) txId in
     case on_seed (on_wdb (GetManifestId mfUrl)) g of
       (Ret mfId, g1) \<Rightarrow> (RManifest mfUrl mfId, g1)
     | (_, g1) \<Rightarrow> (case on_seed (on_store (getArTxOrItemTags G txId)) g1 of
           (Ret tags, g2) \<Rightarrow> if enableManifest \<and> getTagValue tags ContentType = ManifestType
               then (case on_seed (on_wdb (InsertManifest mfUrl txId)) g2 of
                   (Ret _, g3) \<Rightarrow> (RManifest mfUrl txId, g3) | (r, g3) \<Rightarrow> (internal r, g3))
               else (RManifest mfUrl txId, g2)
         | (r, g2) \<Rightarrow> (internal r, g2)))"

subsection \<open>Facts\<close>

lemma Trim_slashes:
  assumes "p \<noteq> []" and "hd p \<noteq> CHR ''/''" and "last p \<noteq> CHR ''/''"
  shows "TrimSuffix (TrimPrefix p ''/'') ''/'' = p" and "TrimSuffix (TrimPrefix (''/'' @ p) ''/'') ''/'' = p"
    and "TrimSuffix (TrimPrefix (p @ ''/'') ''/'') ''/'' = p" and "TrimSuffix (TrimPrefix (''/'' @ p @ ''/'') ''/'') ''/'' = p"
proof -
  obtain a q where p: "p = a # q" "a \<noteq> CHR ''/''" using assms by (cases p) auto
  have s: "TrimSuffix p ''/'' = p"
    using assms by (cases p rule: rev_cases) (auto simp: TrimSuffix_def)
  have t: "TrimSuffix (p @ ''/'') ''/'' = p" by (simp add: TrimSuffix_def)
  show "TrimSuffix (TrimPrefix p ''/'') ''/'' = p" "TrimSuffix (TrimPrefix (''/'' @ p) ''/'') ''/'' = p"
    "TrimSuffix (TrimPrefix (p @ ''/'') ''/'') ''/'' = p" "TrimSuffix (TrimPrefix (''/'' @ p @ ''/'') ''/'') ''/'' = p"
    using p s t by (simp_all add: TrimPrefix_def)
qed

lemma manifest_path_trim:
  "TrimSuffix (TrimPrefix path ''/'') ''/'' = TrimSuffix (TrimPrefix path' ''/'') ''/'' \<Longrightarrow> manifest_path m path = manifest_path m path'"
  by (simp add: manifest_path_def)

subsection \<open>Properties\<close>

text \<open>
  C24: what a manifest serves. A path without slashes at its ends is answered alike with a slash before
  it, after it or at both ends: with what its own entry gives, or, when it has none, the entry of its
  index.html; the root is answered as the index path is, and without an index path it is an error.
\<close>

theorem handleManifest_resolves:
  assumes mani: "read_manifest W text = Ret mani"
    and p: "p \<noteq> []" "hd p \<noteq> CHR ''/''" "last p \<noteq> CHR ''/''"
    and path: "path \<in> {p, ''/'' @ p, p @ ''/'', ''/'' @ p @ ''/''}"
  shows "handleManifest G I W text path d
      = (case (case map_of (mani_paths mani) p of Some i \<Rightarrow> Some i | None \<Rightarrow> map_of (mani_paths mani) (p @ ''/'' @ ''index.html'')) of
          None \<Rightarrow> Some (Err ErrPageNotFound, d)
        | Some i \<Rightarrow> map_option (\<lambda>(r, d1). (andThen r (\<lambda>f. Ret (fst f, found_bytes f)), d1)) (getArTxOrItemData G I i d))
    \<and> (mani_index mani = p \<longrightarrow> handleManifest G I W text ''/'' d = handleManifest G I W text p d)
    \<and> (mani_index mani = [] \<longrightarrow> handleManifest G I W text ''/'' d = Some (Err ErrPageNotFound, d))"
proof -
  have trim: "TrimSuffix (TrimPrefix path ''/'') ''/'' = p" using path Trim_slashes [OF p] by auto
  have root: "TrimSuffix (TrimPrefix ''/'' ''/'') ''/'' = []" by (simp add: TrimPrefix_def TrimSuffix_def)
  have 1: "manifest_path mani path = (case map_of (mani_paths mani) p of Some i \<Rightarrow> Ret i
      | None \<Rightarrow> (case map_of (mani_paths mani) (p @ ''/'' @ ''index.html'') of Some i \<Rightarrow> Ret i | None \<Rightarrow> Err ErrPageNotFound))"
    using p(1) trim by (simp add: manifest_path_def Let_def)
  have 2: "manifest_path mani p = manifest_path mani path"
    using trim Trim_slashes(1) [OF p] by (intro manifest_path_trim) simp
  have 3: "mani_index mani = p \<Longrightarrow> manifest_path mani ''/'' = manifest_path mani p"
    using p(1) root Trim_slashes(1) [OF p] by (simp add: manifest_path_def Let_def split: option.split)
  have 4: "mani_index mani = [] \<Longrightarrow> manifest_path mani ''/'' = Err ErrPageNotFound"
    using root by (simp add: manifest_path_def Let_def)
  show ?thesis
    using 3 4 unfolding handleManifest_def mani andThen_simps 1
    by (auto split: option.splits)
qed

text \<open>
  The redirect of a manifest leads to its page. When dataRoute finds the manifest of an id that
  decodes to at least 26 bytes, and no other id has taken its sandbox name, then, while no request
  fails, it answers with a redirect to the sandbox host, and a GET on that host is answered with the
  page that this manifest gives for the path.
\<close>

theorem dataRoute_redirect_reaches_manifest:
  assumes found: "getArTxOrItemData G I txId (s_store (g_seed g)) = Some (Ret (tags, reader, data), s_store (g_seed g))"
    and kind: "getTagValue tags ContentType = ManifestType" and fresh: "\<not> existTmpFile (genTmpFileName ip txId) g"
    and db: "db_healthy (s_wdb (g_seed g))"
    and own: "\<forall>m \<in> set (manifests (s_wdb (g_seed g))). m_Url m = expectedTxSandbox (cod G) txId \<longrightarrow> m_Id m = txId"
    and len: "26 \<le> length (b64bytes (cod G) (replaceId txId))" and uri: "getTxIdFromPath uri = []"
  shows "\<exists>g1. dataRoute G I True ip rangeHeader host tls txId g
        = Some (RRedirect ((if tls then ''https'' else ''http'') @ ''://'' @ expectedTxSandbox (cod G) txId @ ''.'' @ host), g1)
      \<and> ManifestMiddleware G I W (expectedTxSandbox (cod G) txId @ ''.'' @ host) ''GET'' uri path tls g1
        = pageResponse G I W (found_bytes (tags, reader, data)) path g1"
proof -
  let ?sb = "expectedTxSandbox (cod G) txId" and ?s = "g_seed g"
  let ?w = "s_wdb (g_seed g)"
  define w1 where "w1 = (if list_ex (\<lambda>m. m_Url m = ?sb) (manifests ?w) then ?w
    else ?w\<lparr>manifests := manifests ?w @ [\<lparr>m_ID = next_manifest ?w, m_Url = ?sb, m_Id = txId\<rparr>], next_manifest := Suc (next_manifest ?w)\<rparr>)"
  let ?g1 = "g\<lparr>g_seed := (g_seed g)\<lparr>s_wdb := w1\<rparr>\<rparr>"
  have rec: "recordManifest G True tags txId ?w = (Ret (), w1)"
  proof (cases "list_ex (\<lambda>m. m_Url m = ?sb) (manifests ?w)")
    case True
    then have "filter (\<lambda>m. m_Url m = ?sb) (manifests ?w) \<noteq> []" by (auto simp: filter_empty_conv list_ex_iff)
    then show ?thesis using db kind True by (simp add: recordManifest_def GetManifestId_def last_row_def w1_def Let_def)
  next
    case False
    then have "filter (\<lambda>m. m_Url m = ?sb) (manifests ?w) = []" by (simp add: filter_empty_conv list_ex_iff)
    then show ?thesis using db kind False
      by (simp add: recordManifest_def GetManifestId_def last_row_def w1_def Let_def InsertManifest_def)
  qed
  have h1: "db_healthy w1" using db by (simp add: w1_def)
  have get: "GetManifestId ?sb w1 = (Ret txId, w1)"
  proof -
    have "filter (\<lambda>m. m_Url m = ?sb) (manifests w1) \<noteq> []"
      by (auto simp: w1_def filter_empty_conv list_ex_iff)
    moreover have "\<forall>m \<in> set (manifests w1). m_Url m = ?sb \<longrightarrow> m_Id m = txId" using own by (auto simp: w1_def)
    moreover have "last (filter (\<lambda>m. m_Url m = ?sb) (manifests w1)) \<in> set (filter (\<lambda>m. m_Url m = ?sb) (manifests w1))"
      using calculation(1) by (rule last_in_set)
    ultimately show ?thesis using h1 by (auto simp: GetManifestId_def last_row_def)
  qed
  have "hd (Split (CHR ''.'') (?sb @ ''.'' @ host)) = ?sb"
    using hd_Split [of "CHR ''.''" ?sb host] Split_none [OF sandbox_no_dot] by simp
  moreover have "40 < length ?sb" using len by (simp add: length_sandbox)
  ultimately have "getRequestSandbox (?sb @ ''.'' @ host) = ?sb" "?sb \<noteq> []" by (auto simp: getRequestSandbox_def Let_def)
  then have route: "middleware_route (cod G) (?sb @ ''.'' @ host) ''GET'' uri tls = ToManifest ?sb"
    using uri by (simp add: middleware_route_def Let_def)
  have same: "put_store (s_store (g_seed g)) g = g" "put_store (s_store (g_seed ?g1)) ?g1 = ?g1" by (simp_all add: put_store_def)
  have "dataRoute G I True ip rangeHeader host tls txId g
      = Some (RRedirect ((if tls then ''https'' else ''http'') @ ''://'' @ ?sb @ ''.'' @ host), ?g1)"
    using found kind fresh rec same(1) by (simp add: dataRoute_def Let_def on_seed_def on_wdb_def)
  moreover have "ManifestMiddleware G I W (?sb @ ''.'' @ host) ''GET'' uri path tls ?g1
      = pageResponse G I W (found_bytes (tags, reader, data)) path ?g1"
    using route found get same(2) by (simp add: ManifestMiddleware_def sandboxPage_def on_seed_def on_wdb_def)
  ultimately show ?thesis by blast
qed

text \<open>The pieces of syncManifestData on a healthy store.\<close>

lemma saveItem_healthy:
  assumes "healthy d" and "it_DataReader item = None"
  shows "\<exists>d1. saveItem E item d = (Ret (), d1) \<and> healthy d1 \<and> kv_lookup d1 BundleItemBinary (it_Id item) \<noteq> None
    \<and> (\<forall>i. kv_lookup d BundleItemBinary i \<noteq> None \<longrightarrow> kv_lookup d1 BundleItemBinary i \<noteq> None)"
proof (cases "kv_lookup d BundleItemBinary (it_Id item)")
  case None
  then show ?thesis using assms
    by (simp add: saveItem_def IsExistItemBinary_def AtomicSaveItem_def SaveItemBinary_def SaveItemMeta_def bindG_def)
next
  case (Some v)
  then show ?thesis using assms by (simp add: saveItem_def IsExistItemBinary_def)
qed

text \<open>What the store has of items: an item that it has stays as it is, and a new one is one of \<open>X\<close>, with its binary and its meta.\<close>

definition item_saved :: "kvdb \<Rightarrow> bundle_item \<Rightarrow> bool" where
  "item_saved d x \<longleftrightarrow> kv_lookup d BundleItemBinary (it_Id x) = Some (Bytes (it_ItemBinary x))
     \<and> kv_lookup d BundleItemMeta (it_Id x) = Some (JsonItem (item_meta.truncate (x\<lparr>it_Data := []\<rparr>)))"

definition saved_from :: "kvdb \<Rightarrow> kvdb \<Rightarrow> bundle_item set \<Rightarrow> bool" where
  "saved_from d d1 X \<longleftrightarrow> (\<forall>j. kv_lookup d BundleItemBinary j \<noteq> None \<longrightarrow>
      kv_lookup d1 BundleItemBinary j = kv_lookup d BundleItemBinary j \<and> kv_lookup d1 BundleItemMeta j = kv_lookup d BundleItemMeta j)
    \<and> (\<forall>j. kv_lookup d BundleItemBinary j = None \<longrightarrow> (if j \<in> it_Id ` X then \<exists>x \<in> X. it_Id x = j \<and> item_saved d1 x
        else kv_lookup d1 BundleItemBinary j = None))"

lemma saved_from_refl: "saved_from d d {}"
  by (simp add: saved_from_def)

lemma saved_from_trans:
  assumes "saved_from d d1 X" and "saved_from d1 d2 Y"
  shows "saved_from d d2 (X \<union> Y)"
  unfolding saved_from_def
proof (intro conjI allI impI)
  fix j assume j: "kv_lookup d BundleItemBinary j \<noteq> None"
  then show "kv_lookup d2 BundleItemBinary j = kv_lookup d BundleItemBinary j" "kv_lookup d2 BundleItemMeta j = kv_lookup d BundleItemMeta j"
    using assms by (simp_all add: saved_from_def)
next
  fix j assume j: "kv_lookup d BundleItemBinary j = None"
  show "if j \<in> it_Id ` (X \<union> Y) then \<exists>x \<in> X \<union> Y. it_Id x = j \<and> item_saved d2 x else kv_lookup d2 BundleItemBinary j = None"
  proof (cases "j \<in> it_Id ` X")
    case True
    then have "\<exists>x \<in> X. it_Id x = j \<and> item_saved d1 x" using assms(1) j by (simp add: saved_from_def)
    then obtain x where x: "x \<in> X" "it_Id x = j" "item_saved d1 x" by blast
    then have "item_saved d2 x" using assms(2) by (simp add: saved_from_def item_saved_def)
    then show ?thesis using x by auto
  next
    case False
    then have n: "kv_lookup d1 BundleItemBinary j = None" using assms(1) j by (simp add: saved_from_def)
    show ?thesis
    proof (cases "j \<in> it_Id ` Y")
      case True
      then have "\<exists>x \<in> Y. it_Id x = j \<and> item_saved d2 x" using assms(2) n by (simp add: saved_from_def)
      then show ?thesis using True by auto
    next
      case notY: False
      then have "kv_lookup d2 BundleItemBinary j = None" using assms(2) n by (simp add: saved_from_def)
      then show ?thesis using False notY by (simp add: image_Un)
    qed
  qed
qed

lemma saved_items:
  assumes "saved_from d d1 (\<Union>b \<in> B. set (items b))" and j: "kv_lookup d BundleItemBinary j = None"
  shows "if \<exists>b \<in> B. j \<in> it_Id ` set (items b)
    then \<exists>b \<in> B. \<exists>x \<in> set (items b). it_Id x = j \<and> kv_lookup d1 BundleItemBinary j = Some (Bytes (it_ItemBinary x))
      \<and> kv_lookup d1 BundleItemMeta j = Some (JsonItem (item_meta.truncate (x\<lparr>it_Data := []\<rparr>)))
    else kv_lookup d1 BundleItemBinary j = None"
proof -
  let ?X = "\<Union>b \<in> B. set (items b)"
  have e: "(\<exists>b \<in> B. j \<in> it_Id ` set (items b)) \<longleftrightarrow> j \<in> it_Id ` ?X" by blast
  have s: "if j \<in> it_Id ` ?X then \<exists>x \<in> ?X. it_Id x = j \<and> item_saved d1 x else kv_lookup d1 BundleItemBinary j = None"
    using assms(1) j unfolding saved_from_def by blast
  show ?thesis
  proof (cases "j \<in> it_Id ` ?X")
    case True
    then have "\<exists>x \<in> ?X. it_Id x = j \<and> item_saved d1 x" using s by simp
    then obtain x b where "b \<in> B" "x \<in> set (items b)" "it_Id x = j" "item_saved d1 x" by blast
    then show ?thesis unfolding e using True by (auto simp: item_saved_def)
  next
    case False
    then show ?thesis unfolding e using s by simp
  qed
qed

lemma saveItem_saved:
  assumes "healthy d" and "it_DataReader x = None"
  shows "\<exists>d1. saveItem E x d = (Ret (), d1) \<and> healthy d1 \<and> saved_from d d1 {x}"
proof (cases "kv_lookup d BundleItemBinary (it_Id x)")
  case None
  have neq: "BundleItemMeta \<noteq> BundleItemBinary" by (simp add: BundleItemMeta_def BundleItemBinary_def)
  show ?thesis using assms None neq
    by (auto simp: saveItem_def IsExistItemBinary_def AtomicSaveItem_def SaveItemBinary_def SaveItemMeta_def bindG_def saved_from_def item_saved_def)
next
  case (Some v)
  then show ?thesis using assms by (simp add: saveItem_def IsExistItemBinary_def saved_from_def)
qed

lemma storeItems_saved:
  "healthy d \<Longrightarrow> \<forall>x \<in> set items. it_DataReader x = None \<Longrightarrow> \<exists>d1. storeItems E items d = (Ret (), d1) \<and> healthy d1 \<and> saved_from d d1 (set items)"
proof (induction items arbitrary: d)
  case (Cons x items)
  obtain d1 where d1: "saveItem E x d = (Ret (), d1)" "healthy d1" "saved_from d d1 {x}"
    using saveItem_saved [of d x E] Cons.prems by auto
  obtain d2 where d2: "storeItems E items d1 = (Ret (), d2)" "healthy d2" "saved_from d1 d2 (set items)"
    using Cons.IH [OF d1(2)] Cons.prems by auto
  show ?case using d1(1) d2 saved_from_trans [OF d1(3) d2(3)] by auto
qed (simp add: saved_from_refl)

lemma storeBundles_saved:
  "healthy d \<Longrightarrow> \<forall>(b, js) \<in> set gs. bundleItems I W b js = Ret (items b) \<and> (\<forall>x \<in> set (items b). it_DataReader x = None)
    \<Longrightarrow> \<exists>d1. storeBundles G I W gs d = (Ret (), d1) \<and> healthy d1 \<and> saved_from d d1 (\<Union>b \<in> fst ` set gs. set (items b))"
proof (induction gs arbitrary: d)
  case (Cons p gs)
  obtain b js where p: "p = (b, js)" by (cases p)
  have it: "bundleItems I W b js = Ret (items b)" "\<forall>x \<in> set (items b). it_DataReader x = None" using Cons.prems(2) p by auto
  obtain d1 where d1: "storeItems (cod G) (items b) d = (Ret (), d1)" "healthy d1" "saved_from d d1 (set (items b))"
    using storeItems_saved [OF Cons.prems(1) it(2), of "cod G"] by blast
  obtain d2 where d2: "storeBundles G I W gs d1 = (Ret (), d2)" "healthy d2" "saved_from d1 d2 (\<Union>b \<in> fst ` set gs. set (items b))"
    using Cons.IH [OF d1(2)] Cons.prems(2) by auto
  show ?case using p it(1) d1(1) d2 saved_from_trans [OF d1(3) d2(3)] by (simp add: bindG_def)
qed (simp add: saved_from_refl)

text \<open>The groups of \<open>bundleInItems\<close>: each bundle once, with the ids of its edges in their order.\<close>

definition edges_in :: "string \<Rightarrow> (string \<times> string) list \<Rightarrow> string list" where
  "edges_in b txs = map fst (filter (\<lambda>e. snd e = b) txs)"

lemma group_add_groups:
  "distinct (map fst gs) \<Longrightarrow> distinct (map fst (group_add b i gs)) \<and> fst ` set (group_add b i gs) = insert b (fst ` set gs)
    \<and> map_of (group_add b i gs) = (map_of gs)(b \<mapsto> (case map_of gs b of Some js \<Rightarrow> js @ [i] | None \<Rightarrow> [i]))"
  by (induction b i gs rule: group_add.induct) (auto simp: fun_eq_iff map_of_eq_None_iff)

lemma bundleInItems_groups:
  "distinct (map fst (bundleInItems txs)) \<and> fst ` set (bundleInItems txs) = snd ` set txs - {[]}
    \<and> (\<forall>b js. map_of (bundleInItems txs) b = Some js \<longrightarrow> js = edges_in b txs)"
proof (induction txs rule: rev_induct)
  case (snoc t txs)
  obtain i b where t: "t = (i, b)" by (cases t)
  let ?gs = "bundleInItems txs"
  have step: "bundleInItems (txs @ [t]) = (if b = [] then ?gs else group_add b i ?gs)" using t by (simp add: bundleInItems_def)
  show ?case
  proof (cases "b = []")
    case True
    have "\<And>b' js. map_of ?gs b' = Some js \<Longrightarrow> b' \<noteq> []" using snoc by (metis Diff_iff insertI1 map_of_SomeD fst_conv image_eqI)
    then show ?thesis using snoc step t True by (auto simp: edges_in_def)
  next
    case False
    have none: "edges_in b txs = []" if "map_of ?gs b = None"
    proof -
      have "b \<notin> snd ` set txs" using that snoc False by (auto simp: map_of_eq_None_iff)
      then show ?thesis by (auto simp: edges_in_def filter_empty_conv)
    qed
    show ?thesis
      using snoc step t False none group_add_groups [of ?gs b i] by (auto simp: edges_in_def split: option.splits if_splits)
  qed
qed (simp add: bundleInItems_def)

lemma notStored_healthy: "healthy d \<Longrightarrow> notStored ids d = (filter (\<lambda>i. kv_lookup d BundleItemBinary i = None) ids, d)"
  by (induction ids) (auto simp: IsExistItemBinary_def)

text \<open>The queries are for slices of 90 ids.\<close>

lemma queryAll_slices:
  "\<forall>k. 90 * k < length ids \<longrightarrow> QueryBundledIn W (take 90 (drop (90 * k) ids)) = Ret (es k)
    \<Longrightarrow> queryAll W ids = Ret (concat (map es [0..<(length ids + 89) div 90]))"
proof (induction W ids arbitrary: es rule: queryAll.induct)
  case (1 W ids)
  show ?case
  proof (cases "ids = []")
    case True
    then show ?thesis by (simp add: queryAll.simps)
  next
    case False
    have q0: "QueryBundledIn W (take 90 ids) = Ret (es 0)" using 1(2) False by (metis drop0 length_greater_0_conv mult_0_right)
    have rest: "\<forall>k. 90 * k < length (drop 90 ids) \<longrightarrow> QueryBundledIn W (take 90 (drop (90 * k) (drop 90 ids))) = Ret (es (Suc k))"
    proof (intro allI impI)
      fix k assume "90 * k < length (drop 90 ids)"
      then show "QueryBundledIn W (take 90 (drop (90 * k) (drop 90 ids))) = Ret (es (Suc k))"
        using 1(2) [rule_format, of "Suc k"] by (simp add: add.commute)
    qed
    have len: "(length ids + 89) div 90 = Suc ((length (drop 90 ids) + 89) div 90)"
      using False by (cases "length ids \<le> 90") (auto simp: div_if less_Suc_eq_le Suc_diff_le)
    have "map es [0..<Suc n] = es 0 # map (\<lambda>k. es (Suc k)) [0..<n]" for n
      by (simp add: upt_conv_Cons map_Suc_upt [symmetric] comp_def del: upt_Suc)
    then show ?thesis unfolding len
      using 1(1) [OF False q0 rest] q0 False by (subst queryAll.simps) (simp del: upt_Suc)
  qed
qed

lemma queryAll_chain: "QueryBundledIn W [i] = Ret [(i, [])] \<Longrightarrow> queryAll W [i] = Ret [(i, [])]"
  by (simp add: queryAll.simps)

text \<open>
  C26: what syncManifestData fetches, while the requests that it makes are answered and none to the store fails. \<open>es k\<close> is
  the answer of the GraphQL endpoint to the \<open>k\<close>-th slice of 90 ids of the manifest that the store does not have, and \<open>items b\<close> is the answer to the
  request for the items of the bundle \<open>b\<close>, made once for each bundle that these answers name, for the ids that they place in it. Then the run succeeds; every
  item that was there is as it was; and an item that was not there is in the store afterwards exactly when one of the
  bundles gave it, with the binary and the meta of an item that a bundle gave. Nothing is said of the answers: an id that they place in no bundle
  is not fetched.
\<close>

theorem syncManifestData_complete:
  assumes h: "healthy d" and ids: "manifest_ids W i = Ret ids"
    and missing: "missing = filter (\<lambda>j. kv_lookup d BundleItemBinary j = None) ids"
    and gql: "\<forall>k. 90 * k < length missing \<longrightarrow> QueryBundledIn W (take 90 (drop (90 * k) missing)) = Ret (es k)"
    and txs: "txs = concat (map es [0..<(length missing + 89) div 90])"
    and reads: "\<forall>b \<in> snd ` set txs - {[]}. bundleItems I W b (map fst (filter (\<lambda>e. snd e = b) txs)) = Ret (items b)
      \<and> (\<forall>x \<in> set (items b). it_DataReader x = None)"
  shows "\<exists>d1. syncManifestData G I W i d = (Ret (), d1)
    \<and> (\<forall>j. kv_lookup d BundleItemBinary j \<noteq> None \<longrightarrow>
        kv_lookup d1 BundleItemBinary j = kv_lookup d BundleItemBinary j \<and> kv_lookup d1 BundleItemMeta j = kv_lookup d BundleItemMeta j)
    \<and> (\<forall>j. kv_lookup d BundleItemBinary j = None \<longrightarrow> (if \<exists>b \<in> snd ` set txs - {[]}. j \<in> it_Id ` set (items b)
        then \<exists>b \<in> snd ` set txs - {[]}. \<exists>x \<in> set (items b). it_Id x = j \<and> kv_lookup d1 BundleItemBinary j = Some (Bytes (it_ItemBinary x))
          \<and> kv_lookup d1 BundleItemMeta j = Some (JsonItem (item_meta.truncate (x\<lparr>it_Data := []\<rparr>)))
        else kv_lookup d1 BundleItemBinary j = None))"
proof -
  let ?gs = "bundleInItems txs" and ?B = "snd ` set txs - {[]}"
  have query: "queryAll W missing = Ret txs" using queryAll_slices [OF gql] txs by simp
  have "\<forall>(b, js) \<in> set ?gs. bundleItems I W b js = Ret (items b) \<and> (\<forall>x \<in> set (items b). it_DataReader x = None)"
  proof clarify
    fix b js assume g: "(b, js) \<in> set ?gs"
    then have "js = edges_in b txs" using bundleInItems_groups [of txs] by simp
    moreover have "b \<in> snd ` set txs - {[]}" using g bundleInItems_groups [of txs] by (metis fst_conv image_eqI)
    ultimately show "bundleItems I W b js = Ret (items b) \<and> (\<forall>x \<in> set (items b). it_DataReader x = None)"
      using reads by (simp add: edges_in_def)
  qed
  from storeBundles_saved [OF h this, of G] obtain d1 where d1: "storeBundles G I W ?gs d = (Ret (), d1)"
    "saved_from d d1 (\<Union>b \<in> snd ` set txs - {[]}. set (items b))"
    using bundleInItems_groups [of txs] by auto
  have "syncManifestData G I W i d = (Ret (), d1)"
    using ids query d1(1) notStored_healthy [OF h, of ids] missing by (simp add: syncManifestData_def)
  moreover have "if \<exists>b \<in> ?B. j \<in> it_Id ` set (items b)
        then \<exists>b \<in> ?B. \<exists>x \<in> set (items b). it_Id x = j \<and> kv_lookup d1 BundleItemBinary j = Some (Bytes (it_ItemBinary x))
          \<and> kv_lookup d1 BundleItemMeta j = Some (JsonItem (item_meta.truncate (x\<lparr>it_Data := []\<rparr>)))
        else kv_lookup d1 BundleItemBinary j = None" if "kv_lookup d BundleItemBinary j = None" for j
    by (rule saved_items [OF d1(2) that])
  ultimately show ?thesis using d1(2) by (intro exI [of _ d1]) (simp add: saved_from_def)
qed

text \<open>
  A domain that points to a transaction of the chain is never served. With an id that is in no
  bundle and of which nothing is stored, the task registered for it succeeds and stores nothing, so that
  after it, as before, the domain is answered with the request to wait.
\<close>

theorem chain_tx_never_synced:
  assumes h: "healthy (s_store (g_seed g))" and dom: "domainTxId W domain g = (Ret i, g)"
    and none: "kv_lookup (s_store (g_seed g)) BundleItemMeta i = None" "kv_lookup (s_store (g_seed g)) TxMetaBucket i = None"
      "kv_lookup (s_store (g_seed g)) BundleItemBinary i = None"
    and raw: "getRawById W i = Ret (page, contentType)" "contentType \<noteq> ManifestType"
    and gql: "QueryBundledIn W [i] = Ret [(i, [])]"
  shows "syncManifestData G I W i (s_store (g_seed g)) = (Ret (), s_store (g_seed g))
    \<and> (\<exists>g1. domainPage G I W domain path g = Some (RMessage syncing, g1))"
proof -
  have "syncManifestData G I W i (s_store (g_seed g)) = (Ret (), s_store (g_seed g))"
    using raw queryAll_chain [OF gql] none(3) h
    by (simp add: syncManifestData_def manifest_ids_def IsExistItemBinary_def bundleInItems_def)
  moreover have "getArTxOrItemData G I i (s_store (g_seed g)) = Some (Err ErrLocalNotExist, s_store (g_seed g))"
    using h none by (simp add: getArTxOrItemData_def LoadItemMeta_def LoadTxMeta_def bindG_def)
  moreover have "\<exists>g1. ignoring (on_tasking (registerTask i TaskTypeSyncManifest)) (Err ErrLocalNotExist) g = (Err ErrLocalNotExist :: found go, g1)"
    using h by (simp add: ignoring_def on_tasking_def registerTask_def PutTaskPendingPool_def mark_def Let_def)
  moreover have "put_store (s_store (g_seed g)) g = g" by (simp add: put_store_def)
  ultimately show ?thesis
    using dom by (auto simp: domainPage_def getArTxOrItemDataForManifest_def)
qed

text \<open>
  The users of the temporary files: a response starts to use a file (incFileCnt), ends (decFileCnt), and
  the clean-up job runs, in any order. \<open>users f\<close> is the number of responses that use \<open>f\<close>; a file may
  be written at any time.
\<close>

inductive tmp_step :: "gateway \<times> (string \<Rightarrow> nat) \<Rightarrow> gateway \<times> (string \<Rightarrow> nat) \<Rightarrow> bool" where
  opened: "int (users f) < 2 ^ 62 \<Longrightarrow> tmp_step (g, users) (incFileCnt f g, users(f := Suc (users f)))"
| closed: "0 < users f \<Longrightarrow> tmp_step (g, users) (decFileCnt f g, users(f := users f - 1))"
| cleaned: "tmp_step (g, users) (deleteTmpFile g, users)"
| written: "tmp_step (g, users) (g\<lparr>g_files := al_put f content (g_files g)\<rparr>, users)"

definition tmp_ok :: "gateway \<times> (string \<Rightarrow> nat) \<Rightarrow> bool" where
  "tmp_ok p \<longleftrightarrow> (case p of (g, users) \<Rightarrow> al_sorted (g_count g) \<and> al_sorted (g_files g)
     \<and> (\<forall>f. file_cnt (g_count g) f = int (users f) \<and> int (users f) \<le> 2 ^ 62))"

lemma map_of_filter_idle: "al_sorted xs \<Longrightarrow> map_of (filter (\<lambda>(f, n). \<not> n \<le> (0 :: int)) xs) f
    = (case map_of xs f of Some n \<Rightarrow> if n \<le> 0 then None else Some n | None \<Rightarrow> None)"
proof (induction xs)
  case (Cons p xs)
  obtain k n where p: "p = (k, n)" by (cases p)
  have k: "map_of xs k = None" using Cons.prems p by (auto simp: al_sorted_def map_of_eq_None_iff)
  have s: "al_sorted xs" using Cons.prems by (simp add: al_sorted_def)
  show ?case using Cons.IH [OF s] p k by auto
qed simp

lemma al_sorted_filter: "al_sorted xs \<Longrightarrow> al_sorted (filter P xs)"
  unfolding al_sorted_def sorted_wrt_map by (rule sorted_wrt_filter)

lemma map_of_filter_keys: "map_of (filter (\<lambda>(f, c). f \<notin> S) xs) f = (if f \<in> S then None else map_of xs f)"
  by (induction xs) auto

lemma idle_iff: "al_sorted xs \<Longrightarrow> f \<in> fst ` set (filter (\<lambda>(f, n). n \<le> (0 :: int)) xs) \<longleftrightarrow> (\<exists>n. map_of xs f = Some n \<and> n \<le> 0)"
  using al_sorted_distinct [of xs] by (force simp: map_of_eq_Some_iff)

lemma tmp_step_ok:
  "tmp_step p q \<Longrightarrow> tmp_ok p \<Longrightarrow> tmp_ok q"
proof (induction rule: tmp_step.induct)
  case (opened users f g)
  then have "file_cnt (g_count g) f = int (users f)" and "i64 (int (users f) + 1) = int (users f) + 1"
    using opened.prems opened.hyps by (auto simp: tmp_ok_def in_i64_def)
  then show ?case using opened.prems opened.hyps by (auto simp: tmp_ok_def incFileCnt_def file_cnt_def)
next
  case (closed users f g)
  have le: "int (users f) \<le> 2 ^ 62" and cnt: "file_cnt (g_count g) f = int (users f)"
    using closed.prems by (simp_all add: tmp_ok_def)
  have "in_i64 (int (users f) - 1)" using le closed.hyps by (simp add: in_i64_def)
  then have "i64 (int (users f) - 1) = int (users f) - 1" by (rule i64_id)
  moreover have "int (users f - 1) \<le> 2 ^ 62" using le by linarith
  moreover have "int (users f - 1) = int (users f) - 1" using closed.hyps by simp
  ultimately show ?case using closed.prems cnt by (auto simp: tmp_ok_def decFileCnt_def file_cnt_def)
next
  case (cleaned g users)
  then have ok: "al_sorted (g_count g)" "al_sorted (g_files g)" "\<And>f. file_cnt (g_count g) f = int (users f)"
    "\<And>f. int (users f) \<le> 2 ^ 62"
    using cleaned.prems by (simp_all add: tmp_ok_def)
  have "file_cnt (g_count (deleteTmpFile g)) f = int (users f)" for f
    using ok(3) [of f] map_of_filter_idle [OF ok(1), of f]
    by (auto simp: deleteTmpFile_def file_cnt_def Let_def split: option.splits if_splits)
  then show ?case using ok(1,2,4) cleaned by (auto simp: tmp_ok_def deleteTmpFile_def Let_def intro: al_sorted_filter)
next
  case (written g users f content)
  then show ?case by (simp add: tmp_ok_def)
qed

text \<open>
  Temporary files in use are kept. After any sequence of responses and clean-ups that starts without
  temporary files, the count of each file is the number of responses that use it, and a clean-up removes
  no file in use, and forgets every other.
\<close>

theorem tmp_files_in_use_kept:
  assumes reach: "tmp_step\<^sup>*\<^sup>* (g0, \<lambda>_. 0) (g, users)" and start: "g_count g0 = []" "g_files g0 = []"
  shows "file_cnt (g_count g) f = int (users f)
    \<and> map_of (g_files (deleteTmpFile g)) f = (if 0 < users f \<or> \<not> existTmpFile f g then map_of (g_files g) f else None)
    \<and> (existTmpFile f (deleteTmpFile g) \<longleftrightarrow> 0 < users f)"
proof -
  have "tmp_ok (g0, \<lambda>_. 0)" using start by (simp add: tmp_ok_def file_cnt_def)
  with reach have ok: "tmp_ok (g, users)"
    by (induction rule: rtranclp_induct) (auto intro: tmp_step_ok)
  have cnt: "file_cnt (g_count g) f = int (users f)" and sorted: "al_sorted (g_count g)"
    using ok by (simp_all add: tmp_ok_def)
  have "map_of (g_files (deleteTmpFile g)) f = (if 0 < users f \<or> \<not> existTmpFile f g then map_of (g_files g) f else None)"
  proof -
    have "f \<in> fst ` set (filter (\<lambda>(f, n). n \<le> 0) (g_count g)) \<longleftrightarrow> \<not> (0 < users f \<or> \<not> existTmpFile f g)"
      unfolding idle_iff [OF sorted] using cnt by (auto simp: file_cnt_def existTmpFile_def split: option.splits)
    then show ?thesis by (simp add: deleteTmpFile_def Let_def map_of_filter_keys)
  qed
  moreover have "existTmpFile f (deleteTmpFile g) \<longleftrightarrow> 0 < users f"
    using cnt map_of_filter_idle [OF sorted, of f]
    by (auto simp: deleteTmpFile_def existTmpFile_def file_cnt_def Let_def split: option.splits)
  ultimately show ?thesis using cnt by blast
qed

text \<open>Concrete answers for the witnesses.\<close>

definition mani_json :: json where
  "mani_json = JObj [(''manifest'', JStr ''arweave/paths''), (''index'', JObj [(''path'', JStr ''a'')]),
     (''paths'', JObj [(''a'', JObj [(''id'', JStr ''i'')])])]"

definition plain_gw :: gw_lib where
  "plain_gw = \<lparr>parse_json = (\<lambda>s. if s = ''m'' then Some mani_json else None), raw_get = (\<lambda>p. Ret (True, 200, if p = ''/raw/m'' then ManifestType else ''text/html'', drop 5 p)),
     QueryBundledIn = (\<lambda>qs. Ret (map (\<lambda>q. (q, if q = ''chain'' then [] else ''b'')) qs)), QueryTransaction = (\<lambda>_. Ret ([], ''10'')),
     GetBundleItems = (\<lambda>b ids. Ret (map (\<lambda>i. sample_item\<lparr>it_Id := i\<rparr>) ids)),
     gw_arns = sample_arns\<rparr>"

definition empty_gw :: "kvdb \<Rightarrow> wdb \<Rightarrow> gateway" where
  "empty_gw d w = \<lparr>g_seed = \<lparr>s_store = d, s_wdb = w, s_tasks = []\<rparr>, g_chan = [], g_cache = [(cache_key ''site'', ''chain'')],
     g_count = [], g_files = []\<rparr>"

lemma plain_gw_simps [simp]: "read_manifest plain_gw ''m'' = Ret \<lparr>mani_index = ''a'', mani_paths = [(''a'', ''i'')]\<rparr>"
  "QueryBundledIn plain_gw qs = Ret (map (\<lambda>q. (q, if q = ''chain'' then [] else ''b'')) qs)"
  "getRawById plain_gw i = Ret (i, if i = ''m'' then ManifestType else ''text/html'')" "checkNestBundle plain_gw b = Ret (False, ''10'')" "s_store (g_seed (empty_gw d w)) = d"
  "s_wdb (g_seed (empty_gw d w)) = w" "g_count (empty_gw d w) = []" "g_files (empty_gw d w) = []"
  by (simp_all add: read_manifest_def plain_gw_def mani_json_def manifest_of_json_def jstr_def empty_gw_def getRawById_def checkNestBundle_def)

theorem handleManifest_resolves_witness:
  "handleManifest plain_goar plain_chain plain_gw ''m'' ''/'' (empty_kv Bolt []) = Some (Err ErrLocalNotExist, empty_kv Bolt [])"
proof -
  have "getArTxOrItemData plain_goar plain_chain ''i'' (empty_kv Bolt []) = Some (Err ErrLocalNotExist, empty_kv Bolt [])"
    by (simp add: getArTxOrItemData_def LoadItemMeta_def LoadTxMeta_def bindG_def)
  then show ?thesis
    using handleManifest_resolves [of plain_gw "''m''" "\<lparr>mani_index = ''a'', mani_paths = [(''a'', ''i'')]\<rparr>" "''a''" "''a''"
      plain_goar plain_chain "empty_kv Bolt []"] by simp
qed

definition mani_tx :: transaction where
  "mani_tx = plain_tx (replicate 43 (CHR ''a'')) ''r'' ''0'' [\<lparr>tag_name = ContentType, tag_value = ManifestType\<rparr>]"

definition mani_store :: kvdb where
  "mani_store = kv_store TxMetaBucket (replicate 43 (CHR ''a'')) (JsonTx mani_tx) (empty_kv Bolt [])"

theorem dataRoute_redirect_reaches_manifest_witness:
  "\<exists>url g1. dataRoute plain_goar plain_chain True ''1.1.1.1'' [] ''arseed.web3infra.dev'' True (replicate 43 (CHR ''a'')) (empty_gw mani_store empty_wdb)
     = Some (RRedirect url, g1)"
proof -
  let ?i = "replicate 43 (CHR ''a'')" and ?g = "empty_gw mani_store empty_wdb"
  have h: "healthy mani_store" by (simp add: mani_store_def)
  have neq: "BundleItemMeta \<noteq> TxMetaBucket" by (simp add: BundleItemMeta_def TxMetaBucket_def)
  have "getArTxOrItemData plain_goar plain_chain ?i mani_store = Some (Ret (tx_Tags mani_tx, None, []), mani_store)"
    using h neq by (simp add: getArTxOrItemData_def LoadItemMeta_def LoadTxMeta_def bindG_def mani_store_def unmarshal_tx_def blob_empty_def
      txDataByMeta_def getArTxData_def mani_tx_def digits_eval)
  moreover have "length (b64bytes plain_codec (replaceId ?i)) = 43" by (simp add: plain_codec_def replaceId_def)
  moreover have "getTxIdFromPath ''/'' = []" by (simp add: getTxIdFromPath_def)
  moreover have "getTagValue (tx_Tags mani_tx) ContentType = ManifestType" by (simp add: mani_tx_def)
  moreover have "manifests empty_wdb = []" by (simp add: empty_wdb_def)
  ultimately obtain g1 where "dataRoute plain_goar plain_chain True ''1.1.1.1'' [] ''arseed.web3infra.dev'' True ?i ?g
      = Some (RRedirect (''https'' @ ''://'' @ expectedTxSandbox plain_codec ?i @ ''.'' @ ''arseed.web3infra.dev''), g1)"
    using dataRoute_redirect_reaches_manifest [of plain_goar plain_chain ?i ?g "tx_Tags mani_tx" None "[]" "''1.1.1.1''" "''/''" "[]"
      "''arseed.web3infra.dev''" True plain_gw "''/''"]
    by (auto simp: existTmpFile_def)
  then show ?thesis by blast
qed

definition bundled_gw :: gw_lib where
  "bundled_gw = plain_gw\<lparr>QueryBundledIn := (\<lambda>qs. Ret (map (\<lambda>q. (q, if q = ''i'' then ''b'' else [])) qs))\<rparr>"

theorem syncManifestData_complete_witness:
  "\<exists>d1. syncManifestData plain_goar plain_chain bundled_gw ''m'' (empty_kv Bolt []) = (Ret (), d1)
    \<and> kv_lookup d1 BundleItemBinary ''i'' = Some (Bytes (it_ItemBinary sample_item)) \<and> kv_lookup d1 BundleItemBinary ''m'' = None"
proof -
  have h: "healthy (empty_kv Bolt [])" by simp
  have ids: "manifest_ids bundled_gw ''m'' = Ret [''m'', ''i'']"
    by (simp add: manifest_ids_def getRawById_def read_manifest_def plain_gw_def bundled_gw_def mani_json_def manifest_of_json_def jstr_def)
  have gql: "\<forall>k. 90 * k < length [''m'', ''i''] \<longrightarrow> QueryBundledIn bundled_gw (take 90 (drop (90 * k) [''m'', ''i''])) = Ret [(''m'', []), (''i'', ''b'')]"
  proof (intro allI impI)
    fix k :: nat assume "90 * k < length [''m'', ''i'']"
    then have "k = 0" by simp
    then show "QueryBundledIn bundled_gw (take 90 (drop (90 * k) [''m'', ''i''])) = Ret [(''m'', []), (''i'', ''b'')]" by (simp add: bundled_gw_def)
  qed
  have reads: "\<forall>b \<in> snd ` set [(''m'', []), (''i'', ''b'')] - {[]}.
      bundleItems plain_chain bundled_gw b (map fst (filter (\<lambda>e. snd e = b) [(''m'', []), (''i'', ''b'')])) = Ret [sample_item\<lparr>it_Id := ''i''\<rparr>]
      \<and> (\<forall>x \<in> set [sample_item\<lparr>it_Id := ''i''\<rparr>]. it_DataReader x = None)"
    by (auto simp: bundleItems_def bundled_gw_def plain_gw_def checkNestBundle_def sample_item_def)
  have missing: "[''m'', ''i''] = filter (\<lambda>j. kv_lookup (empty_kv Bolt []) BundleItemBinary j = None) [''m'', ''i'']" by simp
  have txs: "[(''m'', []), (''i'', ''b'')] = concat (map (\<lambda>k. [(''m'', []), (''i'', ''b'')]) [0..<(length [''m'', ''i''] + 89) div 90])" by simp
  obtain d1 where d1: "syncManifestData plain_goar plain_chain bundled_gw ''m'' (empty_kv Bolt []) = (Ret (), d1)"
    and new: "\<forall>j. kv_lookup (empty_kv Bolt []) BundleItemBinary j = None \<longrightarrow> (if \<exists>b \<in> snd ` set [(''m'', []), (''i'', ''b'')] - {[]}. j \<in> it_Id ` set [sample_item\<lparr>it_Id := ''i''\<rparr>]
        then \<exists>b \<in> snd ` set [(''m'', []), (''i'', ''b'')] - {[]}. \<exists>x \<in> set [sample_item\<lparr>it_Id := ''i''\<rparr>]. it_Id x = j
          \<and> kv_lookup d1 BundleItemBinary j = Some (Bytes (it_ItemBinary x)) \<and> kv_lookup d1 BundleItemMeta j = Some (JsonItem (item_meta.truncate (x\<lparr>it_Data := []\<rparr>)))
        else kv_lookup d1 BundleItemBinary j = None)"
    using syncManifestData_complete [OF h ids missing gql txs reads, of plain_goar] by (elim exE conjE) (rule that; assumption)
  have "kv_lookup d1 BundleItemBinary ''i'' = Some (Bytes (it_ItemBinary sample_item))" using new [rule_format, of "''i''"] by simp
  moreover have "kv_lookup d1 BundleItemBinary ''m'' = None" using new [rule_format, of "''m''"] by simp
  ultimately show ?thesis using d1 by blast
qed

theorem chain_tx_never_synced_witness:
  "\<exists>g1. domainPage plain_goar plain_chain plain_gw ''site'' ''/'' (empty_gw (empty_kv Bolt []) empty_wdb) = Some (RMessage syncing, g1)"
proof -
  have "domainTxId plain_gw ''site'' (empty_gw (empty_kv Bolt []) empty_wdb) = (Ret ''chain'', empty_gw (empty_kv Bolt []) empty_wdb)"
    by (simp add: domainTxId_def empty_gw_def)
  then show ?thesis
    using chain_tx_never_synced [of "empty_gw (empty_kv Bolt []) empty_wdb" plain_gw "''site''" "''chain''"]
    by (simp add: ManifestType_def)
qed

theorem tmp_files_in_use_kept_witness:
  "existTmpFile ''f'' (deleteTmpFile (incFileCnt ''f'' (empty_gw (empty_kv S3 []) empty_wdb)))"
proof -
  have "tmp_step (empty_gw (empty_kv S3 []) empty_wdb, \<lambda>_. 0)
      (incFileCnt ''f'' (empty_gw (empty_kv S3 []) empty_wdb), (\<lambda>_. 0)(''f'' := Suc 0))"
    using tmp_step.opened [of "\<lambda>_. 0" "''f''"] by simp
  then have "tmp_step\<^sup>*\<^sup>* (empty_gw (empty_kv S3 []) empty_wdb, \<lambda>_. 0)
      (incFileCnt ''f'' (empty_gw (empty_kv S3 []) empty_wdb), (\<lambda>_. 0)(''f'' := Suc 0))" by simp
  from tmp_files_in_use_kept [OF this, of "''f''"] show ?thesis by simp
qed

end
