(* ===== verification/Api.thy ===== *)
theory Api
  imports Gateway
begin

text \<open>
  The other endpoints of api.go: transactions and chunks of the Arweave HTTP interface, bundle items,
  orders, api keys, and the table of routes. A handler takes the decoded parts of its request; its reply
  is a value, a status with an error text, or the request handed to arweave.net. A panic is caught by gin
  and answered with status 500.
\<close>

datatype 'a reply = Reply 'a | Refuse int string | Proxied

definition reply_of :: "int \<Rightarrow> 'a go \<Rightarrow> 'a reply" where
  "reply_of code r = (case r of Ret v \<Rightarrow> Reply v | Err e \<Rightarrow> Refuse code (err_text e) | Panic p \<Rightarrow> Refuse 500 [])"

definition not_found :: "'a reply" where "not_found = Refuse 404 ''Not Found''"

text \<open>gin's DefaultQuery.\<close>

definition default_query :: "(string \<Rightarrow> string option) \<Rightarrow> string \<Rightarrow> string \<Rightarrow> string" where
  "default_query query key dflt = (case query key of None \<Rightarrow> dflt | Some v \<Rightarrow> v)"

definition kv_step :: "(kvdb \<Rightarrow> 'a go \<times> kvdb) \<Rightarrow> gateway \<Rightarrow> 'a go \<times> gateway" where
  "kv_step m = on_seed (on_store m)"

definition db_step :: "(wdb \<Rightarrow> 'a go \<times> wdb) \<Rightarrow> gateway \<Rightarrow> 'a go \<times> gateway" where
  "db_step m = on_seed (on_wdb m)"

subsection \<open>Transactions and chunks\<close>

text \<open>The body is absent, or read and decoded, which can fail.\<close>

definition null_body :: string where "null_body = ''chunk data can not be null''"

definition submitTx :: "goar \<Rightarrow> transaction go option \<Rightarrow> gateway \<Rightarrow> unit reply \<times> gateway" where
  "submitTx G body g = (case body of
      None \<Rightarrow> (Refuse 400 null_body, g)
    | Some (Ret arTx) \<Rightarrow> (case bindG (kv_step (SaveSubmitTx G arTx)) (\<lambda>_. on_tasking (registerTask (tx_ID arTx) TaskTypeBroadcastMeta)) g of
        (r, g1) \<Rightarrow> (reply_of 400 r, g1))
    | Some (Err e) \<Rightarrow> (Refuse 400 (err_text e), g)
    | Some (Panic p) \<Rightarrow> (Refuse 500 [], g))"

definition submitChunk :: "goar \<Rightarrow> chunk go option \<Rightarrow> gateway \<Rightarrow> unit reply \<times> gateway" where
  "submitChunk G body g = (case body of
      None \<Rightarrow> (Refuse 400 null_body, g)
    | Some (Ret c) \<Rightarrow> (case kv_step (SaveSubmitChunk G c) g of (r, g1) \<Rightarrow> (reply_of 400 r, g1))
    | Some (Err e) \<Rightarrow> (Refuse 400 (err_text e), g)
    | Some (Panic p) \<Rightarrow> (Refuse 500 [], g))"

definition getTxOffset :: "goar \<Rightarrow> string \<Rightarrow> gateway \<Rightarrow> (string \<times> string) reply \<times> gateway" where
  "getTxOffset G arId g = (if arId = [] then (Refuse 400 ''invalid_address'', g)
     else case bindG (kv_step (LoadTxMeta arId)) (\<lambda>txMeta. bindG (kv_step (LoadTxDataEndOffSet (cod G) (tx_DataRoot txMeta) (tx_DataSize txMeta)))
         (\<lambda>offset. Pair (Ret (tx_DataSize txMeta, FormatNat (unat offset))))) g of
       (Ret v, g1) \<Rightarrow> (Reply v, g1) | (Err e, g1) \<Rightarrow> (not_found, g1) | (Panic p, g1) \<Rightarrow> (Refuse 500 [], g1))"

definition getChunk_reply :: "goar \<Rightarrow> string \<Rightarrow> gateway \<Rightarrow> chunk reply \<times> gateway" where
  "getChunk_reply G offset g = (case ParseUint offset of
      Ret chunkOffset \<Rightarrow> (case kv_step (LoadChunk (cod G) chunkOffset) g of
          (r, g1) \<Rightarrow> (if r = Err ErrNotExist then not_found else reply_of 400 r, g1))
    | Err e \<Rightarrow> (Refuse 400 (err_text e), g)
    | Panic p \<Rightarrow> (Refuse 500 [], g))"

definition or_proxy :: "'a go \<times> gateway \<Rightarrow> 'a reply \<times> gateway" where
  "or_proxy r = (case r of (Ret v, g) \<Rightarrow> (Reply v, g) | (Err e, g) \<Rightarrow> (Proxied, g) | (Panic p, g) \<Rightarrow> (Refuse 500 [], g))"

definition getTx :: "string \<Rightarrow> gateway \<Rightarrow> transaction reply \<times> gateway" where
  "getTx i g = or_proxy (kv_step (LoadTxMeta i) g)"

datatype field_body = FText string string | FTags "tag list" | FServed response

definition html :: string where "html = ''text/html; charset=utf-8''"

definition tx_field :: "transaction \<Rightarrow> string \<Rightarrow> field_body option" where
  "tx_field tx field = (if field = ''tags'' then Some (FTags (tx_Tags tx))
     else map_option (FText html) (map_of [(''id'', tx_ID tx), (''last_tx'', tx_LastTx tx), (''owner'', tx_Owner tx),
       (''target'', tx_Target tx), (''quantity'', tx_Quantity tx), (''data_root'', tx_DataRoot tx),
       (''data_size'', tx_DataSize tx), (''reward'', tx_Reward tx), (''signature'', tx_Signature tx)] field))"

definition data_type :: "string \<Rightarrow> string option" where
  "data_type field = map_of [(''data.json'', ''application/json''), (''data.txt'', ''application/txt''),
     (''data.pdf'', ''application/pdf''), (''data.png'', ''image/png''), (''data.jpeg'', ''image/jpeg''),
     (''data.gif'', ''image/gif''), (''data.mp4'', ''video/mpeg4'')] field"

definition getTxField :: "goar \<Rightarrow> string \<Rightarrow> string \<Rightarrow> gateway \<Rightarrow> (field_body reply \<times> gateway) option" where
  "getTxField G arid field g = (case kv_step (LoadTxMeta arid) g of
      (Ret txMeta, g1) \<Rightarrow> (case tx_field txMeta field of
          Some b \<Rightarrow> Some (Reply b, g1)
        | None \<Rightarrow> if field \<noteq> ''data'' \<and> data_type field = None then Some (Refuse 400 ''invalid_field'', g1)
            else (case txDataByMeta G txMeta (s_store (g_seed g1)) of
                None \<Rightarrow> None
              | Some (Ret data, d) \<Rightarrow> Some (Reply (case data_type field of
                    None \<Rightarrow> FText html (b64enc (cod G) data) | Some typ \<Rightarrow> FText (typ @ ''; charset=utf-8'') data), put_store d g1)
              | Some (Err e, d) \<Rightarrow> Some (Refuse 400 (err_text e), put_store d g1)
              | Some (Panic p, d) \<Rightarrow> Some (Refuse 500 [], put_store d g1)))
    | (r, g1) \<Rightarrow> Some (case r of Panic p \<Rightarrow> Refuse 500 [] | _ \<Rightarrow> Proxied, g1))"

subsection \<open>Bundle items\<close>

definition getItemMeta :: "string \<Rightarrow> gateway \<Rightarrow> item_meta reply \<times> gateway" where
  "getItemMeta i g = (case kv_step (LoadItemMeta i) g of (r, g1) \<Rightarrow> (reply_of 500 r, g1))"

definition item_field :: "item_meta \<Rightarrow> string \<Rightarrow> field_body option" where
  "item_field meta field = (if field = ''tags'' then Some (FTags (it_Tags meta))
     else map_option (FText html) (map_of [(''id'', it_Id meta), (''anchor'', it_Anchor meta), (''owner'', it_Owner meta),
       (''target'', it_Target meta), (''signature'', it_Signature meta),
       (''signatureType'', FormatInt (it_SignatureType meta))] field))"

definition getItemField :: "goar \<Rightarrow> chain_lib \<Rightarrow> string \<Rightarrow> string \<Rightarrow> string \<Rightarrow> string \<Rightarrow> gateway \<Rightarrow> field_body reply \<times> gateway" where
  "getItemField G I ip rangeHeader i field g = (case kv_step (LoadItemMeta i) g of
      (Ret meta, g1) \<Rightarrow> (case item_field meta field of
          Some b \<Rightarrow> (Reply b, g1)
        | None \<Rightarrow> if field \<noteq> ''data'' \<and> data_type field = None then (Refuse 400 ''invalid_field'', g1)
            else (case kv_step (getBundleItemData G I i) g1 of
                (Ret (tags, reader, data), g2) \<Rightarrow>
                  (case dataResponse ip rangeHeader reader data tags i g2 of (r, g3) \<Rightarrow> (Reply (FServed r), g3))
              | (Err e, g2) \<Rightarrow> (Refuse 500 (err_text e), g2)
              | (Panic p, g2) \<Rightarrow> (Refuse 500 [], g2)))
    | (Err e, g1) \<Rightarrow> (Refuse 404 (err_text e), g1)
    | (Panic p, g1) \<Rightarrow> (Refuse 500 [], g1))"

definition getItemIdsByArId :: "string \<Rightarrow> gateway \<Rightarrow> string list reply \<times> gateway" where
  "getItemIdsByArId arId g = (case kv_step (LoadArIdToItemIds arId) g of (r, g1) \<Rightarrow> (reply_of 500 r, g1))"

definition bundleFee :: "decimal_lib \<Rightarrow> fee_map \<Rightarrow> string \<Rightarrow> string \<Rightarrow> resp_fee reply" where
  "bundleFee L M sz symbol = (case Atoi sz of
      Ret numSize \<Rightarrow> reply_of 500 (CalcItemFee L M symbol numSize)
    | Err e \<Rightarrow> Refuse 400 (err_text e)
    | Panic p \<Rightarrow> Refuse 500 [])"

text \<open>Up to AllowStreamMinItemSize bytes stay in memory, a longer body goes to a file; it can fail while it is read.\<close>

definition AllowStreamMinItemSize :: int where "AllowStreamMinItemSize = 5 * 1024 * 1024"
definition SubmitMaxSize :: int where "SubmitMaxSize = 1024 * 1024 * 1024"

definition setItemData :: "string go \<Rightarrow> (int \<times> binary) go" where
  "setItemData body = andThen body (\<lambda>data. Ret (int (length data),
     if int (length data) > AllowStreamMinItemSize then FileData (Bytes data) else MemData (Bytes data)))"

record resp_order =
  ro_ItemId :: string
  ro_Size :: int
  ro_Bundler :: string
  ro_Currency :: string
  ro_Decimals :: int
  ro_Fee :: string
  ro_PaymentExpiredTime :: int
  ro_ExpectedBlock :: int

definition respOrder :: "string \<Rightarrow> order \<Rightarrow> resp_order" where
  "respOrder bundler od = \<lparr>ro_ItemId = o_ItemId od, ro_Size = o_Size od, ro_Bundler = bundler, ro_Currency = o_Currency od,
     ro_Decimals = o_Decimals od, ro_Fee = o_Fee od, ro_PaymentExpiredTime = o_PaymentExpiredTime od,
     ro_ExpectedBlock = o_ExpectedBlock od\<rparr>"

subsection \<open>Submission of items\<close>

text \<open>
  What a submission carries: the headers, the currency of the path, the query and the body, absent or
  read; \<open>sb_tmp\<close> is the error of making the temporary file.
\<close>

record submission =
  sb_ContentType :: string
  sb_apikey :: string
  sb_header :: "string \<Rightarrow> string"
  sb_currency :: string
  sb_query :: "(string \<times> string list) list"
  sb_body :: "string go option"
  sb_tmp :: "err option"

definition readItem :: "chain_lib \<Rightarrow> string go \<Rightarrow> (int \<times> bundle_item) go" where
  "readItem I body = andThen (setItemData body) (\<lambda>(sz, data). if sz > SubmitMaxSize then Err ErrDataTooBig
     else (case DecodeItem I data of Err e \<Rightarrow> Err (ErrMsg ''decode item binary failed'') | r \<Rightarrow> andThen r (\<lambda>item. Ret (sz, item))))"

text \<open>
  On a body that cannot be decoded the clean-up that is deferred before the error is looked at reads a field of the missing item. It panics after the
  400 is written, and gin recovers: the client has the 400.
\<close>

definition submitItemRequest :: "bundler_cfg \<Rightarrow> int \<Rightarrow> submission \<Rightarrow> gateway \<Rightarrow> resp_order reply \<times> gateway" where
  "submitItemRequest C now q g = (if sb_ContentType q \<noteq> ''application/octet-stream'' then (Refuse 400 ''Wrong body type'', g)
     else case sb_body q of None \<Rightarrow> (Refuse 400 ''can not submit null bundle item'', g)
     | Some body \<Rightarrow> (case sb_tmp q of Some e \<Rightarrow> (Refuse 400 (err_text e), g)
     | None \<Rightarrow> (case readItem (cfg_chain C) body of
         Err e \<Rightarrow> (Refuse 400 (err_text e), g)
       | Panic p \<Rightarrow> (Refuse 500 [], g)
       | Ret (sz, item) \<Rightarrow> (case on_seed (submitItem C now item (sb_currency q) (sb_apikey q) (isSortItems (sb_header q)) sz) g of
           (r, g1) \<Rightarrow> (reply_of 400 (andThen r (\<lambda>ord. Ret (respOrder (bundler_addr (cfg_pay C)) ord))), g1)))))"

text \<open>The values of the query as tags; the signer of the node makes the item.\<close>

definition query_tags :: "(string \<times> string list) list \<Rightarrow> tag list" where
  "query_tags query = concat (map (\<lambda>(k, values). map (\<lambda>v. \<lparr>tag_name = k, tag_value = v\<rparr>) values) query)"

definition signItem :: "(binary \<Rightarrow> tag list \<Rightarrow> bundle_item go) \<Rightarrow> tag list \<Rightarrow> string go \<Rightarrow> (int \<times> bundle_item) go" where
  "signItem CreateAndSignItem tags body = andThen (setItemData body) (\<lambda>(sz, data). if sz > SubmitMaxSize then Err ErrDataTooBig
     else (case CreateAndSignItem data tags of Err e \<Rightarrow> Err (ErrMsg ''assemble bundle item failed'') | r \<Rightarrow> andThen r (\<lambda>item. Ret (sz, item))))"

definition getSignData :: "(binary \<Rightarrow> tag list \<Rightarrow> bundle_item go) \<Rightarrow> (bundle_item \<Rightarrow> string go) \<Rightarrow> submission \<Rightarrow> string reply" where
  "getSignData CreateAndSignItem BundleItemSignData q =
     (if map_of (sb_query q) ''Content-Type'' = None then Refuse 400 ''Query params must include Content-Type''
      else case sb_body q of None \<Rightarrow> Refuse 400 ''can not submit null native data''
      | Some body \<Rightarrow> (case sb_tmp q of Some e \<Rightarrow> Refuse 400 (err_text e)
      | None \<Rightarrow> reply_of 400 (andThen (signItem CreateAndSignItem (query_tags (sb_query q)) body) (\<lambda>(sz, item).
          case BundleItemSignData item of Err e \<Rightarrow> Err (ErrMsg ''BundleItemSignData failed'') | r \<Rightarrow> r))))"

definition submitNativeData ::
  "bundler_cfg \<Rightarrow> (binary \<Rightarrow> tag list \<Rightarrow> bundle_item go) \<Rightarrow> int \<Rightarrow> submission \<Rightarrow> gateway \<Rightarrow> (string \<times> int) reply \<times> gateway" where
  "submitNativeData C CreateAndSignItem now q g = (if sb_apikey q = [] then (Refuse 400 ''Wrong X-API-KEY'', g)
     else case db_step (GetApiKeyDetail (sb_apikey q)) g of
       (Err e, g1) \<Rightarrow> (Refuse 400 (''Wrong X-API-KEY: '' @ err_text e), g1)
     | (Panic p, g1) \<Rightarrow> (Refuse 500 [], g1)
     | (Ret _, g1) \<Rightarrow>
         if map_of (sb_query q) ''Content-Type'' = None then (Refuse 400 ''Query params must include Content-Type'', g1)
         else case sb_body q of None \<Rightarrow> (Refuse 400 ''can not submit null native data'', g1)
         | Some body \<Rightarrow> (case sb_tmp q of Some e \<Rightarrow> (Refuse 400 (err_text e), g1)
         | None \<Rightarrow> (case signItem CreateAndSignItem (query_tags (sb_query q)) body of
             Err e \<Rightarrow> (Refuse 400 (err_text e), g1)
           | Panic p \<Rightarrow> (Refuse 500 [], g1)
           | Ret (sz, item) \<Rightarrow> (case on_seed (submitPaidItem C now item (sb_currency q) (sb_apikey q) (isSortItems (sb_header q)) sz) g1 of
               (r, g2) \<Rightarrow> (reply_of 400 (andThen r (\<lambda>ord. Ret (o_ItemId ord, o_Size ord))), g2)))))"

subsection \<open>Orders\<close>

record resp_get_order =
  rg_ID :: nat
  rg_Order :: resp_order
  rg_PaymentStatus :: string
  rg_PaymentId :: string
  rg_OnChainStatus :: string
  rg_Sort :: bool

definition respGetOrder :: "string \<Rightarrow> order \<Rightarrow> resp_get_order" where
  "respGetOrder bundler od = \<lparr>rg_ID = o_ID od, rg_Order = respOrder bundler od, rg_PaymentStatus = o_PaymentStatus od,
     rg_PaymentId = o_PaymentId od, rg_OnChainStatus = o_OnChainStatus od, rg_Sort = o_Sort od\<rparr>"

definition getOrders :: "pay_lib \<Rightarrow> string \<Rightarrow> (string \<Rightarrow> string option) \<Rightarrow> gateway \<Rightarrow> resp_get_order list reply \<times> gateway" where
  "getOrders L signer query g =
     (case andThen (IDCheck L signer) (\<lambda>signerAddr. andThen (ParseInt (default_query query ''cursorId'' ''0'')) (\<lambda>cursorId.
        andThen (ParseInt (default_query query ''num'' ''20'')) (\<lambda>num. Ret (signerAddr, cursorId, num)))) of
       Ret (signerAddr, cursorId, num) \<Rightarrow> (case db_step (GetOrdersBySigner signerAddr cursorId num) g of
           (r, g1) \<Rightarrow> (reply_of 500 (andThen r (\<lambda>ords. Ret (map (respGetOrder (bundler_addr L)) ords))), g1))
     | Err e \<Rightarrow> (Refuse 400 (err_text e), g)
     | Panic p \<Rightarrow> (Refuse 500 [], g))"

definition page_size :: "int \<Rightarrow> int" where
  "page_size n = (if n \<le> 0 \<or> n > 1000 then 1000 else n)"

definition getOrdersByApiKey :: "pay_lib \<Rightarrow> string \<Rightarrow> (string \<Rightarrow> string option) \<Rightarrow> gateway \<Rightarrow> resp_get_order list reply \<times> gateway" where
  "getOrdersByApiKey L apiKey query g = (case db_step (GetApiKeyDetail apiKey) g of
      (Ret _, g1) \<Rightarrow>
        (case andThen (ParseInt (default_query query ''cursorId'' ''0'')) (\<lambda>cursorId.
           andThen (Atoi (default_query query ''size'' ''0'')) (\<lambda>pageSize. Ret (cursorId, page_size pageSize))) of
          Ret (cursorId, pageSize) \<Rightarrow>
            (case db_step (GetOrdersByApiKey apiKey cursorId pageSize (default_query query ''sort'' ''DESC'')) g1 of
               (r, g2) \<Rightarrow> (reply_of 500 (andThen r (\<lambda>ords. Ret (map (respGetOrder (bundler_addr L)) ords))), g2))
        | Err e \<Rightarrow> (Refuse 400 (err_text e), g1)
        | Panic p \<Rightarrow> (Refuse 500 [], g1))
    | (Err e, g1) \<Rightarrow> (Refuse 400 ''Wrong X-API-KEY'', g1)
    | (Panic p, g1) \<Rightarrow> (Refuse 500 [], g1))"

subsection \<open>Api keys\<close>

text \<open>A balance is asserted to be a string; the division of the decimal package panics on 0.\<close>

fun estimateCap :: "decimal_lib \<Rightarrow> fee_map \<Rightarrow> (string \<times> json) list \<Rightarrow> rat \<Rightarrow> rat go" where
  "estimateCap L M [] cap = Ret cap"
| "estimateCap L M ((symbol, bal) # bals) cap = andThen (json_string bal) (\<lambda>b. case NewFromString L b of
      Err _ \<Rightarrow> estimateCap L M bals cap
    | Panic p \<Rightarrow> Panic p
    | Ret balDe \<Rightarrow> (case GetPerFee M symbol of
        None \<Rightarrow> estimateCap L M bals cap
      | Some perFee \<Rightarrow> let unit_fee = DAdd L (f_Base perFee) (f_PerChunk perFee) in
          if unit_fee = 0 then Panic ''decimal division by 0''
          else estimateCap L M bals (DAdd L cap (DDivRound L (DMul L (of_int MAX_CHUNK_SIZE) balDe) unit_fee))))"

record tok_bal =
  tb_Symbol :: string
  tb_Decimals :: int
  tb_Balance :: string

fun tokenBals :: "fee_map \<Rightarrow> (string \<Rightarrow> string list) \<Rightarrow> (string \<times> json) list \<Rightarrow> (string \<times> tok_bal) list \<Rightarrow> (string \<times> tok_bal) list go" where
  "tokenBals M SymbolToTagArr [] toks = Ret toks"
| "tokenBals M SymbolToTagArr ((symbol, bal) # bals) toks = (case GetPerFee M symbol of
      None \<Rightarrow> tokenBals M SymbolToTagArr bals toks
    | Some perFee \<Rightarrow> (case SymbolToTagArr symbol of
        [] \<Rightarrow> tokenBals M SymbolToTagArr bals toks
      | tag # _ \<Rightarrow> andThen (json_string bal) (\<lambda>b. tokenBals M SymbolToTagArr bals
          (al_put tag \<lparr>tb_Symbol = symbol, tb_Decimals = f_Decimals perFee, tb_Balance = b\<rparr> toks))))"

definition getApiKeyInfo :: "bundler_cfg \<Rightarrow> (string \<Rightarrow> string list) \<Rightarrow> string \<Rightarrow> gateway \<Rightarrow> (string \<times> (string \<times> tok_bal) list) reply \<times> gateway" where
  "getApiKeyInfo C SymbolToTagArr address g = (case IDCheck (cfg_pay C) address of
      Ret addr \<Rightarrow> (case db_step (GetApiKeyDetailByAddress addr) g of
          (r, g1) \<Rightarrow> (reply_of 500 (andThen r (\<lambda>detail. andThen (estimateCap (cfg_dec C) (cfg_fees C) (k_TokenBalance detail) 0) (\<lambda>cap.
            andThen (tokenBals (cfg_fees C) SymbolToTagArr (k_TokenBalance detail) []) (\<lambda>toks.
              Ret (DString (cfg_dec C) (if cap < of_int MAX_CHUNK_SIZE then 0 else cap), toks))))), g1))
    | Err e \<Rightarrow> (Refuse 500 (err_text e), g)
    | Panic p \<Rightarrow> (Refuse 500 [], g))"

text \<open>\<open>Ecrecover\<close> gives the signer of the timestamp.\<close>

definition getApiKey :: "(string \<Rightarrow> string \<Rightarrow> string go) \<Rightarrow> int \<Rightarrow> string \<Rightarrow> string \<Rightarrow> gateway \<Rightarrow> string reply \<times> gateway" where
  "getApiKey Ecrecover now timestamp signature g = (case ParseInt timestamp of
      Ret n \<Rightarrow> if i64 (now - n) > 60 then (Refuse 500 ''timestamp expired'', g)
        else (case Ecrecover timestamp signature of
            Ret addr \<Rightarrow> (case db_step (GetApiKeyDetailByAddress addr) g of
                (r, g1) \<Rightarrow> (reply_of 500 (andThen r (\<lambda>detail. Ret (k_ApiKey detail))), g1))
          | Err e \<Rightarrow> (Refuse 500 (err_text e), g)
          | Panic p \<Rightarrow> (Refuse 500 [], g))
    | _ \<Rightarrow> (Refuse 500 ''timestamp incorrect'', g))"

definition depositRecord :: "fee_map \<Rightarrow> receipt \<Rightarrow> (nat \<times> string \<times> int \<times> string \<times> string \<times> int) option" where
  "depositRecord M tx = map_option (\<lambda>perFee. (r_RawId tx, r_EverHash tx, r_Nonce tx, r_Symbol tx, r_Amount tx, f_Decimals perFee))
     (GetPerFee M (r_Symbol tx))"

definition getApikeyDepositRecords :: "bundler_cfg \<Rightarrow> string \<Rightarrow> (string \<Rightarrow> string option) \<Rightarrow> gateway
    \<Rightarrow> (nat \<times> string \<times> int \<times> string \<times> string \<times> int) list reply \<times> gateway" where
  "getApikeyDepositRecords C address query g = (case IDCheck (cfg_pay C) address of
      Ret addr \<Rightarrow> (case andThen (ParseInt (default_query query ''rawId'' ''0'')) (\<lambda>rawId.
            andThen (ParseInt (default_query query ''num'' ''20'')) (\<lambda>num. Ret (rawId, num))) of
          Ret (rawId, num) \<Rightarrow> (case db_step (GetApiKeyDepositRecords addr rawId num) g of
              (r, g1) \<Rightarrow> (reply_of 500 (andThen r (\<lambda>txs. Ret (List.map_filter (depositRecord (cfg_fees C)) txs))), g1))
        | Err e \<Rightarrow> (Refuse 400 (err_text e), g)
        | Panic p \<Rightarrow> (Refuse 500 [], g))
    | Err e \<Rightarrow> (Refuse 500 (err_text e), g)
    | Panic p \<Rightarrow> (Refuse 500 [], g))"

subsection \<open>Status of the node and statistics\<close>

definition getCacheTasks :: "gateway \<Rightarrow> nat \<times> (string \<times> task) list" where
  "getCacheTasks g = (let tks = GetTasks (s_tasks (g_seed g)) in (length tks, tks))"

definition getBundler :: "bundler_cfg \<Rightarrow> string" where
  "getBundler C = bundler_addr (cfg_pay C)"

definition arseedInfo :: "config \<Rightarrow> (string \<times> string) list \<times> int" where
  "arseedInfo c = ([(''Name'', ''Arseeding''), (''Version'', ''v1.2.0''), (''Documentation'', ''https://web3infra.dev'')], Param c)"

definition getInfo :: "'a cache \<Rightarrow> 'a" where "getInfo c = ca_arInfo c"
definition getAnchor :: "'a cache \<Rightarrow> field_body" where "getAnchor c = FText html (ca_anchor c)"
definition getPeers :: "'a cache \<Rightarrow> string list" where "getPeers c = GetPeers c"

text \<open>What is stored as the statistic is served whatever it is; data that is no JSON gives an empty list.\<close>

definition getRealTimeOrderStatistic :: "(blob \<Rightarrow> 'a list) \<Rightarrow> gateway \<Rightarrow> 'a list reply \<times> gateway" where
  "getRealTimeOrderStatistic decode g = (case kv_step GetRealTimeStatistic g of
     (r, g1) \<Rightarrow> (reply_of 500 (andThen r (\<lambda>v. Ret (decode v))), g1))"

text \<open>\<open>parse_date\<close> is time.Parse with the layout yyyyMMdd, in seconds.\<close>

definition getOrderStatisticByDate :: "(string \<Rightarrow> int option) \<Rightarrow> (string \<Rightarrow> string option) \<Rightarrow> gateway
    \<Rightarrow> (int \<times> string \<times> int \<times> int) list reply \<times> gateway" where
  "getOrderStatisticByDate parse_date query g =
     (case (parse_date (default_query query ''start'' []), parse_date (default_query query ''end'' [])) of
        (Some a, Some b) \<Rightarrow> (case db_step (GetOrderStatisticByDate a b) g of (r, g1) \<Rightarrow> (reply_of 400 r, g1))
      | _ \<Rightarrow> (Refuse 400 ''Wrong time format, what is correct is yyyyMMdd'', g))"

subsection \<open>The routes\<close>

datatype seg = Lit string | Par string

definition routes :: "bool \<Rightarrow> (string \<times> seg list \<times> string) list" where
  "routes enableManifest =
    [(''GET'', [Lit []], ''arseedInfo''), (''POST'', [Lit []], ''arseedInfo''), (''HEAD'', [Lit []], ''arseedInfo''), (''PUT'', [Lit []], ''arseedInfo''),
     (''PATCH'', [Lit []], ''arseedInfo''), (''OPTIONS'', [Lit []], ''arseedInfo''), (''DELETE'', [Lit []], ''arseedInfo''),
     (''CONNECT'', [Lit []], ''arseedInfo''), (''TRACE'', [Lit []], ''arseedInfo''),
     (''POST'', [Lit ''tx''], ''submitTx''), (''POST'', [Lit ''chunk''], ''submitChunk''),
     (''GET'', [Lit ''tx'', Par ''arid'', Lit ''offset''], ''getTxOffset''), (''GET'', [Lit ''tx'', Par ''arid''], ''getTx''),
     (''GET'', [Lit ''chunk'', Par ''offset''], ''getChunk''), (''GET'', [Lit ''tx'', Par ''arid'', Par ''field''], ''getTxField''),
     (''GET'', [Lit ''info''], ''getInfo''), (''GET'', [Lit ''tx_anchor''], ''getAnchor''),
     (''GET'', [Lit ''price'', Par ''size''], ''getTxPrice''), (''GET'', [Lit ''peers''], ''getPeers''),
     (''GET'', [Lit ''tx'', Par ''arid'', Lit ''status''], ''proxyArweaveGateway''),
     (''GET'', [Lit ''price'', Par ''size'', Par ''target''], ''proxyArweaveGateway''),
     (''GET'', [Lit ''block'', Lit ''hash'', Par ''hash''], ''proxyArweaveGateway''),
     (''GET'', [Lit ''block'', Lit ''height'', Par ''height''], ''proxyArweaveGateway''),
     (''GET'', [Lit ''current_block''], ''proxyArweaveGateway''),
     (''GET'', [Lit ''wallet'', Par ''address'', Lit ''balance''], ''proxyArweaveGateway''),
     (''GET'', [Lit ''wallet'', Par ''address'', Lit ''last_tx''], ''proxyArweaveGateway''),
     (''POST'', [Lit ''arql''], ''proxyArweaveGateway''), (''POST'', [Lit ''graphql''], ''proxyArweaveGateway''),
     (''GET'', [Lit ''tx'', Lit ''pending''], ''proxyArweaveGateway''),
     (''GET'', [Lit ''unconfirmed_tx'', Par ''arId''], ''proxyArweaveGateway''),
     (''POST'', [Lit ''job'', Par ''taskType'', Par ''arid''], ''postTask''),
     (''POST'', [Lit ''task'', Par ''taskType'', Par ''arid''], ''postTask''),
     (''POST'', [Lit ''task'', Lit ''kill'', Par ''taskType'', Par ''arid''], ''killTask''),
     (''GET'', [Lit ''task'', Par ''taskType'', Par ''arid''], ''getTask''), (''GET'', [Lit ''task'', Lit ''cache''], ''getCacheTasks''),
     (''GET'', [Lit ''bundle'', Lit ''bundler''], ''getBundler''),
     (''POST'', [Lit ''bundle'', Lit ''tx'', Par ''currency''], ''submitItem''),
     (''POST'', [Lit ''bundle'', Lit ''tx'', Lit ''signData''], ''getSignData''),
     (''GET'', [Lit ''bundle'', Lit ''tx'', Par ''itemId''], ''getItemMeta''),
     (''GET'', [Lit ''bundle'', Lit ''tx'', Par ''itemId'', Par ''field''], ''getItemField''),
     (''GET'', [Lit ''bundle'', Lit ''itemIds'', Par ''arId''], ''getItemIdsByArId''),
     (''GET'', [Lit ''bundle'', Lit ''fees''], ''bundleFees''),
     (''GET'', [Lit ''bundle'', Lit ''fee'', Par ''size'', Par ''currency''], ''bundleFee''),
     (''GET'', [Lit ''bundle'', Lit ''orders'', Par ''signer''], ''getOrders''),
     (''GET'', [Par ''id''], ''dataRoute''), (''HEAD'', [Par ''id''], ''dataRoute'')]
    @ (if enableManifest then [(''POST'', [Lit ''manifest_url'', Par ''id''], ''setManifestUrl'')] else []) @
    [(''POST'', [Lit ''bundle'', Lit ''data'', Par ''currency''], ''submitNativeData''),
     (''GET'', [Lit ''bundle'', Lit ''orders''], ''getOrdersByApiKey''),
     (''GET'', [Lit ''apikey_info'', Par ''address''], ''getApiKeyInfo''),
     (''GET'', [Lit ''apikey'', Par ''timestamp'', Par ''signature''], ''getApiKey''),
     (''GET'', [Lit ''apikey_records'', Lit ''deposit'', Par ''address''], ''getApikeyDepositRecords''),
     (''GET'', [Lit ''statistic'', Lit ''realtime''], ''getRealTimeOrderStatistic''),
     (''GET'', [Lit ''statistic'', Lit ''range''], ''getOrderStatisticByDate'')]"

fun seg_match :: "seg list \<Rightarrow> string list \<Rightarrow> bool" where
  "seg_match [] [] = True"
| "seg_match (Lit l # ps) (w # ws) = (w = l \<and> seg_match ps ws)"
| "seg_match (Par p # ps) (w # ws) = (w \<noteq> [] \<and> seg_match ps ws)"
| "seg_match _ _ = False"

text \<open>The handlers whose pattern a path fits; the router takes the one with a word where another has a parameter.\<close>

definition handlers :: "bool \<Rightarrow> string \<Rightarrow> string \<Rightarrow> string list" where
  "handlers enableManifest verb path = map (\<lambda>(v, ps, h). h)
     (filter (\<lambda>(v, ps, h). v = verb \<and> seg_match ps (tl (Split (CHR ''/'') path))) (routes enableManifest))"

subsection \<open>Facts on pages\<close>

lemma filter_below:
  assumes "sorted_wrt (\<lambda>a b. f b < f a) (p @ q)" and "p \<noteq> []"
  shows "filter (\<lambda>x. f x < (f (last p) :: int)) (p @ q) = q"
proof -
  have "\<forall>x \<in> set p. f (last p) \<le> f x"
  proof -
    have "sorted_wrt (\<lambda>a b. f b < f a) (butlast p @ [last p])" using assms by (simp add: sorted_wrt_append)
    then have "\<forall>x \<in> set (butlast p). f (last p) < f x" by (simp add: sorted_wrt_append)
    moreover have "set p = set (butlast p @ [last p])" using assms(2) by simp
    ultimately show ?thesis by fastforce
  qed
  then have "filter (\<lambda>x. f x < f (last p)) p = []" unfolding filter_empty_conv not_less .
  moreover have "\<forall>x \<in> set q. f x < f (last p)" 
    using assms last_in_set [OF assms(2)] unfolding sorted_wrt_append by blast
  then have "filter (\<lambda>x. f x < f (last p)) q = q" by (simp add: filter_id_conv)
  ultimately show ?thesis by (simp only: filter_append append_Nil)
qed

lemma page_step:
  assumes "sorted_wrt (\<lambda>a b. f b < (f a :: int)) xs" and ys: "ys = filter (\<lambda>x. f x < k) xs" and p: "p = take m ys" and "p \<noteq> []"
  shows "f (last p) < k" and "last p \<in> set xs" and "filter (\<lambda>x. f x < f (last p)) xs = drop m ys"
proof -
  have "last p \<in> set ys" using last_in_set [OF assms(4)] set_take_subset [of m ys] p by blast
  then show k: "f (last p) < k" and "last p \<in> set xs" using ys by simp_all
  have "sorted_wrt (\<lambda>a b. f b < f a) ys" using ys sorted_wrt_filter [OF assms(1)] by simp
  moreover have e: "ys = p @ drop m ys" using p by simp
  ultimately have "filter (\<lambda>x. f x < f (last p)) (p @ drop m ys) = drop m ys"
    using filter_below [of f p "drop m ys"] assms(4) by metis
  moreover have "filter (\<lambda>x. f x < f (last p)) xs = filter (\<lambda>x. f x < f (last p)) ys"
    unfolding ys filter_filter by (rule filter_cong) (use k in auto)
  ultimately show "filter (\<lambda>x. f x < f (last p)) xs = drop m ys" using e by metis
qed

definition listed :: "string \<Rightarrow> order \<Rightarrow> bool" where
  "listed signer r \<longleftrightarrow> o_Signer r = signer \<and> o_OnChainStatus r \<noteq> FailedOnChain"

lemma GetOrdersBySigner_page:
  assumes "db_healthy w" and "0 < num" and "order_size * num \<le> int maxAlloc"
  shows "GetOrdersBySigner signer c num w = (Ret (take (nat num) (filter (\<lambda>r. int (o_ID r) < (if c \<le> 0 then max_int64 else c))
     (rev (filter (listed signer) (orders w))))), w)"
proof -
  have "rev (filter (\<lambda>r. int (o_ID r) < k \<and> o_Signer r = signer \<and> o_OnChainStatus r \<noteq> FailedOnChain) (orders w))
      = filter (\<lambda>r. int (o_ID r) < k) (rev (filter (listed signer) (orders w)))" for k
    by (simp add: rev_filter listed_def conj_commute)
  then show ?thesis using assms by (simp add: GetOrdersBySigner_def with_cap_def limit_rows_def Let_def)
qed

text \<open>Following the cursor: each page starts below the last order of the page before.\<close>

fun followPages :: "nat \<Rightarrow> string \<Rightarrow> int \<Rightarrow> int \<Rightarrow> wdb \<Rightarrow> order list" where
  "followPages 0 signer cursor num w = []"
| "followPages (Suc n) signer cursor num w = (case GetOrdersBySigner signer cursor num w of
      (Ret ords, w1) \<Rightarrow> if ords = [] then [] else ords @ followPages n signer (int (o_ID (last ords))) num w1
    | _ \<Rightarrow> [])"

lemma followPages_all:
  assumes "db_healthy w" and "0 < num" and "sorted_wrt (<) (map o_ID (orders w))" and "\<forall>r \<in> set (orders w). 0 < o_ID r"
    and cap: "order_size * num \<le> int maxAlloc" and "length (filter (\<lambda>r. int (o_ID r) < (if c \<le> 0 then max_int64 else c)) (rev (filter (listed signer) (orders w)))) < n"
  shows "followPages n signer c num w
    = filter (\<lambda>r. int (o_ID r) < (if c \<le> 0 then max_int64 else c)) (rev (filter (listed signer) (orders w)))"
  using assms(6)
proof (induction n arbitrary: c)
  case (Suc n)
  let ?k = "if c \<le> 0 then max_int64 else c"
  let ?xs = "rev (filter (listed signer) (orders w))" and ?ys = "filter (\<lambda>r. int (o_ID r) < ?k) (rev (filter (listed signer) (orders w)))"
  let ?p = "take (nat num) ?ys"
  have page: "GetOrdersBySigner signer c num w = (Ret ?p, w)" by (rule GetOrdersBySigner_page [OF assms(1,2) cap])
  have "sorted_wrt (\<lambda>a b. o_ID a < o_ID b) (filter (listed signer) (orders w))"
    using assms(3) by (intro sorted_wrt_filter) (simp add: sorted_wrt_map)
  then have sx: "sorted_wrt (\<lambda>a b. int (o_ID b) < int (o_ID a)) ?xs" by (simp add: sorted_wrt_rev)
  show ?case
  proof (cases "?p = []")
    case True
    then show ?thesis using page assms(2) by simp
  next
    case False
    have below: "0 < o_ID (last ?p)" and rest: "filter (\<lambda>r. int (o_ID r) < int (o_ID (last ?p))) ?xs = drop (nat num) ?ys"
      using page_step(2,3) [OF sx refl refl False] assms(4) by auto
    have "length (drop (nat num) ?ys) < n" using Suc.prems assms(2) False by (cases ?ys) auto
    then have "followPages n signer (int (o_ID (last ?p))) num w = drop (nat num) ?ys"
      using Suc.IH [of "int (o_ID (last ?p))"] below rest by simp
    then show ?thesis using page False by simp
  qed
qed simp

subsection \<open>Properties\<close>

text \<open>
  A submitted transaction is served. On Bolt, S3 and Aliyun, while no request to the store fails,
  posting a new transaction with its data answers without an error and queues its broadcast; the record
  without its data, the offset of its end and, up to 50 MB, its data are then answered as they were sent.
\<close>

theorem submitted_tx_is_served:
  assumes fresh: "fresh_tx G tx cur (s_store (g_seed g))" and room: "tx_room G tx data (cur + of_nat (length data))"
    and ok: "VerifyTransaction G tx = None" and data: "tx_Data tx \<noteq> []" "b64dec (cod G) (tx_Data tx) = Some data"
    and ck: "chunked G tx data parts cs" and last: "2 \<le> length (last parts)"
    and small: "length data \<le> AllowMaxRespDataSize" and i: "tx_ID tx \<noteq> []"
  shows "\<exists>g1. submitTx G (Some (Ret tx)) g = (Reply (), g1)
    \<and> assembleTaskId (tx_ID tx) TaskTypeBroadcastMeta \<in> set (g_chan g1)
    \<and> getTx (tx_ID tx) g1 = (Reply (tx\<lparr>tx_Data := []\<rparr>), g1)
    \<and> getTxOffset G (tx_ID tx) g1 = (Reply (tx_DataSize tx, FormatNat (unat (cur + of_nat (length data)))), g1)
    \<and> getTxField G (tx_ID tx) ''data'' g1 = Some (Reply (FText html (b64enc (cod G) data)), g1)
    \<and> getTxField G (tx_ID tx) ''data.txt'' g1 = Some (Reply (FText (''application/txt; charset=utf-8'') data), g1)"
proof -
  obtain d2 where d2: "SaveSubmitTx G tx (s_store (g_seed g)) = (Ret (), d2)" "healthy d2"
    "stored_tx G tx data (cur + of_nat (length data)) parts cs d2"
    "kv_lookup d2 TxMetaBucket (tx_ID tx) = Some (JsonTx (tx\<lparr>tx_Data := []\<rparr>))"
    by (rule SaveSubmitTx_run [OF fresh room ok data ck])
  let ?id = "assembleTaskId (tx_ID tx) TaskTypeBroadcastMeta"
  let ?d3 = "kv_store TaskIdPendingPoolBucket ?id (Bytes ''0x01'') d2"
  let ?g1 = "g\<lparr>g_seed := (g_seed g)\<lparr>s_store := ?d3, s_tasks := AddTask (tx_ID tx) TaskTypeBroadcastMeta (s_tasks (g_seed g))\<rparr>,
    g_chan := g_chan g @ [?id]\<rparr>"
  have sub: "submitTx G (Some (Ret tx)) g = (Reply (), ?g1)"
    using d2(1,2) by (simp add: submitTx_def kv_step_def on_seed_def on_store_def bindG_def on_tasking_def registerTask_def
      PutTaskPendingPool_def mark_def reply_of_def)
  have st: "stored_tx G tx data (cur + of_nat (length data)) parts cs ?d3"
    by (rule stored_tx_same [OF d2(3)]) (use d2(2) in auto)
  have meta: "LoadTxMeta (tx_ID tx) ?d3 = (Ret (tx\<lparr>tx_Data := []\<rparr>), ?d3)"
    using d2(2,4) by (intro LoadTxMeta_stored) (simp_all add: bucket_defs)
  have off: "LoadTxDataEndOffSet (cod G) (tx_DataRoot tx) (tx_DataSize tx) ?d3 = (Ret (cur + of_nat (length data)), ?d3)"
    using st room by (intro LoadTxDataEndOffSet_stored) (auto simp: stored_tx_def tx_room_def)
  have read: "getArTxData G (tx_DataRoot tx) (tx_DataSize tx) ?d3 = Some (Ret data, ?d3)"
    by (rule getArTxData_stored(1) [OF room ck st last])
  have len: "unat (of_nat (length data) :: 64 word) = length data"
    using room by (simp add: tx_room_def unat_of_nat maxAlloc_def)
  have "txDataByMeta G (tx\<lparr>tx_Data := []\<rparr>) ?d3 = Some (Ret data, ?d3)"
    using read room small len by (simp add: txDataByMeta_def tx_room_def)
  then have f: "getTxField G (tx_ID tx) ''data'' ?g1 = Some (Reply (FText html (b64enc (cod G) data)), ?g1)"
    "getTxField G (tx_ID tx) ''data.txt'' ?g1 = Some (Reply (FText (''application/txt; charset=utf-8'') data), ?g1)"
    using meta by (simp_all add: getTxField_def kv_step_def on_seed_def on_store_def tx_field_def data_type_def put_store_def)
  have "getTx (tx_ID tx) ?g1 = (Reply (tx\<lparr>tx_Data := []\<rparr>), ?g1)"
    using meta by (simp add: getTx_def kv_step_def on_seed_def on_store_def or_proxy_def)
  moreover have "getTxOffset G (tx_ID tx) ?g1 = (Reply (tx_DataSize tx, FormatNat (unat (cur + of_nat (length data)))), ?g1)"
    using meta off i by (simp add: getTxOffset_def kv_step_def on_seed_def on_store_def bindG_def)
  ultimately show ?thesis using sub f by (intro exI [of _ ?g1]) simp
qed

theorem submitted_tx_is_served_witness:
  "\<exists>g1. submitTx plain_goar (Some (Ret hello_tx)) (empty_gw (empty_kv Bolt []) empty_wdb) = (Reply (), g1)
     \<and> getTxOffset plain_goar ''t'' g1 = (Reply (''5'', FormatNat (unat (5 :: 64 word))), g1)"
proof -
  let ?g = "empty_gw (empty_kv Bolt []) empty_wdb"
  have "tx_room plain_goar hello_tx ''hello'' (0 + of_nat (length ''hello''))"
    by (simp add: tx_room_def maxAlloc_def digits_eval)
  moreover have "s_store (g_seed ?g) = empty_kv Bolt []" by (simp add: empty_gw_def)
  ultimately show ?thesis
    using submitted_tx_is_served [of plain_goar hello_tx 0 ?g "''hello''" "[''hel'', ''lo'']" hello_chunks] hello_fresh [of Bolt]
      hello_chunked by (auto simp: AllowMaxRespDataSize_def)
qed

text \<open>
  C36: a client that follows the cursor of getOrders, whatever the size of its pages, gets every live order
  of the signer exactly once, the newest first; a page of more orders than one allocation can hold (2^48 bytes) is a panic of the query.
\<close>

theorem order_pages_complete:
  assumes "db_healthy w" and "0 < num" and "sorted_wrt (<) (map o_ID (orders w))"
    and "\<forall>r \<in> set (orders w). 0 < o_ID r \<and> int (o_ID r) < max_int64" and "length (orders w) < n"
  shows "if order_size * num \<le> int maxAlloc
    then followPages n signer 0 num w = rev (filter (\<lambda>r. o_Signer r = signer \<and> o_OnChainStatus r \<noteq> FailedOnChain) (orders w))
    else GetOrdersBySigner signer cursorId num w = (Panic ''makeslice: cap out of range'', w)"
proof (cases "order_size * num \<le> int maxAlloc")
  case True
  let ?xs = "rev (filter (listed signer) (orders w))"
  have all: "filter (\<lambda>r. int (o_ID r) < max_int64) ?xs = ?xs" unfolding filter_id_conv using assms(4) by simp
  have "length ?xs < n" using assms(5) le_less_trans [OF length_filter_le] by simp
  then have "followPages n signer 0 num w = ?xs" using followPages_all [OF assms(1-3) _ True, of 0 signer n] assms(4) all by simp
  then show ?thesis using True by (simp add: listed_def [abs_def])
next
  case False
  then show ?thesis by (simp add: GetOrdersBySigner_def with_cap_def Let_def)
qed

theorem order_pages_complete_witness:
  "followPages 3 (o_Signer sample_order) 0 1 (empty_wdb\<lparr>orders := [sample_order\<lparr>o_ID := 1\<rparr>, sample_order\<lparr>o_ID := 2\<rparr>]\<rparr>)
     = [sample_order\<lparr>o_ID := 2\<rparr>, sample_order\<lparr>o_ID := 1\<rparr>]"
  using order_pages_complete [of "empty_wdb\<lparr>orders := [sample_order\<lparr>o_ID := 1\<rparr>, sample_order\<lparr>o_ID := 2\<rparr>]\<rparr>" 1 3 "o_Signer sample_order"]
  by (simp add: max_int64_def sample_order_def status_defs order_size_def maxAlloc_def)

text \<open>
  Items that the backend can store: an item decoded in memory, or one decoded as a stream (\<open>it_DataReader\<close>, what DecodeBundleItemStream
  gives for bodies over 5 MB) on a backend whose Put takes a reader. Bolt and MongoDB refuse it with an unknown data type.
\<close>

definition storable :: "codec \<Rightarrow> bundle_item \<Rightarrow> kvdb \<Rightarrow> bool" where
  "storable E item d \<longleftrightarrow> it_DataReader item = None \<or> kv_kind d \<in> {S3, Aliyun} \<and> is_ret (itemStream E item)"

lemma saveItem_storable:
  assumes "healthy d" and "storable E item d" and "kv_lookup d BundleItemBinary (it_Id item) = None"
  obtains v where "saveItem E item d = (Ret (), kv_store BundleItemMeta (it_Id item) (JsonItem (item_meta.truncate (item\<lparr>it_Data := []\<rparr>)))
    (kv_store BundleItemBinary (it_Id item) v d))"
proof (cases "it_DataReader item")
  case None
  then show thesis using assms(1,3) by (intro that) (simp add: saveItem_def IsExistItemBinary_def AtomicSaveItem_def SaveItemBinary_def SaveItemMeta_def)
next
  case (Some f)
  then obtain s where s: "itemStream E item = Ret s" and k: "kv_kind d \<in> {S3, Aliyun}"
    using assms(2) by (cases "itemStream E item") (auto simp: storable_def)
  have "kv_put BundleItemBinary (it_Id item) (VReader s) d = (Ret (), kv_store BundleItemBinary (it_Id item) (Bytes s) d)"
    using k assms(1) by (auto simp: kv_put_def s3_put_def s3_body_def healthy_def)
  then show thesis using Some s assms(1,3)
    by (intro that) (simp add: saveItem_def IsExistItemBinary_def AtomicSaveItem_def SaveItemBinary_def SaveItemMeta_def)
qed

lemma ProcessSubmitItem_healthy:
  assumes "healthy (s_store s)" and "db_healthy (s_wdb s)" and "VerifyBundleItem (cfg_chain C) item = None"
    and "storable (cod (cfg_goar C)) item (s_store s)" and "kv_lookup (s_store s) BundleItemBinary (it_Id item) = None"
    and "ItemSignerAddr (cfg_chain C) item = Ret signer" and "IDCheck (cfg_pay C) signer = Ret accId"
    and "CalcItemFee (cfg_dec C) (cfg_fees C) currency sz = Ret fee"
    and ord: "ord = new_order C now item accId fee currency noFee apiKey isSort sz"
  shows "\<exists>s1. ProcessSubmitItem C now item currency noFee apiKey isSort sz s = (Ret ord, s1)
    \<and> s_wdb s1 = (s_wdb s)\<lparr>orders := orders (s_wdb s) @ [ord\<lparr>o_ID := next_order (s_wdb s)\<rparr>], next_order := Suc (next_order (s_wdb s))\<rparr>
    \<and> healthy (s_store s1) \<and> kv_lookup (s_store s1) BundleItemMeta (it_Id item)
      = Some (JsonItem (item_meta.truncate (item\<lparr>it_Data := []\<rparr>)))"
proof -
  obtain v where "saveItem (cod (cfg_goar C)) item (s_store s) = (Ret (), kv_store BundleItemMeta (it_Id item)
      (JsonItem (item_meta.truncate (item\<lparr>it_Data := []\<rparr>))) (kv_store BundleItemBinary (it_Id item) v (s_store s)))"
    by (rule saveItem_storable [OF assms(1,4,5)])
  then show ?thesis using assms by (simp add: ProcessSubmitItem_def bindG_def on_store_def on_wdb_def InsertOrder_def)
qed

text \<open>The newest order of a signer heads the list of its orders.\<close>

lemma getOrders_newest:
  assumes "db_healthy (s_wdb (g_seed g))" and "orders (s_wdb (g_seed g)) = rs @ [row]" and "listed accId row" and "int (o_ID row) < max_int64"
    and "IDCheck L accId = Ret accId"
  obtains ords where "getOrders L accId (\<lambda>_. None) g = (Reply (respGetOrder (bundler_addr L) row # ords), g)"
proof -
  have parse: "ParseInt ''0'' = Ret 0" "ParseInt ''20'' = Ret 20"
    by (simp_all add: ParseInt_def SetString_def split_sign_def digits_eval in_i64_def)
  let ?rest = "filter (\<lambda>r. int (o_ID r) < max_int64) (rev (filter (listed accId) rs))"
  have "GetOrdersBySigner accId 0 20 (s_wdb (g_seed g)) = (Ret (take 20 (row # ?rest)), s_wdb (g_seed g))"
    using GetOrdersBySigner_page [OF assms(1), of 20 accId 0] assms(2-4) by (simp add: order_size_def maxAlloc_def)
  then have "GetOrdersBySigner accId 0 20 (s_wdb (g_seed g)) = (Ret (row # take 19 ?rest), s_wdb (g_seed g))"
    by (simp add: take_Cons')
  then show thesis using assms(5) parse
    by (intro that [of "map (respGetOrder (bundler_addr L)) (take 19 ?rest)"])
      (simp add: getOrders_def default_query_def db_step_def on_seed_def on_wdb_def reply_of_def)
qed

text \<open>
  What the submission of a new item does while no request fails: the answer is that of its order, which is the
  last row of the database, and the meta is stored.
\<close>

lemma submitItemRequest_row:
  assumes q: "sb_ContentType q = ''application/octet-stream''" "sb_body q = Some (Ret body)" "sb_tmp q = None"
      "sb_apikey q = []" and sz: "int (length body) \<le> SubmitMaxSize" and noFee: "\<not> cfg_noFee C"
    and item: "DecodeItem (cfg_chain C) (if int (length body) > AllowStreamMinItemSize then FileData (Bytes body) else MemData (Bytes body)) = Ret item"
      "VerifyBundleItem (cfg_chain C) item = None" "storable (cod (cfg_goar C)) item (s_store (g_seed g))"
    and signer: "ItemSignerAddr (cfg_chain C) item = Ret signer" "IDCheck (cfg_pay C) signer = Ret accId"
    and fee: "CalcItemFee (cfg_dec C) (cfg_fees C) (sb_currency q) (int (length body)) = Ret fee"
    and h: "healthy (s_store (g_seed g))" "db_healthy (s_wdb (g_seed g))"
    and new: "kv_lookup (s_store (g_seed g)) BundleItemBinary (it_Id item) = None"
    and ord: "ord = new_order C now item accId fee (sb_currency q) False [] (isSortItems (sb_header q)) (int (length body))"
  obtains g1 where "submitItemRequest C now q g = (Reply (respOrder (bundler_addr (cfg_pay C)) ord), g1)"
    and "s_wdb (g_seed g1) = (s_wdb (g_seed g))\<lparr>orders := orders (s_wdb (g_seed g)) @ [ord\<lparr>o_ID := next_order (s_wdb (g_seed g))\<rparr>],
      next_order := Suc (next_order (s_wdb (g_seed g)))\<rparr>"
    and "getItemMeta (it_Id item) g1 = (Reply (item_meta.truncate (item\<lparr>it_Data := []\<rparr>)), g1)"
proof -
  let ?sz = "int (length body)" and ?w = "s_wdb (g_seed g)"
  obtain s1 where s1: "ProcessSubmitItem C now item (sb_currency q) False [] (isSortItems (sb_header q)) ?sz (g_seed g) = (Ret ord, s1)"
    "s_wdb s1 = ?w\<lparr>orders := orders ?w @ [ord\<lparr>o_ID := next_order ?w\<rparr>], next_order := Suc (next_order ?w)\<rparr>" "healthy (s_store s1)"
    "kv_lookup (s_store s1) BundleItemMeta (it_Id item) = Some (JsonItem (item_meta.truncate (item\<lparr>it_Data := []\<rparr>)))"
    using ProcessSubmitItem_healthy [OF h item(2,3) new signer fee ord] by blast
  have "readItem (cfg_chain C) (Ret body) = Ret (?sz, item)"
    using sz item(1) by (simp add: readItem_def setItemData_def)
  then have "submitItemRequest C now q g = (Reply (respOrder (bundler_addr (cfg_pay C)) ord), g\<lparr>g_seed := s1\<rparr>)"
    using q sz noFee s1(1) by (simp add: submitItemRequest_def submitItem_def on_seed_def reply_of_def SubmitMaxSize_def)
  moreover have "LoadItemMeta (it_Id item) (s_store s1) = (Ret (item_meta.truncate (item\<lparr>it_Data := []\<rparr>)), s_store s1)"
    using s1(3,4) by (simp add: LoadItemMeta_def unmarshal_item_def blob_empty_def)
  then have "getItemMeta (it_Id item) (g\<lparr>g_seed := s1\<rparr>) = (Reply (item_meta.truncate (item\<lparr>it_Data := []\<rparr>)), g\<lparr>g_seed := s1\<rparr>)"
    by (simp add: getItemMeta_def kv_step_def on_seed_def on_store_def reply_of_def)
  ultimately show thesis using s1(2) by (intro that [of "g\<lparr>g_seed := s1\<rparr>"]) simp_all
qed

text \<open>
  A submitted item is registered. While no request fails, posting a new verified item of at most
  1 GB in a priced currency answers with its id, size and fee; the newest order of its signer is then
  that one, waiting and unpaid with the payment deadline, and the meta of the item is served without data.
\<close>

theorem submitted_item_is_registered:
  assumes q: "sb_ContentType q = ''application/octet-stream''" "sb_body q = Some (Ret body)" "sb_tmp q = None"
      "sb_apikey q = []" and sz: "int (length body) \<le> SubmitMaxSize" and noFee: "\<not> cfg_noFee C"
    and item: "DecodeItem (cfg_chain C) (if int (length body) > AllowStreamMinItemSize then FileData (Bytes body) else MemData (Bytes body)) = Ret item"
      "VerifyBundleItem (cfg_chain C) item = None" "storable (cod (cfg_goar C)) item (s_store (g_seed g))"
    and signer: "ItemSignerAddr (cfg_chain C) item = Ret signer" "IDCheck (cfg_pay C) signer = Ret accId" "IDCheck (cfg_pay C) accId = Ret accId"
    and fee: "CalcItemFee (cfg_dec C) (cfg_fees C) (sb_currency q) (int (length body)) = Ret fee"
    and h: "healthy (s_store (g_seed g))" "db_healthy (s_wdb (g_seed g))"
    and new: "kv_lookup (s_store (g_seed g)) BundleItemBinary (it_Id item) = None"
    and room: "int (next_order (s_wdb (g_seed g))) < max_int64"
  shows "\<exists>o1 g1 ords. submitItemRequest C now q g = (Reply o1, g1)
    \<and> ro_ItemId o1 = it_Id item \<and> ro_Size o1 = int (length body) \<and> ro_Fee o1 = rf_FinalFee fee
    \<and> ro_Bundler o1 = bundler_addr (cfg_pay C) \<and> ro_PaymentExpiredTime o1 = i64 (now + cfg_expiredRange C)
    \<and> getOrders (cfg_pay C) accId (\<lambda>_. None) g1 = (Reply (\<lparr>rg_ID = next_order (s_wdb (g_seed g)), rg_Order = o1,
          rg_PaymentStatus = UnPayment, rg_PaymentId = [], rg_OnChainStatus = WaitOnChain, rg_Sort = isSortItems (sb_header q)\<rparr> # ords), g1)
    \<and> getItemMeta (it_Id item) g1 = (Reply (item_meta.truncate (item\<lparr>it_Data := []\<rparr>)), g1)"
proof -
  let ?w = "s_wdb (g_seed g)" and ?ord = "new_order C now item accId fee (sb_currency q) False [] (isSortItems (sb_header q)) (int (length body))"
  let ?row = "?ord\<lparr>o_ID := next_order ?w\<rparr>"
  obtain g1 where g1: "submitItemRequest C now q g = (Reply (respOrder (bundler_addr (cfg_pay C)) ?ord), g1)"
      "s_wdb (g_seed g1) = ?w\<lparr>orders := orders ?w @ [?row], next_order := Suc (next_order ?w)\<rparr>"
      "getItemMeta (it_Id item) g1 = (Reply (item_meta.truncate (item\<lparr>it_Data := []\<rparr>)), g1)"
    using submitItemRequest_row [OF q sz noFee item signer(1,2) fee h new refl] by blast
  have "db_healthy (s_wdb (g_seed g1))" "orders (s_wdb (g_seed g1)) = orders ?w @ [?row]" "listed accId ?row" "int (o_ID ?row) < max_int64"
    using g1(2) h(2) room by (simp_all add: listed_def new_order_def)
  from getOrders_newest [OF this signer(3)] obtain ords where
    "getOrders (cfg_pay C) accId (\<lambda>_. None) g1 = (Reply (respGetOrder (bundler_addr (cfg_pay C)) ?row # ords), g1)" by blast
  then show ?thesis using g1(1,3)
    by (intro exI [of _ "respOrder (bundler_addr (cfg_pay C)) ?ord"] exI [of _ g1] exI [of _ ords])
      (simp add: respGetOrder_def respOrder_def new_order_def)
qed

theorem submitted_item_is_registered_witness:
  "\<exists>o1 g1. submitItemRequest plain_cfg 100 \<lparr>sb_ContentType = ''application/octet-stream'', sb_apikey = [], sb_header = (\<lambda>_. []),
       sb_currency = ''ar'', sb_query = [], sb_body = Some (Ret ''binary''), sb_tmp = None\<rparr> (empty_gw (empty_kv S3 []) empty_wdb)
     = (Reply o1, g1) \<and> ro_ItemId o1 = ''i'' \<and> ro_PaymentExpiredTime o1 = 3700"
proof -
  let ?q = "\<lparr>sb_ContentType = ''application/octet-stream'', sb_apikey = [], sb_header = (\<lambda>_. []),
       sb_currency = ''ar'', sb_query = [], sb_body = Some (Ret ''binary''), sb_tmp = None\<rparr>"
  let ?g = "empty_gw (empty_kv S3 []) empty_wdb"
  have up: "ToUpper ''ar'' = ''AR''" by code_simp
  then obtain fee where fee: "CalcItemFee (cfg_dec plain_cfg) (cfg_fees plain_cfg) ''ar'' 6 = Ret fee"
    by (simp add: CalcItemFee_def GetPerFee_def plain_cfg_def)
  have "s_store (g_seed ?g) = empty_kv S3 []" "s_wdb (g_seed ?g) = empty_wdb" by (simp_all add: empty_gw_def)
  moreover have "DecodeItem plain_chain b = Ret sample_item" for b by (simp add: plain_chain_def)
  moreover have "\<not> cfg_noFee plain_cfg" "cfg_expiredRange plain_cfg = 3600" "next_order empty_wdb = 1" "it_Id sample_item = ''i''"
    "storable E sample_item d" for E d by (simp_all add: plain_cfg_def empty_wdb_def sample_item_def storable_def)
  ultimately show ?thesis
    using submitted_item_is_registered [of ?q "''binary''" plain_cfg sample_item ?g "''addr''" "''addr''" fee 100] fee
    by (simp add: SubmitMaxSize_def AllowStreamMinItemSize_def max_int64_def in_i64_def) blast
qed

text \<open>
  A streamed item is refused on Bolt. The body of a POST of more than 5 MB is decoded as a stream, whose reader
  the Put of Bolt does not take: a verified item of such a body is answered with 400, and nothing is stored.
\<close>

theorem streamed_item_refused_on_bolt:
  assumes q: "sb_ContentType q = ''application/octet-stream''" "sb_body q = Some (Ret body)" "sb_tmp q = None" "sb_apikey q = []"
    and sz: "AllowStreamMinItemSize < int (length body)" "int (length body) \<le> SubmitMaxSize" and mode: "\<not> cfg_noFee C"
    and item: "DecodeItem (cfg_chain C) (FileData (Bytes body)) = Ret item" "VerifyBundleItem (cfg_chain C) item = None"
      "it_DataReader item = Some f" "itemStream (cod (cfg_goar C)) item = Ret str"
    and h: "healthy (s_store (g_seed g))" "kv_kind (s_store (g_seed g)) = Bolt"
    and new: "kv_lookup (s_store (g_seed g)) BundleItemBinary (it_Id item) = None"
  shows "submitItemRequest C now q g = (Refuse 400 (err_text bad_type), g)"
proof -
  have "saveItem (cod (cfg_goar C)) item (s_store (g_seed g)) = (Err bad_type, s_store (g_seed g))"
    using item(3,4) h new by (simp add: saveItem_def IsExistItemBinary_def AtomicSaveItem_def SaveItemBinary_def kv_put_def bolt_put_def)
  then have "ProcessSubmitItem C now item (sb_currency q) False [] (isSortItems (sb_header q)) (int (length body)) (g_seed g) = (Err bad_type, g_seed g)"
    using item(2) by (simp add: ProcessSubmitItem_def bindG_def on_store_def)
  moreover have "readItem (cfg_chain C) (Ret body) = Ret (int (length body), item)"
    using sz item(1) by (simp add: readItem_def setItemData_def)
  ultimately show ?thesis
    using q sz mode by (simp add: submitItemRequest_def submitItem_def on_seed_def reply_of_def SubmitMaxSize_def)
qed

text \<open>
  A node that runs without fees accepts no item. Migrate creates no table of prices for it, so
  updateBundlePerFee never gets a price and the fees stay empty; but ProcessSubmitItem asks for the fee
  in every mode, so every submission is refused, and the verified item is stored all the same.
\<close>

theorem no_fee_node_refuses_items:
  assumes "cfg_fees C = fst (updateBundlePerFee (cfg_dec C) (cfg_arFee C) serve (Map.empty, w))" and "tokenPrices w = []"
    and "healthy (s_store s)" and "VerifyBundleItem (cfg_chain C) item = None" and "it_DataReader item = None"
    and "0 \<le> sz" and "sz \<le> SubmitMaxSize" and "cfg_noFee C"
  shows "\<not> is_ret (fst (submitItem C now item currency [] isSort sz s))
    \<and> orders (s_wdb (snd (submitItem C now item currency [] isSort sz s))) = orders (s_wdb s)
    \<and> kv_lookup (s_store (snd (submitItem C now item currency [] isSort sz s))) BundleItemBinary (it_Id item) \<noteq> None"
proof -
  have "\<not> is_ret (fst (GetBundlePerFees (cfg_dec C) (cfg_arFee C) serve w))"
  proof
    assume "is_ret (fst (GetBundlePerFees (cfg_dec C) (cfg_arFee C) serve w))"
    then obtain M w1 where "GetBundlePerFees (cfg_dec C) (cfg_arFee C) serve w = (Ret M, w1)"
      by (cases "GetBundlePerFees (cfg_dec C) (cfg_arFee C) serve w"; cases "fst (GetBundlePerFees (cfg_dec C) (cfg_arFee C) serve w)") auto
    then show False by (rule GetBundlePerFees_Ret) (use assms(2) in simp)
  qed
  then have "cfg_fees C = Map.empty"
    using assms(1) by (cases "GetBundlePerFees (cfg_dec C) (cfg_arFee C) serve w")
      (auto simp: updateBundlePerFee_def split: go.splits)
  then have "CalcItemFee (cfg_dec C) (cfg_fees C) currency sz = Err (ErrMsg ''not support currency'')"
    by (simp add: CalcItemFee_def GetPerFee_def)
  moreover obtain d1 where "saveItem (cod (cfg_goar C)) item (s_store s) = (Ret (), d1)" "kv_lookup d1 BundleItemBinary (it_Id item) \<noteq> None"
    using saveItem_healthy [OF assms(3,5), of "cod (cfg_goar C)"] by blast
  ultimately show ?thesis
    using assms(4,6-8)
    by (cases "ItemSignerAddr (cfg_chain C) item"; cases "IDCheck (cfg_pay C) (case ItemSignerAddr (cfg_chain C) item of Ret a \<Rightarrow> a | _ \<Rightarrow> [])")
      (auto simp: submitItem_def SubmitMaxSize_def ProcessSubmitItem_def bindG_def on_store_def)
qed

theorem no_fee_node_refuses_items_witness:
  "\<not> is_ret (fst (submitItem (plain_cfg\<lparr>cfg_noFee := True, cfg_fees := Map.empty\<rparr>) 0 sample_item ''AR'' [] False 10 one_item))"
proof -
  have "fst (updateBundlePerFee int_decimal f 0 (Map.empty, empty_wdb)) = Map.empty" for f
    by (simp add: updateBundlePerFee_def GetBundlePerFees_def GetArPrice_def empty_wdb_def bindG_def db_read_def db_tick_def first_row_def)
  then show ?thesis
    using no_fee_node_refuses_items [of "plain_cfg\<lparr>cfg_noFee := True, cfg_fees := Map.empty\<rparr>" 0 empty_wdb one_item sample_item 10 0 "''AR''" False]
    by (simp add: one_item_def sample_item_def SubmitMaxSize_def empty_wdb_def)
qed

end
