(* ===== verification/Client.thy ===== *)
theory Client
  imports Api
begin

text \<open>
  sdk/client.go: the requests that the client sends to a node, and how it reads the answer. A request is
  built here and sent through \<open>cl_send\<close>, the HTTP library. What the
  requests reach is told by the routes of api.go (theory Api).
\<close>

record http_req =
  hq_verb :: string
  hq_path :: string
  hq_headers :: "(string \<times> string) list"
  hq_query :: "(string \<times> string) list"
  hq_body :: string

definition get_req :: "string \<Rightarrow> http_req" where
  "get_req path = \<lparr>hq_verb = ''GET'', hq_path = path, hq_headers = [], hq_query = [], hq_body = []\<rparr>"

definition post_req :: "string \<Rightarrow> http_req" where
  "post_req path = (get_req path)\<lparr>hq_verb := ''POST''\<rparr>"

text \<open>Sending gives an error, or the status code and the text of the answer; \<open>cl_ok\<close> is the Ok of gentleman.\<close>

type_synonym transport = "http_req \<Rightarrow> (int \<times> string) go"

record client =
  cl_send :: transport
  cl_ok :: "int \<Rightarrow> bool"

text \<open>An answer that is not Ok becomes an error with its text, the others are decoded.\<close>

definition answer :: "client \<Rightarrow> (int \<Rightarrow> string \<Rightarrow> string) \<Rightarrow> (string \<Rightarrow> 'a go) \<Rightarrow> (int \<times> string) go \<Rightarrow> 'a go" where
  "answer A failed decode r = andThen r (\<lambda>(code, text). if cl_ok A code then decode text else Err (ErrMsg (failed code text)))"

definition send :: "client \<Rightarrow> (int \<Rightarrow> string \<Rightarrow> string) \<Rightarrow> (string \<Rightarrow> 'a go) \<Rightarrow> http_req \<Rightarrow> 'a go" where
  "send A failed decode req = answer A failed decode (cl_send A req)"

definition resp_failed :: "int \<Rightarrow> string \<Rightarrow> string" where
  "resp_failed code text = ''resp failed: '' @ text"

definition resp_failed_code :: "int \<Rightarrow> string \<Rightarrow> string" where
  "resp_failed_code code text = ''resp failed.http code: '' @ FormatInt code @ '', errMsg:'' @ text"

definition bundler_failed :: "int \<Rightarrow> string \<Rightarrow> string" where
  "bundler_failed code text = ''send to bundler request failed; http code: '' @ FormatInt code @ '', errMsg:'' @ text"

subsection \<open>Tasks\<close>

definition task_path :: "string \<Rightarrow> string \<Rightarrow> string" where
  "task_path taskType arId = ''/task/'' @ taskType @ ''/'' @ arId"

definition cli_postTask :: "client \<Rightarrow> string \<Rightarrow> string \<Rightarrow> unit go" where
  "cli_postTask A taskType arId = send A resp_failed (\<lambda>_. Ret ()) (post_req (task_path taskType arId))"

definition cli_getTask :: "client \<Rightarrow> (string \<Rightarrow> task go) \<Rightarrow> string \<Rightarrow> string \<Rightarrow> task go" where
  "cli_getTask A dec taskType arId = send A resp_failed dec (get_req (task_path taskType arId))"

definition cli_killTask :: "client \<Rightarrow> string \<Rightarrow> string \<Rightarrow> unit go" where
  "cli_killTask A taskType arId = send A resp_failed (\<lambda>_. Ret ()) (post_req (''/task/kill/'' @ taskType @ ''/'' @ arId))"

definition BroadcastTxData :: "client \<Rightarrow> string \<Rightarrow> unit go" where
  "BroadcastTxData A arId = cli_postTask A TaskTypeBroadcast arId"
definition cli_BroadcastTxMeta :: "client \<Rightarrow> string \<Rightarrow> unit go" where
  "cli_BroadcastTxMeta A arId = cli_postTask A TaskTypeBroadcastMeta arId"
definition SyncTx :: "client \<Rightarrow> string \<Rightarrow> unit go" where
  "SyncTx A arId = cli_postTask A TaskTypeSync arId"
definition GetBroadcastTask :: "client \<Rightarrow> (string \<Rightarrow> task go) \<Rightarrow> string \<Rightarrow> task go" where
  "GetBroadcastTask A dec arId = cli_getTask A dec TaskTypeBroadcast arId"
definition GetBroadcastMetaTask :: "client \<Rightarrow> (string \<Rightarrow> task go) \<Rightarrow> string \<Rightarrow> task go" where
  "GetBroadcastMetaTask A dec arId = cli_getTask A dec TaskTypeBroadcastMeta arId"
definition GetSyncTask :: "client \<Rightarrow> (string \<Rightarrow> task go) \<Rightarrow> string \<Rightarrow> task go" where
  "GetSyncTask A dec arId = cli_getTask A dec TaskTypeSync arId"
definition KillBroadcastTask :: "client \<Rightarrow> string \<Rightarrow> unit go" where
  "KillBroadcastTask A arId = cli_killTask A TaskTypeBroadcast arId"
definition KillBroadcastMetaTask :: "client \<Rightarrow> string \<Rightarrow> unit go" where
  "KillBroadcastMetaTask A arId = cli_killTask A TaskTypeBroadcastMeta arId"
definition KillSyncTask :: "client \<Rightarrow> string \<Rightarrow> unit go" where
  "KillSyncTask A arId = cli_killTask A TaskTypeSync arId"

subsection \<open>Bundle items\<close>

text \<open>\<open>dec\<close> decodes the JSON of the answer.\<close>

definition GetBundler :: "client \<Rightarrow> (string \<Rightarrow> string go) \<Rightarrow> string go" where
  "GetBundler A dec = send A resp_failed dec (get_req ''/bundle/bundler'')"

definition item_headers :: "string \<Rightarrow> bool \<Rightarrow> (string \<times> string) list" where
  "item_headers apikey needSequence = [(''Content-Type'', ''application/octet-stream'')]
     @ (if apikey \<noteq> [] then [(''X-API-KEY'', apikey)] else []) @ (if needSequence then [(''Sort'', ''true'')] else [])"

definition SubmitItem :: "client \<Rightarrow> (string \<Rightarrow> resp_order go) \<Rightarrow> string \<Rightarrow> string \<Rightarrow> string \<Rightarrow> bool \<Rightarrow> resp_order go" where
  "SubmitItem A dec itemBinary currency apikey needSequence = send A bundler_failed dec
     ((post_req (if currency \<noteq> [] then ''/bundle/tx/'' @ currency else ''/bundle/tx''))
       \<lparr>hq_headers := item_headers apikey needSequence, hq_body := itemBinary\<rparr>)"

definition SubmitItemStream :: "client \<Rightarrow> (string \<Rightarrow> resp_order go) \<Rightarrow> string \<Rightarrow> string \<Rightarrow> string \<Rightarrow> bool \<Rightarrow> resp_order go" where
  "SubmitItemStream A dec itemBinary currency apikey needSequence = send A bundler_failed dec
     ((post_req (''/bundle/tx/'' @ currency))\<lparr>hq_headers := item_headers apikey needSequence, hq_body := itemBinary\<rparr>)"

definition native_req :: "string \<Rightarrow> string \<Rightarrow> string \<Rightarrow> string \<Rightarrow> (string \<times> string) list \<Rightarrow> http_req" where
  "native_req apiKey currency data contentType tags = (post_req (''/bundle/data/'' @ currency))
     \<lparr>hq_headers := [(''X-API-KEY'', apiKey)], hq_query := (''Content-Type'', contentType) # tags, hq_body := data\<rparr>"

definition SubmitNativeData :: "client \<Rightarrow> (string \<Rightarrow> (string \<times> int) go) \<Rightarrow> string \<Rightarrow> string \<Rightarrow> string \<Rightarrow> string
    \<Rightarrow> (string \<times> string) list \<Rightarrow> (string \<times> int) go" where
  "SubmitNativeData A dec apiKey currency data contentType tags =
     send A resp_failed_code dec (native_req apiKey currency data contentType tags)"

definition SubmitNativeDataStream :: "client \<Rightarrow> (string \<Rightarrow> (string \<times> int) go) \<Rightarrow> string \<Rightarrow> string \<Rightarrow> string \<Rightarrow> string
    \<Rightarrow> (string \<times> string) list \<Rightarrow> (string \<times> int) go" where
  "SubmitNativeDataStream A dec apiKey currency data contentType tags =
     send A resp_failed_code dec (native_req apiKey currency data contentType tags)"

definition GetItemMeta :: "client \<Rightarrow> (string \<Rightarrow> item_meta go) \<Rightarrow> string \<Rightarrow> item_meta go" where
  "GetItemMeta A dec itemId = send A resp_failed dec (get_req (''/bundle/tx/'' @ itemId))"
definition GetItemData :: "client \<Rightarrow> string \<Rightarrow> string go" where
  "GetItemData A itemId = send A resp_failed Ret (get_req (''/'' @ itemId))"
definition GetItemIds :: "client \<Rightarrow> (string \<Rightarrow> string list go) \<Rightarrow> string \<Rightarrow> string list go" where
  "GetItemIds A dec arId = send A resp_failed dec (get_req (''/bundle/itemIds/'' @ arId))"

definition cli_BundleFee :: "client \<Rightarrow> (string \<Rightarrow> resp_fee go) \<Rightarrow> int \<Rightarrow> string \<Rightarrow> resp_fee go" where
  "cli_BundleFee A dec sz currency = send A resp_failed dec (get_req (''/bundle/fee/'' @ FormatInt sz @ ''/'' @ currency))"

definition GetOrders :: "client \<Rightarrow> (string \<Rightarrow> order list go) \<Rightarrow> string \<Rightarrow> int \<Rightarrow> order list go" where
  "GetOrders A dec addr startId = send A resp_failed dec
     ((get_req (''/bundle/orders/'' @ addr))\<lparr>hq_query := [(''cursorId'', FormatInt startId)]\<rparr>)"

definition GetApiKey :: "client \<Rightarrow> (string \<Rightarrow> (string \<times> (string \<times> tok_bal) list) go) \<Rightarrow> string \<Rightarrow> (string \<times> (string \<times> tok_bal) list) go" where
  "GetApiKey A dec addr = send A resp_failed dec (get_req (''/apikey/'' @ addr))"

subsection \<open>Where the requests arrive\<close>

text \<open>
  A client whose requests are answered by a node: \<open>H\<close> is what the handler of that name answers; without a
  route gin answers 404.
\<close>

definition node_client :: "bool \<Rightarrow> (int \<Rightarrow> bool) \<Rightarrow> (string \<Rightarrow> transport) \<Rightarrow> client" where
  "node_client enableManifest ok H = \<lparr>cl_send = (\<lambda>req. case handlers enableManifest (hq_verb req) (hq_path req) of
      h # _ \<Rightarrow> H h req | [] \<Rightarrow> Ret (404, ''404 page not found'')), cl_ok = ok\<rparr>"

definition path_word :: "string \<Rightarrow> bool" where
  "path_word w \<longleftrightarrow> w \<noteq> [] \<and> CHR ''/'' \<notin> set w"

lemma Split_word: "path_word w \<Longrightarrow> Split (CHR ''/'') w = [w]"
  by (simp add: path_word_def Split_none)

lemma Split_word_more: "path_word w \<Longrightarrow> Split (CHR ''/'') (w @ CHR ''/'' # r) = w # Split (CHR ''/'') r"
  by (simp add: path_word_def Split_Cons_append)

lemma path_word_ne: "path_word w \<Longrightarrow> w \<noteq> []" by (simp add: path_word_def)

lemmas client_defs = task_path_def cli_postTask_def cli_getTask_def cli_killTask_def
  BroadcastTxData_def cli_BroadcastTxMeta_def SyncTx_def GetBroadcastTask_def GetBroadcastMetaTask_def GetSyncTask_def
  KillBroadcastTask_def KillBroadcastMetaTask_def KillSyncTask_def GetBundler_def SubmitItem_def SubmitItemStream_def native_req_def
  SubmitNativeData_def SubmitNativeDataStream_def GetItemMeta_def GetItemData_def GetItemIds_def cli_BundleFee_def GetOrders_def GetApiKey_def

lemma path_word_int: "path_word (FormatInt n)"
proof -
  have "\<not> is_digit (CHR ''/'')" by (simp add: is_digit_def)
  then show ?thesis by (simp add: path_word_def FormatInt_def)
qed

text \<open>A path of words is split back into them, and the handlers are those whose pattern fits the words.\<close>

definition path_of :: "string list \<Rightarrow> string" where "path_of ws = concat (map (\<lambda>w. CHR ''/'' # w) ws)"

lemma Split_path: "(\<forall>w \<in> set ws. path_word w) \<Longrightarrow> Split (CHR ''/'') (path_of ws) = [] # ws"
proof (induction ws)
  case (Cons w ws)
  have e: "path_of (w # ws) = CHR ''/'' # (w @ path_of ws)" by (simp add: path_of_def)
  have w: "path_word w" using Cons.prems by simp
  have "Split (CHR ''/'') (w @ path_of ws) = w # ws"
  proof (cases ws)
    case Nil
    then show ?thesis using w by (simp add: path_of_def Split_word)
  next
    case (Cons v vs)
    then obtain r where r: "path_of ws = CHR ''/'' # r" by (simp add: path_of_def)
    have "Split (CHR ''/'') (path_of ws) = [] # ws" using Cons.prems Cons.IH by simp
    then have "Split (CHR ''/'') r = ws" using r by simp
    then show ?thesis using Split_word_more [OF w] r by simp
  qed
  then show ?case unfolding e by simp
qed (simp add: path_of_def)

lemma handlers_path:
  assumes "\<forall>w \<in> set ws. path_word w" and "path = path_of ws"
  shows "handlers m verb path = map (\<lambda>(v, ps, h). h) (filter (\<lambda>(v, ps, h). v = verb \<and> seg_match ps ws) (routes m))"
  using Split_path [OF assms(1)] assms(2) by (simp add: handlers_def)

lemma path_lits [simp]: "path_word ''task''" "path_word ''sync''" "path_word ''kill''" "path_word ''broadcast''" "path_word ''broadcast_meta''"
  "path_word ''bundle''" "path_word ''tx''" "path_word ''data''" "path_word ''fee''" "path_word ''orders''" "path_word ''itemIds''"
  "path_word ''bundler''" "path_word ''apikey''"
  by (simp_all add: path_word_def)

lemma unrouted:
  "handlers m ''POST'' ''/bundle/tx'' = []" "path_word x \<Longrightarrow> handlers m ''GET'' (''/apikey/'' @ x) = []"
  using handlers_path [of "[''bundle'', ''tx'']" "''/bundle/tx''" m] handlers_path [of "[''apikey'', x]" "''/apikey/'' @ x" m]
  by (auto simp: path_lits path_of_def routes_def)

lemma req_simps [simp]: "hq_verb (get_req p) = ''GET''" "hq_path (get_req p) = p" "hq_verb (post_req p) = ''POST''" "hq_path (post_req p) = p"
  by (simp_all add: get_req_def post_req_def)

lemma req_fields: "hq_verb (r\<lparr>hq_headers := h\<rparr>) = hq_verb r" "hq_path (r\<lparr>hq_headers := h\<rparr>) = hq_path r"
  "hq_verb (r\<lparr>hq_body := b\<rparr>) = hq_verb r" "hq_path (r\<lparr>hq_body := b\<rparr>) = hq_path r"
  "hq_verb (r\<lparr>hq_query := q\<rparr>) = hq_verb r" "hq_path (r\<lparr>hq_query := q\<rparr>) = hq_path r"
  by simp_all

text \<open>
  Two calls of the client arrive nowhere. An upload without a currency, which is how a node
  without fees is used, is posted to /bundle/tx, and the request for an API key to /apikey/ and the
  address: the node has no route for either, so both calls always fail.
\<close>

theorem client_calls_without_route:
  assumes "path_word addr" and "\<not> ok 404"
  shows "SubmitItem (node_client m ok H) dec itemBinary [] apikey sq
      = Err (ErrMsg ''send to bundler request failed; http code: 404, errMsg:404 page not found'')
    \<and> GetApiKey (node_client m ok H) dec_key addr = Err (ErrMsg ''resp failed: 404 page not found'')"
proof -
  have "FormatInt 404 = ''404''" by (simp add: FormatInt_def FormatNat.simps char_of_def bit_0)
  then show ?thesis
    using unrouted [where m = m] assms by (simp add: client_defs send_def node_client_def answer_def resp_failed_def bundler_failed_def)
qed

theorem client_calls_without_route_witness:
  "GetApiKey (node_client True (\<lambda>c. c = 200) (\<lambda>h req. Ret (200, h))) (\<lambda>t. Ret (t, [])) ''0xab''
     = Err (ErrMsg ''resp failed: 404 page not found'')"
  using client_calls_without_route [where addr = "''0xab''" and m = True and ok = "\<lambda>c. c = 200" and H = "\<lambda>h req. Ret (200, h)"
    and dec_key = "\<lambda>t. Ret (t, [])"] by (simp add: path_word_def)

end
