(* ===== verification/Sdk.thy ===== *)
theory Sdk
  imports Client "HOL-Library.Countable"
begin

text \<open>
  The SDK of sdk/sdk.go and sdk/manifest.go: signing and sending data, paying for orders through everPay,
  and uploading a folder with its manifest. \<open>sdk_lib\<close> holds the calls of goar and everpay-kits, the decoders of
  answers and the file system; a transaction of everPay is known by its hash.
\<close>

record reward =
  rw_Tag :: string
  rw_Recipient :: string
  rw_Amount :: string

record ever_item =
  ei_Tag :: string
  ei_ChainID :: string
  ei_From :: string
  ei_To :: string
  ei_Amount :: string

text \<open>What is asked of everPay: a transfer, or a transfer with a signed bundle, each with its data.\<close>

datatype ever_pay =
    PayTransfer (pay_tag: string) (pay_amount: int) (pay_to: string) (pay_data: json)
  | PayBundle (pay_tag: string) (pay_to: string) (pay_amount: int) (pay_sigs: string) (pay_data: json)

record option_item =
  oi_Target :: string
  oi_Anchor :: string
  oi_Tags :: "tag list"

record sdk_lib =
  AccId :: string
  SymbolToTagArr :: "string \<Rightarrow> string list"
  Balances :: "string \<Rightarrow> (string \<times> string) list go"
  TokenChain :: "string \<Rightarrow> string option"
  SignBundleData :: "ever_item list \<Rightarrow> int \<Rightarrow> string go"
  SendPay :: "ever_pay \<Rightarrow> string go"
  CreateAndSignItem :: "string \<Rightarrow> string \<Rightarrow> string \<Rightarrow> tag list \<Rightarrow> string go"
  CreateAndSignItemStream :: "string \<Rightarrow> string \<Rightarrow> string \<Rightarrow> tag list \<Rightarrow> string go"
  GenerateItemBinaryStream :: "string \<Rightarrow> string go"
  decode_order :: "string \<Rightarrow> resp_order go"
  decode_bundler :: "string \<Rightarrow> string go"
  marshal :: "json \<Rightarrow> string"
  TypeByExtension :: "string \<Rightarrow> string"
  ReadFile :: "string \<Rightarrow> string go"
  Walk :: "string \<Rightarrow> (string \<times> bool) go list"
  Abs :: "string \<Rightarrow> string go"

subsection \<open>Payment of orders\<close>

fun resp_total :: "resp_order list \<Rightarrow> int \<Rightarrow> int go" where
  "resp_total [] tot = Ret tot"
| "resp_total (ord # ords) tot = (case SetString (ro_Fee ord) of
      None \<Rightarrow> Err (ErrMsg ''order fee incorrect'') | Some fee \<Rightarrow> resp_total ords (tot + fee))"

text \<open>A balance that is not a number is nil, and comparing it panics. The last tag that covers the fee is used.\<close>

fun pick_tag :: "(string \<times> int option) list \<Rightarrow> int \<Rightarrow> string list \<Rightarrow> string \<Rightarrow> string go" where
  "pick_tag bals tot [] useTag = Ret useTag"
| "pick_tag bals tot (tag # tags) useTag = (case map_of bals tag of
      None \<Rightarrow> pick_tag bals tot tags useTag
    | Some None \<Rightarrow> Panic ''nil pointer''
    | Some (Some amt) \<Rightarrow> pick_tag bals tot tags (if tot \<le> amt then tag else useTag))"

definition tag_to_bal :: "(string \<times> string) list \<Rightarrow> (string \<times> int option) list" where
  "tag_to_bal bals = rev (map (\<lambda>(tag, amount). (tag, SetString amount)) bals)"

fun ever_items :: "sdk_lib \<Rightarrow> reward list \<Rightarrow> ever_item list go" where
  "ever_items U [] = Ret []"
| "ever_items U (rd # rds) = (case TokenChain U (rw_Tag rd) of
      None \<Rightarrow> Err (ErrMsg ''token tag not exist'')
    | Some chain \<Rightarrow> andThen (ever_items U rds) (\<lambda>items. Ret (\<lparr>ei_Tag = rw_Tag rd, ei_ChainID = chain, ei_From = AccId U,
        ei_To = rw_Recipient rd, ei_Amount = rw_Amount rd\<rparr> # items)))"

definition assembleEverBundleItems :: "sdk_lib \<Rightarrow> int \<Rightarrow> reward list \<Rightarrow> string go" where
  "assembleEverBundleItems U now rewards = andThen (ever_items U rewards) (\<lambda>items. SignBundleData U items (now + 100))"

definition sdk_reward :: "string \<Rightarrow> int \<Rightarrow> reward" where
  "sdk_reward useTag totalFee = \<lparr>rw_Tag = useTag, rw_Recipient = ''0x28840a3A565eF1fE7468d000Ff0B461058b9Ef5f'',
     rw_Amount = FormatInt (totalFee div 10)\<rparr>"

definition payRequest :: "sdk_lib \<Rightarrow> int \<Rightarrow> resp_order list \<Rightarrow> reward list \<Rightarrow> ever_pay option go" where
  "payRequest U now ords rewards = (if ords = [] then Err (ErrMsg ''order is null'')
     else if ro_Fee (hd ords) = [] then Ret None
     else if 500 < length ords then Err (ErrMsg ''please use BatchPayOrders function'')
     else if \<not> list_all (\<lambda>r. ro_Bundler r = ro_Bundler (hd ords) \<and> ro_Currency r = ro_Currency (hd ords)) (tl ords)
       then Err (ErrMsg ''orders bundler and currency must be equal'')
     else andThen (resp_total ords 0) (\<lambda>totalFee.
       let dataJs = payment_json \<lparr>pm_AppName = ''arseeding'', pm_Action = ItemPaymentAction, pm_ItemIds = map ro_ItemId ords\<rparr>;
           tokenTags = SymbolToTagArr U (ro_Currency (hd ords)) in
       if tokenTags = [] then Err (ErrMsg ''currency not exist token'')
       else andThen (Balances U (AccId U)) (\<lambda>bals. andThen (pick_tag (tag_to_bal bals) totalFee tokenTags []) (\<lambda>useTag.
         if useTag = [] then Err (ErrMsg ''token balance insufficient'')
         else if rewards \<noteq> [] then andThen (assembleEverBundleItems U now (rewards @ [sdk_reward useTag totalFee]))
           (\<lambda>sigs. Ret (Some (PayBundle useTag (ro_Bundler (hd ords)) totalFee sigs dataJs)))
         else Ret (Some (PayTransfer useTag totalFee (ro_Bundler (hd ords)) dataJs))))))"

definition PayOrders :: "sdk_lib \<Rightarrow> int \<Rightarrow> resp_order list \<Rightarrow> reward list \<Rightarrow> string option go" where
  "PayOrders U now ords rewards = andThen (payRequest U now ords rewards) (\<lambda>p. case p of
      None \<Rightarrow> Ret None | Some req \<Rightarrow> andThen (SendPay U req) (\<lambda>tx. Ret (Some tx)))"

text \<open>\<open>batchLoop\<close> is the loop over \<open>start\<close> and \<open>end\<close>; both grow until they meet at the end of the orders.\<close>

function batchLoop :: "sdk_lib \<Rightarrow> int \<Rightarrow> resp_order list \<Rightarrow> reward list \<Rightarrow> nat \<Rightarrow> nat \<Rightarrow> string option list \<Rightarrow> string option list go" where
  "batchLoop U now ords rewards start fin txs = (if fin \<le> start \<or> length ords < fin then Panic ''slice bounds out of range''
     else andThen (PayOrders U now (take (fin - start) (drop start ords)) rewards) (\<lambda>tx.
       let end2 = min (fin + 500) (length ords) in
       if fin = end2 then Ret (txs @ [tx]) else batchLoop U now ords rewards fin end2 (txs @ [tx])))"
  by pat_completeness auto
termination by (relation "measure (\<lambda>(U, now, ords, rewards, start, e, txs). length ords - start)") auto

declare batchLoop.simps [simp del]

definition BatchPayOrders :: "sdk_lib \<Rightarrow> int \<Rightarrow> resp_order list \<Rightarrow> reward list \<Rightarrow> string option list go" where
  "BatchPayOrders U now ords rewards = (if length ords \<le> 500
     then andThen (PayOrders U now ords rewards) (\<lambda>tx. Ret [tx])
     else batchLoop U now ords rewards 0 500 [])"

definition PayApikey :: "sdk_lib \<Rightarrow> client \<Rightarrow> string \<Rightarrow> int \<Rightarrow> string go" where
  "PayApikey U A tokenTag amount = andThen (GetBundler A (decode_bundler U)) (\<lambda>bundler.
     SendPay U (PayTransfer tokenTag amount bundler (JObj [(''appName'', JStr ''arseeding''), (''action'', JStr ApikeyPaymentAction),
       (''bundler'', JStr bundler)])))"

subsection \<open>Sending data\<close>

definition SendData :: "sdk_lib \<Rightarrow> client \<Rightarrow> string \<Rightarrow> string \<Rightarrow> string \<Rightarrow> option_item option \<Rightarrow> bool \<Rightarrow> resp_order go" where
  "SendData U A data currency apikey opt needSequence = andThen (case opt of
      Some x \<Rightarrow> CreateAndSignItem U data (oi_Target x) (oi_Anchor x) (oi_Tags x)
    | None \<Rightarrow> CreateAndSignItem U data [] [] []) (\<lambda>itemBinary.
     SubmitItem A (decode_order U) itemBinary currency apikey needSequence)"

text \<open>The item of a file is made by the streaming variant, then its binary is generated.\<close>

definition SendDataStream :: "sdk_lib \<Rightarrow> client \<Rightarrow> string \<Rightarrow> string \<Rightarrow> string \<Rightarrow> option_item option \<Rightarrow> bool \<Rightarrow> resp_order go" where
  "SendDataStream U A data currency apikey opt needSequence = andThen (andThen (case opt of
      Some x \<Rightarrow> CreateAndSignItemStream U data (oi_Target x) (oi_Anchor x) (oi_Tags x)
    | None \<Rightarrow> CreateAndSignItemStream U data [] [] []) (GenerateItemBinaryStream U)) (\<lambda>itemBinary.
     SubmitItemStream A (decode_order U) itemBinary currency apikey needSequence)"

definition SendDataAndPay :: "sdk_lib \<Rightarrow> client \<Rightarrow> int \<Rightarrow> string \<Rightarrow> string \<Rightarrow> option_item option \<Rightarrow> bool \<Rightarrow> reward list
    \<Rightarrow> (string option \<times> string) go" where
  "SendDataAndPay U A now data currency opt needSequence rewards = andThen (SendData U A data currency [] opt needSequence) (\<lambda>order.
     andThen (PayOrders U now [order] rewards) (\<lambda>tx. Ret (tx, ro_ItemId order)))"

definition SendDataStreamAndPay :: "sdk_lib \<Rightarrow> client \<Rightarrow> int \<Rightarrow> string \<Rightarrow> string \<Rightarrow> option_item option \<Rightarrow> bool \<Rightarrow> reward list
    \<Rightarrow> (string option \<times> string) go" where
  "SendDataStreamAndPay U A now data currency opt needSequence rewards = andThen (SendDataStream U A data currency [] opt needSequence) (\<lambda>order.
     andThen (PayOrders U now [order] rewards) (\<lambda>tx. Ret (tx, ro_ItemId order)))"

subsection \<open>Uploading a folder\<close>

text \<open>\<^verbatim>\<open>path.Clean\<close>, \<^verbatim>\<open>path.Join\<close> and \<^verbatim>\<open>filepath.Ext\<close> of the standard library; \<open>st\<close> is the path so far, reversed.\<close>

fun clean_segs :: "bool \<Rightarrow> string list \<Rightarrow> string list \<Rightarrow> string list" where
  "clean_segs rooted st [] = rev st"
| "clean_segs rooted st (w # ws) = (if w = [] \<or> w = ''.'' then clean_segs rooted st ws
     else if w = ''..'' then (case st of
         v # vs \<Rightarrow> if v = ''..'' then clean_segs rooted (w # st) ws else clean_segs rooted vs ws
       | [] \<Rightarrow> if rooted then clean_segs rooted [] ws else clean_segs rooted [w] ws)
     else clean_segs rooted (w # st) ws)"

definition join_segs :: "string list \<Rightarrow> string" where
  "join_segs ws = (case ws of [] \<Rightarrow> [] | w # vs \<Rightarrow> w @ concat (map (\<lambda>v. CHR ''/'' # v) vs))"

definition path_Clean :: "string \<Rightarrow> string" where
  "path_Clean p = (let rooted = (p \<noteq> [] \<and> hd p = CHR ''/''); out = join_segs (clean_segs rooted [] (Split (CHR ''/'') p)) in
     if rooted then CHR ''/'' # out else if out = [] then ''.'' else out)"

definition path_Join :: "string \<Rightarrow> string \<Rightarrow> string" where
  "path_Join a b = (if a = [] \<and> b = [] then [] else path_Clean (if a = [] then b else if b = [] then a else a @ ''/'' @ b))"

definition path_Ext :: "string \<Rightarrow> string" where
  "path_Ext p = (let base = last (Split (CHR ''/'') p) in
     if CHR ''.'' \<in> set base then CHR ''.'' # last (Split (CHR ''.'') base) else [])"

definition readFileData :: "sdk_lib \<Rightarrow> string \<Rightarrow> string \<Rightarrow> string go" where
  "readFileData U rootPath filePath = ReadFile U (path_Join rootPath filePath)"

text \<open>\<open>Walk\<close> lists what filepath.Walk visits: a path and whether it is a directory, or the error it meets there.\<close>

fun walked :: "sdk_lib \<Rightarrow> string \<Rightarrow> (string \<times> bool) go list \<Rightarrow> string list go" where
  "walked U rootPath [] = Ret []"
| "walked U rootPath (v # vs) = andThen v (\<lambda>(p, isDir). if isDir then walked U rootPath vs
     else andThen (Abs U rootPath) (\<lambda>rootAbs. andThen (Abs U p) (\<lambda>fileAbs.
       andThen (walked U rootPath vs) (\<lambda>files. Ret (TrimPrefix fileAbs (rootAbs @ ''/'') # files)))))"

definition getPathFiles :: "sdk_lib \<Rightarrow> string \<Rightarrow> string list go" where
  "getPathFiles U rootPath = walked U rootPath (Walk U rootPath)"

text \<open>One task of the pool: an error panics, and the panic handler panics again.\<close>

definition or_panic :: "'a go \<Rightarrow> 'a go" where
  "or_panic r = (case r of Err _ \<Rightarrow> Panic ''upload'' | _ \<Rightarrow> r)"

definition uploadFile :: "sdk_lib \<Rightarrow> client \<Rightarrow> string \<Rightarrow> string \<Rightarrow> string \<Rightarrow> bool \<Rightarrow> string \<Rightarrow> resp_order go" where
  "uploadFile U A rootPath currency apikey needSequence fp = andThen (or_panic (readFileData U rootPath fp)) (\<lambda>data.
     or_panic (SendData U A data currency apikey (Some \<lparr>oi_Target = [], oi_Anchor = [],
       oi_Tags = [\<lparr>tag_name = ''Content-Type'', tag_value = TypeByExtension U (path_Ext (path_Join rootPath fp))\<rparr>]\<rparr>) needSequence))"

text \<open>The tasks, in the order in which they append their order and add their path to the manifest.\<close>

fun uploadAll :: "sdk_lib \<Rightarrow> client \<Rightarrow> string \<Rightarrow> string \<Rightarrow> string \<Rightarrow> bool \<Rightarrow> string list \<Rightarrow> resp_order list \<Rightarrow> (string \<times> string) list
    \<Rightarrow> (resp_order list \<times> (string \<times> string) list) go" where
  "uploadAll U A rootPath currency apikey needSequence [] ords paths = Ret (ords, paths)"
| "uploadAll U A rootPath currency apikey needSequence (fp # fps) ords paths =
     andThen (uploadFile U A rootPath currency apikey needSequence fp) (\<lambda>order.
       uploadAll U A rootPath currency apikey needSequence fps (ords @ [order]) (al_put fp (ro_ItemId order) paths))"

definition manifest_json :: "string \<Rightarrow> (string \<times> string) list \<Rightarrow> json" where
  "manifest_json indexFile paths = JObj [(''manifest'', JStr ''arweave/paths''), (''version'', JStr ''0.1.0''),
     (''index'', JObj [(''path'', JStr indexFile)]), (''paths'', JObj (map (\<lambda>(p, i). (p, JObj [(''id'', JStr i)])) paths))]"

definition manifest_item :: option_item where
  "manifest_item = \<lparr>oi_Target = [], oi_Anchor = [], oi_Tags = [\<lparr>tag_name = ''Type'', tag_value = ''manifest''\<rparr>,
     \<lparr>tag_name = ''Content-Type'', tag_value = ''application/x.arweave-manifest+json''\<rparr>]\<rparr>"

text \<open>\<open>sched\<close> is the order in which the pool finishes the files.\<close>

definition uploadFolder :: "sdk_lib \<Rightarrow> client \<Rightarrow> (string list \<Rightarrow> string list) \<Rightarrow> string \<Rightarrow> string \<Rightarrow> string \<Rightarrow> string \<Rightarrow> bool
    \<Rightarrow> (resp_order list \<times> string) go" where
  "uploadFolder U A sched rootPath indexFile currency apikey needSequence = (let ix = (if indexFile = [] then ''index.html'' else indexFile) in
     andThen (getPathFiles U rootPath) (\<lambda>pathFiles.
     andThen (uploadAll U A rootPath currency apikey needSequence (sched pathFiles) [] []) (\<lambda>(ords, paths).
     andThen (SendData U A (marshal U (manifest_json ix paths)) currency apikey (Some manifest_item) needSequence) (\<lambda>order.
       Ret (ords @ [order], ro_ItemId order)))))"

definition UploadFolder :: "sdk_lib \<Rightarrow> client \<Rightarrow> (string list \<Rightarrow> string list) \<Rightarrow> string \<Rightarrow> string \<Rightarrow> string \<Rightarrow> (resp_order list \<times> string) go" where
  "UploadFolder U A sched rootPath indexFile currency = uploadFolder U A sched rootPath indexFile currency [] False"

definition UploadFolderAndPay :: "sdk_lib \<Rightarrow> client \<Rightarrow> int \<Rightarrow> (string list \<Rightarrow> string list) \<Rightarrow> string \<Rightarrow> string \<Rightarrow> string
    \<Rightarrow> (resp_order list \<times> string \<times> string option list) go" where
  "UploadFolderAndPay U A now sched rootPath indexFile currency = andThen (uploadFolder U A sched rootPath indexFile currency [] False)
     (\<lambda>(ords, manifestId). andThen (BatchPayOrders U now ords []) (\<lambda>txs. Ret (ords, manifestId, txs)))"

definition UploadFolderWithNoFee :: "sdk_lib \<Rightarrow> client \<Rightarrow> (string list \<Rightarrow> string list) \<Rightarrow> string \<Rightarrow> string \<Rightarrow> string \<Rightarrow> (resp_order list \<times> string) go" where
  "UploadFolderWithNoFee U A sched rootPath indexFile noFeeApikey = uploadFolder U A sched rootPath indexFile [] noFeeApikey False"

definition UploadFolderWithSequence :: "sdk_lib \<Rightarrow> client \<Rightarrow> (string list \<Rightarrow> string list) \<Rightarrow> string \<Rightarrow> string \<Rightarrow> string \<Rightarrow> (resp_order list \<times> string) go" where
  "UploadFolderWithSequence U A sched rootPath indexFile noFeeApikey = uploadFolder U A sched rootPath indexFile [] noFeeApikey True"

subsection \<open>The payment and the node\<close>

lemma resp_total_fee: "resp_total (map (respOrder b) ords) t = (case total_fee ords of
    None \<Rightarrow> Err (ErrMsg ''order fee incorrect'') | Some fee \<Rightarrow> Ret (t + fee))"
  by (induction ords arbitrary: t) (auto simp: respOrder_def split: option.split)

lemma getUnPaid_healthy:
  "db_healthy w \<Longrightarrow> orders_for ids ords w \<Longrightarrow> getUnPaidOrdersByItemIds ids w = (Ret ords, w)"
proof (induction ids arbitrary: ords)
  case (Cons i ids)
  then obtain r rs where r: "ords = r # rs" "last_row (unpaid_for i) (orders w) = Ret r" "orders_for ids rs w"
    by (auto simp: orders_for_def list_all2_Cons1)
  then have "GetUnPaidOrder i w = (Ret r, w)" using Cons.prems(1) by (simp add: GetUnPaidOrder_def unpaid_for_def [abs_def])
  then show ?case using Cons.IH [OF Cons.prems(1) r(3)] r(1) by simp
qed (simp add: orders_for_def)

lemma payAll_healthy:
  "db_healthy w \<Longrightarrow> payAll ords h w = (Ret (), w\<lparr>orders := pay_rows ords h (orders w)\<rparr>)"
proof (induction ords arbitrary: w)
  case (Cons x ords)
  let ?w = "w\<lparr>orders := update_rows (\<lambda>r. o_ID r = o_ID x) (\<lambda>r. r\<lparr>o_PaymentStatus := SuccPayment, o_PaymentId := h\<rparr>) (orders w)\<rparr>"
  have "UpdateOrderPay (o_ID x) h SuccPayment w = (Ret (), ?w)" using Cons.prems by (simp add: UpdateOrderPay_def)
  moreover have "db_healthy ?w" using Cons.prems by (simp add: db_healthy_def)
  ultimately show ?case using Cons.IH [of ?w] by (simp add: pay_rows_Cons)
qed simp

lemma payTransaction_healthy:
  assumes "db_healthy w"
  shows "payTransaction ords urtx w = (Ret (), set_receipt_status (r_RawId urtx) Spent
    (w\<lparr>orders := pay_rows ords (r_EverHash urtx) (orders w)\<rparr>))"
proof -
  have h: "db_healthy (w\<lparr>orders := x\<rparr>)" "db_healthy (set_receipt_status i st (w\<lparr>orders := x\<rparr>))" for x i st
    using assms by (simp_all add: db_healthy_def set_receipt_status_def)
  then show ?thesis
    using assms by (simp add: payTransaction_def payAll_healthy UpdateReceiptStatus_def db_tick_def db_healthy_def set_receipt_status_def)
qed

text \<open>What a payment request that is made carries.\<close>

lemma payRequest_some:
  assumes "payRequest U now ros rewards = Ret (Some p)"
  shows "ros \<noteq> []" and "length ros \<le> 500" and "pay_to p = ro_Bundler (hd ros)" and "resp_total ros 0 = Ret (pay_amount p)"
    and "pay_data p = payment_json \<lparr>pm_AppName = ''arseeding'', pm_Action = ItemPaymentAction, pm_ItemIds = map ro_ItemId ros\<rparr>"
    and "\<forall>r \<in> set ros. ro_Currency r = ro_Currency (hd ros) \<and> ro_Bundler r = ro_Bundler (hd ros)"
    and "\<exists>bals. Balances U (AccId U) = Ret bals \<and> pick_tag (tag_to_bal bals) (pay_amount p) (SymbolToTagArr U (ro_Currency (hd ros))) [] = Ret (pay_tag p)"
    and "pay_tag p \<noteq> []"
  using assms by (cases ros; auto simp: payRequest_def Let_def andThen_Ret_iff list_all_iff split: if_splits)+

lemma parse_payment:
  "parseTxData (payment_json \<lparr>pm_AppName = ''arseeding'', pm_Action = ItemPaymentAction, pm_ItemIds = i # is\<rparr>) = Ret (ItemPaymentAction, i # is)"
proof -
  have "map gstring (map JStr xs) = xs" for xs by (induction xs) (simp_all add: gstring_def)
  then show ?thesis by (simp add: parseTxData_def payment_json_def gget_def gstring_def garray_def ids_json_def ItemPaymentAction_def)
qed

text \<open>The reference for the batches: slices of at most 500 orders, paid one after the other until one fails.\<close>

fun mapG :: "('a \<Rightarrow> 'b go) \<Rightarrow> 'a list \<Rightarrow> 'b list go" where
  "mapG f [] = Ret []"
| "mapG f (x # xs) = andThen (f x) (\<lambda>y. andThen (mapG f xs) (\<lambda>ys. Ret (y # ys)))"

function slices :: "'a list \<Rightarrow> 'a list list" where
  "slices xs = (if xs = [] then [] else take 500 xs # slices (drop 500 xs))"
  by pat_completeness auto
termination by (relation "measure length") auto

declare slices.simps [simp del]

lemma slices_Nil [simp]: "slices [] = []" by (simp add: slices.simps)

lemma slices_short: "xs \<noteq> [] \<Longrightarrow> length xs \<le> 500 \<Longrightarrow> slices xs = [xs]"
  by (subst slices.simps) simp

lemma slices_parts: "concat (slices xs) = xs \<and> (\<forall>b \<in> set (slices xs). b \<noteq> [] \<and> length b \<le> 500)"
proof (induction xs rule: slices.induct)
  case (1 xs)
  then show ?case by (subst (1 2) slices.simps) auto
qed

lemma batchLoop_slices:
  assumes "start < fin" and "fin = min (start + 500) (length ords)"
  shows "batchLoop U now ords rewards start fin txs
    = andThen (mapG (\<lambda>b. PayOrders U now b rewards) (slices (drop start ords))) (\<lambda>ys. Ret (txs @ ys))"
  using assms
proof (induction "length ords - start" arbitrary: start fin txs rule: less_induct)
  case less
  let ?pay = "\<lambda>b. PayOrders U now b rewards" and ?e2 = "min (fin + 500) (length ords)"
  have first: "take (fin - start) (drop start ords) = take 500 (drop start ords)" using less.prems by (auto simp: min_def)
  have sl: "slices (drop start ords) = take 500 (drop start ords) # slices (drop fin ords)"
    using less.prems by (subst slices.simps) (auto simp: min_def add.commute)
  have step: "batchLoop U now ords rewards start fin txs = andThen (?pay (take 500 (drop start ords)))
      (\<lambda>tx. if fin = ?e2 then Ret (txs @ [tx]) else batchLoop U now ords rewards fin ?e2 (txs @ [tx]))"
    using less.prems first by (subst batchLoop.simps) (auto simp: Let_def)
  show ?case
  proof (cases "fin = ?e2")
    case True
    then have "drop fin ords = []" by (auto simp: min_def split: if_splits)
    then show ?thesis using step sl True by (cases "?pay (take 500 (drop start ords))") simp_all
  next
    case False
    then have "fin < ?e2" using less.prems by (auto simp: min_def split: if_splits)
    then have "batchLoop U now ords rewards fin ?e2 txs' = andThen (mapG ?pay (slices (drop fin ords))) (\<lambda>ys. Ret (txs' @ ys))" for txs'
      using less.prems by (intro less.hyps) auto
    then show ?thesis using step sl False
      by (cases "?pay (take 500 (drop start ords))"; cases "mapG ?pay (slices (drop fin ords))") simp_all
  qed
qed

lemma uploadAll_paths:
  "uploadAll U A dir currency key sq fps ords paths = Ret (ords', paths') \<Longrightarrow> distinct fps \<Longrightarrow>
    (\<forall>fp \<in> set fps. \<exists>order \<in> set ords'. uploadFile U A dir currency key sq fp = Ret order \<and> map_of paths' fp = Some (ro_ItemId order))
    \<and> (\<forall>fp. fp \<notin> set fps \<longrightarrow> map_of paths' fp = map_of paths fp) \<and> set ords \<subseteq> set ords'"
proof (induction fps arbitrary: ords paths)
  case (Cons f fps)
  then obtain order where up: "uploadFile U A dir currency key sq f = Ret order"
      "uploadAll U A dir currency key sq fps (ords @ [order]) (al_put f (ro_ItemId order) paths) = Ret (ords', paths')"
    by (auto simp: andThen_Ret_iff)
  with Cons.IH [OF up(2)] Cons.prems(2) show ?case by auto
qed simp

lemma manifest_json_read: "manifest_of_json (manifest_json ix paths) = Some \<lparr>mani_index = ix, mani_paths = paths\<rparr>"
proof -
  have "resources_of_json (map (\<lambda>(p, i). (p, JObj [(''id'', JStr i)])) ps) = Some ps" for ps
    by (induction ps) (auto simp: jstr_def)
  then show ?thesis by (simp add: manifest_json_def manifest_of_json_def jstr_def)
qed

lemma payRequest_merges:
  assumes req: "payRequest U now (map (respOrder bundler) ords) rewards = Ret (Some p)"
    and ord: "orders_for (map o_ItemId ords) ords w" and h: "db_healthy w"
    and rc: "r_Data urtx = pay_data p" "r_Amount urtx = FormatInt (pay_amount p)" "ToUpper (r_Symbol urtx) = ToUpper (o_Currency (hd ords))"
  shows "pay_to p = bundler \<and> mergeReceipt D L M urtx w = (Ret (), set_receipt_status (r_RawId urtx) Spent
    (w\<lparr>orders := pay_rows ords (r_EverHash urtx) (orders w)\<rparr>))"
proof -
  note facts = payRequest_some [OF req]
  have ne: "ords \<noteq> []" using facts(1) by simp
  then have hd: "ro_Bundler (hd (map (respOrder bundler) ords)) = bundler" "ro_Currency (hd (map (respOrder bundler) ords)) = o_Currency (hd ords)"
    by (simp_all add: hd_map respOrder_def)
  have ids: "map ro_ItemId (map (respOrder bundler) ords) = map o_ItemId ords" by (simp add: respOrder_def)
  have cur: "\<forall>r \<in> set ords. o_Currency r = o_Currency (hd ords)" using facts(6) hd by (auto simp: respOrder_def)
  have fee: "total_fee ords = Some (pay_amount p)" using facts(4) by (simp add: resp_total_fee split: option.splits)
  have "parseTxData (r_Data urtx) = Ret (ItemPaymentAction, map o_ItemId ords)"
    using parse_payment [of "o_ItemId (hd ords)" "map o_ItemId (tl ords)"] ne unfolding rc(1) facts(5) ids by (cases ords) simp_all
  moreover have "checkOrdersCurrency ords (r_Symbol urtx) = None" using cur rc(3) by (simp add: checkOrdersCurrency_def list_all_iff)
  moreover have "checkOrdersAmount ords (r_Amount urtx) = None" using fee rc(2) by (simp add: checkOrdersAmount_def)
  ultimately show ?thesis
    using facts(3) hd(1) getUnPaid_healthy [OF h ord] payTransaction_healthy [OF h]
    by (simp add: mergeReceipt_def processPayItems_def)
qed

subsection \<open>Properties\<close>

text \<open>
  C6: what the SDK pays, the node accepts. Let the SDK make a payment request for the answers a node
  gave for some orders that are the latest unpaid ones of their items. Then it goes to the bundler, and when
  its receipt is merged, while no request to the database fails, the receipt is spent and all the orders are paid.
\<close>

theorem PayOrders_settles:
  assumes req: "payRequest U now (map (respOrder bundler) ords) rewards = Ret (Some p)"
    and ord: "orders_for (map o_ItemId ords) ords w" and h: "db_healthy w"
    and rc: "r_Data urtx = pay_data p" "r_Amount urtx = FormatInt (pay_amount p)" "ToUpper (r_Symbol urtx) = ToUpper (o_Currency (hd ords))"
  shows "pay_to p = bundler \<and> mergeReceipt D L M urtx w = (Ret (), set_receipt_status (r_RawId urtx) Spent
    (w\<lparr>orders := pay_rows ords (r_EverHash urtx) (orders w)\<rparr>))"
  using payRequest_merges [OF req ord h rc] .

definition plain_sdk :: sdk_lib where
  "plain_sdk = \<lparr>AccId = ''me'', SymbolToTagArr = (\<lambda>s. [''old-tag'', s @ ''-tag'']), Balances = (\<lambda>_. Ret [(''AR-tag'', ''100''), (''old-tag'', ''20'')]),
     TokenChain = (\<lambda>_. Some ''1''), SignBundleData = (\<lambda>_ _. Ret ''sig''), SendPay = (\<lambda>p. Ret (pay_tag p)),
     CreateAndSignItem = (\<lambda>data _ _ _. Ret data), CreateAndSignItemStream = (\<lambda>data _ _ _. Ret data), GenerateItemBinaryStream = Ret,
     decode_order = (\<lambda>t. Ret (respOrder ''0xb'' (sample_order\<lparr>o_ItemId := t\<rparr>))), decode_bundler = Ret, marshal = (\<lambda>_. ''m''),
     TypeByExtension = (\<lambda>_. ''text/html''), ReadFile = Ret, Walk = (\<lambda>p. [Ret (p, True), Ret (p @ ''/a'', False)]), Abs = Ret\<rparr>"

theorem PayOrders_settles_witness:
  "mergeReceipt int_decimal sample_pay Map.empty (sample_receipt\<lparr>r_Data := payment_json \<lparr>pm_AppName = ''arseeding'', pm_Action = ItemPaymentAction, pm_ItemIds = [''i'']\<rparr>,
       r_Amount := FormatInt 100\<rparr>) sample_wdb
   = (Ret (), set_receipt_status 7 Spent (sample_wdb\<lparr>orders := pay_rows [sample_order] ''0xabc'' [sample_order]\<rparr>))"
proof -
  have "payRequest plain_sdk 0 (map (respOrder ''0xb'') [sample_order]) []
      = Ret (Some (PayTransfer ''AR-tag'' 100 ''0xb'' (payment_json \<lparr>pm_AppName = ''arseeding'', pm_Action = ItemPaymentAction, pm_ItemIds = [''i'']\<rparr>)))"
    by (simp add: payRequest_def plain_sdk_def respOrder_def sample_order_def tag_to_bal_def)
  moreover have "orders_for (map o_ItemId [sample_order]) [sample_order] sample_wdb"
    by (simp add: orders_for_def last_row_def unpaid_for_def sample_order_def)
  ultimately show ?thesis
    using PayOrders_settles [of plain_sdk 0 "''0xb''" "[sample_order]" "[]" _ sample_wdb] by (simp add: sample_receipt_def sample_order_def)
qed

text \<open>
  C38: BatchPayOrders is paying slice by slice. Its loop over start and end ends without an index out of
  range, and its result is that of paying the orders in slices of at most 500, up to the first error; the
  slices are the orders, each once and in their order.
\<close>

theorem BatchPayOrders_slices:
  assumes "ords \<noteq> []"
  shows "BatchPayOrders U now ords rewards = mapG (\<lambda>b. PayOrders U now b rewards) (slices ords)
    \<and> concat (slices ords) = ords \<and> (\<forall>b \<in> set (slices ords). b \<noteq> [] \<and> length b \<le> 500)"
proof -
  have "BatchPayOrders U now ords rewards = mapG (\<lambda>b. PayOrders U now b rewards) (slices ords)"
  proof (cases "length ords \<le> 500")
    case True
    then show ?thesis using slices_short [OF assms] by (cases "PayOrders U now ords rewards") (simp_all add: BatchPayOrders_def)
  next
    case False
    then show ?thesis using batchLoop_slices [of 0 500 ords U now rewards "[]"]
      by (cases "mapG (\<lambda>b. PayOrders U now b rewards) (slices ords)") (simp_all add: BatchPayOrders_def)
  qed
  then show ?thesis using slices_parts [of ords] by simp
qed

theorem BatchPayOrders_slices_witness:
  "concat (slices [respOrder ''0xb'' sample_order]) = [respOrder ''0xb'' sample_order]"
  using BatchPayOrders_slices [of "[respOrder ''0xb'' sample_order]"] by simp

text \<open>
  C27: an uploaded folder is served. However the pool orders the uploads, the manifest that uploadFolder
  stores last, read by the node that parses its text back, gives for each file of the folder the item
  that was made of that file, and the index file for the root.
\<close>

theorem uploadFolder_resolves:
  assumes up: "uploadFolder U A sched dir ix currency key sq = Ret (ords, mid)"
    and files: "getPathFiles U dir = Ret files" "distinct (sched files)" "set (sched files) = set files"
    and fp: "fp \<in> set files" "fp \<noteq> []" "hd fp \<noteq> CHR ''/''" "last fp \<noteq> CHR ''/''"
    and json: "\<And>j. parse_json W (marshal U j) = Some j"
  shows "\<exists>text mani order. SendData U A text currency key (Some manifest_item) sq = Ret (last ords) \<and> ro_ItemId (last ords) = mid
    \<and> read_manifest W text = Ret mani \<and> order \<in> set ords \<and> uploadFile U A dir currency key sq fp = Ret order
    \<and> manifest_path mani fp = Ret (ro_ItemId order)
    \<and> (fp = (if ix = [] then ''index.html'' else ix) \<longrightarrow> manifest_path mani ''/'' = Ret (ro_ItemId order))"
proof -
  let ?ix = "if ix = [] then ''index.html'' else ix"
  obtain os paths o1 where all: "uploadAll U A dir currency key sq (sched files) [] [] = Ret (os, paths)"
      and mf: "SendData U A (marshal U (manifest_json ?ix paths)) currency key (Some manifest_item) sq = Ret o1"
      and res: "ords = os @ [o1]" "mid = ro_ItemId o1"
    using up files(1) by (auto simp: uploadFolder_def Let_def andThen_Ret_iff split: prod.splits)
  obtain order where ord: "order \<in> set os" "uploadFile U A dir currency key sq fp = Ret order" "map_of paths fp = Some (ro_ItemId order)"
    using uploadAll_paths [OF all files(2)] files(3) fp(1) by blast
  let ?m = "\<lparr>mani_index = ?ix, mani_paths = paths\<rparr>"
  have rd: "read_manifest W (marshal U (manifest_json ?ix paths)) = Ret ?m" by (simp only: read_manifest_def json option.case manifest_json_read)
  have trim: "TrimSuffix (TrimPrefix fp ''/'') ''/'' = fp" "TrimSuffix (TrimPrefix ''/'' ''/'') ''/'' = []"
    using Trim_slashes(1) [of fp] fp by (simp_all add: TrimPrefix_def TrimSuffix_def)
  have 1: "manifest_path ?m fp = Ret (ro_ItemId order)" using fp(2) ord(3) trim(1) by (simp add: manifest_path_def Let_def)
  have 2: "fp = ?ix \<Longrightarrow> manifest_path ?m ''/'' = Ret (ro_ItemId order)" using fp(2) ord(3) trim(2) by (simp add: manifest_path_def Let_def)
  show ?thesis using mf rd ord(1,2) 1 2 res by (intro exI [of _ "marshal U (manifest_json ?ix paths)"] exI [of _ ?m] exI [of _ order]) simp
qed

text \<open>
  A folder with one file, on a node that answers each upload with the text that was sent; the trees
  are written as their number in an enumeration of all trees.
\<close>

instance json :: countable by countable_datatype

definition echo_client :: client where
  "echo_client = \<lparr>cl_send = (\<lambda>req. Ret (200, hq_body req)), cl_ok = (\<lambda>c. c = 200)\<rparr>"

definition tree_sdk :: sdk_lib where
  "tree_sdk = plain_sdk\<lparr>marshal := (\<lambda>j. FormatNat (to_nat j)), Abs := (\<lambda>p. Ret (CHR ''/'' # p)), ReadFile := (\<lambda>p. Ret ''hello'')\<rparr>"

definition tree_gw :: gw_lib where
  "tree_gw = plain_gw\<lparr>parse_json := (\<lambda>s. map_option from_nat (parse_nat s))\<rparr>"

theorem uploadFolder_resolves_witness:
  "\<exists>text mani. read_manifest tree_gw text = Ret mani \<and> manifest_path mani ''/'' = Ret ''hello''"
proof -
  have files: "getPathFiles tree_sdk ''d'' = Ret [''a'']"
    by (simp add: getPathFiles_def tree_sdk_def plain_sdk_def TrimPrefix_def)
  have send: "SendData tree_sdk echo_client t ''AR'' [] opt False = Ret (respOrder ''0xb'' (sample_order\<lparr>o_ItemId := t\<rparr>))" for t opt
    by (simp add: SendData_def SubmitItem_def send_def echo_client_def answer_def tree_sdk_def plain_sdk_def split: option.split)
  have one: "uploadFile tree_sdk echo_client ''d'' ''AR'' [] False ''a'' = Ret (respOrder ''0xb'' (sample_order\<lparr>o_ItemId := ''hello''\<rparr>))"
    by (simp add: uploadFile_def send readFileData_def or_panic_def) (simp add: tree_sdk_def or_panic_def send)
  obtain ords mid where up: "uploadFolder tree_sdk echo_client (\<lambda>xs. xs) ''d'' ''a'' ''AR'' [] False = Ret (ords, mid)"
    by (simp add: uploadFolder_def files one send Let_def)
  have json: "parse_json tree_gw (marshal tree_sdk j) = Some j" for j by (simp add: tree_gw_def tree_sdk_def)
  obtain t mani order where "read_manifest tree_gw t = Ret mani"
      and "uploadFile tree_sdk echo_client ''d'' ''AR'' [] False ''a'' = Ret order" and "manifest_path mani ''/'' = Ret (ro_ItemId order)"
    using uploadFolder_resolves [OF up files _ _ _ _ _ _ json, of "''a''"] by auto
  then show ?thesis using one by (intro exI [of _ t] exI [of _ mani]) (auto simp: respOrder_def)
qed

end
