(* ===== verification/StoreTypes.thy ===== *)
theory StoreTypes
  imports Store
begin

text \<open>
  The types of the store. A bucket of the key/value database takes any bytes, yet each Load of store.go decodes
  one kind of record. This theory types the buckets and shows that every method of Store keeps the types, so
  that no Load meets bytes it cannot decode, whichever requests fail.
\<close>

subsection \<open>The types of the buckets\<close>

definition is_offset :: "codec \<Rightarrow> blob \<Rightarrow> bool" where
  "is_offset E v \<longleftrightarrow> (\<exists>off. v = Bytes (itob E off))"

definition is_peers :: "blob \<Rightarrow> bool" where
  "is_peers v \<longleftrightarrow> (\<exists>m. peers_wf m \<and> v = Json (peers_json m))"

definition is_task :: "blob \<Rightarrow> bool" where
  "is_task v \<longleftrightarrow> (\<exists>tk. task_wf tk \<and> v = Json (task_json tk))"

definition is_ids :: "blob \<Rightarrow> bool" where
  "is_ids v \<longleftrightarrow> (\<exists>ids. v = Json (ids_json ids))"

definition value_ok :: "codec \<Rightarrow> string \<Rightarrow> string \<Rightarrow> blob \<Rightarrow> bool" where
  "value_ok E b k v \<longleftrightarrow>
     (b = TxDataEndOffSetBucket \<longrightarrow> is_offset E v)
   \<and> (b = ConstantsBucket \<longrightarrow> (k = all_end_key \<longrightarrow> is_offset E v) \<and> (k = peer_list_key \<longrightarrow> is_peers v))
   \<and> (b = TxMetaBucket \<longrightarrow> (\<exists>t. v = JsonTx t)) \<and> (b = ChunkBucket \<longrightarrow> (\<exists>c. v = JsonChunk c))
   \<and> (b = TaskBucket \<longrightarrow> is_task v) \<and> (b = BundleItemMeta \<longrightarrow> (\<exists>m. v = JsonItem m))
   \<and> (b = BundleArIdToItemIdsBucket \<longrightarrow> is_ids v)"

definition typed :: "codec \<Rightarrow> kvdb \<Rightarrow> bool" where
  "typed E d \<longleftrightarrow> (\<forall>b k v. kv_lookup d b k = Some v \<longrightarrow> value_ok E b k v)"

text \<open>The methods of Store that write, with the arguments that Go's types allow.\<close>

inductive store_step :: "codec \<Rightarrow> kvdb \<Rightarrow> kvdb \<Rightarrow> bool" for E :: codec where
  "store_step E d (snd (SaveAllDataEndOffset E off d))"
| "store_step E d (snd (RollbackAllDataEndOffset E off d))"
| "store_step E d (snd (SaveTxDataEndOffSet E root sz off d))"
| "store_step E d (snd (AtomicSyncDataEndOffset E pre new root sz d))"
| "store_step E d (snd (SaveTxMeta tx d))"
| "store_step E d (snd (SaveChunk E off ck d))"
| "peers_wf m \<Longrightarrow> store_step E d (snd (SavePeers m d))"
| "store_step E d (snd (PutTaskPendingPool taskId d))"
| "store_step E d (snd (DelPendingPoolTaskId taskId d))"
| "task_wf tk \<Longrightarrow> store_step E d (snd (SaveTask taskId tk d))"
| "store_step E d (snd (UpdateRealTimeStatistic data d))"
| "store_step E d (snd (SaveItemBinary E item d))"
| "store_step E d (snd (DelItemBinary itemId d))"
| "store_step E d (snd (SaveItemMeta item d))"
| "store_step E d (snd (DelItemMeta itemId d))"
| "store_step E d (snd (AtomicSaveItem E item d))"
| "store_step E d (snd (AtomicDelItem itemId d))"
| "store_step E d (snd (SaveWaitParseBundleArId arId d))"
| "store_step E d (snd (DelParsedBundleArId arId d))"
| "store_step E d (snd (SaveArIdToItemIds arId ids d))"

subsection \<open>The methods keep the types\<close>

definition keeps :: "codec \<Rightarrow> (kvdb \<Rightarrow> 'a go \<times> kvdb) \<Rightarrow> bool" where
  "keeps E m \<longleftrightarrow> (\<forall>d r d1. m d = (r, d1) \<longrightarrow> kv_kind d1 = kv_kind d \<and> (typed E d \<longrightarrow> typed E d1))"

lemma keepsD: "keeps E m \<Longrightarrow> typed E d \<Longrightarrow> typed E (snd (m d)) \<and> kv_kind (snd (m d)) = kv_kind d"
  unfolding keeps_def by (metis prod.collapse)

lemma keeps_put:
  assumes "value_ok E b k w"
  shows "keeps E (kv_put b k (VBytes w))"
  unfolding keeps_def
proof (intro allI impI)
  fix d r d1 assume p: "kv_put b k (VBytes w) d = (r, d1)"
  show "kv_kind d1 = kv_kind d \<and> (typed E d \<longrightarrow> typed E d1)"
    using kv_put_bytes [OF p] assms by (cases "r = Ret ()") (auto simp: typed_def split: if_splits)
qed

lemma keeps_delete: "keeps E (kv_delete b k)"
  unfolding keeps_def
proof (intro allI impI)
  fix d r d1 assume p: "kv_delete b k d = (r, d1)"
  show "kv_kind d1 = kv_kind d \<and> (typed E d \<longrightarrow> typed E d1)"
    using kv_delete_cases [OF p] by (auto simp: typed_def split: if_splits)
qed

lemma keeps_reader: "keeps E (kv_put BundleItemBinary k (VReader s))"
  unfolding keeps_def
proof (intro allI impI)
  fix d r d1 assume p: "kv_put BundleItemBinary k (VReader s) d = (r, d1)"
  obtain f t where t: "tick d = (f, t)" by (cases "tick d")
  have any: "value_ok E BundleItemBinary k v" for v by (simp add: value_ok_def bucket_defs)
  show "kv_kind d1 = kv_kind d \<and> (typed E d \<longrightarrow> typed E d1)"
    using p t tickE [OF t] any
    by (cases "kv_kind d"; cases f) (auto simp: kv_put_def bolt_put_def s3_put_def mongo_put_def typed_def split: if_splits)
qed

lemma keeps_bind: "keeps E m \<Longrightarrow> (\<And>x. keeps E (f x)) \<Longrightarrow> keeps E (bindG m f)"
  unfolding keeps_def bindG_def by (force split: prod.splits go.splits)

lemma keeps_pure: "keeps E (\<lambda>d. (r, d))"
  by (simp add: keeps_def)

lemma value_ok_saved:
  "value_ok E ConstantsBucket all_end_key (Bytes (itob E off))"
  "value_ok E TxDataEndOffSetBucket k (Bytes (itob E off))"
  "value_ok E TxMetaBucket k (JsonTx t)" "value_ok E ChunkBucket k (JsonChunk c)"
  "peers_wf m \<Longrightarrow> value_ok E ConstantsBucket peer_list_key (Json (peers_json m))"
  "value_ok E TaskIdPendingPoolBucket k v"
  "task_wf tk \<Longrightarrow> value_ok E TaskBucket k (Json (task_json tk))"
  "value_ok E StatisticBucket k v" "value_ok E BundleItemBinary k v" "value_ok E BundleItemMeta k (JsonItem i)"
  "value_ok E BundleWaitParseArIdBucket k v" "value_ok E BundleArIdToItemIdsBucket k (Json (ids_json ids))"
  by (auto simp: value_ok_def bucket_defs is_offset_def is_peers_def is_task_def is_ids_def all_end_key_def peer_list_key_def)

lemmas keeps_intros = keeps_put keeps_delete keeps_reader keeps_pure value_ok_saved

lemma keeps_methods:
  "keeps E (SaveAllDataEndOffset E off)" "keeps E (RollbackAllDataEndOffset E off)" "keeps E (SaveTxDataEndOffSet E root sz off)"
  "keeps E (SaveTxMeta tx)" "keeps E (SaveChunk E off ck)" "peers_wf m \<Longrightarrow> keeps E (SavePeers m)"
  "keeps E (PutTaskPendingPool taskId)" "keeps E (DelPendingPoolTaskId taskId)" "task_wf tk \<Longrightarrow> keeps E (SaveTask taskId tk)"
  "keeps E (UpdateRealTimeStatistic data)" "keeps E (DelItemBinary itemId)" "keeps E (SaveItemMeta item)" "keeps E (DelItemMeta itemId)"
  "keeps E (SaveWaitParseBundleArId arId)" "keeps E (DelParsedBundleArId arId)" "keeps E (SaveArIdToItemIds arId ids)"
  unfolding SaveAllDataEndOffset_def RollbackAllDataEndOffset_def SaveTxDataEndOffSet_def SaveTxMeta_def SaveChunk_def SavePeers_def
    PutTaskPendingPool_def DelPendingPoolTaskId_def SaveTask_def UpdateRealTimeStatistic_def DelItemBinary_def SaveItemMeta_def
    DelItemMeta_def SaveWaitParseBundleArId_def DelParsedBundleArId_def SaveArIdToItemIds_def mark_def
  by (intro keeps_intros; assumption?)+

lemma keeps_ignoring: "keeps E m \<Longrightarrow> keeps E (ignoring m r)"
  unfolding keeps_def ignoring_def by (force split: prod.splits go.splits)

lemma keeps_rescue:
  assumes "keeps E m" and "\<And>e. keeps E (h e)"
  shows "keeps E (\<lambda>d. case m d of (Err e, d2) \<Rightarrow> h e d2 | (r, d2) \<Rightarrow> (r, d2))"
  using assms unfolding keeps_def by (force split: prod.splits go.splits)

lemma keeps_composed:
  "keeps E (AtomicSyncDataEndOffset E pre new root sz)" "keeps E (SaveItemBinary E item)" "keeps E (AtomicSaveItem E item)"
  "keeps E (AtomicDelItem itemId)"
proof -
  show "keeps E (AtomicSyncDataEndOffset E pre new root sz)"
    unfolding AtomicSyncDataEndOffset_def by (intro keeps_bind keeps_rescue keeps_ignoring keeps_methods)
  show bin: "keeps E (SaveItemBinary E item)"
  proof -
    have "SaveItemBinary E item = (\<lambda>d. kv_put BundleItemBinary (it_Id item) (VReader s) d)
      \<or> SaveItemBinary E item = (\<lambda>d. (r, d)) \<or> SaveItemBinary E item = kv_put BundleItemBinary (it_Id item) (VBytes (Bytes (it_ItemBinary item)))"
      if "s = (case itemStream E item of Ret s \<Rightarrow> s | _ \<Rightarrow> [])"
        "r = (case itemStream E item of Err e \<Rightarrow> Err e | Panic p \<Rightarrow> Panic p | _ \<Rightarrow> Ret ())" for s r
      using that by (cases "it_DataReader item"; cases "itemStream E item") (simp_all add: SaveItemBinary_def fun_eq_iff)
    then show ?thesis using keeps_reader keeps_pure keeps_put [OF value_ok_saved(9)] by metis
  qed
  show "keeps E (AtomicSaveItem E item)"
    unfolding AtomicSaveItem_def by (intro keeps_bind keeps_rescue keeps_ignoring keeps_methods bin)
  show "keeps E (AtomicDelItem itemId)"
    unfolding AtomicDelItem_def by (intro keeps_bind keeps_methods)
qed

lemma store_step_typed: "store_step E d d1 \<Longrightarrow> typed E d \<Longrightarrow> typed E d1 \<and> kv_kind d1 = kv_kind d"
  by (induction rule: store_step.induct) (rule keepsD; (rule keeps_methods keeps_composed)?; assumption)+

subsection \<open>A typed store is decoded\<close>

text \<open>No panic, and no error of json.Unmarshal; what remains are the errors of the backend.\<close>

definition decoded :: "'a go \<Rightarrow> bool" where
  "decoded r \<longleftrightarrow> r \<noteq> Err json_err \<and> (\<forall>p. r \<noteq> Panic p)"

lemma kv_get_typed:
  assumes "typed E d" and "kv_kind d \<noteq> Aliyun"
  shows "(\<exists>v d1. kv_get b k d = (Ret v, d1) \<and> value_ok E b k v) \<or> (\<exists>e d1. kv_get b k d = (Err e, d1) \<and> e \<noteq> json_err)"
proof -
  obtain f t where t: "tick d = (f, t)" by (cases "tick d")
  show ?thesis
    using t tickE [OF t] assms
    by (cases "kv_kind d"; cases f) (auto simp: kv_get_def bolt_get_def s3_get_def mongo_get_def typed_def json_err_def io_err_def
      split: option.splits)
qed

lemma btoi_offset: "base64_ok E \<Longrightarrow> is_offset E v \<Longrightarrow> decoded (btoi_blob E v)"
  by (auto simp: is_offset_def btoi_blob_def decoded_def)

lemma load_typed:
  assumes "typed E d" and "kv_kind d \<noteq> Aliyun" and "\<And>v. value_ok E b k v \<Longrightarrow> decoded (f v)"
  shows "decoded (fst (bindG (kv_get b k) (\<lambda>v d. (f v, d)) d))"
  using kv_get_typed [OF assms(1,2), of b k] assms(3) by (auto simp: bindG_def decoded_def)

lemma loads_decoded:
  assumes "base64_ok E" and "typed E d" and "kv_kind d \<noteq> Aliyun"
  shows "decoded (fst (LoadAllDataEndOffset E d))" and "decoded (fst (LoadTxDataEndOffSet E root sz d))"
    and "decoded (fst (LoadTxMeta arId d))" and "decoded (fst (LoadChunk E off d))" and "decoded (fst (LoadPeers d))"
    and "decoded (fst (LoadTask taskId d))" and "decoded (fst (LoadItemMeta itemId d))" and "decoded (fst (LoadArIdToItemIds arId d))"
proof -
  note load = load_typed [OF assms(2,3)]
  show "decoded (fst (LoadAllDataEndOffset E d))"
  proof -
    have "decoded (btoi_blob E v)" if "value_ok E ConstantsBucket all_end_key v" for v
      using that btoi_offset [OF assms(1)] by (simp add: value_ok_def)
    then show ?thesis
      using kv_get_typed [OF assms(2,3), of ConstantsBucket all_end_key]
      by (auto simp: LoadAllDataEndOffset_def decoded_def split: if_splits)
  qed
  show "decoded (fst (LoadTxDataEndOffSet E root sz d))"
    unfolding LoadTxDataEndOffSet_def using btoi_offset [OF assms(1)] by (intro load) (simp add: value_ok_def)
  show "decoded (fst (LoadTxMeta arId d))"
    unfolding LoadTxMeta_def by (intro load) (auto simp: value_ok_def unmarshal_tx_def decoded_def)
  show "decoded (fst (LoadChunk E off d))"
    unfolding LoadChunk_def by (intro load) (auto simp: value_ok_def unmarshal_chunk_def decoded_def)
  show "decoded (fst (LoadPeers d))"
    unfolding LoadPeers_def by (intro load) (auto simp: value_ok_def is_peers_def unmarshal_def decoded_def peers_codec.dec_enc)
  show "decoded (fst (LoadTask taskId d))"
    unfolding LoadTask_def by (intro load) (auto simp: value_ok_def is_task_def unmarshal_def decoded_def task_codec.dec_enc)
  show "decoded (fst (LoadItemMeta itemId d))"
    unfolding LoadItemMeta_def by (intro load) (auto simp: value_ok_def unmarshal_item_def decoded_def)
  show "decoded (fst (LoadArIdToItemIds arId d))"
    unfolding LoadArIdToItemIds_def by (intro load) (auto simp: value_ok_def is_ids_def unmarshal_def decoded_def ids_codec.dec_enc)
qed

text \<open>A failure of the Aliyun service: no bytes are read as an offset, and the probe before an allocation panics.\<close>

theorem aliyun_failure_panics:
  assumes "base64_ok E" and "kv_kind d = Aliyun" and "kv_faults d = SvcFault # fs"
  shows "\<exists>p. fst (LoadTxDataEndOffSet E root sz d) = Panic p \<and> fst (IsExistTxDataEndOffset E root sz d) = Panic p"
proof -
  have "b64dec E [] = Some []" using assms(1) unfolding base64_ok_def by metis
  then show ?thesis
    using assms(2,3) by (simp add: IsExistTxDataEndOffset_def LoadTxDataEndOffSet_def kv_get_def aliyun_get_def tick_def handleOSSErr_def
      btoi_blob_def btoi_def bindG_def probe_def)
qed

theorem aliyun_failure_panics_witness:
  "\<exists>p. fst (IsExistTxDataEndOffset plain_codec ''r'' ''s'' (empty_kv Aliyun [SvcFault])) = Panic p"
  using aliyun_failure_panics [of plain_codec "empty_kv Aliyun [SvcFault]" "[]"] by (auto simp: empty_kv_def)

subsection \<open>Properties\<close>

text \<open>
  C20: the store is well typed. On every state that the writing methods of Store reach from an empty database, in any order,
  with any arguments and whichever requests fail, each Load either gives a record or the error of the backend: it
  never fails to decode what it reads and never panics. This holds for every backend but Aliyun, whose Get answers a failure of the
  service with no bytes and no error.
\<close>

theorem store_loads_decode:
  assumes "(store_step E)\<^sup>*\<^sup>* (empty_kv K fs) d" and "base64_ok E" and "K \<noteq> Aliyun"
  shows "typed E d \<and> decoded (fst (LoadAllDataEndOffset E d)) \<and> decoded (fst (LoadTxDataEndOffSet E root sz d))
    \<and> decoded (fst (LoadTxMeta arId d)) \<and> decoded (fst (LoadChunk E off d)) \<and> decoded (fst (LoadPeers d))
    \<and> decoded (fst (LoadTask taskId d)) \<and> decoded (fst (LoadItemMeta itemId d)) \<and> decoded (fst (LoadArIdToItemIds arId d))"
proof -
  have "typed E d \<and> kv_kind d = K" using assms(1)
  proof (induction rule: rtranclp_induct)
    case base
    then show ?case by (simp add: typed_def empty_kv_def kv_lookup_def)
  next
    case (step d d')
    then show ?case using store_step_typed by metis
  qed
  with loads_decoded [OF assms(2)] assms(3) show ?thesis by blast
qed

theorem store_loads_decode_witness:
  "decoded (fst (LoadTxMeta ''t'' (snd (SaveTxDataEndOffSet plain_codec ''r'' ''s'' 7 (snd (SaveAllDataEndOffset plain_codec 7 (empty_kv S3 [SvcFault])))))))"
proof -
  let ?d = "snd (SaveAllDataEndOffset plain_codec 7 (empty_kv S3 [SvcFault]))"
  have "(store_step plain_codec)\<^sup>*\<^sup>* (empty_kv S3 [SvcFault]) (snd (SaveTxDataEndOffSet plain_codec ''r'' ''s'' 7 ?d))"
    using store_step.intros(1) [of plain_codec "empty_kv S3 [SvcFault]" 7] store_step.intros(3) [of plain_codec ?d "''r''" "''s''" 7]
    by (meson converse_rtranclp_into_rtranclp r_into_rtranclp)
  then show ?thesis using store_loads_decode by fastforce
qed

end
