(* ===== verification/Tasks.thy ===== *)
theory Tasks
  imports Gateway
begin

text \<open>
  task.go: what the runner does with an id from the task channel. The state is the gateway, beside it
  the requests sent to the peers. None is a call that does not return, which getArTxData can be. The
  clock of the start of a task and the answer of GetTransactionStatus are fields of \<open>task_env\<close>.
\<close>

datatype tx_status = OnChain | PendingTx | NotFoundTx | StatusError

record task_env =
  te_goar :: goar
  te_chain :: chain_lib
  te_gw :: gw_lib
  te_net :: net
  te_manifest :: bool
  te_peers :: "string list"
  te_now :: int
  te_status :: "string \<Rightarrow> tx_status"

record runner =
  rn_gw :: gateway
  rn_sent :: "request list"

text \<open>A call that may not return, followed by another.\<close>

definition bindO :: "('s \<Rightarrow> ('a go \<times> 's) option) \<Rightarrow> ('a \<Rightarrow> 's \<Rightarrow> ('b go \<times> 's) option) \<Rightarrow> 's \<Rightarrow> ('b go \<times> 's) option" where
  "bindO m f s = (case m s of
      None \<Rightarrow> None
    | Some (Ret v, s1) \<Rightarrow> f v s1
    | Some (Err e, s1) \<Rightarrow> Some (Err e, s1)
    | Some (Panic p, s1) \<Rightarrow> Some (Panic p, s1))"

definition doO :: "('s \<Rightarrow> 'a go \<times> 's) \<Rightarrow> 's \<Rightarrow> ('a go \<times> 's) option" where
  "doO m s = Some (m s)"

definition on_gw :: "(gateway \<Rightarrow> 'a go \<times> gateway) \<Rightarrow> runner \<Rightarrow> 'a go \<times> runner" where
  "on_gw m s = (case m (rn_gw s) of (r, g) \<Rightarrow> (r, s\<lparr>rn_gw := g\<rparr>))"

definition table :: "runner \<Rightarrow> task_map" where
  "table s = s_tasks (g_seed (rn_gw s))"

definition kv_of :: "runner \<Rightarrow> kvdb" where
  "kv_of s = s_store (g_seed (rn_gw s))"

definition on_table :: "(task_map \<Rightarrow> 'a go \<times> task_map) \<Rightarrow> runner \<Rightarrow> 'a go \<times> runner" where
  "on_table m = on_gw (on_seed (on_tasks m))"

definition on_kv :: "(kvdb \<Rightarrow> 'a go \<times> kvdb) \<Rightarrow> runner \<Rightarrow> 'a go \<times> runner" where
  "on_kv m = on_gw (on_seed (on_store m))"

definition seedO :: "(seeding \<Rightarrow> ('a go \<times> seeding) option) \<Rightarrow> runner \<Rightarrow> ('a go \<times> runner) option" where
  "seedO m s = (case m (g_seed (rn_gw s)) of None \<Rightarrow> None
     | Some (r, s1) \<Rightarrow> Some (r, s\<lparr>rn_gw := (rn_gw s)\<lparr>g_seed := s1\<rparr>\<rparr>))"

definition kvO :: "(kvdb \<Rightarrow> ('a go \<times> kvdb) option) \<Rightarrow> runner \<Rightarrow> ('a go \<times> runner) option" where
  "kvO m s = (case m (kv_of s) of None \<Rightarrow> None
     | Some (r, d) \<Rightarrow> Some (r, s\<lparr>rn_gw := put_store d (rn_gw s)\<rparr>))"

subsection \<open>The handlers\<close>

definition fetchTask :: "task_env \<Rightarrow> string \<Rightarrow> runner \<Rightarrow> (unit go \<times> runner) option" where
  "fetchTask T arId = seedO (FetchAndStoreTx (te_goar T) (te_net T) (te_manifest T) (te_peers T) arId)"

definition beginTask :: "task_env \<Rightarrow> string \<Rightarrow> string \<Rightarrow> runner \<Rightarrow> unit go \<times> runner" where
  "beginTask T arId ty = on_table (TaskBeginSet (te_now T) arId ty (int (length (te_peers T))))"

definition closeDone :: "string \<Rightarrow> string \<Rightarrow> runner \<Rightarrow> unit go \<times> runner" where
  "closeDone arId ty = on_table (\<lambda>m. (Ret (), snd (CloseTask arId ty (IncSuccessed arId ty m))))"

definition syncTask :: "task_env \<Rightarrow> string \<Rightarrow> runner \<Rightarrow> (unit go \<times> runner) option" where
  "syncTask T arId s = (if IsClosed arId TaskTypeSync (table s) then Some (Ret (), s)
     else bindO (doO (beginTask T arId TaskTypeSync)) (\<lambda>_. bindO (fetchTask T arId) (\<lambda>_.
       doO (closeDone arId TaskTypeSync))) s)"

text \<open>Data that is not in the store is fetched once; another error of the first read ends the task.\<close>

definition loadOrFetch :: "task_env \<Rightarrow> string \<Rightarrow> transaction \<Rightarrow> runner \<Rightarrow> (string go \<times> runner) option" where
  "loadOrFetch T arId meta s = (let load = kvO (getArTxData (te_goar T) (tx_DataRoot meta) (tx_DataSize meta)) in
     case load s of
       Some (Err e, s1) \<Rightarrow> if e = ErrNotExist then bindO (fetchTask T arId) (\<lambda>_. load) s1 else Some (Err e, s1)
     | r \<Rightarrow> r)"

definition broadcastTxTask :: "task_env \<Rightarrow> string \<Rightarrow> runner \<Rightarrow> (unit go \<times> runner) option" where
  "broadcastTxTask T arId s = (if IsClosed arId TaskTypeBroadcast (table s) then Some (Ret (), s)
     else bindO (doO (beginTask T arId TaskTypeBroadcast)) (\<lambda>_.
       bindO (doO (on_kv (IsExistTxMeta arId))) (\<lambda>ex.
       bindO (if ex then doO (Pair (Ret ())) else fetchTask T arId) (\<lambda>_.
       bindO (doO (on_kv (LoadTxMeta arId))) (\<lambda>txMeta.
       bindO (loadOrFetch T arId txMeta) (\<lambda>txData s1. Some (
         let posted = \<not> (te_status T arId = PendingTx \<or> te_status T arId = NotFoundTx);
             tx = txMeta\<lparr>tx_Data := b64enc (cod (te_goar T)) txData\<rparr>;
             sent = BroadcastData (te_net T) arId TaskTypeBroadcast tx (te_peers T) posted (table s1);
             s2 = snd (on_table (\<lambda>_. (Ret (), snd sent)) s1)
         in (if te_status T arId = StatusError then Err (ErrMsg ''get transaction status'') else Ret (),
             s2\<lparr>rn_sent := rn_sent s2 @ fst sent\<rparr>))))))) s)"

definition broadcastTxMetaTask :: "task_env \<Rightarrow> string \<Rightarrow> runner \<Rightarrow> unit go \<times> runner" where
  "broadcastTxMetaTask T arId = bindG (on_kv (IsExistTxMeta arId)) (\<lambda>ex. if \<not> ex then Pair (Err ErrNotExist)
     else bindG (on_kv (LoadTxMeta arId)) (\<lambda>txMeta s. if IsClosed arId TaskTypeBroadcastMeta (table s) then (Ret (), s)
       else bindG (beginTask T arId TaskTypeBroadcastMeta) (\<lambda>_ s1.
         let sent = BroadcastTxMeta (te_net T) arId TaskTypeBroadcastMeta txMeta (te_peers T) (table s1);
             s2 = snd (on_table (\<lambda>_. (Ret (), snd sent)) s1)
         in (Ret (), s2\<lparr>rn_sent := rn_sent s2 @ fst sent\<rparr>)) s))"

text \<open>A manifest task is never begun: its Timestamp stays 0.\<close>

definition syncManifestTask :: "task_env \<Rightarrow> string \<Rightarrow> runner \<Rightarrow> unit go \<times> runner" where
  "syncManifestTask T arId s = (if IsClosed arId TaskTypeSyncManifest (table s) then (Ret (), s)
     else bindG (on_kv (syncManifestData (te_goar T) (te_chain T) (te_gw T) arId)) (\<lambda>_. closeDone arId TaskTypeSyncManifest) s)"

definition runType :: "task_env \<Rightarrow> string \<Rightarrow> string \<Rightarrow> runner \<Rightarrow> (unit go \<times> runner) option" where
  "runType T arId taskType =
     (if taskType = TaskTypeSync then syncTask T arId
      else if taskType = TaskTypeBroadcast then broadcastTxTask T arId
      else if taskType = TaskTypeBroadcastMeta then doO (broadcastTxMetaTask T arId)
      else if taskType = TaskTypeSyncManifest then doO (syncManifestTask T arId)
      else doO (Pair (Ret ())))"

text \<open>Errors of the handler and of setProcessedTask are logged, nothing is returned; a panic ends the process.\<close>

definition processTask :: "task_env \<Rightarrow> string \<Rightarrow> runner \<Rightarrow> (unit go \<times> runner) option" where
  "processTask T taskId s = (let (arId, taskType) = (case splitTaskId taskId of Ret p \<Rightarrow> p | _ \<Rightarrow> ([], [])) in
     case runType T arId taskType s of
       None \<Rightarrow> None
     | Some (Panic p, s1) \<Rightarrow> Some (Panic p, s1)
     | Some (_, s1) \<Rightarrow> Some (case on_gw (on_tasking (setProcessedTask arId taskType)) s1 of
           (Panic p, s2) \<Rightarrow> (Panic p, s2) | (_, s2) \<Rightarrow> (Ret (), s2)))"

text \<open>runTask takes the ids one by one and starts a goroutine for each; here they run one after the other.\<close>

fun runTask :: "task_env \<Rightarrow> string list \<Rightarrow> runner \<Rightarrow> (unit go \<times> runner) option" where
  "runTask T [] s = Some (Ret (), s)"
| "runTask T (taskId # ids) s = (case processTask T taskId s of
      None \<Rightarrow> None | Some (Panic p, s1) \<Rightarrow> Some (Panic p, s1) | Some (_, s1) \<Rightarrow> runTask T ids s1)"

subsection \<open>Facts\<close>

lemma kv_delete_gone: "kv_delete b k d = (Ret u, d1) \<Longrightarrow> kv_lookup d1 b k = None"
  by (auto simp: kv_delete_def raw_delete_def split: prod.splits fault.splits kv_kind.splits if_splits)

lemma table_simps [simp]:
  "table (s\<lparr>rn_gw := (rn_gw s)\<lparr>g_seed := x\<rparr>\<rparr>) = s_tasks x" "kv_of (s\<lparr>rn_gw := (rn_gw s)\<lparr>g_seed := x\<rparr>\<rparr>) = s_store x"
  "table (s\<lparr>rn_sent := q\<rparr>) = table s" "kv_of (s\<lparr>rn_sent := q\<rparr>) = kv_of s"
  by (simp_all add: table_def kv_of_def)

lemma on_table_eq: "on_table m s = (fst (m (table s)), s\<lparr>rn_gw := (rn_gw s)\<lparr>g_seed := (g_seed (rn_gw s))\<lparr>s_tasks := snd (m (table s))\<rparr>\<rparr>\<rparr>)"
  by (simp add: on_table_def on_gw_def on_seed_def on_tasks_def table_def split: prod.splits)

lemma on_kv_eq: "on_kv m s = (fst (m (kv_of s)), s\<lparr>rn_gw := (rn_gw s)\<lparr>g_seed := (g_seed (rn_gw s))\<lparr>s_store := snd (m (kv_of s))\<rparr>\<rparr>\<rparr>)"
  by (simp add: on_kv_def on_gw_def on_seed_def on_store_def kv_of_def split: prod.splits)

text \<open>What setProcessedTask leaves, whichever requests fail, and when none does.\<close>

lemma setProcessedTask_outcome:
  assumes "setProcessedTask a ty t = (r, t1)"
  shows "(r = Ret () \<and> GetTask a ty (tk_map t1) = None \<and> kv_lookup (tk_store t1) TaskIdPendingPoolBucket (assembleTaskId a ty) = None)
    \<or> ((\<exists>e. r = Err e) \<and> GetTask a ty (tk_map t1) = None
        \<and> kv_lookup (tk_store t1) TaskIdPendingPoolBucket (assembleTaskId a ty) = kv_lookup (tk_store t) TaskIdPendingPoolBucket (assembleTaskId a ty))
    \<or> (\<not> is_ret r \<and> GetTask a ty (tk_map t) \<noteq> None \<and> tk_map t1 = tk_map t
        \<and> kv_lookup (tk_store t1) TaskIdPendingPoolBucket (assembleTaskId a ty) = kv_lookup (tk_store t) TaskIdPendingPoolBucket (assembleTaskId a ty))"
    (is "?released \<or> ?pooled \<or> ?kept")
    and "\<And>k. k \<noteq> assembleTaskId a ty \<Longrightarrow> map_of (tk_map t1) k = map_of (tk_map t) k"
proof -
  let ?id = "assembleTaskId a ty"
  obtain q d1 where q: "(case GetTask a ty (tk_map t) of Some tk \<Rightarrow> SaveTask ?id tk (tk_store t) | None \<Rightarrow> (Ret (), tk_store t)) = (q, d1)"
    by (cases "case GetTask a ty (tk_map t) of Some tk \<Rightarrow> SaveTask ?id tk (tk_store t) | None \<Rightarrow> (Ret (), tk_store t)")
  have "TaskIdPendingPoolBucket \<noteq> TaskBucket" by (simp add: bucket_defs)
  then have pool: "kv_lookup d1 TaskIdPendingPoolBucket ?id = kv_lookup (tk_store t) TaskIdPendingPoolBucket ?id"
    using q kv_put_other [of TaskBucket] by (auto simp: SaveTask_def split: option.splits)
  show "?released \<or> ?pooled \<or> ?kept"
  proof (cases "is_ret q")
    case True
    then obtain r2 d2 where "DelPendingPoolTaskId ?id d1 = (r2, d2)" and r: "r = r2" "tk_store t1 = d2" "tk_map t1 = DelTask a ty (tk_map t)"
      using assms q by (cases q) (auto simp: setProcessedTask_def Let_def split: prod.splits)
    moreover have "GetTask a ty (DelTask a ty (tk_map t)) = None" by (simp add: GetTask_def tm_maps)
    ultimately show ?thesis using kv_delete_fails [of TaskIdPendingPoolBucket ?id d1 r2 d2] pool by (auto simp: DelPendingPoolTaskId_def)
  next
    case False
    then have "GetTask a ty (tk_map t) \<noteq> None" using q by (auto split: option.splits)
    moreover have "\<not> is_ret r" "tk_map t1 = tk_map t" "tk_store t1 = d1"
      using False assms q by (cases q; auto simp: setProcessedTask_def Let_def)+
    ultimately show ?thesis using pool by auto
  qed
  show "\<And>k. k \<noteq> ?id \<Longrightarrow> map_of (tk_map t1) k = map_of (tk_map t) k"
    using assms by (auto simp: setProcessedTask_def Let_def tm_maps split: prod.splits go.splits)
qed

lemma setProcessedTask_healthy:
  assumes "healthy (tk_store t)" and "GetTask a ty (tk_map t) = Some tk" and "task_wf tk"
  shows "\<exists>t1. setProcessedTask a ty t = (Ret (), t1) \<and> GetTask a ty (tk_map t1) = None
    \<and> kv_lookup (tk_store t1) TaskIdPendingPoolBucket (assembleTaskId a ty) = None
    \<and> LoadTask (assembleTaskId a ty) (tk_store t1) = (Ret tk, tk_store t1) \<and> healthy (tk_store t1)
    \<and> tk_chan t1 = tk_chan t
    \<and> (\<forall>b k. b \<noteq> TaskBucket \<and> b \<noteq> TaskIdPendingPoolBucket \<longrightarrow> kv_lookup (tk_store t1) b k = kv_lookup (tk_store t) b k)"
  using assms
  by (simp add: setProcessedTask_def Let_def SaveTask_def DelPendingPoolTaskId_def GetTask_def tm_maps)

lemma processTask_assembled:
  assumes "Contains task_types ty"
  shows "processTask T (assembleTaskId a ty) s = (case runType T a ty s of
      None \<Rightarrow> None | Some (Panic p, s1) \<Rightarrow> Some (Panic p, s1)
    | Some (_, s1) \<Rightarrow> Some (case on_gw (on_tasking (setProcessedTask a ty)) s1 of
        (Panic p, s2) \<Rightarrow> (Panic p, s2) | (_, s2) \<Rightarrow> (Ret (), s2)))"
  using splitTaskId_assemble [of ty a] accepted_type [OF assms] by (simp add: processTask_def)

subsection \<open>Samples\<close>

definition hello_net :: net where
  "hello_net = plain_net\<lparr>gw_tx := (\<lambda>_. Ret hello_tx), gw_data := (\<lambda>_. Ret ''hello'')\<rparr>"

definition hello_env :: task_env where
  "hello_env = \<lparr>te_goar = plain_goar, te_chain = plain_chain, te_gw = plain_gw, te_net = hello_net, te_manifest = False,
     te_peers = [''p''], te_now = 1000, te_status = (\<lambda>_. OnChain)\<rparr>"

definition task_runner :: "task \<Rightarrow> runner" where
  "task_runner t = \<lparr>rn_gw = (empty_gw (kv_store TaskIdPendingPoolBucket (assembleTaskId (ArId t) (TaskType t)) (Bytes ''0x01'')
       (empty_kv Bolt [])) empty_wdb)\<lparr>g_seed := \<lparr>s_store = kv_store TaskIdPendingPoolBucket (assembleTaskId (ArId t) (TaskType t))
       (Bytes ''0x01'') (empty_kv Bolt []), s_wdb = empty_wdb, s_tasks = [(assembleTaskId (ArId t) (TaskType t), t)]\<rparr>\<rparr>, rn_sent = []\<rparr>"

subsection \<open>Properties\<close>


text \<open>
  A task that was closed before its turn is not run: nothing is sent, and the table and the content
  of the store stay as they are.
\<close>

theorem closed_task_is_not_run:
  assumes "IsClosed a ty (table s)" and "ty \<in> {TaskTypeSync, TaskTypeBroadcast, TaskTypeBroadcastMeta, TaskTypeSyncManifest}"
    and "healthy (kv_of s)"
  shows "\<exists>r s1. runType T a ty s = Some (r, s1) \<and> rn_sent s1 = rn_sent s \<and> table s1 = table s \<and> kv_of s1 = kv_of s"
proof (cases "ty = TaskTypeBroadcastMeta")
  case False
  then have "runType T a ty s = Some (Ret (), s)"
    using assms(1,2) by (auto simp: runType_def syncTask_def broadcastTxTask_def syncManifestTask_def doO_def task_type_defs)
  then show ?thesis by blast
next
  case True
  have load: "snd (LoadTxMeta a (kv_of s)) = kv_of s" using assms(3)
    by (cases "kv_lookup (kv_of s) TxMetaBucket a")
      (auto simp: LoadTxMeta_def bindG_def healthy_def kv_get_def bolt_get_def s3_get_def aliyun_get_def mongo_get_def
        split: go.splits prod.splits kv_kind.splits option.splits if_splits)
  obtain r where r: "LoadTxMeta a (kv_of s) = (r, kv_of s)" using load by (metis prod.collapse)
  have same: "s\<lparr>rn_gw := (rn_gw s)\<lparr>g_seed := (g_seed (rn_gw s))\<lparr>s_store := kv_of s\<rparr>\<rparr>\<rparr> = s" by (simp add: kv_of_def)
  have "on_kv (LoadTxMeta a) s = (r, s)" "on_kv (IsExistTxMeta a) s = (probe r, s)"
    using r same by (simp_all add: on_kv_eq IsExistTxMeta_def)
  then have "\<exists>q. broadcastTxMetaTask T a s = (q, s)"
    using assms(1) True by (auto simp: broadcastTxMetaTask_def bindG_def split: go.splits)
  then show ?thesis using True by (auto simp: runType_def doO_def task_type_defs)
qed

theorem closed_task_is_not_run_witness:
  "\<exists>r s1. runType hello_env ''t'' TaskTypeBroadcast (task_runner ((new_task ''t'' TaskTypeBroadcast)\<lparr>Close := True\<rparr>)) = Some (r, s1)
     \<and> rn_sent s1 = []"
proof -
  let ?s = "task_runner ((new_task ''t'' TaskTypeBroadcast)\<lparr>Close := True\<rparr>)"
  have "IsClosed ''t'' TaskTypeBroadcast (table ?s)" "healthy (kv_of ?s)" "rn_sent ?s = []"
    by (simp_all add: task_runner_def table_def kv_of_def IsClosed_def new_task_def)
  then show ?thesis using closed_task_is_not_run [of "''t''" TaskTypeBroadcast ?s hello_env] by auto
qed

lemma sync_task_run:
  assumes fresh: "fresh_tx (te_goar T) meta cur (kv_of s)"
    and room: "tx_room (te_goar T) meta data (cur + of_nat (length data))"
    and gw: "gw_tx (te_net T) arId = Ret meta" "gw_data (te_net T) arId = Ret data"
    and i: "tx_ID meta = arId" "arId \<noteq> []"
    and ck: "chunked (te_goar T) meta data parts cs"
    and upto: "chunks_upto (te_goar T) (kv_of s)"
    and sz: "SetString (tx_DataSize meta) = Some (int (length data))"
    and last: "2 \<le> length (last parts)" and db: "te_manifest T \<longrightarrow> db_healthy (s_wdb (g_seed (rn_gw s)))"
    and t: "GetTask arId TaskTypeSync (table s) = Some t" "\<not> Close t" "task_wf t"
    and int: "in_i64 (te_now T)" "in_i64 (int (length (te_peers T)))"
  shows "\<exists>s1. processTask T (assembleTaskId arId TaskTypeSync) s = Some (Ret (), s1)
    \<and> getArTxData (te_goar T) (tx_DataRoot meta) (tx_DataSize meta) (kv_of s1) = Some (Ret data, kv_of s1)
    \<and> GetTask arId TaskTypeSync (table s1) = None
    \<and> kv_lookup (kv_of s1) TaskIdPendingPoolBucket (assembleTaskId arId TaskTypeSync) = None
    \<and> LoadTask (assembleTaskId arId TaskTypeSync) (kv_of s1) = (Ret (t\<lparr>Timestamp := te_now T,
        TotalPeer := int (length (te_peers T)), CountSuccessed := i64 (CountSuccessed t + 1), Close := True\<rparr>), kv_of s1)"
proof -
  let ?id = "assembleTaskId arId TaskTypeSync"
  let ?m1 = "snd (TaskBeginSet (te_now T) arId TaskTypeSync (int (length (te_peers T))) (table s))"
  let ?seed = "(g_seed (rn_gw s))\<lparr>s_tasks := ?m1\<rparr>"
  have t': "map_of (table s) ?id = Some t" using t(1) by (simp add: GetTask_def)
  obtain d2 w2 where d2: "FetchAndStoreTx (te_goar T) (te_net T) (te_manifest T) (te_peers T) arId ?seed
      = Some (Ret (), ?seed\<lparr>s_store := d2, s_wdb := w2\<rparr>)"
    "healthy d2" "stored_tx (te_goar T) meta data (cur + of_nat (length data)) parts cs d2"
    by (rule FetchAndStoreTx_run [of "te_goar T" meta cur ?seed data "te_net T" arId parts cs "te_manifest T" "te_peers T"])
      (use fresh room gw i ck two_bytes [OF room ck last] upto sz db in \<open>simp_all add: kv_of_def\<close>)
  let ?m2 = "snd (CloseTask arId TaskTypeSync (IncSuccessed arId TaskTypeSync ?m1))"
  let ?s2 = "s\<lparr>rn_gw := (rn_gw s)\<lparr>g_seed := ?seed\<lparr>s_store := d2, s_wdb := w2, s_tasks := ?m2\<rparr>\<rparr>\<rparr>"
  let ?t = "t\<lparr>Timestamp := te_now T, TotalPeer := int (length (te_peers T)), CountSuccessed := i64 (CountSuccessed t + 1), Close := True\<rparr>"
  have begin_ok: "fst (TaskBeginSet (te_now T) arId TaskTypeSync (int (length (te_peers T))) (table s)) = Ret ()"
    using t' by (simp add: TaskBeginSet_def Let_def)
  have "\<not> IsClosed arId TaskTypeSync (table s)" using t t' by (simp add: IsClosed_def)
  then have run: "syncTask T arId s = Some (Ret (), ?s2)"
    using begin_ok d2(1)
    by (simp add: syncTask_def bindO_def doO_def beginTask_def fetchTask_def seedO_def closeDone_def on_table_eq)
  have m2: "map_of ?m2 ?id = Some ?t"
    using t' by (simp add: tm_maps tm_put_def succ1_def close1_def)
  have wf: "task_wf ?t" using t(3) int by (simp add: task_wf_def)
  let ?tk = "\<lparr>tk_store = d2, tk_map = ?m2, tk_chan = g_chan (rn_gw s)\<rparr>"
  obtain tk where tk: "setProcessedTask arId TaskTypeSync ?tk = (Ret (), tk)" "GetTask arId TaskTypeSync (tk_map tk) = None"
    "kv_lookup (tk_store tk) TaskIdPendingPoolBucket ?id = None" "LoadTask ?id (tk_store tk) = (Ret ?t, tk_store tk)"
    "healthy (tk_store tk)"
    "\<forall>b k. b \<noteq> TaskBucket \<and> b \<noteq> TaskIdPendingPoolBucket \<longrightarrow> kv_lookup (tk_store tk) b k = kv_lookup d2 b k"
    using setProcessedTask_healthy [of ?tk arId TaskTypeSync ?t] d2(2) m2 wf by (auto simp: GetTask_def)
  let ?s3 = "?s2\<lparr>rn_gw := (rn_gw s)\<lparr>g_seed := ?seed\<lparr>s_store := tk_store tk, s_wdb := w2, s_tasks := tk_map tk\<rparr>, g_chan := tk_chan tk\<rparr>\<rparr>"
  have ty: "Contains task_types TaskTypeSync" by (simp add: task_types_def task_type_defs)
  have "runType T arId TaskTypeSync s = Some (Ret (), ?s2)" using run by (simp add: runType_def)
  then have "processTask T ?id s = Some (Ret (), ?s3)"
    using processTask_assembled [OF ty, of T arId s] tk(1) by (simp add: on_gw_def on_tasking_def)
  moreover have "stored_tx (te_goar T) meta data (cur + of_nat (length data)) parts cs (tk_store tk)"
    by (rule stored_tx_same [OF d2(3) tk(5,6)])
  ultimately show ?thesis
    using tk getArTxData_stored(1) [OF room ck _ last, of "tk_store tk"]
    by (intro exI [of _ ?s3]) (simp add: table_def kv_of_def)
qed

text \<open>
  The life of a sync task. For a transaction that the gateway has and the node does not, while no
  request to the store fails, processTask fetches it: its data can be read from the store, the task is
  out of the table and the pool, and the stored task says when it began and that it succeeded.
\<close>

theorem sync_task_completes:
  assumes fresh: "fresh_tx (te_goar T) meta cur (kv_of s)"
    and room: "tx_room (te_goar T) meta data (cur + of_nat (length data))"
    and gw: "gw_tx (te_net T) arId = Ret meta" "gw_data (te_net T) arId = Ret data"
    and i: "tx_ID meta = arId" "arId \<noteq> []"
    and ck: "chunked (te_goar T) meta data parts cs"
    and upto: "chunks_upto (te_goar T) (kv_of s)"
    and sz: "SetString (tx_DataSize meta) = Some (int (length data))"
    and last: "2 \<le> length (last parts)" and db: "te_manifest T \<longrightarrow> db_healthy (s_wdb (g_seed (rn_gw s)))"
    and t: "GetTask arId TaskTypeSync (table s) = Some t" "\<not> Close t" "task_wf t"
    and int: "in_i64 (te_now T)" "in_i64 (int (length (te_peers T)))"
  shows "\<exists>s1. processTask T (assembleTaskId arId TaskTypeSync) s = Some (Ret (), s1)
    \<and> getArTxData (te_goar T) (tx_DataRoot meta) (tx_DataSize meta) (kv_of s1) = Some (Ret data, kv_of s1)
    \<and> GetTask arId TaskTypeSync (table s1) = None
    \<and> kv_lookup (kv_of s1) TaskIdPendingPoolBucket (assembleTaskId arId TaskTypeSync) = None
    \<and> LoadTask (assembleTaskId arId TaskTypeSync) (kv_of s1) = (Ret (t\<lparr>Timestamp := te_now T,
        TotalPeer := int (length (te_peers T)), CountSuccessed := i64 (CountSuccessed t + 1), Close := True\<rparr>), kv_of s1)"
  by (rule sync_task_run [OF assms])

theorem sync_task_completes_witness:
  "\<exists>s1. processTask hello_env (assembleTaskId ''t'' TaskTypeSync) (task_runner (new_task ''t'' TaskTypeSync)) = Some (Ret (), s1)
     \<and> getArTxData plain_goar ''r'' ''5'' (kv_of s1) = Some (Ret ''hello'', kv_of s1) \<and> GetTask ''t'' TaskTypeSync (table s1) = None"
proof -
  let ?t = "new_task ''t'' TaskTypeSync" and ?s = "task_runner (new_task ''t'' TaskTypeSync)"
  have room: "tx_room plain_goar hello_tx ''hello'' (0 + of_nat (length ''hello''))"
    by (simp add: tx_room_def maxAlloc_def digits_eval)
  have sz: "SetString ''5'' = Some 5" by (simp add: SetString_def split_sign_def digits_eval)
  have s: "kv_of ?s = kv_store TaskIdPendingPoolBucket (assembleTaskId ''t'' TaskTypeSync) (Bytes ''0x01'') (empty_kv Bolt [])"
    "GetTask ''t'' TaskTypeSync (table ?s) = Some ?t" "\<not> Close ?t" "task_wf ?t"
    by (simp_all add: task_runner_def kv_of_def table_def GetTask_def new_task_def task_wf_def in_i64_def)
  have "fresh_tx plain_goar hello_tx 0 (kv_of ?s)"
    using s(1) hello_fresh [of Bolt] LoadAll_other [of TaskIdPendingPoolBucket "empty_kv Bolt []"]
    by (simp add: fresh_tx_def bucket_defs)
  moreover have "chunks_upto plain_goar (kv_of ?s)" using s(1) by (simp add: chunks_upto_def bucket_defs)
  moreover have "te_goar hello_env = plain_goar" "te_net hello_env = hello_net" "\<not> te_manifest hello_env"
    "te_now hello_env = 1000" "te_peers hello_env = [''p'']" "gw_tx hello_net ''t'' = Ret hello_tx" "gw_data hello_net ''t'' = Ret ''hello''"
    by (simp_all add: hello_env_def hello_net_def)
  ultimately show ?thesis
    using sync_task_completes [of hello_env hello_tx 0 ?s "''hello''" "''t''" "[''hel'', ''lo'']" hello_chunks ?t] s(2-4) room
      hello_chunked sz by (auto simp: in_i64_def)
qed


text \<open>
  Nobody can stop a manifest task: killTask refuses its type, its handler leaves the Timestamp at
  0, and the watcher closes only tasks with a Timestamp.
\<close>

theorem manifest_task_not_stopped:
  assumes "GetTask a TaskTypeSyncManifest (table s) = Some t" and "Timestamp t = 0" and "tm_ok (table s)"
    and "syncManifestTask T a s = (r, s1)"
  shows "killTask E a TaskTypeSyncManifest k = (Err tktype_err, k)
    \<and> GetTask a TaskTypeSyncManifest (watcherAndCloseTasks now (table s)) = Some t
    \<and> (\<exists>t1. GetTask a TaskTypeSyncManifest (table s1) = Some t1 \<and> Timestamp t1 = 0)"
proof (intro conjI)
  have "\<not> Contains kill_types TaskTypeSyncManifest" by (simp add: kill_types_def task_type_defs)
  then show "killTask E a TaskTypeSyncManifest k = (Err tktype_err, k)" by (simp add: killTask_def)
  have t: "map_of (table s) (assembleTaskId a TaskTypeSyncManifest) = Some t" using assms(1) by (simp add: GetTask_def)
  have d: "distinct (map fst (table s))" using assms(3) by (simp add: tm_ok_def al_sorted_distinct)
  then have "\<forall>(k, u) \<in> set (table s). k = assembleTaskId (ArId u) (TaskType u)"
    using assms(3) by (auto simp: tm_ok_def)
  moreover have "\<forall>u. (assembleTaskId a TaskTypeSyncManifest, u) \<in> set (table s) \<longrightarrow> Timestamp u = 0"
    using t assms(2) map_of_is_SomeI [OF d] by fastforce
  ultimately show "GetTask a TaskTypeSyncManifest (watcherAndCloseTasks now (table s)) = Some t"
    using t closeOverdue_map [of "table s" now "table s" "assembleTaskId a TaskTypeSyncManifest"]
    by (auto simp: watcherAndCloseTasks_def GetTasks_def GetTask_def)
  show "\<exists>t1. GetTask a TaskTypeSyncManifest (table s1) = Some t1 \<and> Timestamp t1 = 0"
    using assms(2,4) t
    by (auto simp: syncManifestTask_def bindG_def on_kv_eq closeDone_def on_table_eq GetTask_def tm_maps tm_put_def
      succ1_def close1_def split: if_splits go.splits) (auto simp: table_def)
qed

theorem manifest_task_not_stopped_witness:
  "GetTask ''t'' TaskTypeSyncManifest (watcherAndCloseTasks 1000000 (table (task_runner (new_task ''t'' TaskTypeSyncManifest))))
     = Some (new_task ''t'' TaskTypeSyncManifest)"
proof -
  let ?s = "task_runner (new_task ''t'' TaskTypeSyncManifest)"
  have "GetTask ''t'' TaskTypeSyncManifest (table ?s) = Some (new_task ''t'' TaskTypeSyncManifest)" "tm_ok (table ?s)"
    by (simp_all add: task_runner_def table_def GetTask_def new_task_def tm_ok_def al_sorted_def)
  then show ?thesis
    using manifest_task_not_stopped [OF _ _ _ surjective_pairing] by (simp add: new_task_def)
qed

end
