(* ===== verification/Statistic.thy ===== *)
theory Statistic
  imports Api
begin

text \<open>
  The statistics of orders: UpdateRealTime and ProduceDailyStatistic of jobs.go with the query of
  wdb.go behind the latter. The times gorm keeps of a row, which nothing else reads, are functions of
  the id of the row; a location is its offset from UTC in seconds, without daylight saving.
\<close>

subsection \<open>schema/orderstatistic.go\<close>

definition result_json :: "string \<times> int \<times> int \<Rightarrow> json" where
  "result_json r = (case r of (status, totals, sz) \<Rightarrow>
     JObj [(''status'', JStr status), (''totals'', JNum totals), (''totalDataSize'', JNum sz)])"

definition result_of_json :: "json \<Rightarrow> (string \<times> int \<times> int) option" where
  "result_of_json j = (case j of
      JObj fs \<Rightarrow> (case (jstr fs ''status'', jint fs ''totals'', jint fs ''totalDataSize'') of
          (Some s, Some t, Some z) \<Rightarrow> Some (s, t, z) | _ \<Rightarrow> None)
    | JNull \<Rightarrow> Some ([], 0, 0) | _ \<Rightarrow> None)"

fun results_of :: "json list \<Rightarrow> (string \<times> int \<times> int) list option" where
  "results_of [] = Some []"
| "results_of (j # js) = (case (result_of_json j, results_of js) of (Some r, Some rs) \<Rightarrow> Some (r # rs) | _ \<Rightarrow> None)"

definition results_json :: "(string \<times> int \<times> int) list \<Rightarrow> json" where
  "results_json rs = JArr (map result_json rs)"

definition results_of_json :: "json \<Rightarrow> (string \<times> int \<times> int) list option" where
  "results_of_json j = (case j of JArr js \<Rightarrow> results_of js | JNull \<Rightarrow> Some [] | _ \<Rightarrow> None)"

definition results_wf :: "(string \<times> int \<times> int) list \<Rightarrow> bool" where
  "results_wf rs \<longleftrightarrow> (\<forall>(s, t, z) \<in> set rs. in_i64 t \<and> in_i64 z)"

lemma results_of_map: "results_wf rs \<Longrightarrow> results_of (map result_json rs) = Some rs"
  by (induction rs) (auto simp: results_wf_def result_json_def result_of_json_def jstr_def jint_def)

interpretation results_codec: json_codec results_json results_of_json results_wf
  by unfold_locales (simp add: results_json_def results_of_json_def results_of_map)

text \<open>json.Unmarshal into an empty list, its error dropped.\<close>

definition decode_results :: "blob \<Rightarrow> (string \<times> int \<times> int) list" where
  "decode_results b = (case b of Json j \<Rightarrow> (case results_of_json j of Some rs \<Rightarrow> rs | None \<Rightarrow> []) | _ \<Rightarrow> [])"

subsection \<open>jobs.go: UpdateRealTime\<close>

definition UpdateRealTime :: "seeding \<Rightarrow> seeding" where
  "UpdateRealTime s = (case GetOrderRealTimeStatistic (s_wdb s) of (data, w1) \<Rightarrow>
     snd (on_store (UpdateRealTimeStatistic (Json (results_json data))) (s\<lparr>s_wdb := w1\<rparr>)))"

subsection \<open>wdb.go: GetDailyStatisticByDate\<close>

record row_times =
  CreatedAt :: "nat \<Rightarrow> int"
  UpdatedAt :: "nat \<Rightarrow> int"

text \<open>
  The rows of the table that succeeded and were last updated in the time; grouped, they give one row or
  none. The slice is returned beside the call that fills it, and is taken as filled.
\<close>

definition day_orders :: "row_times \<Rightarrow> int \<Rightarrow> int \<Rightarrow> wdb \<Rightarrow> order list" where
  "day_orders T start end' w = filter (\<lambda>r. start \<le> UpdatedAt T (o_ID r) \<and> UpdatedAt T (o_ID r) < end'
     \<and> o_OnChainStatus r = ''success'') (orders w)"

definition GetDailyStatisticByDate :: "row_times \<Rightarrow> int \<Rightarrow> int \<Rightarrow> wdb \<Rightarrow> (int \<times> int) list go \<times> wdb" where
  "GetDailyStatisticByDate T start end' = db_read (\<lambda>w. let rs = day_orders T start end' w in
     Ret (if rs = [] then [] else [(int (length rs), sum_list (map o_Size rs))]))"

subsection \<open>jobs.go: ProduceDailyStatistic\<close>

definition day :: int where "day = 24 * 60 * 60"

definition midnight :: "int \<Rightarrow> int \<Rightarrow> int" where
  "midnight loc t = t - (t + loc) mod day"

definition CreateStatistic :: "int \<Rightarrow> int \<Rightarrow> int \<Rightarrow> wdb \<Rightarrow> unit go \<times> wdb" where
  "CreateStatistic date totals sz = db_write (\<lambda>w. w\<lparr>orderStats := orderStats w
      @ [\<lparr>os_ID = next_stat w, os_Date = date, os_Totals = totals, os_TotalDataSize = sz\<rparr>], next_stat := Suc (next_stat w)\<rparr>)"

definition produceDay :: "row_times \<Rightarrow> int \<Rightarrow> wdb \<Rightarrow> wdb" where
  "produceDay T start w = (case GetDailyStatisticByDate T start (start + day) w of
      (Ret results, w1) \<Rightarrow> (case results of
          [] \<Rightarrow> snd (CreateStatistic start 0 0 w1)
        | (totals, sz) # _ \<Rightarrow> snd (CreateStatistic start totals sz w1))
    | (_, w1) \<Rightarrow> w1)"

function produceDays :: "row_times \<Rightarrow> int \<Rightarrow> int \<Rightarrow> wdb \<Rightarrow> wdb" where
  "produceDays T start end' w = (if start < end' then produceDays T (start + day) end' (produceDay T start w) else w)"
  by auto
termination by (relation "measure (\<lambda>(T, start, end', w). nat (end' - start))") (auto simp: day_def)

declare produceDays.simps [simp del]

text \<open>Any error of the query for the last statistic counts as no statistic.\<close>

definition ProduceDailyStatistic :: "row_times \<Rightarrow> int \<Rightarrow> int \<Rightarrow> wdb \<Rightarrow> wdb" where
  "ProduceDailyStatistic T loc now w = (case db_read (\<lambda>w. first_row (\<lambda>_. True) (orders w)) w of
      (Ret firstOrder, w1) \<Rightarrow> (case db_read (\<lambda>w. last_row (\<lambda>_. True) (orderStats w)) w1 of (osc, w2) \<Rightarrow>
         let start = (case osc of Ret x \<Rightarrow> os_Date x + day | _ \<Rightarrow> midnight loc (CreatedAt T (o_ID firstOrder)));
             end' = midnight loc now
         in case WhetherExec (end' - day) end' w2 of (exec, w3) \<Rightarrow>
              if \<not> exec then w3 else produceDays T start end' w3)
    | (_, w1) \<Rightarrow> w1)"

subsection \<open>Facts\<close>

definition stat_row :: "row_times \<Rightarrow> wdb \<Rightarrow> int \<Rightarrow> nat \<Rightarrow> order_statistic" where
  "stat_row T w date i = \<lparr>os_ID = i, os_Date = date, os_Totals = int (length (day_orders T date (date + day) w)),
     os_TotalDataSize = sum_list (map o_Size (day_orders T date (date + day) w))\<rparr>"

lemma stat_row_simps [simp]: "os_Date (stat_row T w date i) = date"
  "stat_row T (w\<lparr>orderStats := st\<rparr>) = stat_row T w" "stat_row T (w\<lparr>next_stat := n\<rparr>) = stat_row T w"
  by (simp_all add: stat_row_def day_orders_def fun_eq_iff)

lemma produceDay_healthy:
  "db_healthy w \<Longrightarrow> produceDay T start w
    = w\<lparr>orderStats := orderStats w @ [stat_row T w start (next_stat w)], next_stat := Suc (next_stat w)\<rparr>"
  by (simp add: produceDay_def GetDailyStatisticByDate_def CreateStatistic_def stat_row_def Let_def)

lemma produceDays_healthy:
  "db_healthy w \<Longrightarrow> produceDays T start (start + int n * day) w
    = w\<lparr>orderStats := orderStats w @ map (\<lambda>i. stat_row T w (start + int i * day) (next_stat w + i)) [0..<n],
        next_stat := next_stat w + n\<rparr>"
proof (induction n arbitrary: start w)
  case 0
  then show ?case by (subst produceDays.simps) simp
next
  case (Suc n)
  let ?w = "produceDay T start w"
  have w: "db_healthy ?w" using Suc.prems by (simp add: produceDay_healthy)
  have "produceDays T start (start + int (Suc n) * day) w = produceDays T (start + day) ((start + day) + int n * day) ?w"
    by (subst produceDays.simps) (simp add: day_def algebra_simps)
  also have "\<dots> = ?w\<lparr>orderStats := orderStats ?w @ map (\<lambda>i. stat_row T ?w (start + day + int i * day) (next_stat ?w + i)) [0..<n],
        next_stat := next_stat ?w + n\<rparr>" by (rule Suc.IH [OF w])
  also have "\<dots> = w\<lparr>orderStats := orderStats w @ stat_row T w start (next_stat w)
      # map (\<lambda>i. stat_row T w (start + int (Suc i) * day) (next_stat w + Suc i)) [0..<n], next_stat := next_stat w + Suc n\<rparr>"
    using Suc.prems by (simp add: produceDay_healthy algebra_simps)
  also have "stat_row T w start (next_stat w) # map (\<lambda>i. stat_row T w (start + int (Suc i) * day) (next_stat w + Suc i)) [0..<n]
      = map (\<lambda>i. stat_row T w (start + int i * day) (next_stat w + i)) [0..<Suc n]"
    unfolding upt_conv_Cons [OF zero_less_Suc] by (simp add: map_Suc_upt [symmetric] comp_def del: upt_Suc)
  finally show ?case .
qed

lemma midnight_days:
  assumes "t \<le> u"
  obtains n where "midnight loc u = midnight loc t + int n * day"
proof -
  have "midnight loc u = ((u + loc) div day) * day - loc" "midnight loc t = ((t + loc) div day) * day - loc"
    unfolding midnight_def using div_mult_mod_eq [of "u + loc" day] div_mult_mod_eq [of "t + loc" day] by linarith+
  moreover have "(t + loc) div day \<le> (u + loc) div day" using assms by (intro zdiv_mono1) (simp_all add: day_def)
  ultimately have "midnight loc u = midnight loc t + int (nat ((u + loc) div day - (t + loc) div day)) * day"
    by (simp add: algebra_simps)
  then show thesis by (rule that)
qed

lemma no_statistic_yet:
  assumes "db_healthy w" and "map os_Date (orderStats w) = map (\<lambda>i. d0 + int i * day) [0..<k]"
  shows "WhetherExec (d0 + int n * day - day) (d0 + int n * day) w = (n = 0 \<or> k < n, w)"
proof -
  have dates: "os_Date ` set (orderStats w) = (\<lambda>i. d0 + int i * day) ` {0..<k}"
    using arg_cong [OF assms(2), of set] by simp
  have day: "d0 + int n * day - day \<le> d0 + int i * day \<and> d0 + int i * day < d0 + int n * day \<longleftrightarrow> Suc i = n" for i
  proof -
    have "int n * day - day \<le> int i * day \<longleftrightarrow> int n \<le> int i + 1" "int i * day < int n * day \<longleftrightarrow> i < n"
      by (simp_all add: day_def) linarith
    then show ?thesis by auto
  qed
  let ?Q = "\<lambda>d. d0 + int n * day - day \<le> d \<and> d < d0 + int n * day"
  have "(\<exists>x \<in> set (orderStats w). ?Q (os_Date x)) \<longleftrightarrow> (\<exists>d \<in> os_Date ` set (orderStats w). ?Q d)"
    by (simp only: image_iff Bex_def) (metis (no_types))
  also have "\<dots> \<longleftrightarrow> (\<exists>i < k. Suc i = n)" unfolding dates using day by (simp add: Bex_def)
  also have "\<dots> \<longleftrightarrow> n \<noteq> 0 \<and> n \<le> k" by (cases n) auto
  finally have "first_row (\<lambda>x. d0 + int n * day - day \<le> os_Date x \<and> os_Date x < d0 + int n * day) (orderStats w)
      = Err ErrRecordNotFound \<longleftrightarrow> n = 0 \<or> k < n" unfolding first_row_none by auto
  then show ?thesis
    using assms(1) by (auto simp: WhetherExec_def first_row_def split: list.splits)
qed

lemma ProduceDailyStatistic_run:
  assumes "db_healthy w" and "orders w = o1 # os" and d0: "midnight loc (CreatedAt T (o_ID o1)) = d0"
    and "midnight loc now = d0 + int n * day" and stats: "map os_Date (orderStats w) = map (\<lambda>i. d0 + int i * day) [0..<k]" and "k \<le> n"
  shows "ProduceDailyStatistic T loc now w
    = w\<lparr>orderStats := orderStats w @ map (\<lambda>i. stat_row T w (d0 + int (k + i) * day) (next_stat w + i)) [0..<n - k],
        next_stat := next_stat w + (n - k)\<rparr>"
proof -
  have len: "length (orderStats w) = k" using arg_cong [OF stats, of length] by simp
  let ?start = "case (last_row (\<lambda>_. True) (orderStats w) :: order_statistic go) of Ret x \<Rightarrow> os_Date x + day
     | _ \<Rightarrow> midnight loc (CreatedAt T (o_ID o1))"
  have start: "?start = d0 + int k * day"
  proof (cases k)
    case 0
    then show ?thesis using len d0 by (simp add: last_row_def)
  next
    case (Suc j)
    then have ne: "orderStats w \<noteq> []" using len by auto
    then have "os_Date (last (orderStats w)) = last (map os_Date (orderStats w))" by (simp add: last_map)
    also have "\<dots> = d0 + int j * day" unfolding stats Suc by simp
    finally show ?thesis using ne Suc by (simp add: last_row_def algebra_simps)
  qed
  have run: "ProduceDailyStatistic T loc now w = (if n = 0 \<or> k < n then produceDays T (d0 + int k * day) (d0 + int n * day) w else w)"
    using assms(1,2,4) no_statistic_yet [OF assms(1) stats, of n] start
    by (simp add: ProduceDailyStatistic_def first_row_def Let_def)
  have split: "d0 + int n * day = (d0 + int k * day) + int (n - k) * day" using assms(6) by (simp add: algebra_simps of_nat_diff)
  have "produceDays T (d0 + int k * day) (d0 + int n * day) w
    = w\<lparr>orderStats := orderStats w @ map (\<lambda>i. stat_row T w (d0 + int (k + i) * day) (next_stat w + i)) [0..<n - k],
        next_stat := next_stat w + (n - k)\<rparr>"
    unfolding split produceDays_healthy [OF assms(1)] by (simp add: algebra_simps)
  then show ?thesis using run assms(6) by (cases "k = n") auto
qed

subsection \<open>Properties\<close>

text \<open>
  C22: the daily statistic is complete and nothing is counted into two rows. When no request fails and the statistic
  so far has one row for each of the first k days since the day of the first order, a run at a time
  \<open>now\<close> adds a row for each day that is over: then every day before the one of \<open>now\<close> has exactly one row, in order,
  the rows that were there are kept, each new row counts the orders of its day and adds up their sizes, and a second
  run on the same day adds nothing.
\<close>

theorem daily_statistic_complete:
  assumes "db_healthy w" and "orders w = o1 # os" and "CreatedAt T (o_ID o1) \<le> now"
    and d0: "midnight loc (CreatedAt T (o_ID o1)) = d0"
    and stats: "map os_Date (orderStats w) = map (\<lambda>i. d0 + int i * day) [0..<k]" and past: "d0 + int k * day \<le> midnight loc now"
  shows "\<exists>n w1. ProduceDailyStatistic T loc now w = w1 \<and> midnight loc now = d0 + int n * day
    \<and> map os_Date (orderStats w1) = map (\<lambda>i. d0 + int i * day) [0..<n] \<and> take k (orderStats w1) = orderStats w
    \<and> (\<forall>r \<in> set (drop k (orderStats w1)). os_Totals r = int (length (day_orders T (os_Date r) (os_Date r + day) w))
         \<and> os_TotalDataSize r = sum_list (map o_Size (day_orders T (os_Date r) (os_Date r + day) w)))
    \<and> ProduceDailyStatistic T loc now w1 = w1"
proof -
  obtain n where n: "midnight loc now = d0 + int n * day" using midnight_days [OF assms(3), of loc] d0 by metis
  have kn: "k \<le> n" using past n by (simp add: day_def)
  have len: "length (orderStats w) = k" using arg_cong [OF stats, of length] by simp
  let ?rows = "map (\<lambda>i. stat_row T w (d0 + int (k + i) * day) (next_stat w + i)) [0..<n - k]"
  let ?w1 = "w\<lparr>orderStats := orderStats w @ ?rows, next_stat := next_stat w + (n - k)\<rparr>"
  note run = ProduceDailyStatistic_run [OF assms(1,2) d0 n stats kn]
  have "[0..<n] = [0..<k] @ map (\<lambda>i. i + k) [0..<n - k]"
    using kn upt_add_eq_append [of 0 k "n - k"] map_add_upt [of k "n - k"] by simp
  then have dates: "map os_Date (orderStats ?w1) = map (\<lambda>i. d0 + int i * day) [0..<n]"
    by (simp add: stats comp_def add.commute)
  have "ProduceDailyStatistic T loc now ?w1 = ?w1"
    using ProduceDailyStatistic_run [of ?w1 o1 os loc T d0 now n n] assms(1,2) d0 n dates by simp
  then show ?thesis using run dates n len by (intro exI [of _ n] exI [of _ ?w1]) (auto simp: stat_row_def)
qed

text \<open>
  A failed read of the last statistic. The error is taken for an empty table, so the run starts again from the first
  order and gives the days that have a row a second one.
\<close>

theorem failed_statistic_read_repeats_days:
  assumes "db_faults w = [False, True]" and "orders w = o1 # os" and d0: "midnight loc (CreatedAt T (o_ID o1)) = d0"
    and n: "midnight loc now = d0 + int n * day" and stats: "map os_Date (orderStats w) = map (\<lambda>i. d0 + int i * day) [0..<k]"
    and k: "0 < k" "k < n"
  shows "\<not> distinct (map os_Date (orderStats (ProduceDailyStatistic T loc now w)))"
proof -
  let ?w = "w\<lparr>db_faults := []\<rparr>"
  have h: "db_healthy ?w" by (simp add: db_healthy_def)
  have "WhetherExec (midnight loc now - day) (midnight loc now) ?w = (True, ?w)"
    using no_statistic_yet [OF h, of d0 k n] stats n k by simp
  then have "ProduceDailyStatistic T loc now w = produceDays T d0 (d0 + int n * day) ?w"
    using assms(1,2) d0 n by (simp add: ProduceDailyStatistic_def db_read_def db_tick_def first_row_def db_err_def)
  also have "orderStats \<dots> = orderStats w @ map (\<lambda>i. stat_row T ?w (d0 + int i * day) (next_stat w + i)) [0..<n]"
    unfolding produceDays_healthy [OF h] by simp
  finally have run: "map os_Date (orderStats (ProduceDailyStatistic T loc now w))
      = map (\<lambda>i. d0 + int i * day) [0..<k] @ map (\<lambda>i. d0 + int i * day) [0..<n]" by (simp add: stats comp_def)
  have "d0 \<in> set (map (\<lambda>i. d0 + int i * day) [0..<j])" if "0 < j" for j :: nat
    using that by (auto intro!: image_eqI [of _ _ 0])
  then have "d0 \<in> set (map (\<lambda>i. d0 + int i * day) [0..<k]) \<inter> set (map (\<lambda>i. d0 + int i * day) [0..<n])" using k by auto
  then show ?thesis unfolding run distinct_append by blast
qed

lemma map_of_drop_key: "map_of (filter (\<lambda>p. fst p \<noteq> k) xs) s = (if s = k then None else map_of xs s)"
  by (induction xs) auto

definition status_row :: "string \<Rightarrow> order list \<Rightarrow> int \<times> int" where
  "status_row st os = (let g = filter (\<lambda>x. o_OnChainStatus x = st) os in (int (length g), sum_list (map o_Size g)))"

lemma map_of_group_status: "map_of (group_status os) st = (if st \<in> o_OnChainStatus ` set os then Some (status_row st os) else None)"
  by (induction os) (auto simp: Let_def map_of_drop_key status_row_def)

lemma distinct_group_status: "distinct (map fst (group_status os))"
  by (induction os) (auto simp: Let_def distinct_map_filter)

lemma status_row_none: "st \<notin> o_OnChainStatus ` set os \<Longrightarrow> status_row st os = (0, 0)"
proof -
  assume "st \<notin> o_OnChainStatus ` set os"
  then have "filter (\<lambda>x. o_OnChainStatus x = st) os = []" by (auto simp: filter_empty_conv)
  then show ?thesis by (simp add: status_row_def)
qed

lemma fill_status:
  fixes rs :: "(string \<times> int \<times> int) list"
  shows "map_of (foldl (\<lambda>rs s. if list_ex (\<lambda>r. s = fst r) rs then rs else rs @ [(s, 0, 0)]) rs sts) st
    = (case map_of rs st of Some v \<Rightarrow> Some v | None \<Rightarrow> if st \<in> set sts then Some (0, 0) else None)"
    and "distinct (map fst rs) \<Longrightarrow> distinct (map fst (foldl (\<lambda>rs s. if list_ex (\<lambda>r. s = fst r) rs then rs else rs @ [(s, 0, 0)]) rs sts))"
proof (induction sts arbitrary: rs)
  case (Cons s sts)
  let ?f = "\<lambda>rs s. if list_ex (\<lambda>r. s = fst r) rs then rs else rs @ [(s, 0 :: int, 0 :: int)]"
  have ex: "list_ex (\<lambda>r. s = fst r) rs \<longleftrightarrow> map_of rs s \<noteq> None" for rs :: "(string \<times> int \<times> int) list"
    by (auto simp: list_ex_iff map_of_eq_None_iff)
  {
    case 1
    show ?case
    proof (cases "list_ex (\<lambda>r. s = fst r) rs")
      case True
      then have "map_of rs s \<noteq> None" by (rule iffD1 [OF ex])
      with True show ?thesis using Cons.IH(1) [of rs] by (auto split: option.splits)
    next
      case False
      then have "map_of rs s = None" using ex by (metis (no_types))
      with False show ?thesis using Cons.IH(1) [of "rs @ [(s, 0, 0)]"] by (auto simp: map_add_def split: option.splits)
    qed
  next
    case 2
    have "distinct (map fst (?f rs s))" using 2 ex by (auto simp: map_of_eq_None_iff)
    then show ?case using Cons.IH(2) [of "?f rs s"] by simp
  }
qed (auto split: option.splits)

text \<open>
  C23: the counts of the table are what is served. After UpdateRealTime, while no request fails, the statistic that the
  endpoint answers has one row for each on-chain status, the four of the program among them, with the number of
  the orders of this status and the sum of their sizes.
\<close>

theorem real_time_statistic_served:
  assumes "healthy (s_store s)" and "db_healthy (s_wdb s)" and "results_wf (fst (GetOrderRealTimeStatistic (s_wdb s)))"
    and "getRealTimeOrderStatistic decode_results (g\<lparr>g_seed := UpdateRealTime s\<rparr>) = (r, g1)"
  shows "\<exists>rs. r = Reply rs \<and> distinct (map fst rs)
    \<and> (\<forall>st \<in> set real_time_status \<union> o_OnChainStatus ` set (orders (s_wdb s)). map_of rs st = Some (status_row st (orders (s_wdb s))))"
proof -
  let ?os = "orders (s_wdb s)" and ?f = "\<lambda>rs s. if list_ex (\<lambda>r. s = fst r) rs then rs else rs @ [(s, 0 :: int, 0 :: int)]"
  let ?rs = "foldl ?f (group_status ?os) real_time_status"
  have rs: "GetOrderRealTimeStatistic (s_wdb s) = (?rs, s_wdb s)" using assms(2) by (simp add: GetOrderRealTimeStatistic_def)
  have put: "s_store (UpdateRealTime s) = kv_store StatisticBucket statistic_key (Json (results_json ?rs)) (s_store s)"
    using assms(1) rs by (simp add: UpdateRealTime_def UpdateRealTimeStatistic_def on_store_def)
  have "kv_get StatisticBucket statistic_key (s_store (UpdateRealTime s)) = (Ret (Json (results_json ?rs)), s_store (UpdateRealTime s))"
    using assms(1) by (intro kv_get_healthy) (simp_all add: put blob_empty_def)
  moreover have "decode_results (Json (results_json ?rs)) = ?rs"
    using results_codec.dec_enc [of ?rs] assms(3) rs by (simp add: decode_results_def)
  ultimately have "r = Reply ?rs"
    using assms(4) by (simp add: getRealTimeOrderStatistic_def kv_step_def on_seed_def on_store_def GetRealTimeStatistic_def reply_of_def
      split: prod.splits)
  moreover have "map_of ?rs st = Some (status_row st ?os)" if "st \<in> set real_time_status \<union> o_OnChainStatus ` set ?os" for st
    unfolding fill_status(1) map_of_group_status using that by (auto simp: status_row_none)
  ultimately show ?thesis using fill_status(2) [OF distinct_group_status] by blast
qed

subsection \<open>Witnesses\<close>

definition sample_times :: row_times where
  "sample_times = \<lparr>CreatedAt = (\<lambda>_. 1000), UpdatedAt = (\<lambda>_. 2000)\<rparr>"

lemma sample_midnight [simp]: "midnight 0 1000 = 0" "midnight 0 200000 = 2 * day" "midnight 0 100000 = day" "0 \<le> day" "CreatedAt sample_times i = 1000"
  by (simp_all add: midnight_def day_def sample_times_def)

theorem daily_statistic_complete_witness:
  "map os_Date (orderStats (ProduceDailyStatistic sample_times 0 200000 sample_wdb)) = [0, 86400]"
proof -
  have "orderStats sample_wdb = []" "o_ID sample_order = 1" by (simp_all add: sample_wdb_def empty_wdb_def sample_order_def)
  then obtain n where n: "2 * day = int n * day"
    "map os_Date (orderStats (ProduceDailyStatistic sample_times 0 200000 sample_wdb)) = map (\<lambda>i. int i * day) [0..<n]"
    using daily_statistic_complete [of sample_wdb sample_order "[]" sample_times 200000 0 0 0]
    by auto
  then have "n = 2" by (simp add: day_def)
  then show ?thesis using n(2) by (simp add: day_def numeral_2_eq_2)
qed

definition stat_wdb :: wdb where
  "stat_wdb = sample_wdb\<lparr>orderStats := [\<lparr>os_ID = 1, os_Date = 0, os_Totals = 0, os_TotalDataSize = 0\<rparr>], db_faults := [False, True]\<rparr>"

theorem failed_statistic_read_repeats_days_witness:
  "\<not> distinct (map os_Date (orderStats (ProduceDailyStatistic sample_times 0 200000 stat_wdb)))"
  by (rule failed_statistic_read_repeats_days [of _ sample_order "[]" 0 sample_times 0 _ 2 1])
    (simp_all add: stat_wdb_def sample_order_def)

theorem real_time_statistic_served_witness:
  "\<exists>rs. fst (getRealTimeOrderStatistic decode_results ((empty_gw (empty_kv Bolt []) empty_wdb)\<lparr>g_seed :=
      UpdateRealTime \<lparr>s_store = empty_kv Bolt [], s_wdb = sample_wdb, s_tasks = []\<rparr>\<rparr>)) = Reply rs
    \<and> map_of rs ''waiting'' = Some (1, 10) \<and> map_of rs ''failed'' = Some (0, 0)"
proof -
  let ?s = "\<lparr>s_store = empty_kv Bolt [], s_wdb = sample_wdb, s_tasks = []\<rparr>"
  have wf: "results_wf (fst (GetOrderRealTimeStatistic sample_wdb))"
    by (simp add: GetOrderRealTimeStatistic_def real_time_status_def sample_order_def WaitOnChain_def results_wf_def in_i64_def)
  have st: "''waiting'' \<in> set real_time_status" "''failed'' \<in> set real_time_status"
    "status_row ''waiting'' [sample_order] = (1, 10)" "status_row ''failed'' [sample_order] = (0, 0)"
    by (simp_all add: real_time_status_def status_row_def sample_order_def WaitOnChain_def)
  show ?thesis
    using real_time_statistic_served [OF _ _ _ surjective_pairing, of ?s] wf st by fastforce
qed

text \<open>
  The day of an order is the day of the last update of its row, and every update of the row, the mark for Kafka
  among them, moves it. An order that succeeded on one day and whose row is written again on the next is in the
  rows of both days: one order, two in the statistic.
\<close>

theorem updated_order_counts_twice:
  fixes w :: wdb
  defines "w \<equiv> sample_wdb\<lparr>orders := [sample_order\<lparr>o_OnChainStatus := SuccOnChain\<rparr>]\<rparr>"
  shows "sum_list (map os_Totals (orderStats (ProduceDailyStatistic (sample_times\<lparr>UpdatedAt := \<lambda>_. 2000 + day\<rparr>) 0 200000
      (ProduceDailyStatistic sample_times 0 100000 w)))) = 2"
proof -
  let ?o = "sample_order\<lparr>o_OnChainStatus := SuccOnChain\<rparr>" and ?T2 = "sample_times\<lparr>UpdatedAt := \<lambda>_. 2000 + day\<rparr>"
  have w: "db_healthy w" "orders w = ?o # []" "orderStats w = []" "o_ID ?o = 1" "o_OnChainStatus ?o = ''success''"
    by (simp_all add: w_def sample_order_def SuccOnChain_def) (simp add: sample_wdb_def empty_wdb_def)
  let ?w1 = "w\<lparr>orderStats := [stat_row sample_times w 0 (next_stat w)], next_stat := Suc (next_stat w)\<rparr>"
  have one: "ProduceDailyStatistic sample_times 0 100000 w = ?w1"
    using ProduceDailyStatistic_run [OF w(1,2), of 0 sample_times 0 100000 1 0] w(3) by simp
  have two: "orderStats (ProduceDailyStatistic ?T2 0 200000 ?w1) = [stat_row sample_times w 0 (next_stat w), stat_row ?T2 w day (Suc (next_stat w))]"
    using ProduceDailyStatistic_run [of ?w1 ?o "[]" 0 ?T2 0 200000 2 1] w by simp
  have "os_Totals (stat_row sample_times w 0 i) = 1" "os_Totals (stat_row ?T2 w day i) = 1" for i
    using w(2,5) by (simp_all add: stat_row_def day_orders_def sample_times_def day_def)
  then show ?thesis unfolding one two by simp
qed

end
