(* ===== verification/Backends.thy ===== *)
theory Backends
  imports Store
begin

text \<open>
  Opening the backends of rawdb/: the buckets that each constructor makes sure of before the node uses
  them, and the constructors of store.go. The clients of S3 and OSS, bbolt and the mongo driver are the
  fields of the records below, over a state \<open>'s\<close> of their own; \<open>content\<close> is what is stored there.
\<close>

subsection \<open>The buckets\<close>

definition bucketNames :: "string list" where
  "bucketNames = [ChunkBucket, TxDataEndOffSetBucket, TxMetaBucket, ConstantsBucket, TaskIdPendingPoolBucket,
     TaskBucket, BundleItemBinary, BundleItemMeta, BundleWaitParseArIdBucket, BundleArIdToItemIdsBucket, StatisticBucket]"

text \<open>The names of S3 and OSS buckets are lower case.\<close>

definition getS3Bucket :: "string \<Rightarrow> string \<Rightarrow> string" where
  "getS3Bucket prefix bktName = ToLower (prefix @ ''-'' @ bktName)"

record 's bucket_api =
  CreateBucket :: "string \<Rightarrow> 's \<Rightarrow> unit go \<times> 's"
  ListBuckets :: "string \<Rightarrow> 's \<Rightarrow> string list go \<times> 's"

subsection \<open>s3.go\<close>

definition owned_text :: string where "owned_text = ''BucketAlreadyOwnedByYou''"

fun createS3Buckets :: "'s bucket_api \<Rightarrow> string \<Rightarrow> string list \<Rightarrow> 's \<Rightarrow> unit go \<times> 's" where
  "createS3Buckets A prefix [] s = (Ret (), s)"
| "createS3Buckets A prefix (bucketName # names) s = (case CreateBucket A (getS3Bucket prefix bucketName) s of
      (Panic p, s1) \<Rightarrow> (Panic p, s1)
    | (Err e, s1) \<Rightarrow> if Contains (err_text e) owned_text then createS3Buckets A prefix names s1 else (Err e, s1)
    | (Ret _, s1) \<Rightarrow> createS3Buckets A prefix names s1)"

definition createS3Bucket :: "'s bucket_api \<Rightarrow> string \<Rightarrow> 's \<Rightarrow> unit go \<times> 's" where
  "createS3Bucket A prefix = createS3Buckets A prefix bucketNames"

subsection \<open>aliyun.go\<close>

definition getBucketWithPrefix :: "'s bucket_api \<Rightarrow> string \<Rightarrow> 's \<Rightarrow> string list go \<times> 's" where
  "getBucketWithPrefix A prefix = ListBuckets A prefix"

fun createMissing :: "'s bucket_api \<Rightarrow> string \<Rightarrow> string list \<Rightarrow> string list \<Rightarrow> 's \<Rightarrow> unit go \<times> 's" where
  "createMissing A prefix own [] s = (Ret (), s)"
| "createMissing A prefix own (bucketName # names) s = (if getS3Bucket prefix bucketName \<in> set own
     then createMissing A prefix own names s
     else bindG (CreateBucket A (getS3Bucket prefix bucketName)) (\<lambda>_. createMissing A prefix own names) s)"

definition createAliyunBucket :: "'s bucket_api \<Rightarrow> string \<Rightarrow> 's \<Rightarrow> unit go \<times> 's" where
  "createAliyunBucket A prefix = bindG (getBucketWithPrefix A prefix) (\<lambda>own. createMissing A prefix own bucketNames)"

subsection \<open>bolt.db.go\<close>

text \<open>\<open>OpenFile\<close> is bolt.Open at the path of a directory and a name; \<open>bolt_timeout\<close> its error when another process has the lock.\<close>

definition bolt_timeout :: err where "bolt_timeout = ErrMsg ''timeout''"
definition boltName :: string where "boltName = ''seed.db''"

record 's bolt_api =
  MkdirAll :: "string \<Rightarrow> unit go"
  OpenFile :: "string \<Rightarrow> string \<Rightarrow> 's \<Rightarrow> unit go \<times> 's"
  CreateBucketIfNotExists :: "string \<Rightarrow> 's \<Rightarrow> unit go \<times> 's"

fun createBuckets :: "'s bolt_api \<Rightarrow> string list \<Rightarrow> 's \<Rightarrow> unit go \<times> 's" where
  "createBuckets A [] s = (Ret (), s)"
| "createBuckets A (bucket # names) s = bindG (CreateBucketIfNotExists A bucket) (\<lambda>_. createBuckets A names) s"

text \<open>The transaction of Update is rolled back when a bucket cannot be created.\<close>

definition NewBoltDB :: "'s bolt_api \<Rightarrow> string \<Rightarrow> 's \<Rightarrow> unit go \<times> 's" where
  "NewBoltDB B boltDirPath s = (if boltDirPath = [] then (Err (ErrMsg ''boltDb dir path can not null''), s)
     else case MkdirAll B boltDirPath of
       Err e \<Rightarrow> (Err e, s) | Panic p \<Rightarrow> (Panic p, s)
     | Ret _ \<Rightarrow> (case OpenFile B boltDirPath boltName s of
         (Err e, s1) \<Rightarrow> (Err (if e = bolt_timeout
            then ErrMsg ''cannot obtain database lock, database may be in use by another process'' else e), s1)
       | (Panic p, s1) \<Rightarrow> (Panic p, s1)
       | (Ret _, s1) \<Rightarrow> (case createBuckets B bucketNames s1 of
            (Ret _, s2) \<Rightarrow> (Ret (), s2) | (r, _) \<Rightarrow> (r, s1))))"

subsection \<open>mongodb.go and store.go\<close>

text \<open>
  \<open>S3Api\<close> and \<open>OssApi\<close> are the clients for the credentials, the region and the endpoint; mongo has no
  buckets to make.
\<close>

record 's storage =
  S3Api :: "string \<Rightarrow> string \<Rightarrow> string \<Rightarrow> string \<Rightarrow> 's bucket_api"
  OssApi :: "string \<Rightarrow> string \<Rightarrow> string \<Rightarrow> 's bucket_api go"
  BoltApi :: "'s bolt_api"
  mongoConnect :: "string \<Rightarrow> unit go"
  mongoPing :: "string \<Rightarrow> unit go"
  content :: "kv_kind \<Rightarrow> 's \<Rightarrow> kvdb"

definition opened :: "'s storage \<Rightarrow> kv_kind \<Rightarrow> ('s \<Rightarrow> unit go \<times> 's) \<Rightarrow> 's \<Rightarrow> kvdb go \<times> 's" where
  "opened V K m = bindG m (\<lambda>_ s. (Ret (content V K s), s))"

definition NewS3Store :: "'s storage \<Rightarrow> string \<Rightarrow> string \<Rightarrow> string \<Rightarrow> string \<Rightarrow> string \<Rightarrow> 's \<Rightarrow> kvdb go \<times> 's" where
  "NewS3Store V accKey secretKey region bucketPrefix endpoint =
     opened V S3 (createS3Bucket (S3Api V accKey secretKey region endpoint) bucketPrefix)"

definition NewAliyunStore :: "'s storage \<Rightarrow> string \<Rightarrow> string \<Rightarrow> string \<Rightarrow> string \<Rightarrow> 's \<Rightarrow> kvdb go \<times> 's" where
  "NewAliyunStore V endpoint accKey secretKey bucketPrefix = opened V Aliyun (\<lambda>s. case OssApi V endpoint accKey secretKey of
      Ret A \<Rightarrow> createAliyunBucket A bucketPrefix s | Err e \<Rightarrow> (Err e, s) | Panic p \<Rightarrow> (Panic p, s))"

definition NewBoltStore :: "'s storage \<Rightarrow> string \<Rightarrow> 's \<Rightarrow> kvdb go \<times> 's" where
  "NewBoltStore V boltDirPath = opened V Bolt (NewBoltDB (BoltApi V) boltDirPath)"

definition NewMongoDBStore :: "'s storage \<Rightarrow> string \<Rightarrow> 's \<Rightarrow> kvdb go \<times> 's" where
  "NewMongoDBStore V uri = opened V Mongo (Pair (andThen (mongoConnect V uri) (\<lambda>_. mongoPing V uri)))"

subsection \<open>Facts\<close>

text \<open>
  What the services promise: a bucket that was created is there and nothing else changes; a failed
  request changes nothing; the error of an own bucket is given for own buckets only; a listing
  names own buckets. \<open>own\<close> is the buckets of the account.
\<close>

definition bucket_api_ok :: "'s bucket_api \<Rightarrow> ('s \<Rightarrow> string set) \<Rightarrow> bool" where
  "bucket_api_ok A own \<longleftrightarrow>
     (\<forall>b s s1. CreateBucket A b s = (Ret (), s1) \<longrightarrow> own s1 = insert b (own s))
   \<and> (\<forall>b s e s1. CreateBucket A b s = (Err e, s1) \<longrightarrow> own s1 = own s \<and> (Contains (err_text e) owned_text \<longrightarrow> b \<in> own s))
   \<and> (\<forall>p s names s1. ListBuckets A p s = (Ret names, s1) \<longrightarrow> own s1 = own s \<and> set names \<subseteq> own s)"

lemma bucket_api_okD:
  assumes "bucket_api_ok A own"
  shows "CreateBucket A b s = (Ret (), s1) \<Longrightarrow> own s1 = insert b (own s)"
    and "CreateBucket A b s = (Err e, s1) \<Longrightarrow> own s1 = own s"
    and "CreateBucket A b s = (Err e, s1) \<Longrightarrow> Contains (err_text e) owned_text \<Longrightarrow> b \<in> own s"
    and "ListBuckets A p s = (Ret names, s1) \<Longrightarrow> own s1 = own s \<and> set names \<subseteq> own s"
  using assms unfolding bucket_api_ok_def by blast+

lemma createS3Buckets_own:
  assumes "bucket_api_ok A own" and "createS3Buckets A p names s = (Ret (), s1)"
  shows "own s1 = own s \<union> getS3Bucket p ` set names"
  using assms(2)
proof (induction names arbitrary: s)
  case (Cons b names)
  obtain r s0 where r: "CreateBucket A (getS3Bucket p b) s = (r, s0)" by fastforce
  show ?case
  proof (cases r)
    case (Ret u)
    then show ?thesis using Cons r bucket_api_okD(1) [OF assms(1)] by auto
  next
    case (Err e)
    then show ?thesis
      using Cons r bucket_api_okD(2) [OF assms(1)] bucket_api_okD(3) [OF assms(1)] by (auto split: if_splits)
  next
    case (Panic q)
    then show ?thesis using Cons.prems r by simp
  qed
qed simp

lemma createMissing_own:
  assumes "bucket_api_ok A own" and "createMissing A p known names s = (Ret (), s1)" and "set known \<subseteq> own s"
  shows "own s1 = own s \<union> getS3Bucket p ` set names"
  using assms(2,3)
proof (induction names arbitrary: s)
  case (Cons b names)
  show ?case
  proof (cases "getS3Bucket p b \<in> set known")
    case True
    then show ?thesis using Cons by auto
  next
    case False
    then obtain s0 where "CreateBucket A (getS3Bucket p b) s = (Ret (), s0)" "createMissing A p known names s0 = (Ret (), s1)"
      using Cons.prems(1) by (auto elim: bindG_RetE)
    then have new: "own s0 = insert (getS3Bucket p b) (own s)" and rest: "createMissing A p known names s0 = (Ret (), s1)"
      using bucket_api_okD(1) [OF assms(1)] by auto
    then have "own s1 = own s0 \<union> getS3Bucket p ` set names" using Cons.IH Cons.prems(2) by blast
    then show ?thesis using new by auto
  qed
qed simp

lemma createMissing_known: "getS3Bucket p ` set names \<subseteq> set known \<Longrightarrow> createMissing A p known names s = (Ret (), s)"
  by (induction names) auto

lemmas bucket_name_defs = bucketNames_def bucket_defs BundleItemBinary_def BundleItemMeta_def TaskIdPendingPoolBucket_def TaskBucket_def
  BundleWaitParseArIdBucket_def BundleArIdToItemIdsBucket_def StatisticBucket_def

text \<open>The lower-case names differ, whatever the prefix.\<close>

lemma getS3Bucket_names: "inj_on (getS3Bucket p) (set bucketNames)"
proof -
  have "distinct (map ToLower bucketNames)"
    by (simp add: bucket_name_defs ToLower_def lower_char_def)
  then have "inj_on ToLower (set bucketNames)" by (simp add: distinct_map)
  then show ?thesis by (auto simp: inj_on_def getS3Bucket_def ToLower_def)
qed

subsection \<open>Properties\<close>

text \<open>Nothing is created on OSS when the listing names all the buckets; a prefix in other letter case gives the same names.\<close>

lemma listed_buckets_kept:
  "ListBuckets A p s = (Ret names, s1) \<Longrightarrow> getS3Bucket p ` set bucketNames \<subseteq> set names \<Longrightarrow> createAliyunBucket A p s = (Ret (), s1)"
  by (simp add: createAliyunBucket_def getBucketWithPrefix_def createMissing_known)

lemma getS3Bucket_case: "ToLower q = ToLower p \<Longrightarrow> getS3Bucket q b = getS3Bucket p b"
  by (simp add: getS3Bucket_def ToLower_def)

text \<open>An account in memory: the list of its buckets, for the witnesses.\<close>

definition list_api :: "(string list) bucket_api" where
  "list_api = \<lparr>CreateBucket = (\<lambda>b s. if b \<in> set s then (Err (ErrMsg owned_text), s) else (Ret (), s @ [b])),
     ListBuckets = (\<lambda>p s. (Ret (filter (\<lambda>b. take (length p) b = p) s), s))\<rparr>"

lemma list_api_ok: "bucket_api_ok list_api set"
  by (auto simp: bucket_api_ok_def list_api_def)

subsection \<open>Properties\<close>

text \<open>
  C33: a store that was opened has its buckets: when the constructor for S3 or for OSS succeeds, the account
  has, beside those it had, exactly the eleven buckets of the node, one for each bucket of the store.
\<close>

theorem opened_store_has_buckets:
  assumes "bucket_api_ok A own"
    and "createS3Bucket A p s = (Ret (), s1) \<or> createAliyunBucket A p s = (Ret (), s1)"
  shows "own s1 = own s \<union> getS3Bucket p ` set bucketNames \<and> card (getS3Bucket p ` set bucketNames) = 11"
proof -
  have "distinct bucketNames" by (simp add: bucket_name_defs)
  then have "card (set bucketNames) = length bucketNames" by (rule distinct_card)
  moreover have "card (getS3Bucket p ` set bucketNames) = card (set bucketNames)" by (rule card_image [OF getS3Bucket_names])
  ultimately have "card (getS3Bucket p ` set bucketNames) = 11" by (simp add: bucketNames_def)
  moreover have "own s1 = own s \<union> getS3Bucket p ` set bucketNames" using assms(2)
  proof
    assume "createS3Bucket A p s = (Ret (), s1)"
    then show ?thesis using createS3Buckets_own [OF assms(1)] by (simp add: createS3Bucket_def)
  next
    assume "createAliyunBucket A p s = (Ret (), s1)"
    then obtain known s0 where "ListBuckets A p s = (Ret known, s0)" "createMissing A p known bucketNames s0 = (Ret (), s1)"
      unfolding createAliyunBucket_def getBucketWithPrefix_def by (elim bindG_RetE)
    then show ?thesis using createMissing_own [OF assms(1)] bucket_api_okD(4) [OF assms(1)] by blast
  qed
  ultimately show ?thesis by simp
qed

theorem opened_store_has_buckets_witness:
  "getS3Bucket ''arseed'' TxMetaBucket \<in> set (snd (createS3Bucket list_api ''arseed'' [getS3Bucket ''arseed'' TxMetaBucket, ''other'']))
   \<and> length (snd (createS3Bucket list_api ''arseed'' [getS3Bucket ''arseed'' TxMetaBucket, ''other''])) = 12"
proof -
  let ?s = "[getS3Bucket ''arseed'' TxMetaBucket, ''other'']"
  have run: "createS3Bucket list_api ''arseed'' ?s = (Ret (), snd (createS3Bucket list_api ''arseed'' ?s))"
    by (simp add: createS3Bucket_def bucket_name_defs list_api_def getS3Bucket_def ToLower_def lower_char_def owned_text_def err_text_def)
  have "set (snd (createS3Bucket list_api ''arseed'' ?s)) = set ?s \<union> getS3Bucket ''arseed'' ` set bucketNames"
    using opened_store_has_buckets [OF list_api_ok] run by blast
  moreover have "length (snd (createS3Bucket list_api ''arseed'' ?s)) = 12"
    by (simp add: createS3Bucket_def bucket_name_defs list_api_def getS3Bucket_def ToLower_def lower_char_def owned_text_def err_text_def)
  ultimately show ?thesis by simp
qed

end
