(* ===== verification/Server.thy ===== *)
theory Server
  imports Startup Client
begin

text \<open>
  The server of a node: what becomes of a request between gin and a handler. runAPI (api.go) registers
  CORSMiddleware, ManifestMiddleware if manifests are enabled, and LimiterMiddleware if the node takes fees, in this order;
  then the router calls the handler of the route. \<open>serve\<close> is one request from its arrival to its answer.
\<close>

subsection \<open>Requests and answers\<close>

text \<open>
  A request as the handlers read it: \<open>wr_uri\<close> is RequestURI, \<open>wr_path\<close> URL.Path, \<open>wr_ip\<close> ClientIP; the body is absent, or
  read, which can fail; \<open>wr_tmp\<close> is the error of making a temporary file for it.
\<close>

record web_request =
  wr_verb :: string
  wr_host :: string
  wr_uri :: string
  wr_path :: string
  wr_tls :: bool
  wr_ip :: string
  wr_header :: "string \<Rightarrow> string"
  wr_query :: "(string \<times> string list) list"
  wr_body :: "string go option"
  wr_tmp :: "err option"

definition queryOf :: "web_request \<Rightarrow> string \<Rightarrow> string option" where
  "queryOf q key = (case map_of (wr_query q) key of Some (v # _) \<Rightarrow> Some v | _ \<Rightarrow> None)"

text \<open>An answer is the end of a middleware, or what a handler replies.\<close>

datatype 'a web_answer = NoContent | TooMany string | NoRoute | Page response | ADone "unit reply" | AOffset "(string \<times> string) reply"
  | ATx "transaction reply" | AChunk "chunk reply" | AField "field_body reply" | ANetwork 'a | APeers "string list"
  | APrice "price_body list" | AProxy | ATask "task reply" | ATasks "nat \<times> (string \<times> task) list" | AText string
  | AOrder "resp_order reply" | ASignData "string reply" | AMeta "item_meta reply" | AIds "string list reply"
  | AFees fee_map | AFee "resp_fee reply" | AOrders "resp_get_order list reply" | ANative "(string \<times> int) reply"
  | AKeyInfo "(string \<times> (string \<times> tok_bal) list) reply" | AKey "string reply"
  | ADeposits "(nat \<times> string \<times> int \<times> string \<times> string \<times> int) list reply"
  | AStatus "(string \<times> int \<times> int) list reply" | ADays "(int \<times> string \<times> int \<times> int) list reply"
  | AInfo "(string \<times> string) list \<times> int"

text \<open>The libraries that the handlers call, beside those of \<open>bundler_cfg\<close>.\<close>

record srv_lib =
  sl_cfg :: bundler_cfg
  sl_gw :: gw_lib
  sl_tx :: "string \<Rightarrow> transaction go"
  sl_chunk :: "string \<Rightarrow> chunk go"
  sl_sign :: "binary \<Rightarrow> tag list \<Rightarrow> bundle_item go"
  sl_signData :: "bundle_item \<Rightarrow> string go"
  sl_tags :: "string \<Rightarrow> string list"
  sl_recover :: "string \<Rightarrow> string \<Rightarrow> string go"
  sl_date :: "string \<Rightarrow> int option"
  sl_now :: int

subsection \<open>The state of the server\<close>

definition DefaultPaymentExpiredRange :: int where "DefaultPaymentExpiredRange = 2592000"
definition DefaultExpectedRange :: int where "DefaultExpectedRange = 50"

text \<open>The settings that a job or a handler reads from the node itself.\<close>

definition node_cfg :: "bundler_cfg \<Rightarrow> 'a node \<Rightarrow> bundler_cfg" where
  "node_cfg C n = C\<lparr>cfg_fees := nd_perFee n, cfg_arFee := ca_fee (nd_cache n), cfg_speedFee := GetSpeedFee (nd_config n),
     cfg_expectedRange := DefaultExpectedRange, cfg_expiredRange := DefaultPaymentExpiredRange,
     cfg_manifest := nd_manifest n, cfg_noFee := nd_noFee n\<rparr>"

definition nd_seed :: "'a node \<Rightarrow> seeding" where
  "nd_seed n = g_seed (nd_gw n)"

definition set_seed :: "seeding \<Rightarrow> 'a node \<Rightarrow> 'a node" where
  "set_seed s n = n\<lparr>nd_gw := (nd_gw n)\<lparr>g_seed := s\<rparr>\<rparr>"

definition set_wdb :: "wdb \<Rightarrow> 'a node \<Rightarrow> 'a node" where
  "set_wdb w n = set_seed ((nd_seed n)\<lparr>s_wdb := w\<rparr>) n"

subsection \<open>The router\<close>

text \<open>Of two patterns that fit a path the router takes the one with a word at the first place where they differ.\<close>

fun before :: "seg list \<Rightarrow> seg list \<Rightarrow> bool" where
  "before (Lit _ # ps) (Par _ # qs) = True"
| "before (Par _ # ps) (Lit _ # qs) = False"
| "before (_ # ps) (_ # qs) = before ps qs"
| "before _ _ = True"

definition better :: "string \<times> seg list \<times> string \<Rightarrow> string \<times> seg list \<times> string \<Rightarrow> string \<times> seg list \<times> string" where
  "better r r' = (if before (fst (snd r)) (fst (snd r')) then r else r')"

fun seg_bind :: "seg list \<Rightarrow> string list \<Rightarrow> (string \<times> string) list" where
  "seg_bind (Lit l # ps) (w # ws) = seg_bind ps ws"
| "seg_bind (Par p # ps) (w # ws) = (p, w) # seg_bind ps ws"
| "seg_bind _ _ = []"

definition route_of :: "bool \<Rightarrow> string \<Rightarrow> string \<Rightarrow> (string \<times> (string \<times> string) list) option" where
  "route_of mani verb path = (let ws = tl (Split (CHR ''/'') path) in
     case filter (\<lambda>(v, ps, h). v = verb \<and> seg_match ps ws) (routes mani) of
       [] \<Rightarrow> None
     | r # rs \<Rightarrow> (case foldl better r rs of (v, ps, h) \<Rightarrow> Some (h, seg_bind ps ws)))"

text \<open>The value of a parameter of the path.\<close>

definition param :: "(string \<times> string) list \<Rightarrow> string \<Rightarrow> string" where
  "param ps p = (case map_of ps p of Some v \<Rightarrow> v | None \<Rightarrow> [])"

subsection \<open>The middlewares\<close>

definition CORSMiddleware :: "web_request \<Rightarrow> bool" where
  "CORSMiddleware q \<longleftrightarrow> wr_verb q = ''OPTIONS''"

text \<open>\<open>gate\<close> counts a request of that key and tells whether the limit of its period is reached.\<close>

definition LimiterMiddleware :: "(string \<Rightarrow> 'l \<Rightarrow> bool \<times> 'l) \<Rightarrow> string set option \<Rightarrow> web_request \<Rightarrow> 'l \<Rightarrow> bool \<times> 'l" where
  "LimiterMiddleware gate whitelist q l = (let key = limiter_key (wr_header q ''origin'') (wr_ip q) in
     if limiter_excluded whitelist key then (False, l) else gate key l)"

subsection \<open>The handlers\<close>

text \<open>A handler works on the gateway of the node, and may not end when it reads chunks.\<close>

definition onGw :: "('r \<Rightarrow> 'a web_answer) \<Rightarrow> (gateway \<Rightarrow> 'r \<times> gateway) \<Rightarrow> 'a node \<Rightarrow> ('a web_answer \<times> 'a node) option" where
  "onGw A m n = (case m (nd_gw n) of (r, g) \<Rightarrow> Some (A r, n\<lparr>nd_gw := g\<rparr>))"

definition onGwO :: "('r \<Rightarrow> 'a web_answer) \<Rightarrow> (gateway \<Rightarrow> ('r \<times> gateway) option) \<Rightarrow> 'a node \<Rightarrow> ('a web_answer \<times> 'a node) option" where
  "onGwO A m n = map_option (\<lambda>(r, g). (A r, n\<lparr>nd_gw := g\<rparr>)) (m (nd_gw n))"

definition tell :: "('a node \<Rightarrow> 'a web_answer) \<Rightarrow> 'a node \<Rightarrow> ('a web_answer \<times> 'a node) option" where
  "tell A n = Some (A n, n)"

definition decoded_body :: "(string \<Rightarrow> 'b go) \<Rightarrow> web_request \<Rightarrow> 'b go option" where
  "decoded_body dec q = map_option (\<lambda>body. andThen body dec) (wr_body q)"

definition submissionOf :: "web_request \<Rightarrow> string \<Rightarrow> submission" where
  "submissionOf q currency = \<lparr>sb_ContentType = wr_header q ''Content-Type'', sb_apikey = wr_header q ''X-API-KEY'',
     sb_header = wr_header q, sb_currency = currency, sb_query = wr_query q, sb_body = wr_body q, sb_tmp = wr_tmp q\<rparr>"

text \<open>postTask and getTask answer their errors with 400; killTask answers that of CloseTask with 404.\<close>

definition killed :: "codec \<Rightarrow> string \<Rightarrow> string \<Rightarrow> unit go \<Rightarrow> unit reply" where
  "killed E arid ty r = reply_of (if Contains kill_types ty \<and> valid_arid E arid then 404 else 400) r"

definition tx_handlers :: "srv_lib \<Rightarrow> web_request \<Rightarrow> (string \<Rightarrow> string) \<Rightarrow> (string \<times> ('a node \<Rightarrow> ('a web_answer \<times> 'a node) option)) list" where
  "tx_handlers S q p = (let G = cfg_goar (sl_cfg S) in
    [(''submitTx'', onGw ADone (submitTx G (decoded_body (sl_tx S) q))),
     (''submitChunk'', onGw ADone (submitChunk G (decoded_body (sl_chunk S) q))),
     (''getTxOffset'', onGw AOffset (getTxOffset G (p ''arid''))),
     (''getTx'', onGw ATx (getTx (p ''arid''))),
     (''getChunk'', onGw AChunk (getChunk_reply G (p ''offset''))),
     (''getTxField'', onGwO AField (getTxField G (p ''arid'') (p ''field''))),
     (''getInfo'', tell (\<lambda>n. ANetwork (getInfo (nd_cache n)))),
     (''getAnchor'', tell (\<lambda>n. AField (Reply (getAnchor (nd_cache n))))),
     (''getTxPrice'', tell (\<lambda>n. APrice (getTxPrice (ca_fee (nd_cache n)) (p ''size'')))),
     (''getPeers'', tell (\<lambda>n. APeers (getPeers (nd_cache n)))),
     (''proxyArweaveGateway'', tell (\<lambda>n. AProxy))])"

definition task_table :: "srv_lib \<Rightarrow> (string \<Rightarrow> string) \<Rightarrow> (string \<times> ('a node \<Rightarrow> ('a web_answer \<times> 'a node) option)) list" where
  "task_table S p = (let E = cod (cfg_goar (sl_cfg S)); arid = p ''arid''; ty = p ''taskType'' in
    [(''postTask'', onGw (\<lambda>r. ADone (reply_of 400 r)) (on_tasking (postTask E arid ty))),
     (''killTask'', onGw (\<lambda>r. ADone (killed E arid ty r)) (on_tasking (killTask E arid ty))),
     (''getTask'', onGw (\<lambda>r. ATask (reply_of 400 r)) (on_tasking (getTask E arid ty))),
     (''getCacheTasks'', tell (\<lambda>n. ATasks (getCacheTasks (nd_gw n))))])"

definition item_handlers :: "srv_lib \<Rightarrow> web_request \<Rightarrow> (string \<Rightarrow> string) \<Rightarrow> (string \<times> ('a node \<Rightarrow> ('a web_answer \<times> 'a node) option)) list" where
  "item_handlers S q p = (let G = cfg_goar (sl_cfg S); I = cfg_chain (sl_cfg S); sub = submissionOf q (p ''currency'') in
    [(''getBundler'', tell (\<lambda>n. AText (getBundler (sl_cfg S)))),
     (''submitItem'', \<lambda>n. onGw AOrder (submitItemRequest (node_cfg (sl_cfg S) n) (sl_now S) sub) n),
     (''getSignData'', tell (\<lambda>n. ASignData (getSignData (sl_sign S) (sl_signData S) sub))),
     (''getItemMeta'', onGw AMeta (getItemMeta (p ''itemId''))),
     (''getItemField'', onGw AField (getItemField G I (wr_ip q) (wr_header q ''Range'') (p ''itemId'') (p ''field''))),
     (''getItemIdsByArId'', onGw AIds (getItemIdsByArId (p ''arId''))),
     (''bundleFees'', tell (\<lambda>n. AFees (nd_perFee n))),
     (''bundleFee'', tell (\<lambda>n. AFee (bundleFee (cfg_dec (sl_cfg S)) (nd_perFee n) (p ''size'') (p ''currency'')))),
     (''dataRoute'', \<lambda>n. onGwO Page (dataRoute G I (nd_manifest n) (wr_ip q) (wr_header q ''Range'') (wr_host q) (wr_tls q) (p ''id'')) n),
     (''setManifestUrl'', \<lambda>n. onGw Page (setManifestUrl G (nd_manifest n) (p ''id'')) n),
     (''submitNativeData'', \<lambda>n. onGw ANative (submitNativeData (node_cfg (sl_cfg S) n) (sl_sign S) (sl_now S) sub) n)])"

definition order_handlers :: "srv_lib \<Rightarrow> web_request \<Rightarrow> (string \<Rightarrow> string) \<Rightarrow> (string \<times> ('a node \<Rightarrow> ('a web_answer \<times> 'a node) option)) list" where
  "order_handlers S q p = (let L = cfg_pay (sl_cfg S) in
    [(''getOrders'', onGw AOrders (getOrders L (p ''signer'') (queryOf q))),
     (''getOrdersByApiKey'', onGw AOrders (getOrdersByApiKey L (wr_header q ''X-API-KEY'') (queryOf q))),
     (''getApiKeyInfo'', \<lambda>n. onGw AKeyInfo (getApiKeyInfo (node_cfg (sl_cfg S) n) (sl_tags S) (p ''address'')) n),
     (''getApiKey'', onGw AKey (getApiKey (sl_recover S) (sl_now S) (p ''timestamp'') (p ''signature''))),
     (''getApikeyDepositRecords'', \<lambda>n. onGw ADeposits (getApikeyDepositRecords (node_cfg (sl_cfg S) n) (p ''address'') (queryOf q)) n),
     (''getRealTimeOrderStatistic'', onGw AStatus (getRealTimeOrderStatistic decode_results)),
     (''getOrderStatisticByDate'', onGw ADays (getOrderStatisticByDate (sl_date S) (queryOf q))),
     (''arseedInfo'', tell (\<lambda>n. AInfo (arseedInfo (nd_config n))))])"

definition handler_table :: "srv_lib \<Rightarrow> web_request \<Rightarrow> (string \<Rightarrow> string) \<Rightarrow> (string \<times> ('a node \<Rightarrow> ('a web_answer \<times> 'a node) option)) list" where
  "handler_table S q p = tx_handlers S q p @ task_table S p @ item_handlers S q p @ order_handlers S q p"

text \<open>Every handler of a route is in the table; without one nothing is answered.\<close>

definition handle :: "srv_lib \<Rightarrow> web_request \<Rightarrow> string \<Rightarrow> (string \<times> string) list \<Rightarrow> 'a node \<Rightarrow> ('a web_answer \<times> 'a node) option" where
  "handle S q h ps n = (case map_of (handler_table S q (param ps)) h of Some f \<Rightarrow> f n | None \<Rightarrow> Some (NoRoute, n))"

subsection \<open>One request\<close>

definition pageOf :: "srv_lib \<Rightarrow> web_request \<Rightarrow> 'a node \<Rightarrow> (response \<times> gateway) option" where
  "pageOf S q n = (if nd_manifest n then ManifestMiddleware (cfg_goar (sl_cfg S)) (cfg_chain (sl_cfg S)) (sl_gw S)
     (wr_host q) (wr_verb q) (wr_uri q) (wr_path q) (wr_tls q) (nd_gw n) else Some (RNext, nd_gw n))"

definition afterLimit :: "srv_lib \<Rightarrow> web_request \<Rightarrow> 'a node \<Rightarrow> ('a web_answer \<times> 'a node) option" where
  "afterLimit S q n = (case route_of (nd_manifest n) (wr_verb q) (wr_path q) of
      None \<Rightarrow> Some (NoRoute, n) | Some (h, ps) \<Rightarrow> handle S q h ps n)"

definition serve :: "(string \<Rightarrow> 'l \<Rightarrow> bool \<times> 'l) \<Rightarrow> srv_lib \<Rightarrow> web_request \<Rightarrow> 'a node \<times> 'l \<Rightarrow> ('a web_answer \<times> 'a node \<times> 'l) option" where
  "serve gate S q st = (case st of (n, l) \<Rightarrow>
     if CORSMiddleware q then Some (NoContent, n, l)
     else case pageOf S q n of
       None \<Rightarrow> None
     | Some (r, g) \<Rightarrow> let n1 = n\<lparr>nd_gw := g\<rparr> in
         if r \<noteq> RNext then Some (Page r, n1, l)
         else case (if nd_noFee n then (False, l) else LimiterMiddleware gate (GetIPWhiteList (nd_config n)) q l) of
             (True, l1) \<Rightarrow> Some (TooMany ''err_limit_exceeded'', n1, l1)
           | (False, l1) \<Rightarrow> map_option (\<lambda>(a, m). (a, m, l1)) (afterLimit S q n1))"

subsection \<open>What leaves the ledger alone\<close>

definition node_money :: "'a node \<Rightarrow> ledger" where
  "node_money n = ledger_of (nd_refunds n) (s_wdb (nd_seed n))"

lemma set_seed_simps [simp]:
  "nd_seed (set_seed s n) = s" "nd_refunds (set_seed s n) = nd_refunds n" "nd_noFee (set_seed s n) = nd_noFee n"
  "nd_collected (set_seed s n) = nd_collected n" "nd_config (set_seed s n) = nd_config n" "nd_kafka (set_seed s n) = nd_kafka n"
  "nd_seed (set_wdb w n) = (nd_seed n)\<lparr>s_wdb := w\<rparr>" "nd_refunds (set_wdb w n) = nd_refunds n" "nd_noFee (set_wdb w n) = nd_noFee n"
  "nd_collected (set_wdb w n) = nd_collected n" "nd_config (set_wdb w n) = nd_config n" "nd_kafka (set_wdb w n) = nd_kafka n"
  by (simp_all add: nd_seed_def set_seed_def set_wdb_def)

lemma nd_seed_updates [simp]:
  "nd_seed (n\<lparr>nd_cache := c\<rparr>) = nd_seed n" "nd_seed (n\<lparr>nd_config := cfg\<rparr>) = nd_seed n" "nd_seed (n\<lparr>nd_perFee := M\<rparr>) = nd_seed n"
  "nd_seed (n\<lparr>nd_refunds := ts\<rparr>) = nd_seed n" "nd_seed (n\<lparr>nd_collected := cs\<rparr>) = nd_seed n" "nd_seed (n\<lparr>nd_bundles := bs\<rparr>) = nd_seed n"
  "nd_seed (n\<lparr>nd_items := ms\<rparr>) = nd_seed n" "nd_seed (n\<lparr>nd_blocks := ks\<rparr>) = nd_seed n" "nd_seed (n\<lparr>nd_requests := rs\<rparr>) = nd_seed n"
  "nd_seed (n\<lparr>nd_gw := g\<rparr>) = g_seed g"
  by (simp_all add: nd_seed_def)

lemma node_money_simps [simp]:
  "node_money (set_seed s n) = ledger_of (nd_refunds n) (s_wdb s)" "node_money (set_wdb w n) = ledger_of (nd_refunds n) w"
  "node_money (n\<lparr>nd_refunds := ts\<rparr>) = ledger_of ts (s_wdb (nd_seed n))"
  by (simp_all add: node_money_def)

lemma quiet_manifest: "quiet (GetManifestId u)" "quiet (InsertManifest u i)"
proof -
  show "quiet (GetManifestId u)"
    unfolding GetManifestId_def by (rule quiet_core) (auto split: prod.splits elim: db_read_cases)
  show "quiet (InsertManifest u i)"
    unfolding quiet_def
  proof (intro allI)
    fix w ts
    obtain f w1 where t: "db_tick w = (f, w1)" by fastforce
    show "ledger_of ts (snd (InsertManifest u i w)) = ledger_of ts w"
      using t ledger_of_core [OF db_tick_core [OF t], of ts] by (simp add: InsertManifest_def ledger_of_def)
  qed
qed

lemma quiet_recordManifest: "quiet (recordManifest G b tags i)"
  using quiet_manifest(2) unfolding quiet_def recordManifest_def Let_def
  by (auto split: prod.splits go.splits dest: quietD [OF quiet_manifest(1)])

lemma kv_step_wdb: "s_wdb (g_seed (snd (kv_step m g))) = s_wdb (g_seed g)"
  by (auto simp: kv_step_def on_seed_def on_store_def split: prod.splits)

lemma on_tasking_wdb: "s_wdb (g_seed (snd (on_tasking m g))) = s_wdb (g_seed g)"
  by (auto simp: on_tasking_def split: prod.splits)

lemma submit_wdb:
  "s_wdb (g_seed (snd (submitTx G body g))) = s_wdb (g_seed g)" "s_wdb (g_seed (snd (submitChunk G body' g))) = s_wdb (g_seed g)"
proof -
  have kv: "s_wdb (g_seed g2) = s_wdb (g_seed g1)" if "kv_step m g1 = (r, g2)" for m :: "kvdb \<Rightarrow> 'b go \<times> kvdb" and g1 r g2
    using that kv_step_wdb [of m g1] by simp
  have task: "s_wdb (g_seed g2) = s_wdb (g_seed g1)" if "on_tasking m g1 = (r, g2)" for m :: "tasking \<Rightarrow> 'b go \<times> tasking" and g1 r g2
    using that on_tasking_wdb [of m g1] by simp
  show "s_wdb (g_seed (snd (submitTx G body g))) = s_wdb (g_seed g)"
    by (auto simp: submitTx_def bindG_def split: option.splits go.splits prod.splits dest!: kv task)
  show "s_wdb (g_seed (snd (submitChunk G body' g))) = s_wdb (g_seed g)"
    by (auto simp: submitChunk_def split: option.splits go.splits prod.splits dest!: kv)
qed

text \<open>A handler changes nothing of the node but its gateway, and there orders, receipts and refunds only by steps of the ledger.\<close>

definition frugal :: "(gateway \<Rightarrow> 'r \<times> gateway) \<Rightarrow> bool" where
  "frugal m \<longleftrightarrow> (\<forall>g ts. money\<^sup>*\<^sup>* (ledger_of ts (s_wdb (g_seed g))) (ledger_of ts (s_wdb (g_seed (snd (m g))))))"

definition frugalO :: "(gateway \<Rightarrow> ('r \<times> gateway) option) \<Rightarrow> bool" where
  "frugalO m \<longleftrightarrow> (\<forall>g r g1 ts. m g = Some (r, g1) \<longrightarrow> money\<^sup>*\<^sup>* (ledger_of ts (s_wdb (g_seed g))) (ledger_of ts (s_wdb (g_seed g1))))"

definition serves :: "('a node \<Rightarrow> ('a web_answer \<times> 'a node) option) \<Rightarrow> bool" where
  "serves f \<longleftrightarrow> (\<forall>n a m ts. f n = Some (a, m) \<longrightarrow> (\<exists>g. m = n\<lparr>nd_gw := g\<rparr>)
     \<and> money\<^sup>*\<^sup>* (ledger_of ts (s_wdb (nd_seed n))) (ledger_of ts (s_wdb (nd_seed m))))"

lemma serves_onGw: "frugal m \<Longrightarrow> serves (onGw A m)"
  by (auto simp: serves_def onGw_def frugal_def nd_seed_def split: prod.splits) (metis snd_conv)

lemma serves_onGwO: "frugalO m \<Longrightarrow> serves (onGwO A m)"
  by (auto simp: serves_def onGwO_def frugalO_def nd_seed_def)

lemma serves_with: "(\<And>n. serves (f n)) \<Longrightarrow> serves (\<lambda>n. f n n)"
  by (simp add: serves_def)

lemmas serves_onGw_with = serves_with [of "\<lambda>n. onGw A (M n)" for A M] and serves_onGwO_with = serves_with [of "\<lambda>n. onGwO A (M n)" for A M]

lemma serves_tell: "serves (tell A)"
  by (auto simp: serves_def tell_def) (metis node.surjective node.update_convs(1))

lemma frugalI: "(\<And>g ts. ledger_of ts (s_wdb (g_seed (snd (m g)))) = ledger_of ts (s_wdb (g_seed g))) \<Longrightarrow> frugal m"
  by (simp add: frugal_def)

lemma frugalOI: "(\<And>g r g1 ts. m g = Some (r, g1) \<Longrightarrow> ledger_of ts (s_wdb (g_seed g1)) = ledger_of ts (s_wdb (g_seed g))) \<Longrightarrow> frugalO m"
  by (simp add: frugalO_def)

lemma kv_stepD: "kv_step m g = (r, g1) \<Longrightarrow> s_wdb (g_seed g1) = s_wdb (g_seed g)"
  using kv_step_wdb [of m g] by simp

lemma on_taskingD: "on_tasking m g = (r, g1) \<Longrightarrow> s_wdb (g_seed g1) = s_wdb (g_seed g)"
  using on_tasking_wdb [of m g] by simp

lemma on_seed_wdbD: "quiet m \<Longrightarrow> on_seed (on_wdb m) g = (r, g1) \<Longrightarrow> ledger_of ts (s_wdb (g_seed g1)) = ledger_of ts (s_wdb (g_seed g))"
  by (auto simp: on_seed_def split: prod.splits dest: quiet_on_wdb)

lemmas db_stepD = on_seed_wdbD [folded db_step_def]

lemma quiet_with_cap: "quiet m \<Longrightarrow> quiet (with_cap sz n m)"
  by (simp add: quiet_def with_cap_def)

lemma quiet_queries:
  "quiet (GetOrdersBySigner a b c)" "quiet (GetOrdersByApiKey a b c d')" "quiet (GetApiKeyDetailByAddress a)"
  "quiet (GetApiKeyDepositRecords a b c)" "quiet (GetOrderStatisticByDate b c)"
  unfolding GetOrdersBySigner_def GetOrdersByApiKey_def GetApiKeyDetailByAddress_def GetApiKeyDepositRecords_def GetOrderStatisticByDate_def
  by (auto simp: Let_def intro: quiet_with_cap quiet_read)

lemma read_bodies:
  "s_wdb (g_seed (snd (getTxOffset G i g))) = s_wdb (g_seed g)" "s_wdb (g_seed (snd (getTx i g))) = s_wdb (g_seed g)"
  "s_wdb (g_seed (snd (getChunk_reply G i g))) = s_wdb (g_seed g)" "s_wdb (g_seed (snd (getItemMeta i g))) = s_wdb (g_seed g)"
  "s_wdb (g_seed (snd (getItemIdsByArId i g))) = s_wdb (g_seed g)" "s_wdb (g_seed (snd (getRealTimeOrderStatistic dec g))) = s_wdb (g_seed g)"
  unfolding getTxOffset_def getTx_def or_proxy_def getChunk_reply_def getItemMeta_def getItemIdsByArId_def getRealTimeOrderStatistic_def bindG_def
  by (auto split: prod.splits go.splits dest!: kv_stepD)

lemma getTxField_wdb: "getTxField G i f g = Some (r, g1) \<Longrightarrow> s_wdb (g_seed g1) = s_wdb (g_seed g)"
  unfolding getTxField_def
  by (auto split: prod.splits go.splits option.splits if_splits dest!: kv_stepD simp: put_store_def)

lemma dataResponse_wdb: "dataResponse ip h reader data tags i g = (r, g1) \<Longrightarrow> g_seed g1 = g_seed g"
  by (auto simp: dataResponse_def Let_def incFileCnt_def decFileCnt_def split: option.splits)

lemma getItemField_wdb: "s_wdb (g_seed (snd (getItemField G I ip h i f g))) = s_wdb (g_seed g)"
  unfolding getItemField_def
  by (auto split: prod.splits go.splits option.splits dest!: kv_stepD dataResponse_wdb)

lemma order_bodies:
  "ledger_of ts (s_wdb (g_seed (snd (getOrders L a q g)))) = ledger_of ts (s_wdb (g_seed g))"
  "ledger_of ts (s_wdb (g_seed (snd (getOrdersByApiKey L a q g)))) = ledger_of ts (s_wdb (g_seed g))"
  "ledger_of ts (s_wdb (g_seed (snd (getApiKeyInfo C T a g)))) = ledger_of ts (s_wdb (g_seed g))"
  "ledger_of ts (s_wdb (g_seed (snd (getApiKey Ecr now a b g)))) = ledger_of ts (s_wdb (g_seed g))"
  "ledger_of ts (s_wdb (g_seed (snd (getApikeyDepositRecords C a q g)))) = ledger_of ts (s_wdb (g_seed g))"
  "ledger_of ts (s_wdb (g_seed (snd (getOrderStatisticByDate P q g)))) = ledger_of ts (s_wdb (g_seed g))"
proof -
  note reads = quiet_queries quiet_reads(7)
  show "ledger_of ts (s_wdb (g_seed (snd (getOrders L a q g)))) = ledger_of ts (s_wdb (g_seed g))"
    unfolding getOrders_def by (auto split: prod.splits go.splits dest: db_stepD [OF reads(1)])
  show "ledger_of ts (s_wdb (g_seed (snd (getOrdersByApiKey L a q g)))) = ledger_of ts (s_wdb (g_seed g))"
    unfolding getOrdersByApiKey_def by (auto split: prod.splits go.splits dest!: db_stepD [OF reads(2), where ts = ts] db_stepD [OF reads(6), where ts = ts])
  show "ledger_of ts (s_wdb (g_seed (snd (getApiKeyInfo C T a g)))) = ledger_of ts (s_wdb (g_seed g))"
    unfolding getApiKeyInfo_def by (auto split: prod.splits go.splits dest: db_stepD [OF reads(3)])
  show "ledger_of ts (s_wdb (g_seed (snd (getApiKey Ecr now a b g)))) = ledger_of ts (s_wdb (g_seed g))"
    unfolding getApiKey_def by (auto split: prod.splits go.splits dest: db_stepD [OF reads(3)])
  show "ledger_of ts (s_wdb (g_seed (snd (getApikeyDepositRecords C a q g)))) = ledger_of ts (s_wdb (g_seed g))"
    unfolding getApikeyDepositRecords_def by (auto split: prod.splits go.splits dest: db_stepD [OF reads(4)])
  show "ledger_of ts (s_wdb (g_seed (snd (getOrderStatisticByDate P q g)))) = ledger_of ts (s_wdb (g_seed g))"
    unfolding getOrderStatisticByDate_def by (auto split: prod.splits option.splits dest: db_stepD [OF reads(5)])
qed

lemma page_bodies:
  "dataRoute G I b ip h host tls i g = Some (r, g1) \<Longrightarrow> ledger_of ts (s_wdb (g_seed g1)) = ledger_of ts (s_wdb (g_seed g))"
  "ledger_of ts (s_wdb (g_seed (snd (setManifestUrl G b i g)))) = ledger_of ts (s_wdb (g_seed g))"
proof -
  note rec = on_seed_wdbD [OF quiet_recordManifest, where ts = ts] and man = on_seed_wdbD [OF quiet_manifest(1), where ts = ts]
    on_seed_wdbD [OF quiet_manifest(2), where ts = ts]
  have store: "on_seed (on_store m) g2 = (q, g3) \<Longrightarrow> s_wdb (g_seed g3) = s_wdb (g_seed g2)" for m :: "kvdb \<Rightarrow> 'b go \<times> kvdb" and g2 q g3
    using kv_stepD [of m g2] by (simp add: kv_step_def)
  show "dataRoute G I b ip h host tls i g = Some (r, g1) \<Longrightarrow> ledger_of ts (s_wdb (g_seed g1)) = ledger_of ts (s_wdb (g_seed g))"
    unfolding dataRoute_def Let_def
    by (auto split: prod.splits go.splits option.splits if_splits dest!: store rec dataResponse_wdb simp: put_store_def)
  show "ledger_of ts (s_wdb (g_seed (snd (setManifestUrl G b i g)))) = ledger_of ts (s_wdb (g_seed g))"
    unfolding setManifestUrl_def Let_def
    by (auto split: prod.splits go.splits dest!: store man)
qed

lemma submit_bodies: "frugal (submitItemRequest C now q)" "frugal (submitNativeData C sign now q)"
proof -
  have paid: "money\<^sup>*\<^sup>* (ledger_of ts (s_wdb (g_seed g))) (ledger_of ts (s_wdb (g_seed g1)))"
    if "on_seed (submitPaidItem C now item c k b sz) g = (r, g1)" for item c k b sz g r g1 ts
    using that submitPaidItem_money [of ts "g_seed g" C now item c k b sz] by (auto simp: on_seed_def split: prod.splits)
  have item: "money\<^sup>*\<^sup>* (ledger_of ts (s_wdb (g_seed g))) (ledger_of ts (s_wdb (g_seed g1)))"
    if "on_seed (submitItem C now item c k b sz) g = (r, g1)" for item c k b sz g r g1 ts
    using that submitItem_money [of ts "g_seed g" C now item c k b sz] by (auto simp: on_seed_def split: prod.splits)
  show "frugal (submitItemRequest C now q)"
    unfolding frugal_def submitItemRequest_def by (auto split: prod.splits go.splits option.splits dest: item)
  show "frugal (submitNativeData C sign now q)"
    unfolding frugal_def
  proof (intro allI)
    fix g ts
    obtain r g1 where k: "db_step (GetApiKeyDetail (sb_apikey q)) g = (r, g1)" by fastforce
    note same = db_stepD [OF quiet_reads(7) k, of ts]
    show "money\<^sup>*\<^sup>* (ledger_of ts (s_wdb (g_seed g))) (ledger_of ts (s_wdb (g_seed (snd (submitNativeData C sign now q g)))))"
      unfolding submitNativeData_def k by (auto split: prod.splits go.splits option.splits simp: same [symmetric] dest: paid [where ts = ts])
  qed
qed

text \<open>So does every entry of the table.\<close>

lemma table_serves: "\<forall>(h, f) \<in> set (handler_table S q p). serves f"
proof -
  have tx: "\<forall>(h, f) \<in> set (tx_handlers S q p). serves f"
    unfolding tx_handlers_def Let_def
    by (auto intro!: serves_onGw serves_onGwO serves_tell frugalI frugalOI dest: getTxField_wdb simp: read_bodies submit_wdb)
  have task: "\<forall>(h, f) \<in> set (task_table S p). serves f"
    unfolding task_table_def Let_def by (auto intro!: serves_onGw serves_tell frugalI simp: on_tasking_wdb)
  have item: "\<forall>(h, f) \<in> set (item_handlers S q p). serves f"
    unfolding item_handlers_def Let_def
    by (auto intro!: serves_onGw_with serves_onGwO_with serves_onGw serves_onGwO serves_tell frugalI frugalOI submit_bodies
      dest: page_bodies(1) simp: read_bodies getItemField_wdb page_bodies(2))
  have ord: "\<forall>(h, f) \<in> set (order_handlers S q p). serves f"
    unfolding order_handlers_def Let_def
    by (auto intro!: serves_onGw_with serves_onGw serves_tell frugalI simp: order_bodies read_bodies)
  show ?thesis using tx task item ord unfolding handler_table_def by auto
qed

lemma serves_handle: "serves (handle S q h ps :: 'a node \<Rightarrow> _)"
proof (cases "map_of (handler_table S q (param ps) :: (string \<times> ('a node \<Rightarrow> ('a web_answer \<times> 'a node) option)) list) h")
  case None
  then have "(handle S q h ps :: 'a node \<Rightarrow> _) = tell (\<lambda>_. NoRoute)" by (intro ext) (simp add: handle_def tell_def)
  then show ?thesis using serves_tell by simp
next
  case (Some f)
  then have "serves f" using table_serves [of S q "param ps"] map_of_SomeD [OF Some] by blast
  moreover have "handle S q h ps = f" using Some by (intro ext) (simp add: handle_def)
  ultimately show ?thesis by simp
qed

lemma frugal_middleware: "ManifestMiddleware G I W host verb uri path tls g = Some (r, g1) \<Longrightarrow> ledger_of ts (s_wdb (g_seed g1)) = ledger_of ts (s_wdb (g_seed g))"
proof -
  note man = on_seed_wdbD [OF quiet_manifest(1), where ts = ts]
  have page: "pageResponse G I W mf p g2 = Some (q, g3) \<Longrightarrow> s_wdb (g_seed g3) = s_wdb (g_seed g2)" for mf p g2 q g3
    by (auto simp: pageResponse_def put_store_def split: option.splits prod.splits go.splits)
  have dom: "domainTxId W d g2 = (q, g3) \<Longrightarrow> g_seed g3 = g_seed g2" for d g2 q g3
    by (auto simp: domainTxId_def split: option.splits list.splits go.splits)
  have find: "getArTxOrItemDataForManifest G I i g2 = Some (q, g3) \<Longrightarrow> s_wdb (g_seed g3) = s_wdb (g_seed g2)" for i g2 q g3
    by (auto simp: getArTxOrItemDataForManifest_def ignoring_def put_store_def split: option.splits prod.splits go.splits if_splits dest!: on_taskingD)
  show "ManifestMiddleware G I W host verb uri path tls g = Some (r, g1) \<Longrightarrow> ledger_of ts (s_wdb (g_seed g1)) = ledger_of ts (s_wdb (g_seed g))"
    unfolding ManifestMiddleware_def sandboxPage_def domainPage_def
    by (auto split: route.splits option.splits prod.splits go.splits if_splits dest!: page man dom find simp: put_store_def)
qed

lemma serve_gw:
  assumes "serve gate S q (n, l) = Some (a, m, l1)"
  shows "(\<exists>g. m = n\<lparr>nd_gw := g\<rparr>) \<and> money\<^sup>*\<^sup>* (ledger_of ts (s_wdb (nd_seed n))) (ledger_of ts (s_wdb (nd_seed m)))"
proof (cases "CORSMiddleware q")
  case True
  then show ?thesis using assms by (auto simp: serve_def) (metis node.surjective node.update_convs(1))
next
  case False
  then obtain r g where pg: "pageOf S q n = Some (r, g)" using assms by (auto simp: serve_def split: option.splits)
  have same: "ledger_of ts (s_wdb (g_seed g)) = ledger_of ts (s_wdb (nd_seed n))"
    using pg frugal_middleware unfolding pageOf_def nd_seed_def by (auto split: if_splits)
  let ?n1 = "n\<lparr>nd_gw := g\<rparr>"
  have "m = ?n1 \<or> (\<exists>h ps. handle S q h ps ?n1 = Some (a, m))"
    using assms False pg unfolding serve_def afterLimit_def
    by (auto simp: Let_def split: if_splits prod.splits bool.splits option.splits)
  then show ?thesis
  proof
    assume "m = ?n1"
    then show ?thesis using same by (auto simp: nd_seed_def)
  next
    assume "\<exists>h ps. handle S q h ps ?n1 = Some (a, m)"
    then obtain h ps where "handle S q h ps ?n1 = Some (a, m)" by blast
    with serves_handle [of S q h ps] obtain g1 where "m = ?n1\<lparr>nd_gw := g1\<rparr>"
      "money\<^sup>*\<^sup>* (ledger_of ts (s_wdb (nd_seed ?n1))) (ledger_of ts (s_wdb (nd_seed m)))"
      unfolding serves_def by blast
    then show ?thesis using same by (auto simp: nd_seed_def)
  qed
qed

subsection \<open>Requests that pass\<close>

lemma pageOf_api:
  "middleware_route (cod (cfg_goar (sl_cfg S))) (wr_host q) (wr_verb q) (wr_uri q) (wr_tls q) = ToApi \<Longrightarrow> pageOf S q n = Some (RNext, nd_gw n)"
  by (simp add: pageOf_def ManifestMiddleware_def)

lemma serve_passes:
  assumes "middleware_route (cod (cfg_goar (sl_cfg S))) (wr_host q) (wr_verb q) (wr_uri q) (wr_tls q) = ToApi"
    and "wr_verb q \<noteq> ''OPTIONS''" and "\<And>k u. gate k u = (False, u)"
  shows "serve gate S q (n, l) = map_option (\<lambda>(a, m). (a, m, l)) (afterLimit S q n)"
proof -
  have "LimiterMiddleware gate w q l = (False, l)" for w using assms(3) by (simp add: LimiterMiddleware_def Let_def)
  then show ?thesis using pageOf_api [OF assms(1), of n] assms(2) by (simp add: serve_def CORSMiddleware_def)
qed

lemma route_of_path:
  assumes "\<forall>w \<in> set ws. path_word w" and "path = path_of ws"
  shows "route_of m verb path = (case filter (\<lambda>(v, ps, h). v = verb \<and> seg_match ps ws) (routes m) of
       [] \<Rightarrow> None | r # rs \<Rightarrow> (case foldl better r rs of (v, ps, h) \<Rightarrow> Some (h, seg_bind ps ws)))"
  using Split_path [OF assms(1)] assms(2) by (simp add: route_of_def Let_def)

lemma tx_routes:
  assumes "path_word x"
  shows "route_of m ''POST'' ''/tx'' = Some (''submitTx'', [])"
    and "x \<noteq> ''pending'' \<Longrightarrow> route_of m ''GET'' (''/tx/'' @ x) = Some (''getTx'', [(''arid'', x)])"
    and "route_of m ''GET'' (''/tx/'' @ x @ ''/offset'') = Some (''getTxOffset'', [(''arid'', x)])"
    and "route_of m ''GET'' (''/tx/'' @ x @ ''/data'') = Some (''getTxField'', [(''arid'', x), (''field'', ''data'')])"
proof -
  have w: "path_word ''tx''" "path_word ''offset''" "path_word ''data''" by (simp_all add: path_word_def)
  show "route_of m ''POST'' ''/tx'' = Some (''submitTx'', [])"
    using route_of_path [of "[''tx'']" "''/tx''" m] w by (simp add: path_of_def routes_def)
  show "x \<noteq> ''pending'' \<Longrightarrow> route_of m ''GET'' (''/tx/'' @ x) = Some (''getTx'', [(''arid'', x)])"
    using route_of_path [of "[''tx'', x]" "''/tx/'' @ x" m] w assms by (simp add: path_of_def routes_def path_word_ne)
  show "route_of m ''GET'' (''/tx/'' @ x @ ''/offset'') = Some (''getTxOffset'', [(''arid'', x)])"
    using route_of_path [of "[''tx'', x, ''offset'']" "''/tx/'' @ x @ ''/offset''" m] w assms
    by (simp add: path_of_def routes_def path_word_ne better_def)
  show "route_of m ''GET'' (''/tx/'' @ x @ ''/data'') = Some (''getTxField'', [(''arid'', x), (''field'', ''data'')])"
    using route_of_path [of "[''tx'', x, ''data'']" "''/tx/'' @ x @ ''/data''" m] w assms
    by (simp add: path_of_def routes_def path_word_ne)
qed

subsection \<open>Properties\<close>

definition get_of :: "web_request \<Rightarrow> string \<Rightarrow> web_request" where
  "get_of q path = q\<lparr>wr_verb := ''GET'', wr_uri := path, wr_path := path\<rparr>"

text \<open>
  C5: a transaction posted over HTTP is served over HTTP. Through the middlewares, the router and the handlers, on Bolt, S3 and
  Aliyun and while the limiter lets the requests pass and no request to the store fails: the POST of a new transaction with its data, of at most
  50 MB and with a last part of two bytes or more, is answered without an error, and then the GETs of its record, its offset and its data are answered with what was sent.
\<close>

theorem posted_tx_served_over_http:
  fixes n :: "'a node" and S q tx
  defines "G \<equiv> cfg_goar (sl_cfg S)" and "x \<equiv> tx_ID tx"
  assumes post: "wr_verb q = ''POST''" "wr_path q = ''/tx''" "wr_body q = Some (Ret text)" "sl_tx S text = Ret tx"
    and api: "\<And>path. middleware_route (cod G) (wr_host q) ''GET'' path (wr_tls q) = ToApi" and free: "\<And>k u. gate k u = (False, u)"
    and fresh: "fresh_tx G tx cur (s_store (nd_seed n))" and room: "tx_room G tx data (cur + of_nat (length data))"
    and ok: "VerifyTransaction G tx = None" and data: "tx_Data tx \<noteq> []" "b64dec (cod G) (tx_Data tx) = Some data"
    and ck: "chunked G tx data parts cs" and last: "2 \<le> length (last parts)" and small: "length data \<le> AllowMaxRespDataSize"
    and x: "path_word x" "x \<noteq> ''pending''"
  shows "\<exists>m. serve gate S q (n, l) = Some (ADone (Reply ()), m, l)
    \<and> assembleTaskId x TaskTypeBroadcastMeta \<in> set (g_chan (nd_gw m))
    \<and> serve gate S (get_of q (''/tx/'' @ x)) (m, l) = Some (ATx (Reply (tx\<lparr>tx_Data := []\<rparr>)), m, l)
    \<and> serve gate S (get_of q (''/tx/'' @ x @ ''/offset'')) (m, l)
        = Some (AOffset (Reply (tx_DataSize tx, FormatNat (unat (cur + of_nat (length data))))), m, l)
    \<and> serve gate S (get_of q (''/tx/'' @ x @ ''/data'')) (m, l) = Some (AField (Reply (FText html (b64enc (cod G) data))), m, l)"
proof -
  have i: "tx_ID tx \<noteq> []" using x(1) by (simp add: x_def path_word_def)
  obtain g1 where g1: "submitTx G (Some (Ret tx)) (nd_gw n) = (Reply (), g1)"
    "assembleTaskId (tx_ID tx) TaskTypeBroadcastMeta \<in> set (g_chan g1)"
    "getTx (tx_ID tx) g1 = (Reply (tx\<lparr>tx_Data := []\<rparr>), g1)"
    "getTxOffset G (tx_ID tx) g1 = (Reply (tx_DataSize tx, FormatNat (unat (cur + of_nat (length data)))), g1)"
    "getTxField G (tx_ID tx) ''data'' g1 = Some (Reply (FText html (b64enc (cod G) data)), g1)"
    using submitted_tx_is_served [OF fresh [unfolded nd_seed_def] room ok data ck last small i] by blast
  let ?m = "n\<lparr>nd_gw := g1\<rparr>"
  have post_api: "middleware_route (cod G) (wr_host q) ''POST'' (wr_uri q) (wr_tls q) = ToApi" by (simp add: middleware_route_def Let_def)
  have get: "serve gate S (get_of q path) (?m, l) = map_option (\<lambda>(a, m). (a, m, l)) (afterLimit S (get_of q path) ?m)" for path
    using api free by (intro serve_passes) (simp_all add: get_of_def G_def)
  have body: "decoded_body (sl_tx S) q = Some (Ret tx)" using post(3,4) by (simp add: decoded_body_def)
  have "serve gate S q (n, l) = map_option (\<lambda>(a, m). (a, m, l)) (afterLimit S q n)"
    using post_api post(1) free by (intro serve_passes) (simp_all add: G_def)
  then have "serve gate S q (n, l) = Some (ADone (Reply ()), ?m, l)"
    using tx_routes(1) [of "''x''"] post(1,2) body g1(1)
    by (simp add: afterLimit_def handle_def handler_table_def tx_handlers_def onGw_def Let_def G_def path_word_def)
  moreover have "serve gate S (get_of q (''/tx/'' @ x)) (?m, l) = Some (ATx (Reply (tx\<lparr>tx_Data := []\<rparr>)), ?m, l)"
    using tx_routes(2) [OF x] g1(3) unfolding get
    by (simp add: afterLimit_def handle_def handler_table_def tx_handlers_def onGw_def Let_def G_def get_of_def param_def x_def)
  moreover have "serve gate S (get_of q (''/tx/'' @ x @ ''/offset'')) (?m, l)
      = Some (AOffset (Reply (tx_DataSize tx, FormatNat (unat (cur + of_nat (length data))))), ?m, l)"
    using tx_routes(3) [OF x(1)] g1(4) unfolding get
    by (simp add: afterLimit_def handle_def handler_table_def tx_handlers_def onGw_def Let_def G_def get_of_def param_def x_def)
  moreover have "serve gate S (get_of q (''/tx/'' @ x @ ''/data'')) (?m, l) = Some (AField (Reply (FText html (b64enc (cod G) data))), ?m, l)"
    using tx_routes(4) [OF x(1)] g1(5) unfolding get
    by (simp add: afterLimit_def handle_def handler_table_def tx_handlers_def onGwO_def Let_def G_def get_of_def param_def x_def)
  ultimately show ?thesis using g1(2) x_def by (intro exI [of _ ?m]) simp
qed

text \<open>A node on Bolt and a request to it, for the witnesses.\<close>

definition sample_served :: "kvdb \<Rightarrow> nat node" where
  "sample_served d = newNode sample_opts (newGateway d empty_wdb [] []) plain_cache
     \<lparr>speedTxFee = 0, bundleServeFee = 0, ipWhiteList = [''10.0.0.1''], Param = 0, cf_db = \<lparr>fee_rows = [], ip_rows = [], param_rows = [], cfg_faults = []\<rparr>\<rparr>"

definition sample_srv :: srv_lib where
  "sample_srv = \<lparr>sl_cfg = plain_cfg, sl_gw = plain_gw, sl_tx = (\<lambda>_. Ret hello_tx), sl_chunk = (\<lambda>_. Err (ErrMsg ''no chunk'')),
     sl_sign = (\<lambda>_ _. Err (ErrMsg ''no key'')), sl_signData = (\<lambda>_. Err (ErrMsg ''no key'')), sl_tags = (\<lambda>_. []),
     sl_recover = (\<lambda>_ _. Err (ErrMsg ''no key'')), sl_date = (\<lambda>_. None), sl_now = 1000\<rparr>"

definition sample_post :: web_request where
  "sample_post = \<lparr>wr_verb = ''POST'', wr_host = ''127.0.0.1:8080'', wr_uri = ''/tx'', wr_path = ''/tx'', wr_tls = False, wr_ip = ''10.0.0.2'',
     wr_header = (\<lambda>_. []), wr_query = [], wr_body = Some (Ret ''tx''), wr_tmp = None\<rparr>"

lemma sample_api: "middleware_route E (wr_host sample_post) ''GET'' path tls = ToApi"
  by (simp add: middleware_route_def Let_def sample_post_def getRequestSandbox_def getSubDomain_def Split.simps api_hosts_def)

theorem posted_tx_served_over_http_witness:
  "\<exists>m. serve (\<lambda>k u. (False, u)) sample_srv sample_post (sample_served (empty_kv Bolt []), ()) = Some (ADone (Reply ()), m, ())
     \<and> serve (\<lambda>k u. (False, u)) sample_srv (get_of sample_post ''/tx/t/offset'') (m, ())
         = Some (AOffset (Reply (''5'', FormatNat (unat (5 :: 64 word)))), m, ())"
proof -
  let ?gate = "\<lambda>(k :: string) (u :: unit). (False, u)"
  have room: "tx_room plain_goar hello_tx ''hello'' (0 + of_nat (length ''hello''))"
    by (simp add: tx_room_def maxAlloc_def digits_eval)
  have lib: "cfg_goar (sl_cfg sample_srv) = plain_goar" "sl_tx sample_srv ''tx'' = Ret hello_tx" by (simp_all add: sample_srv_def)
  have st: "s_store (nd_seed (sample_served (empty_kv Bolt []))) = empty_kv Bolt []"
    by (simp add: sample_served_def newNode_def newGateway_def nd_seed_def)
  have req: "wr_verb sample_post = ''POST''" "wr_path sample_post = ''/tx''" "wr_body sample_post = Some (Ret ''tx'')"
    by (simp_all add: sample_post_def)
  show ?thesis
    using posted_tx_served_over_http [of sample_post "''tx''" sample_srv hello_tx ?gate 0 "sample_served (empty_kv Bolt [])" "''hello''"
        "[''hel'', ''lo'']" hello_chunks "()", unfolded lib st] req lib sample_api room hello_fresh [of Bolt] hello_chunked
    by (auto simp: AllowMaxRespDataSize_def path_word_def)
qed

text \<open>
  What the limiter does not see. A page of a manifest or of a domain is answered before the limiter is asked,
  so its clients are never limited; and a client who sends a whitelisted address as its Origin passes
  whatever the limiter has counted.
\<close>

theorem limiter_passed_by:
  shows "wr_verb q \<noteq> ''OPTIONS'' \<Longrightarrow> pageOf S q n = Some (r, g) \<Longrightarrow> r \<noteq> RNext \<Longrightarrow> serve gate S q (n, l) = Some (Page r, n\<lparr>nd_gw := g\<rparr>, l)"
    and "CHR '','' \<notin> set w \<Longrightarrow> w \<in> set (ipWhiteList (nd_config n)) \<Longrightarrow> wr_header q ''origin'' = w
      \<Longrightarrow> serve gate S q (n, l) = serve (\<lambda>k u. (False, u)) S q (n, l)"
proof -
  show "wr_verb q \<noteq> ''OPTIONS'' \<Longrightarrow> pageOf S q n = Some (r, g) \<Longrightarrow> r \<noteq> RNext \<Longrightarrow> serve gate S q (n, l) = Some (Page r, n\<lparr>nd_gw := g\<rparr>, l)"
    by (simp add: serve_def CORSMiddleware_def Let_def)
  assume w: "CHR '','' \<notin> set w" "w \<in> set (ipWhiteList (nd_config n))" "wr_header q ''origin'' = w"
  have "w \<in> set (Split (CHR '','') (w @ CHR '','' # ip))" for ip using w(1) by (simp add: Split_Cons_append)
  then have "limiter_excluded (GetIPWhiteList (nd_config n)) (limiter_key (wr_header q ''origin'') (wr_ip q))"
    using w(2,3) by (auto simp: limiter_excluded_def limiter_key_def GetIPWhiteList_def list_ex_iff)
  then have "LimiterMiddleware g (GetIPWhiteList (nd_config n)) q l = (False, l)" for g by (simp add: LimiterMiddleware_def Let_def)
  then show "serve gate S q (n, l) = serve (\<lambda>k u. (False, u)) S q (n, l)" by (auto simp: serve_def Let_def split: option.split)
qed

lemma task_routes:
  assumes "path_word ty" and "path_word x" and "ty \<noteq> ''kill''"
  shows "route_of m ''POST'' (''/task/'' @ ty @ ''/'' @ x) = Some (''postTask'', [(''taskType'', ty), (''arid'', x)])"
  using route_of_path [of "[''task'', ty, x]" "''/task/'' @ ty @ ''/'' @ x" m] assms
  by (simp add: path_of_def routes_def path_word_ne)

text \<open>
  C8: a task that was accepted over HTTP is not lost when the node stops: after the POST to /task/sync/ was answered without
  an error, the node that New makes of the store as it is then has the task in its channel, and running it there while
  the network answers stores the transaction and closes the task, with manifests enabled or not. The store is Bolt, S3 or Aliyun with at
  most one page of pending ids on S3, no request to it or to the database fails, no chunk lies above allDataEndOffset (which
  storing a transaction keeps true), the transaction is new, and its last part has two bytes or more.
\<close>

theorem accepted_sync_survives_restart:
  fixes n0 n1 :: "'a node" and n :: "'b node"
  assumes post: "serve gate S q (n0, l) = Some (ADone (Reply ()), n1, l1)" "wr_verb q = ''POST''"
      "wr_path q = ''/task/sync/'' @ arId" "path_word arId" and free: "\<And>k u. gate k u = (False, u)"
    and h: "healthy (s_store (nd_seed n0))" and pool: "pool_ok (s_store (nd_seed n0))"
    and few: "kv_kind (s_store (nd_seed n1)) = S3 \<Longrightarrow> length (pool_keys (s_store (nd_seed n1))) \<le> s3_page"
    and start: "New opt E s = (Ret n, s1)" and store: "fst (openStore opt (sv_storage E) s) = Ret (s_store (nd_seed n1))"
    and fresh: "fresh_tx (te_goar T) meta cur (s_store (nd_seed n0))"
    and room: "tx_room (te_goar T) meta data (cur + of_nat (length data))"
    and gw: "gw_tx (te_net T) arId = Ret meta" "gw_data (te_net T) arId = Ret data" and i: "tx_ID meta = arId"
    and ck: "chunked (te_goar T) meta data parts cs" and upto: "chunks_upto (te_goar T) (s_store (nd_seed n0))"
    and sz: "SetString (tx_DataSize meta) = Some (int (length data))"
    and last: "2 \<le> length (last parts)" and db: "te_manifest T = nd_manifest n" "nd_manifest n \<longrightarrow> db_healthy (sv_wdb E)"
    and int: "in_i64 (te_now T)" "in_i64 (int (length (te_peers T)))"
  shows "assembleTaskId arId TaskTypeSync \<in> set (g_chan (nd_gw n))
    \<and> (\<exists>r. processTask T (assembleTaskId arId TaskTypeSync) \<lparr>rn_gw = nd_gw n, rn_sent = []\<rparr> = Some (Ret (), r)
         \<and> getArTxData (te_goar T) (tx_DataRoot meta) (tx_DataSize meta) (kv_of r) = Some (Ret data, kv_of r)
         \<and> GetTask arId TaskTypeSync (table r) = None
         \<and> kv_lookup (kv_of r) TaskIdPendingPoolBucket (assembleTaskId arId TaskTypeSync) = None)"
proof -
  let ?E = "cod (cfg_goar (sl_cfg S))" and ?g = "nd_gw n0"
  let ?t0 = "\<lparr>tk_store = s_store (g_seed ?g), tk_map = s_tasks (g_seed ?g), tk_chan = g_chan ?g\<rparr>"
  have ty: "TaskTypeSync = ''sync''" by (simp add: task_type_defs)
  have route: "route_of m ''POST'' (wr_path q) = Some (''postTask'', [(''taskType'', ''sync''), (''arid'', arId)])" for m
    using task_routes [of "''sync''" arId m] post(3,4) by (simp add: path_word_def)
  have "serve gate S q (n0, l) = map_option (\<lambda>(a, m). (a, m, l)) (afterLimit S q n0)"
    using post(2) free by (intro serve_passes) (simp_all add: middleware_route_def Let_def)
  then have "map_option (\<lambda>(a, m). (a, m, l)) (afterLimit S q n0) = Some (ADone (Reply ()), n1, l1)" using post(1) by simp
  then have "afterLimit S q n0 = Some (ADone (Reply ()), n1)" by auto
  then have "onGw (\<lambda>r. ADone (reply_of 400 r)) (on_tasking (postTask ?E arId TaskTypeSync)) n0 = Some (ADone (Reply ()), n1)"
    using post(2) route
    by (simp add: afterLimit_def handle_def handler_table_def tx_handlers_def task_table_def Let_def param_def ty)
  then obtain t1 where t1: "postTask ?E arId TaskTypeSync ?t0 = (Ret (), t1)" and n1: "tk_store t1 = s_store (nd_seed n1)"
    by (auto simp: onGw_def on_tasking_def reply_of_def nd_seed_def split: prod.splits go.splits)
  then have reg: "registerTask arId TaskTypeSync ?t0 = (Ret (), t1)" by (auto simp: postTask_def split: if_splits)
  show ?thesis
    by (rule restart_completes_sync [OF reg _ _ _ start _ _ room gw i _ ck _ sz last _ int])
      (use h pool few store fresh upto db n1 path_word_ne [OF post(4)] in \<open>simp_all add: nd_seed_def\<close>)
qed

text \<open>Ids of 32 bytes, in the encoding that leaves bytes as they are.\<close>

definition long_id :: string where "long_id = replicate 32 (CHR ''t'')"

definition long_env :: task_env where
  "long_env = hello_env\<lparr>te_manifest := True, te_net := hello_net\<lparr>gw_tx := (\<lambda>_. Ret (hello_tx\<lparr>tx_ID := long_id\<rparr>)), gw_data := (\<lambda>_. Ret ''hello'')\<rparr>\<rparr>"

lemma long_id_word: "path_word long_id" by (simp add: path_word_def long_id_def)

lemma sample_accepts:
  "\<exists>n1. serve (\<lambda>k u. (False, u)) sample_srv (sample_post\<lparr>wr_path := ''/task/sync/'' @ long_id\<rparr>) (sample_served (empty_kv Bolt []), ())
      = Some (ADone (Reply ()), n1, ())
    \<and> s_store (nd_seed n1) = kv_store TaskIdPendingPoolBucket (assembleTaskId long_id TaskTypeSync) (Bytes ''0x01'') (empty_kv Bolt [])"
proof -
  let ?q = "sample_post\<lparr>wr_path := ''/task/sync/'' @ long_id\<rparr>" and ?n = "sample_served (empty_kv Bolt [])"
  have ty: "Contains task_types ''sync''" by (simp add: task_types_def task_type_defs)
  have route: "route_of m ''POST'' (''/task/sync/'' @ long_id) = Some (''postTask'', [(''taskType'', ''sync''), (''arid'', long_id)])" for m
    using task_routes [of "''sync''" long_id m] long_id_word by (simp add: path_word_def)
  have "serve (\<lambda>k u. (False, u)) sample_srv ?q (?n, ()) = map_option (\<lambda>(a, m). (a, m, ())) (afterLimit sample_srv ?q ?n)"
    by (rule serve_passes) (simp_all add: middleware_route_def Let_def sample_post_def)
  moreover have "\<exists>n1. afterLimit sample_srv ?q ?n = Some (ADone (Reply ()), n1)
    \<and> s_store (nd_seed n1) = kv_store TaskIdPendingPoolBucket (assembleTaskId long_id TaskTypeSync) (Bytes ''0x01'') (empty_kv Bolt [])"
    using route ty
    by (simp add: afterLimit_def handle_def handler_table_def tx_handlers_def task_table_def Let_def param_def sample_post_def sample_srv_def
      onGw_def on_tasking_def postTask_def valid_arid_def long_id_def task_type_defs registerTask_def
      PutTaskPendingPool_def mark_def sample_served_def newNode_def newGateway_def nd_seed_def reply_of_def)
  ultimately show ?thesis by auto
qed

theorem accepted_sync_survives_restart_witness:
  "\<exists>n1 (n :: nat node) s1 r. serve (\<lambda>k u. (False, u)) sample_srv (sample_post\<lparr>wr_path := ''/task/sync/'' @ long_id\<rparr>)
        (sample_served (empty_kv Bolt []), ()) = Some (ADone (Reply ()), n1, ())
    \<and> New sample_opts (sample_env (s_store (nd_seed n1)) empty_wdb) [] = (Ret n, s1)
    \<and> processTask long_env (assembleTaskId long_id TaskTypeSync) \<lparr>rn_gw = nd_gw n, rn_sent = []\<rparr> = Some (Ret (), r)
    \<and> getArTxData plain_goar ''r'' ''5'' (kv_of r) = Some (Ret ''hello'', kv_of r)"
proof -
  let ?d = "kv_store TaskIdPendingPoolBucket (assembleTaskId long_id TaskTypeSync) (Bytes ''0x01'') (empty_kv Bolt [])"
  let ?q = "sample_post\<lparr>wr_path := ''/task/sync/'' @ long_id\<rparr>" and ?tx = "hello_tx\<lparr>tx_ID := long_id\<rparr>"
  obtain n1 where n1: "serve (\<lambda>k u. (False, u)) sample_srv ?q (sample_served (empty_kv Bolt []), ()) = Some (ADone (Reply ()), n1, ())"
    and d: "s_store (nd_seed n1) = ?d" using sample_accepts by blast
  have ty: "Contains task_types TaskTypeSync" by (simp add: task_types_def task_type_defs)
  have pool: "pool_ok (empty_kv Bolt [])" "pool_ok ?d" using ty by (auto simp: pool_ok_iff)
  obtain n :: "nat node" and s1 where n: "New sample_opts (sample_env ?d empty_wdb) [] = (Ret n, s1)"
    using sample_start [of ?d empty_wdb "[]"] pool(2) by (auto simp: bucket_defs)
  have store: "fst (openStore sample_opts (sv_storage (sample_env ?d empty_wdb)) []) = Ret ?d"
    using sample_store [of ?d "[]"] by (auto simp: sample_env_def)
  have room: "tx_room plain_goar ?tx ''hello'' (0 + of_nat (length ''hello''))"
    by (simp add: tx_room_def maxAlloc_def digits_eval)
  have sz: "SetString ''5'' = Some 5" by (simp add: SetString_def split_sign_def digits_eval)
  have env: "te_goar long_env = plain_goar" "te_manifest long_env" "te_now long_env = 1000" "te_peers long_env = [''p'']"
    "gw_tx (te_net long_env) i = Ret ?tx" "gw_data (te_net long_env) i = Ret ''hello''" for i
    by (simp_all add: long_env_def hello_env_def hello_net_def)
  have ck: "chunked plain_goar ?tx ''hello'' [''hel'', ''lo''] hello_chunks"
    by (simp add: chunked_def less_Suc_eq hello_chunks_def hello_chunk_def) (simp add: plain_goar_def)
  have fresh: "fresh_tx plain_goar ?tx 0 (empty_kv Bolt [])" using hello_fresh [of Bolt] by (simp add: fresh_tx_def)
  have st: "s_store (nd_seed (sample_served (empty_kv Bolt []))) = empty_kv Bolt []"
    by (simp add: sample_served_def newNode_def newGateway_def nd_seed_def)
  have mani: "nd_manifest n" using n by (auto elim!: New_RetE simp: newNode_def sample_opts_def)
  have upto: "chunks_upto plain_goar (empty_kv Bolt [])" "db_healthy (sv_wdb (sample_env ?d empty_wdb))"
    by (simp_all add: chunks_upto_empty sample_env_def empty_wdb_def db_healthy_def)
  have q: "wr_verb ?q = ''POST''" "wr_path ?q = ''/task/sync/'' @ long_id" by (simp_all add: sample_post_def)
  have "\<exists>r. processTask long_env (assembleTaskId long_id TaskTypeSync) \<lparr>rn_gw = nd_gw n, rn_sent = []\<rparr> = Some (Ret (), r)
    \<and> getArTxData plain_goar ''r'' ''5'' (kv_of r) = Some (Ret ''hello'', kv_of r)"
    using accepted_sync_survives_restart [OF n1 q long_id_word _ _ _ _ n [folded d] store [folded d], of long_env ?tx 0 "''hello''" "[''hel'', ''lo'']" hello_chunks]
      env room ck fresh sz pool(1) st d mani upto by (auto simp: in_i64_def bucket_defs)
  then show ?thesis using n1 n d by auto
qed

end
