(* ===== verification/Schedule.thy ===== *)
theory Schedule
  imports Server
begin

text \<open>
  The life of a node after New: Run starts the scheduler with the jobs of jobs.go and config/jobs.go. A
  step of the node is one scheduled job, one deposit that everPay reports, one task, or one
  request that stores something. Each runs to its end; what a job does on its own is in the theories before. A
  run whose job panics ends there: the process stops.
\<close>

subsection \<open>The schedule\<close>

datatype job_name = AnchorJob | ArFeeJob | InfoJob | PeersJob | TokenPriceJob | PerFeeJob
  | MergeJob | RefundJob | ExpireJob | CollectJob
  | BundleJob | BundleSeqJob | WatchTxJob | RetryTxJob | TasksJob | BundlerJob | TmpFileJob
  | RealTimeJob | DailyJob | KafkaItemsJob | KafkaBlocksJob
  | FeeConfigJob | WhiteListJob | ParamJob

datatype timing = Every int | DailyAt string | AtStart

text \<open>Periods are in seconds; \<open>AtStart\<close> is a goroutine of its own. The subscription of deposits is not among them.\<close>

definition runJobs :: "bool \<Rightarrow> bool \<Rightarrow> int \<Rightarrow> (timing \<times> job_name) list" where
  "runJobs nofee kafka bundleInterval =
     [(Every 120, AnchorJob), (Every 120, ArFeeJob), (Every 30, InfoJob), (Every 300, PeersJob), (Every 300, TokenPriceJob),
      (Every 60, PerFeeJob)]
     @ (if nofee then [] else [(Every 5, MergeJob), (Every 120, RefundJob), (Every 60, ExpireJob), (DailyAt ''00:00'', CollectJob)])
     @ [(Every bundleInterval, BundleJob), (Every bundleInterval, BundleSeqJob), (Every 180, WatchTxJob), (Every 120, RetryTxJob),
        (Every 5, TasksJob), (Every 60, BundlerJob), (Every 120, TmpFileJob), (Every 60, RealTimeJob), (AtStart, DailyJob),
        (DailyAt ''00:01'', DailyJob)]
     @ (if kafka then [(Every 10, KafkaItemsJob), (Every 60, KafkaBlocksJob)] else [])"

definition configJobs :: "(timing \<times> job_name) list" where
  "configJobs = [(Every 60, FeeConfigJob), (Every 60, WhiteListJob), (Every 10, ParamJob)]"

subsection \<open>One job\<close>

text \<open>
  What a job meets outside when it runs: the libraries of \<open>bundler_cfg\<close>, the network, the clock in seconds
  and in milliseconds, the tokens and prices of everPay, the balances of the bundler.
\<close>

record 'a job_env =
  je_cfg :: bundler_cfg
  je_net :: "'a ar_net"
  je_kafka :: kafka_lib
  je_now :: int
  je_ms :: int
  je_status :: "nat \<Rightarrow> string \<Rightarrow> int option"
  je_tokens :: "(string \<times> int) list"
  je_usdc :: "string \<Rightarrow> rat option"
  je_times :: row_times
  je_loc :: int
  je_balances :: "(string \<times> string) list option"

fun runJob :: "'a job_env \<Rightarrow> job_name \<Rightarrow> 'a node \<Rightarrow> unit go \<times> 'a node" where
  "runJob E AnchorJob n = (Ret (), n\<lparr>nd_cache := updateAnchor (je_net E) (nd_cache n)\<rparr>)"
| "runJob E ArFeeJob n = (Ret (), n\<lparr>nd_cache := updateArFee (je_net E) (nd_cache n)\<rparr>)"
| "runJob E InfoJob n = (Ret (), n\<lparr>nd_cache := updateInfo (je_net E) (nd_cache n)\<rparr>)"
| "runJob E PeersJob n = (case refreshPeers (je_net E) (nd_cache n, s_store (nd_seed n)) of
      (r, c, d) \<Rightarrow> (r, set_seed ((nd_seed n)\<lparr>s_store := d\<rparr>) n\<lparr>nd_cache := c\<rparr>))"
| "runJob E TokenPriceJob n = (Ret (), set_wdb (updateTokenPrice (je_tokens E) (je_usdc E) (s_wdb (nd_seed n))) n)"
| "runJob E PerFeeJob n = (case updateBundlePerFee (cfg_dec (je_cfg E)) (ca_fee (nd_cache n)) (GetServeFee (nd_config n))
        (nd_perFee n, s_wdb (nd_seed n)) of (M, w) \<Rightarrow> (Ret (), set_wdb w n\<lparr>nd_perFee := M\<rparr>))"
| "runJob E MergeJob n = (Ret (), set_wdb (mergeReceiptEverTxs (cfg_dec (je_cfg E)) (cfg_pay (je_cfg E)) (nd_perFee n) (je_ms E)
        (s_wdb (nd_seed n))) n)"
| "runJob E RefundJob n = (case refundReceipt (cfg_pay (je_cfg E)) (je_ms E) (s_wdb (nd_seed n)) of
      (ts, w) \<Rightarrow> (Ret (), set_wdb w n\<lparr>nd_refunds := nd_refunds n @ ts\<rparr>))"
| "runJob E ExpireJob n = (Ret (), set_seed (processExpiredOrd (je_now E) (nd_seed n)) n)"
| "runJob E CollectJob n = (case FeeCollectAddress (IDCheck (cfg_pay (je_cfg E))) (cf_db (nd_config n)) of
      (addr, b) \<Rightarrow> (Ret (), n\<lparr>nd_config := (nd_config n)\<lparr>cf_db := b\<rparr>, nd_collected := nd_collected n @ collectFee addr (je_balances E)\<rparr>))"
| "runJob E BundleJob n = (case onChainBundleItems (node_cfg (je_cfg E) n) (nd_seed n) of
      (sent, s) \<Rightarrow> (Ret (), set_seed s n\<lparr>nd_bundles := nd_bundles n @ sent\<rparr>))"
| "runJob E BundleSeqJob n = (case onChainItemsBySeq (node_cfg (je_cfg E) n) (je_status E) (nd_seed n) of
      (sent, s) \<Rightarrow> (Ret (), set_seed s n\<lparr>nd_bundles := nd_bundles n @ sent\<rparr>))"
| "runJob E WatchTxJob n = (Ret (), set_wdb (watchArTx (node_cfg (je_cfg E) n) (s_wdb (nd_seed n))) n)"
| "runJob E RetryTxJob n = (case retryOnChainArTx (node_cfg (je_cfg E) n) (nd_seed n) of
      (sent, s) \<Rightarrow> (Ret (), set_seed s n\<lparr>nd_bundles := nd_bundles n @ sent\<rparr>))"
| "runJob E TasksJob n = (Ret (), set_seed ((nd_seed n)\<lparr>s_tasks := watcherAndCloseTasks (je_now E) (s_tasks (nd_seed n))\<rparr>) n)"
| "runJob E BundlerJob n = (Ret (), n)"
| "runJob E TmpFileJob n = (Ret (), n\<lparr>nd_gw := deleteTmpFile (nd_gw n)\<rparr>)"
| "runJob E RealTimeJob n = (Ret (), set_seed (UpdateRealTime (nd_seed n)) n)"
| "runJob E DailyJob n = (Ret (), set_wdb (ProduceDailyStatistic (je_times E) (je_loc E) (je_now E) (s_wdb (nd_seed n))) n)"
| "runJob E KafkaItemsJob n = (case broadcastItemToKafka (je_kafka E) (nd_seed n) of
      (ms, s) \<Rightarrow> (Ret (), set_seed s n\<lparr>nd_items := nd_items n @ ms\<rparr>))"
| "runJob E KafkaBlocksJob n = (case broadcastBlockToKafka (je_kafka E) (s_wdb (nd_seed n)) of
      (ms, w) \<Rightarrow> (Ret (), set_wdb w n\<lparr>nd_blocks := nd_blocks n @ ms\<rparr>))"
| "runJob E FeeConfigJob n = (Ret (), n\<lparr>nd_config := updateFee (nd_config n)\<rparr>)"
| "runJob E WhiteListJob n = (Ret (), n\<lparr>nd_config := updateIPWhiteList (nd_config n)\<rparr>)"
| "runJob E ParamJob n = (Ret (), n\<lparr>nd_config := updateParam (nd_config n)\<rparr>)"

declare runJob.simps [simp del]

subsection \<open>The steps of a node\<close>

text \<open>
  \<open>i\<close> is the bundle interval. A request is any, and the limiter may let it pass or not; a task is any id, from
  the channel or not, and its handler may meet any network.
\<close>

inductive node_step :: "int \<Rightarrow> 'a node \<Rightarrow> 'a node \<Rightarrow> bool" for i where
  Scheduled: "(t, j) \<in> set (runJobs (nd_noFee n) (nd_kafka n) i @ configJobs) \<Longrightarrow> runJob E j n = (Ret (), m) \<Longrightarrow> node_step i n m"
| Deposited: "\<not> nd_noFee n \<Longrightarrow> ever_fresh tt (s_wdb (nd_seed n))
    \<Longrightarrow> node_step i n (set_wdb (watchEverReceiptTx L tt (s_wdb (nd_seed n))) n)"
| Served: "serve (\<lambda>key u. (limited key, u)) S q (n, ()) = Some (a, m, u) \<Longrightarrow> node_step i n m"
| TaskRun: "processTask T taskId \<lparr>rn_gw = nd_gw n, rn_sent = nd_requests n\<rparr> = Some (r, q)
    \<Longrightarrow> node_step i n (n\<lparr>nd_gw := rn_gw q, nd_requests := rn_sent q\<rparr>)"

subsection \<open>What leaves the ledger alone\<close>

lemma quiet_prices:
  "quiet (InsertPrices tps)" "quiet (UpdatePrice symbol price)" "quiet GetPrices" "quiet GetArPrice"
proof -
  have read: "ledger_of ts (snd (db_read q w)) = ledger_of ts w" for q :: "wdb \<Rightarrow> 'b go" and ts w
    using quiet_read [of q] by (simp add: quiet_def)
  show "quiet (InsertPrices tps)"
    using quiet_write [of "\<lambda>w. w\<lparr>tokenPrices := fold add_price tps (tokenPrices w)\<rparr>"]
    by (simp add: quiet_def quiet_u_def InsertPrices_def ledger_of_def)
  show "quiet (UpdatePrice symbol price)" unfolding UpdatePrice_def by (rule quiet_write) (simp add: quiet_u_def ledger_of_def)
  show "quiet GetPrices" unfolding GetPrices_def by (rule quiet_read)
  show "quiet GetArPrice" unfolding quiet_def
  proof (intro allI)
    fix w ts
    show "ledger_of ts (snd (GetArPrice w)) = ledger_of ts w"
      using quiet_read [THEN quietD] by (auto simp: GetArPrice_def split: prod.splits)
  qed
qed

lemma quiet_updateTokenPrice: "ledger_of ts (updateTokenPrice tokens usdc w) = ledger_of ts w"
proof -
  have set: "ledger_of ts (setPrices usdc tps w) = ledger_of ts w" for tps w
    using quiet_prices(2) by (induction usdc tps w rule: setPrices.induct) (auto simp: quiet_def split: option.splits)
  show ?thesis unfolding updateTokenPrice_def
    by (auto split: prod.splits go.splits simp: set dest!: quietD [OF quiet_prices(1), where ts = ts] quietD [OF quiet_prices(3), where ts = ts])
qed

lemma quiet_updateBundlePerFee: "ledger_of ts (snd (updateBundlePerFee L arFee serveFee (M, w))) = ledger_of ts w"
proof -
  have "quiet (GetBundlePerFees L arFee serveFee)"
    unfolding GetBundlePerFees_def by (intro quiet_bind quiet_prices) (simp add: quiet_def)
  then show ?thesis by (auto simp: updateBundlePerFee_def split: prod.splits go.splits dest: quietD)
qed

lemma quiet_statistic:
  "ledger_of ts (s_wdb (UpdateRealTime s)) = ledger_of ts (s_wdb s)"
  "ledger_of ts (ProduceDailyStatistic T loc now w) = ledger_of ts w"
proof -
  have tick: "ledger_of ts w1 = ledger_of ts w" if "db_tick w = (f, w1)" for w f w1 ts
    using ledger_of_core [OF db_tick_core [OF that]] .
  show "ledger_of ts (s_wdb (UpdateRealTime s)) = ledger_of ts (s_wdb s)"
    by (auto simp: UpdateRealTime_def GetOrderRealTimeStatistic_def split: prod.splits dest: tick)
  have create: "quiet (CreateStatistic a b c)" for a b c
    unfolding CreateStatistic_def by (rule quiet_write) (simp add: quiet_u_def ledger_of_def)
  have one: "ledger_of ts (produceDay T start w) = ledger_of ts w" for T start w
    using create unfolding produceDay_def GetDailyStatisticByDate_def
    by (auto simp: quiet_def split: prod.splits go.splits list.splits dest: quietD [OF quiet_read])
  have days: "ledger_of ts (produceDays T start end' w) = ledger_of ts w" for start end' w
    by (induction T start end' w rule: produceDays.induct) (subst produceDays.simps, simp add: one)
  have exec: "ledger_of ts w1 = ledger_of ts w" if "WhetherExec a b w = (q, w1)" for a b w q w1
    using that by (auto simp: WhetherExec_def split: prod.splits dest: quietD [OF quiet_read])
  show "ledger_of ts (ProduceDailyStatistic T loc now w) = ledger_of ts w"
    unfolding ProduceDailyStatistic_def Let_def
    by (auto split: prod.splits go.splits simp: days dest!: quietD [OF quiet_read, where ts = ts] exec)
qed

text \<open>A task leaves the ledger alone: what it stores lies outside of the database, but for the row of a manifest.\<close>

definition calm :: "(runner \<Rightarrow> ('a go \<times> runner) option) \<Rightarrow> bool" where
  "calm m \<longleftrightarrow> (\<forall>s r s1 ts. m s = Some (r, s1) \<longrightarrow> ledger_of ts (s_wdb (g_seed (rn_gw s1))) = ledger_of ts (s_wdb (g_seed (rn_gw s))))"

lemma calmD: "calm m \<Longrightarrow> m s = Some (r, s1) \<Longrightarrow> ledger_of ts (s_wdb (g_seed (rn_gw s1))) = ledger_of ts (s_wdb (g_seed (rn_gw s)))"
  by (simp add: calm_def)

lemma calm_bind:
  assumes "calm m" and "\<And>v. calm (f v)"
  shows "calm (bindO m f)"
  unfolding calm_def
proof (intro allI impI)
  fix s r s1 ts
  assume run: "bindO m f s = Some (r, s1)"
  then obtain q s0 where m: "m s = Some (q, s0)" by (cases "m s") (auto simp: bindO_def)
  then show "ledger_of ts (s_wdb (g_seed (rn_gw s1))) = ledger_of ts (s_wdb (g_seed (rn_gw s)))"
    using run calmD [OF assms(1) m, of ts] calmD [OF assms(2), where ts = ts] by (cases q) (simp_all add: bindO_def)
qed

lemma calm_do: "(\<And>s. s_wdb (g_seed (rn_gw (snd (m s)))) = s_wdb (g_seed (rn_gw s))) \<Longrightarrow> calm (doO m)"
  unfolding calm_def doO_def by (metis option.inject snd_conv)

lemma calm_steps: "calm (doO (on_kv m))" "calm (doO (on_table m'))" "calm (doO (Pair v))"
  by (rule calm_do; simp add: on_kv_eq on_table_eq)+

lemma FetchAndStoreTx_ledger:
  assumes "FetchAndStoreTx G N b peers arId s = Some (r, s1)"
  shows "ledger_of ts (s_wdb s1) = ledger_of ts (s_wdb s)"
proof -
  have tasks: "s_wdb s2 = s_wdb s1" if "on_tasks m s1 = (r, s2)" for m :: "task_map \<Rightarrow> 'b go \<times> task_map" and s1 r s2
    using that by (auto simp: on_tasks_def split: prod.splits)
  have store: "s_wdb s2 = s_wdb s1" if "on_store m s1 = (r, s2)" for m :: "kvdb \<Rightarrow> 'b go \<times> kvdb" and s1 r s2
    using that on_store_wdb [of m s1] by simp
  have meta: "s_wdb s2 = s_wdb s1" if "fetchMeta N peers arId s1 = (r, s2)" for s1 r s2
    using that by (auto simp: fetchMeta_def split: prod.splits go.splits dest!: store tasks)
  have data: "s_wdb s2 = s_wdb s1" if "fetchData N peers arId s1 = (r, s2)" for s1 r s2
    using that by (auto simp: fetchData_def split: go.splits dest!: tasks)
  have fetched: "ledger_of ts (s_wdb (snd (storeFetched G N b peers arId m s1))) = ledger_of ts (s_wdb s1)" for m s1
    unfolding storeFetched_def bindG_def
    by (auto split: prod.splits go.splits dest!: data store quiet_on_wdb [OF quiet_recordManifest, where ts = ts])
  have fetched': "ledger_of ts (s_wdb s2) = ledger_of ts (s_wdb s1)" if "storeFetched G N b peers arId m s1 = (r, s2)" for m s1 r s2
    using fetched [of m s1] that by simp
  show ?thesis using assms unfolding FetchAndStoreTx_def
    by (auto split: prod.splits go.splits option.splits if_splits dest!: meta store fetched')
qed

lemma calm_fetchTask: "calm (fetchTask T arId)"
  unfolding calm_def fetchTask_def seedO_def
  by (auto split: option.splits prod.splits dest: FetchAndStoreTx_ledger)

lemma calm_kvO: "calm (kvO m)"
  unfolding calm_def kvO_def put_store_def by (auto split: option.splits prod.splits)

lemma calm_loadOrFetch: "calm (loadOrFetch T arId meta)"
proof -
  let ?load = "kvO (getArTxData (te_goar T) (tx_DataRoot meta) (tx_DataSize meta))"
  have again: "calm (bindO (fetchTask T arId) (\<lambda>_. ?load))" by (intro calm_bind calm_fetchTask calm_kvO)
  show ?thesis unfolding calm_def
  proof (intro allI impI)
    fix s r s1 ts
    assume run: "loadOrFetch T arId meta s = Some (r, s1)"
    then obtain q s0 where m: "?load s = Some (q, s0)" by (cases "?load s") (auto simp: loadOrFetch_def Let_def)
    note first = calmD [OF calm_kvO m, of ts]
    show "ledger_of ts (s_wdb (g_seed (rn_gw s1))) = ledger_of ts (s_wdb (g_seed (rn_gw s)))"
      using run m first calmD [OF again, where ts = ts]
      by (cases q) (auto simp: loadOrFetch_def Let_def split: if_splits)
  qed
qed

lemma calm_broadcastTxTask: "calm (broadcastTxTask T arId)"
proof -
  have same: "s_wdb (g_seed (rn_gw (snd (on_table (\<lambda>_. (Ret (), x)) s)))) = s_wdb (g_seed (rn_gw s))" for x s
    by (simp add: on_table_eq)
  have last: "calm (\<lambda>s1. Some (
         let posted = \<not> (te_status T arId = PendingTx \<or> te_status T arId = NotFoundTx);
             tx = txMeta\<lparr>tx_Data := b64enc (cod (te_goar T)) txData\<rparr>;
             sent = BroadcastData (te_net T) arId TaskTypeBroadcast tx (te_peers T) posted (table s1);
             s2 = snd (on_table (\<lambda>_. (Ret (), snd sent)) s1)
         in (if te_status T arId = StatusError then Err (ErrMsg ''get transaction status'') else Ret (),
             s2\<lparr>rn_sent := rn_sent s2 @ fst sent\<rparr>)))" for txMeta txData
    by (simp add: calm_def Let_def same)
  have begin_calm: "calm (doO (beginTask T arId TaskTypeBroadcast))" unfolding beginTask_def by (rule calm_steps)
  have "calm (bindO (doO (beginTask T arId TaskTypeBroadcast)) (\<lambda>_.
       bindO (doO (on_kv (IsExistTxMeta arId))) (\<lambda>ex.
       bindO (if ex then doO (Pair (Ret ())) else fetchTask T arId) (\<lambda>_.
       bindO (doO (on_kv (LoadTxMeta arId))) (\<lambda>txMeta.
       bindO (loadOrFetch T arId txMeta) (\<lambda>txData s1. Some (
         let posted = \<not> (te_status T arId = PendingTx \<or> te_status T arId = NotFoundTx);
             tx = txMeta\<lparr>tx_Data := b64enc (cod (te_goar T)) txData\<rparr>;
             sent = BroadcastData (te_net T) arId TaskTypeBroadcast tx (te_peers T) posted (table s1);
             s2 = snd (on_table (\<lambda>_. (Ret (), snd sent)) s1)
         in (if te_status T arId = StatusError then Err (ErrMsg ''get transaction status'') else Ret (),
             s2\<lparr>rn_sent := rn_sent s2 @ fst sent\<rparr>))))))))"
    by (intro calm_bind begin_calm calm_loadOrFetch last calm_steps(1)) (auto intro: calm_fetchTask calm_steps)
  then show ?thesis unfolding calm_def by (auto simp: broadcastTxTask_def)
qed

lemma calm_runType: "calm (runType T arId ty)"
proof -
  have begin_calm: "calm (doO (beginTask T arId t))" for t unfolding beginTask_def by (rule calm_steps)
  have close_calm: "calm (doO (closeDone arId t))" for t unfolding closeDone_def by (rule calm_steps)
  have sync: "calm (bindO (doO (beginTask T arId TaskTypeSync)) (\<lambda>_. bindO (fetchTask T arId) (\<lambda>_. doO (closeDone arId TaskTypeSync))))"
    by (intro calm_bind begin_calm close_calm calm_fetchTask)
  have table_wdb: "s_wdb (g_seed (rn_gw s1)) = s_wdb (g_seed (rn_gw s))" if "on_table m s = (r, s1)" for m :: "task_map \<Rightarrow> 'b go \<times> task_map" and s r s1
    using that by (auto simp: on_table_eq)
  have kv_wdb: "s_wdb (g_seed (rn_gw s1)) = s_wdb (g_seed (rn_gw s))" if "on_kv m s = (r, s1)" for m :: "kvdb \<Rightarrow> 'b go \<times> kvdb" and s r s1
    using that by (auto simp: on_kv_eq)
  have meta: "s_wdb (g_seed (rn_gw (snd (broadcastTxMetaTask T arId s)))) = s_wdb (g_seed (rn_gw s))" for s
    unfolding broadcastTxMetaTask_def bindG_def beginTask_def Let_def
    by (auto split: prod.splits go.splits dest!: table_wdb kv_wdb simp: on_table_eq)
  have mani: "s_wdb (g_seed (rn_gw (snd (syncManifestTask T arId s)))) = s_wdb (g_seed (rn_gw s))" for s
    unfolding syncManifestTask_def bindG_def closeDone_def
    by (auto split: prod.splits go.splits dest!: table_wdb kv_wdb simp: on_table_eq)
  have "calm (syncTask T arId)" using sync unfolding calm_def by (auto simp: syncTask_def)
  then show ?thesis
    using calm_broadcastTxTask [of T arId] calm_do [OF meta] calm_do [OF mani] calm_steps(3) [of "Ret ()"]
    unfolding calm_def runType_def by presburger
qed

lemma processTask_ledger:
  assumes "processTask T taskId s = Some (r, s1)"
  shows "ledger_of ts (s_wdb (g_seed (rn_gw s1))) = ledger_of ts (s_wdb (g_seed (rn_gw s)))"
  using assms unfolding processTask_def Let_def
  by (auto split: prod.splits go.splits option.splits dest!: calmD [OF calm_runType, where ts = ts] simp: on_gw_def on_tasking_def)

subsection \<open>A node implements the ledger\<close>

lemma runJob_money:
  assumes "runJob E j n = (Ret (), m)" and "ids_ok (node_money n)"
  shows "money\<^sup>*\<^sup>* (node_money n) (node_money m)"
proof -
  let ?ts = "nd_refunds n" and ?w = "s_wdb (nd_seed n)"
  have ids: "ids_ok (ledger_of ?ts ?w)" using assms(2) by (simp add: node_money_def)
  show ?thesis
  proof (cases j)
    case MergeJob
    then show ?thesis using assms(1) mergeReceiptEverTxs_money [OF ids]
      by (auto simp: runJob.simps node_money_def)
  next
    case RefundJob
    obtain ts w where r: "refundReceipt (cfg_pay (je_cfg E)) (je_ms E) ?w = (ts, w)" by fastforce
    then have "node_money m = ledger_of (?ts @ ts) w" using assms(1) RefundJob by (auto simp: runJob.simps node_money_def)
    then show ?thesis using refundReceipt_money [OF r ids] by (simp add: node_money_def)
  next
    case ExpireJob
    then show ?thesis using assms(1) processExpiredOrd_money [OF ids]
      by (auto simp: runJob.simps node_money_def)
  qed (use assms(1) in \<open>auto simp: runJob.simps node_money_def deleteTmpFile_def nd_seed_def set_seed_def set_wdb_def
      quiet_updateTokenPrice quiet_statistic quiet_watch quiet_onChain quiet_onChainSeq quiet_retry quiet_kafka quiet_kafka_blocks
      quiet_updateBundlePerFee split: prod.splits
      dest!: arg_cong [where f = snd] \<close>)
qed

lemma node_step_money:
  assumes "ledger_ok (node_money n)" and "node_step i n m"
  shows "money\<^sup>*\<^sup>* (node_money n) (node_money m)"
proof -
  have ids: "ids_ok (node_money n)" using assms(1) by (simp add: ledger_ok_def)
  show ?thesis using assms(2)
  proof (cases rule: node_step.cases)
    case (Scheduled t j E)
    then show ?thesis using runJob_money [OF _ ids] by blast
  next
    case (TaskRun T taskId r q)
    then show ?thesis using processTask_ledger [OF TaskRun(2), of "nd_refunds n"] by (simp add: node_money_def nd_seed_def)
  next
    case (Served limited S q a u)
    then obtain g where "m = n\<lparr>nd_gw := g\<rparr>" by (blast dest: serve_gw)
    then show ?thesis using serve_gw [OF Served(1), of "nd_refunds n"] by (simp add: node_money_def)
  qed (simp_all add: node_money_def watchEverReceiptTx_money nd_seed_def set_seed_def set_wdb_def)
qed

interpretation nodes: simulation "node_step i" money node_money ledger_ok for i
  by unfold_locales (auto intro: money_ok node_step_money)

text \<open>Without fees nothing is refunded and nothing collected.\<close>

lemma free_job:
  assumes "nd_noFee n" and "(t, j) \<in> set (runJobs (nd_noFee n) k i @ configJobs)" and "runJob E j n = (Ret (), m)"
  shows "nd_noFee m \<and> nd_refunds m = nd_refunds n \<and> nd_collected m = nd_collected n"
proof -
  have "j \<noteq> RefundJob" "j \<noteq> CollectJob" using assms(1,2) by (auto simp: runJobs_def configJobs_def split: if_splits)
  with assms(1,3) show ?thesis by (cases j) (auto simp: runJob.simps split: prod.splits)
qed

lemma free_step:
  assumes "node_step i n m" and "nd_noFee n"
  shows "nd_noFee m \<and> nd_refunds m = nd_refunds n \<and> nd_collected m = nd_collected n"
  using assms(1)
proof (cases rule: node_step.cases)
  case (Scheduled t j E)
  then show ?thesis using free_job [OF assms(2)] by blast
next
  case (Served limited S q a u)
  then obtain g where "m = n\<lparr>nd_gw := g\<rparr>" by (blast dest: serve_gw)
  then show ?thesis using assms(2) by simp
qed (use assms(2) in simp_all)

lemma free_run: "(node_step i)\<^sup>*\<^sup>* n m \<Longrightarrow> nd_noFee n \<Longrightarrow> nd_noFee m \<and> nd_refunds m = nd_refunds n \<and> nd_collected m = nd_collected n"
  by (induction rule: rtranclp_induct) (auto dest: free_step)

subsection \<open>Properties\<close>

text \<open>
  C3: whatever a node does after its start, its money stays in order: on a database whose ledger is in order
  when New reads it, every run of scheduled jobs, deposits, submissions and tasks, with any answers of the network and
  whichever requests fail, does to orders, receipts and refunds only the six steps of the abstract
  ledger. A node without fees asks for no refund and collects nothing.
\<close>

theorem node_runs_refine_ledger:
  assumes "New opt E s = (Ret n, s1)" and "ledger_ok (ledger_of [] (sv_wdb E))" and "(node_step i)\<^sup>*\<^sup>* n m"
  shows "money\<^sup>*\<^sup>* (ledger_of [] (sv_wdb E)) (node_money m) \<and> ledger_ok (node_money m)
    \<and> (noFee opt \<longrightarrow> nd_refunds m = [] \<and> nd_collected m = [])"
proof -
  have n: "node_money n = ledger_of [] (sv_wdb E)" "nd_refunds n = []" "nd_collected n = []" "nd_noFee n = noFee opt"
    using assms(1) by (auto elim!: New_RetE simp: node_money_def newNode_def newGateway_def nd_seed_def)
  have ok: "ledger_ok (node_money n)" using n(1) assms(2) by simp
  show ?thesis
    using nodes.refines [OF assms(3) ok] nodes.reachable_inv [OF assms(3) ok] free_run [OF assms(3)] n by auto
qed

definition sample_job_env :: "nat job_env" where
  "sample_job_env = \<lparr>je_cfg = plain_cfg, je_net = up_net, je_kafka = plain_kafka, je_now = 2000, je_ms = 2000000, je_status = (\<lambda>_ _. None),
     je_tokens = [], je_usdc = (\<lambda>_. None), je_times = sample_times, je_loc = 0, je_balances = None\<rparr>"

theorem node_runs_refine_ledger_witness:
  "\<exists>n s1 m. New sample_opts (sample_env (empty_kv Bolt []) sample_wdb) [] = (Ret n, s1)
     \<and> node_step 120 n m \<and> runJob sample_job_env MergeJob n = (Ret (), m) \<and> ledger_ok (node_money m)"
proof -
  have "pool_ok (empty_kv Bolt [])" by (simp add: pool_ok_iff)
  then obtain n s1 where n: "New sample_opts (sample_env (empty_kv Bolt []) sample_wdb) [] = (Ret n, s1)"
    using sample_start [of "empty_kv Bolt []" sample_wdb "[]"] by auto
  have free: "\<not> nd_noFee n" using n by (auto elim!: New_RetE simp: newNode_def sample_opts_def)
  obtain m where m: "runJob sample_job_env MergeJob n = (Ret (), m)" by (simp add: runJob.simps)
  have step: "node_step 120 n m"
    using node_step.Scheduled [of "Every 5" MergeJob n 120 sample_job_env m] m free by (simp add: runJobs_def)
  have "ledger_ok (ledger_of [] (sv_wdb (sample_env (empty_kv Bolt []) sample_wdb)))"
    using sample_node_ok by (simp add: sample_env_def sample_node_def)
  then show ?thesis using node_runs_refine_ledger [OF n _ r_into_rtranclp [of "node_step 120", OF step]] n m step by blast
qed

end
