(* ===== verification/Example.thy ===== *)
theory Example
  imports Client
begin

text \<open>
  The example programs of example/: a pool that broadcasts the pending transactions of the network through a node,
  and a program that copies the chain of everPay's transactions into a node. A call of the node
  is repeated until it succeeds; None is a call that is repeated for ever.
\<close>

subsection \<open>common.go: calling the node until it answers\<close>

text \<open>The answers to a call, one after the other; the number of the one that succeeds.\<close>

partial_function (option) retry_from :: "(nat \<Rightarrow> err option) \<Rightarrow> nat \<Rightarrow> nat option" where
  "retry_from f i = (if f i = None then Some i else retry_from f (Suc i))"

text \<open>\<open>finish\<close> is what the twenty goroutines of the pool leave in the slice they append to without a lock.\<close>

definition MustBatch :: "(string \<Rightarrow> nat \<Rightarrow> err option) \<Rightarrow> (string list \<Rightarrow> string list) \<Rightarrow> string list \<Rightarrow> string list option" where
  "MustBatch call finish txIds = (if \<exists>i \<in> set txIds. retry_from (call i) 0 = None then None else Some (finish txIds))"

text \<open>\<open>A i k\<close> is the client with the network that the k-th request for \<open>i\<close> meets.\<close>

definition failed :: "unit go \<Rightarrow> err option" where
  "failed r = (case r of Ret _ \<Rightarrow> None | Err e \<Rightarrow> Some e | Panic p \<Rightarrow> Some (ErrMsg p))"

definition MustBatchSyncTxIds :: "(string \<Rightarrow> nat \<Rightarrow> client) \<Rightarrow> (string list \<Rightarrow> string list) \<Rightarrow> string list \<Rightarrow> string list option" where
  "MustBatchSyncTxIds A = MustBatch (\<lambda>arId k. failed (SyncTx (A arId k) arId))"

definition MustBatchBroadcastTxIds :: "(string \<Rightarrow> nat \<Rightarrow> client) \<Rightarrow> (string list \<Rightarrow> string list) \<Rightarrow> string list \<Rightarrow> string list option" where
  "MustBatchBroadcastTxIds A = MustBatch (\<lambda>arId k. failed (BroadcastTxData (A arId k) arId))"

definition postBroadcastJob :: "transport \<Rightarrow> (int \<Rightarrow> bool) \<Rightarrow> string \<Rightarrow> unit go" where
  "postBroadcastJob T ok arId = send \<lparr>cl_send = T, cl_ok = ok\<rparr> (\<lambda>_ text. text) (\<lambda>_. Ret ()) (post_req (''/job/broadcast/'' @ arId))"

definition GetJob :: "transport \<Rightarrow> (int \<Rightarrow> bool) \<Rightarrow> (string \<Rightarrow> task go) \<Rightarrow> string \<Rightarrow> string \<Rightarrow> task go" where
  "GetJob T ok dec arId tktype = send \<lparr>cl_send = T, cl_ok = ok\<rparr> (\<lambda>_ text. text) dec (get_req (''/job/'' @ arId @ ''/'' @ tktype))"

definition KillJob :: "transport \<Rightarrow> (int \<Rightarrow> bool) \<Rightarrow> string \<Rightarrow> string \<Rightarrow> unit go" where
  "KillJob T ok arId tktype = send \<lparr>cl_send = T, cl_ok = ok\<rparr> (\<lambda>_ text. text) (\<lambda>_. Ret ()) (post_req (''/job/kill/'' @ arId @ ''/'' @ tktype))"

subsection \<open>arweave-pool-broadcast\<close>

record bc_pool =
  pendingTxMap :: "string list"
  syncMap :: "(string \<times> bool) list"
  broadcastMap :: "(string \<times> bool) list"

definition mark_all :: "bool \<Rightarrow> string list \<Rightarrow> (string \<times> bool) list \<Rightarrow> (string \<times> bool) list" where
  "mark_all b = fold (\<lambda>txId. al_put txId b)"

fun addPendingTxs :: "string list \<Rightarrow> bc_pool \<Rightarrow> bc_pool" where
  "addPendingTxs [] s = s"
| "addPendingTxs (txId # ids) s = (if txId \<in> set (pendingTxMap s) then addPendingTxs ids s
     else addPendingTxs ids (s\<lparr>pendingTxMap := pendingTxMap s @ [txId], syncMap := al_put txId False (syncMap s)\<rparr>))"

definition updatePendingTxIds :: "string list go \<Rightarrow> bc_pool \<Rightarrow> bc_pool" where
  "updatePendingTxIds pending s = (case pending of Ret ids \<Rightarrow> addPendingTxs ids s | _ \<Rightarrow> s)"

definition syncPendingTx :: "(string list \<Rightarrow> string list option) \<Rightarrow> bc_pool \<Rightarrow> bc_pool option" where
  "syncPendingTx batch s = (let unsynced = map fst (filter (\<lambda>(txId, synced). \<not> synced) (syncMap s)) in
     if unsynced = [] then Some s
     else case batch unsynced of None \<Rightarrow> None | Some ok \<Rightarrow> Some (s\<lparr>syncMap := mark_all True ok (syncMap s)\<rparr>))"

definition broadcastPendingTx :: "(string list \<Rightarrow> string list option) \<Rightarrow> bc_pool \<Rightarrow> bc_pool option" where
  "broadcastPendingTx batch s = (let synced = map fst (filter snd (syncMap s));
       need = filter (\<lambda>txId. map_of (broadcastMap s) txId = None) synced in
     if need = [] then Some s
     else case batch need of None \<Rightarrow> None | Some ok \<Rightarrow> Some (s\<lparr>broadcastMap := mark_all False ok (broadcastMap s)\<rparr>))"

text \<open>
  The read lock of checkBroadcastTxStatus is given back with Unlock. No lock is held for writing, so this ends the process;
  only when a writer is waiting for the lock (\<open>waiting\<close>) does the call come back.
\<close>

definition unlock_fatal :: string where "unlock_fatal = ''sync: Unlock of unlocked RWMutex''"

fun finishAll :: "(string \<Rightarrow> task go) \<Rightarrow> (string \<Rightarrow> unit go) \<Rightarrow> string list \<Rightarrow> bc_pool \<Rightarrow> unit go \<times> bc_pool" where
  "finishAll get kill [] s = (Ret (), s)"
| "finishAll get kill (arId # ids) s = (case get arId of
      Panic p \<Rightarrow> (Panic p, s)
    | Err _ \<Rightarrow> finishAll get kill ids s
    | Ret tk \<Rightarrow> if 10 \<le> CountSuccessed tk then (case kill arId of
          Panic p \<Rightarrow> (Panic p, s)
        | Err _ \<Rightarrow> finishAll get kill ids s
        | Ret _ \<Rightarrow> finishAll get kill ids (s\<lparr>broadcastMap := al_put arId True (broadcastMap s)\<rparr>))
      else finishAll get kill ids s)"

definition checkBroadcastTxStatus :: "bool \<Rightarrow> (string \<Rightarrow> task go) \<Rightarrow> (string \<Rightarrow> unit go) \<Rightarrow> bc_pool \<Rightarrow> unit go \<times> bc_pool" where
  "checkBroadcastTxStatus waiting get kill s = (if \<not> waiting then (Panic unlock_fatal, s)
     else finishAll get kill (map fst (filter (\<lambda>(_, finished). \<not> finished) (broadcastMap s))) s)"

text \<open>The jobs that runJobs starts, each returning; a batch returns some of the ids it was given.\<close>

definition newPool :: bc_pool where "newPool = \<lparr>pendingTxMap = [], syncMap = [], broadcastMap = []\<rparr>"

inductive pool_step :: "bc_pool \<Rightarrow> bc_pool \<Rightarrow> bool" where
  p_update: "pool_step s (updatePendingTxIds pending s)"
| p_sync: "(\<And>ids ok. batch ids = Some ok \<Longrightarrow> set ok \<subseteq> set ids) \<Longrightarrow> syncPendingTx batch s = Some s' \<Longrightarrow> pool_step s s'"
| p_broadcast: "(\<And>ids ok. batch ids = Some ok \<Longrightarrow> set ok \<subseteq> set ids) \<Longrightarrow> broadcastPendingTx batch s = Some s' \<Longrightarrow> pool_step s s'"
| p_check: "checkBroadcastTxStatus waiting get kill s = (Ret (), s') \<Longrightarrow> pool_step s s'"

subsection \<open>everpay-sync: the chain of parents\<close>

definition bad_gateway :: err where "bad_gateway = ErrMsg ''bad gateway''"

text \<open>\<open>lastId\<close> answers GetLastTransactionID, \<open>tagsAt\<close> the k-th request for the tags of a transaction.\<close>

record ar_chain =
  lastId :: "string go"
  tagsAt :: "string \<Rightarrow> nat \<Rightarrow> tag list go"

partial_function (option) tags_from :: "ar_chain \<Rightarrow> string \<Rightarrow> nat \<Rightarrow> tag list go option" where
  "tags_from A arId k = (if tagsAt A arId k = Err bad_gateway then tags_from A arId (Suc k) else Some (tagsAt A arId k))"

definition parent_tag :: "tag list \<Rightarrow> string go" where
  "parent_tag tags = (case map_of (rev (map (\<lambda>t. (tag_name t, tag_value t)) tags)) ''parent_id'' of
      Some parentId \<Rightarrow> Ret parentId | None \<Rightarrow> Err (ErrMsg ''get rollup tx tags nil''))"

definition getParentIdByTags :: "ar_chain \<Rightarrow> string \<Rightarrow> string go option" where
  "getParentIdByTags A arId = (if arId = [] then Some (Ret [])
     else map_option (\<lambda>tags. andThen tags parent_tag) (tags_from A arId 0))"

text \<open>The ids are sent one by one; the list is what was sent.\<close>

partial_function (option) fetch_loop :: "ar_chain \<Rightarrow> string \<Rightarrow> string list \<Rightarrow> (unit go \<times> string list) option" where
  "fetch_loop A i sent = (case getParentIdByTags A i of
      None \<Rightarrow> None
    | Some (Err e) \<Rightarrow> Some (Err e, sent)
    | Some (Panic p) \<Rightarrow> Some (Panic p, sent)
    | Some (Ret parentTxId) \<Rightarrow> if parentTxId = [] then Some (Ret (), sent) else fetch_loop A parentTxId (sent @ [parentTxId]))"

definition fetchTxIds :: "ar_chain \<Rightarrow> string \<Rightarrow> (unit go \<times> string list) option" where
  "fetchTxIds A processedArTxId = (if processedArTxId = [] then (case lastId A of
       Ret i \<Rightarrow> fetch_loop A i [] | Err e \<Rightarrow> Some (Err e, []) | Panic p \<Rightarrow> Some (Panic p, []))
     else fetch_loop A processedArTxId [])"

subsection \<open>everpay-sync: getLastTxId\<close>

text \<open>The function is not called any more. \<open>status k\<close> is the confirmations and the height that the k-th request gives.\<close>

definition not_need_sync :: err where "not_need_sync = ErrMsg ''not need sync''"

definition check_height :: "(nat \<Rightarrow> string \<Rightarrow> (int \<times> int) go) \<Rightarrow> string \<Rightarrow> string \<Rightarrow> string go" where
  "check_height status lastTxId processedArTxId = (if processedArTxId = [] then Ret lastTxId
     else andThen (status 1 lastTxId) (\<lambda>(_, lastHeight). andThen (status 2 processedArTxId) (\<lambda>(_, processedHeight).
       if lastHeight < processedHeight then Err (ErrMsg (''lastTxId must more than processedArTxId; lastTxId: '' @ lastTxId
         @ '',processedArTxId: '' @ processedArTxId)) else Ret lastTxId)))"

definition getLastTxId :: "ar_chain \<Rightarrow> (nat \<Rightarrow> string \<Rightarrow> (int \<times> int) go) \<Rightarrow> string \<Rightarrow> string \<Rightarrow> string go option" where
  "getLastTxId A status processedArTxId processedParentArTxId = (case lastId A of
      Err e \<Rightarrow> Some (Err e)
    | Panic p \<Rightarrow> Some (Panic p)
    | Ret lastTxId \<Rightarrow>
        if lastTxId = [] then Some (Err (ErrMsg ''get arOwner last txId nil''))
        else if lastTxId = processedArTxId then Some (Err not_need_sync)
        else (case status 0 lastTxId of
            Err e \<Rightarrow> Some (Err e)
          | Panic p \<Rightarrow> Some (Panic p)
          | Ret (confirmations, _) \<Rightarrow>
              if \<not> confirmations < 3 then Some (check_height status lastTxId processedArTxId)
              else map_option (\<lambda>r. andThen r (\<lambda>parent.
                if parent = processedArTxId \<or> parent = processedParentArTxId then Err not_need_sync
                else check_height status parent processedArTxId)) (getParentIdByTags A lastTxId)))"

subsection \<open>everpay-sync: the table\<close>

record rollup_row =
  rr_ArId :: string
  rr_Post :: bool

definition rollup_Insert :: "string \<Rightarrow> rollup_row list \<Rightarrow> rollup_row list" where
  "rollup_Insert arId rows = rows @ [\<lparr>rr_ArId = arId, rr_Post = False\<rparr>]"

definition UpdatePosted :: "string \<Rightarrow> rollup_row list \<Rightarrow> rollup_row list" where
  "UpdatePosted arId = update_rows (\<lambda>r. rr_ArId r = arId) (\<lambda>r. r\<lparr>rr_Post := True\<rparr>)"

definition GetArIds :: "nat \<Rightarrow> rollup_row list \<Rightarrow> rollup_row list" where
  "GetArIds fromId rows = take 50 (drop fromId rows)"

definition GetLastPostTx :: "rollup_row list \<Rightarrow> rollup_row" where
  "GetLastPostTx rows = (if rows = [] then \<lparr>rr_ArId = [], rr_Post = False\<rparr> else last rows)"

definition GetNeedPostTxs :: "rollup_row list \<Rightarrow> rollup_row list" where
  "GetNeedPostTxs rows = take 100 (filter (\<lambda>r. \<not> rr_Post r) rows)"

text \<open>
  FetchArIds stores what fetchTxIds sends; an error of it panics, and then the last id may not be stored
  yet (\<open>late\<close>), for the channel has no buffer. The statements of the database succeed.
\<close>

definition FetchArIds :: "ar_chain \<Rightarrow> bool \<Rightarrow> rollup_row list \<Rightarrow> (unit go \<times> rollup_row list) option" where
  "FetchArIds A late rows = (case fetchTxIds A (rr_ArId (GetLastPostTx rows)) of
      None \<Rightarrow> None
    | Some (Ret u, sent) \<Rightarrow> Some (Ret u, fold rollup_Insert sent rows)
    | Some (Err e, sent) \<Rightarrow> Some (Panic (err_text e), fold rollup_Insert (if late then butlast sent else sent) rows)
    | Some (Panic p, sent) \<Rightarrow> Some (Panic p, fold rollup_Insert (if late then butlast sent else sent) rows))"

definition PostToArseeding :: "(string list \<Rightarrow> string list option) \<Rightarrow> rollup_row list \<Rightarrow> rollup_row list option" where
  "PostToArseeding batch rows = (let txIds = map rr_ArId (GetNeedPostTxs rows) in
     if txIds = [] then Some rows
     else case batch txIds of None \<Rightarrow> None | Some ok \<Rightarrow> Some (fold UpdatePosted ok rows))"

fun reverseIDs :: "string list \<Rightarrow> string list" where
  "reverseIDs [] = []"
| "reverseIDs (i # ids) = reverseIDs ids @ [i]"

subsection \<open>Facts\<close>

lemma retry_from_Some: "retry_from f i = Some k \<Longrightarrow> i \<le> k \<and> f k = None \<and> (\<forall>j. i \<le> j \<and> j < k \<longrightarrow> f j \<noteq> None)"
proof (induction f i k rule: retry_from.raw_induct [rotated 1, consumes 1, case_names step])
  case (step retry f i k)
  show ?case
  proof (cases "f i = None")
    case True
    then show ?thesis using step(2) by auto
  next
    case False
    then have "retry f (Suc i) = Some k" using step(2) by auto
    from step(1) [OF this] have "Suc i \<le> k \<and> f k = None \<and> (\<forall>j. Suc i \<le> j \<and> j < k \<longrightarrow> f j \<noteq> None)" .
    then show ?thesis using False by (metis Suc_leI Suc_leD le_neq_implies_less)
  qed
qed

lemma retry_from_returns: "f (i + n) = None \<Longrightarrow> \<exists>k \<le> i + n. retry_from f i = Some k"
proof (induction n arbitrary: i)
  case 0
  then show ?case by (simp add: retry_from.simps)
next
  case (Suc n)
  show ?case
  proof (cases "f i = None")
    case True
    then show ?thesis by (simp add: retry_from.simps)
  next
    case False
    have "f (Suc i + n) = None" using Suc.prems by simp
    from Suc.IH [OF this] show ?thesis using False by (subst retry_from.simps) auto
  qed
qed

lemma retry_from_None: "retry_from f 0 = None \<longleftrightarrow> (\<forall>k. f k \<noteq> None)"
  by (metis add_0 not_None_eq retry_from_Some retry_from_returns)

lemma MustBatch_iff: "MustBatch call finish ids = Some ok \<longleftrightarrow> ok = finish ids \<and> (\<forall>i \<in> set ids. \<exists>k. call i k = None)"
  by (auto simp: MustBatch_def retry_from_None)

text \<open>The ancestors of a transaction, the nearest first.\<close>

fun ancestors :: "ar_chain \<Rightarrow> string \<Rightarrow> string list \<Rightarrow> bool" where
  "ancestors A i [] \<longleftrightarrow> getParentIdByTags A i = Some (Ret [])"
| "ancestors A i (p # ps) \<longleftrightarrow> p \<noteq> [] \<and> getParentIdByTags A i = Some (Ret p) \<and> ancestors A p ps"

lemma fetch_loop_ancestors: "ancestors A i ps \<Longrightarrow> fetch_loop A i sent = Some (Ret (), sent @ ps)"
proof (induction ps arbitrary: i sent)
  case Nil
  then show ?case by (subst fetch_loop.simps) simp
next
  case (Cons p ps)
  then show ?case by (subst fetch_loop.simps) simp
qed

lemma ancestors_last: "ancestors A i ps \<Longrightarrow> getParentIdByTags A (last (i # ps)) = Some (Ret [])"
  by (induction ps arbitrary: i) auto

lemma ancestors_nonempty: "ancestors A i ps \<Longrightarrow> p \<in> set ps \<Longrightarrow> p \<noteq> []"
  by (induction ps arbitrary: i) auto

text \<open>A chain of parents that comes back to itself is followed for ever.\<close>

lemma fetch_loop_returns:
  "fetch_loop A i sent = Some r \<Longrightarrow> (\<And>j. j \<in> S \<Longrightarrow> \<exists>p \<in> S. p \<noteq> [] \<and> getParentIdByTags A j = Some (Ret p)) \<Longrightarrow> i \<notin> S"
proof (induction A i sent r rule: fetch_loop.raw_induct [rotated 1, consumes 1, case_names step])
  case (step loop A i sent r)
  show ?case
  proof
    assume "i \<in> S"
    with step.prems obtain p where p: "p \<in> S" "p \<noteq> []" "getParentIdByTags A i = Some (Ret p)" by blast
    then have "loop A p (sent @ [p]) = Some r" using step.hyps by simp
    from step.IH [OF this step.prems] p(1) show False by blast
  qed
qed

lemma fetch_loop_cycle:
  assumes "i \<in> S" and "\<And>j. j \<in> S \<Longrightarrow> \<exists>p \<in> S. p \<noteq> [] \<and> getParentIdByTags A j = Some (Ret p)"
  shows "fetch_loop A i sent = None"
proof (cases "fetch_loop A i sent")
  case (Some r)
  from fetch_loop_returns [OF this assms(2)] assms(1) show ?thesis by blast
qed simp

subsection \<open>The everPay chain is fetched once\<close>

lemma fold_rollup_Insert: "fold rollup_Insert ids rows = rows @ map (\<lambda>i. \<lparr>rr_ArId = i, rr_Post = False\<rparr>) ids"
  by (induction ids arbitrary: rows) (simp_all add: rollup_Insert_def)

lemma GetLastPostTx_append: "ids \<noteq> [] \<Longrightarrow> rr_ArId (GetLastPostTx (rows @ map (\<lambda>i. \<lparr>rr_ArId = i, rr_Post = False\<rparr>) ids)) = last ids"
  by (simp add: GetLastPostTx_def last_map)

lemma fetch_first:
  assumes "lastId A = Ret i" and "ancestors A i ps"
  shows "FetchArIds A late [] = Some (Ret (), map (\<lambda>j. \<lparr>rr_ArId = j, rr_Post = False\<rparr>) ps)"
  using fetch_loop_ancestors [OF assms(2)] assms(1)
  by (simp add: FetchArIds_def fetchTxIds_def GetLastPostTx_def fold_rollup_Insert)

lemma fetch_again:
  assumes "rr_ArId (GetLastPostTx rows) = j" and "j \<noteq> []" and "getParentIdByTags A j = Some (Ret [])"
  shows "FetchArIds A late rows = Some (Ret (), rows)"
proof -
  have "fetch_loop A j [] = Some (Ret (), [])" by (rule fetch_loop_ancestors [where ps = "[]", simplified]) (simp add: assms)
  then show ?thesis using assms by (simp add: FetchArIds_def fetchTxIds_def)
qed

text \<open>
  The first run stores every ancestor of the newest transaction, the nearest first, but not the newest one itself.
  A later run begins at the oldest one stored, which has no parent: whatever the chain has grown to meanwhile
  (\<open>A'\<close>), it stores nothing.
\<close>

theorem everpay_fetched_once:
  assumes "lastId A = Ret i" and "ancestors A i ps" and "ps \<noteq> []"
    and "getParentIdByTags A' (last ps) = getParentIdByTags A (last ps)"
  shows "\<exists>rows. FetchArIds A late [] = Some (Ret (), rows) \<and> map rr_ArId rows = ps \<and> (\<forall>r \<in> set rows. \<not> rr_Post r)
     \<and> FetchArIds A' late' rows = Some (Ret (), rows)"
proof -
  let ?rows = "map (\<lambda>j. \<lparr>rr_ArId = j, rr_Post = False\<rparr>) ps"
  have "FetchArIds A' late' ?rows = Some (Ret (), ?rows)"
    using GetLastPostTx_append [OF assms(3), of "[]"] assms ancestors_last [OF assms(2)] ancestors_nonempty [OF assms(2)]
    by (intro fetch_again [where j = "last ps"]) auto
  then show ?thesis using fetch_first [OF assms(1,2), of late] by (simp add: comp_def)
qed

text \<open>A chain of three transactions, and the one of four it grows to.\<close>

definition small_chain :: "string \<Rightarrow> (string \<times> string) list \<Rightarrow> ar_chain" where
  "small_chain newest parents = \<lparr>lastId = Ret newest,
     tagsAt = (\<lambda>i _. case map_of parents i of Some p \<Rightarrow> Ret [\<lparr>tag_name = ''parent_id'', tag_value = p\<rparr>] | None \<Rightarrow> Ret [])\<rparr>"

lemma small_chain_parent: "i \<noteq> [] \<Longrightarrow> map_of parents i = Some p \<Longrightarrow> getParentIdByTags (small_chain newest parents) i = Some (Ret p)"
  by (simp add: getParentIdByTags_def small_chain_def tags_from.simps parent_tag_def andThen_def)

lemma everpay_fetched_once_witness:
  "\<exists>rows. FetchArIds (small_chain ''c'' [(''c'', ''b''), (''b'', ''a''), (''a'', '''')]) False [] = Some (Ret (), rows)
     \<and> map rr_ArId rows = [''b'', ''a''] \<and> (\<forall>r \<in> set rows. \<not> rr_Post r)
     \<and> FetchArIds (small_chain ''d'' [(''d'', ''c''), (''c'', ''b''), (''b'', ''a''), (''a'', '''')]) False rows = Some (Ret (), rows)"
  by (rule everpay_fetched_once [where i = "''c''"]) (simp_all add: small_chain_parent, simp add: small_chain_def)

subsection \<open>The pool\<close>

definition bcpool_ok :: "bc_pool \<Rightarrow> bool" where
  "bcpool_ok s \<longleftrightarrow> distinct (pendingTxMap s) \<and> al_sorted (syncMap s) \<and> fst ` set (syncMap s) = set (pendingTxMap s)
     \<and> (\<forall>i. map_of (broadcastMap s) i \<noteq> None \<longrightarrow> map_of (syncMap s) i = Some True)"

lemma keys_put: "fst ` set (al_put k v xs) = insert k (fst ` set xs)"
  using keys_al_put [of k v xs] by simp

lemma mark_all_map_of: "map_of (mark_all b ids xs) i = (if i \<in> set ids then Some b else map_of xs i)"
  unfolding mark_all_def by (induction ids arbitrary: xs) auto

lemma mark_all_keys: "fst ` set (mark_all b ids xs) = set ids \<union> fst ` set xs"
  unfolding mark_all_def by (induction ids arbitrary: xs) (auto simp: keys_put)

lemma addPendingTxs_ok: "bcpool_ok s \<Longrightarrow> bcpool_ok (addPendingTxs ids s) \<and> set (pendingTxMap (addPendingTxs ids s)) = set (pendingTxMap s) \<union> set ids
   \<and> broadcastMap (addPendingTxs ids s) = broadcastMap s"
proof (induction ids arbitrary: s)
  case (Cons t ids)
  show ?case
  proof (cases "t \<in> set (pendingTxMap s)")
    case True
    then show ?thesis using Cons by auto
  next
    case False
    have "map_of (broadcastMap s) t = None"
      using Cons.prems False map_of_SomeD [of "syncMap s" t True] by (force simp: bcpool_ok_def)
    then have "bcpool_ok (s\<lparr>pendingTxMap := pendingTxMap s @ [t], syncMap := al_put t False (syncMap s)\<rparr>)"
      using Cons.prems False by (auto simp: bcpool_ok_def keys_put)
    from Cons.IH [OF this] show ?thesis using False by auto
  qed
qed simp

lemma mark_all_sorted: "al_sorted xs \<Longrightarrow> al_sorted (mark_all b ids xs)"
  unfolding mark_all_def by (induction ids arbitrary: xs) auto

lemma finishAll_keeps:
  "finishAll get kill ids s = (r, s') \<Longrightarrow> \<forall>i \<in> set ids. map_of (broadcastMap s) i \<noteq> None \<Longrightarrow> bcpool_ok s
    \<Longrightarrow> bcpool_ok s' \<and> pendingTxMap s' = pendingTxMap s \<and> syncMap s' = syncMap s"
proof (induction get kill ids s rule: finishAll.induct)
  case (2 get kill arId ids s)
  have ok: "bcpool_ok (s\<lparr>broadcastMap := al_put arId True (broadcastMap s)\<rparr>)" using 2(6,7) by (auto simp: bcpool_ok_def)
  show ?case
  proof (cases "get arId")
    case (Ret tk)
    show ?thesis
    proof (cases "10 \<le> CountSuccessed tk")
      case big: True
      show ?thesis
      proof (cases "kill arId")
        case Ret2: (Ret u)
        have "\<forall>i \<in> set ids. map_of (broadcastMap (s\<lparr>broadcastMap := al_put arId True (broadcastMap s)\<rparr>)) i \<noteq> None" using 2(6) by auto
        from 2(1) [OF Ret big Ret2 _ this ok] 2(5) Ret big Ret2 show ?thesis by simp
      next
        case (Err e)
        from 2(2) [OF Ret big Err] 2(5-7) Ret big Err show ?thesis by simp
      next
        case (Panic q)
        with 2(5-7) Ret big show ?thesis by simp
      qed
    next
      case False
      from 2(3) [OF Ret False] 2(5-7) Ret False show ?thesis by simp
    qed
  next
    case (Err e)
    from 2(4) [OF Err] 2(5-7) Err show ?thesis by simp
  next
    case (Panic q)
    with 2(5-7) show ?thesis by simp
  qed
qed simp

lemma wanted_synced: "al_sorted xs \<Longrightarrow> i \<in> set (map fst (filter snd xs)) \<Longrightarrow> map_of xs i = Some True"
  by (auto intro: map_of_is_SomeI dest: al_sorted_distinct)

lemma pool_step_ok: "pool_step s s' \<Longrightarrow> bcpool_ok s \<Longrightarrow> bcpool_ok s' \<and> set (pendingTxMap s) \<subseteq> set (pendingTxMap s')"
proof (induction rule: pool_step.induct)
  case (p_update s pending)
  then show ?case using addPendingTxs_ok [of s] by (auto simp: updatePendingTxIds_def split: go.splits)
next
  case (p_sync batch s s')
  let ?ids = "map fst (filter (\<lambda>(txId, synced). \<not> synced) (syncMap s))"
  show ?case
  proof (cases "batch ?ids")
    case None
    then show ?thesis using p_sync by (auto simp: syncPendingTx_def Let_def split: if_splits)
  next
    case (Some ok)
    then have "set ok \<subseteq> set ?ids" by (rule p_sync(1))
    then have "bcpool_ok (s\<lparr>syncMap := mark_all True ok (syncMap s)\<rparr>)"
      using p_sync(3) by (auto simp: bcpool_ok_def mark_all_map_of mark_all_keys mark_all_sorted)
    then show ?thesis using p_sync(2,3) Some by (auto simp: syncPendingTx_def Let_def split: if_splits)
  qed
next
  case (p_broadcast batch s s')
  let ?ids = "filter (\<lambda>txId. map_of (broadcastMap s) txId = None) (map fst (filter snd (syncMap s)))"
  show ?case
  proof (cases "batch ?ids")
    case None
    then show ?thesis using p_broadcast by (auto simp: broadcastPendingTx_def Let_def split: if_splits)
  next
    case (Some ok)
    then have "set ok \<subseteq> set ?ids" by (rule p_broadcast(1))
    then have "map_of (syncMap s) i = Some True" if "i \<in> set ok" for i
      using that p_broadcast(3) by (intro wanted_synced) (auto simp: bcpool_ok_def)
    then have "bcpool_ok (s\<lparr>broadcastMap := mark_all False ok (broadcastMap s)\<rparr>)"
      using p_broadcast(3) by (auto simp: bcpool_ok_def mark_all_map_of)
    then show ?thesis using p_broadcast(2,3) Some by (auto simp: broadcastPendingTx_def Let_def split: if_splits)
  qed
next
  case (p_check waiting get kill s s')
  let ?ids = "map fst (filter (\<lambda>(_, finished). \<not> finished) (broadcastMap s))"
  have "finishAll get kill ?ids s = (Ret (), s')" using p_check(1) by (auto simp: checkBroadcastTxStatus_def split: if_splits)
  moreover have "\<forall>i \<in> set ?ids. map_of (broadcastMap s) i \<noteq> None" by (auto simp: map_of_eq_None_iff intro: rev_image_eqI)
  ultimately show ?case using p_check(2) finishAll_keeps by fastforce
qed

theorem pool_broadcasts_synced:
  assumes "pool_step\<^sup>*\<^sup>* newPool s" and "map_of (broadcastMap s) i = Some b"
  shows "i \<in> set (pendingTxMap s) \<and> map_of (syncMap s) i = Some True"
proof -
  have "bcpool_ok s" using assms(1)
  proof (induction rule: rtranclp_induct)
    case (step y z)
    then show ?case using pool_step_ok by blast
  qed (simp add: bcpool_ok_def newPool_def)
  then have "map_of (syncMap s) i = Some True" "fst ` set (syncMap s) = set (pendingTxMap s)"
    using assms(2) by (auto simp: bcpool_ok_def)
  then show ?thesis by (metis imageI fst_conv map_of_SomeD)
qed

lemma pool_broadcasts_synced_witness:
  "''x'' \<in> set (pendingTxMap \<lparr>pendingTxMap = [''x''], syncMap = [(''x'', True)], broadcastMap = [(''x'', False)]\<rparr>)
    \<and> map_of (syncMap \<lparr>pendingTxMap = [''x''], syncMap = [(''x'', True)], broadcastMap = [(''x'', False)]\<rparr>) ''x'' = Some True"
proof (rule pool_broadcasts_synced [where b = False])
  let ?s1 = "\<lparr>pendingTxMap = [''x''], syncMap = [(''x'', False)], broadcastMap = []\<rparr>"
  let ?s2 = "\<lparr>pendingTxMap = [''x''], syncMap = [(''x'', True)], broadcastMap = []\<rparr>"
  let ?s3 = "\<lparr>pendingTxMap = [''x''], syncMap = [(''x'', True)], broadcastMap = [(''x'', False)]\<rparr>"
  have 1: "pool_step newPool ?s1" using p_update [of newPool "Ret [''x'']"] by (simp add: newPool_def updatePendingTxIds_def)
  have 2: "pool_step ?s1 ?s2" by (rule p_sync [where batch = Some]) (auto simp: syncPendingTx_def mark_all_def)
  have 3: "pool_step ?s2 ?s3" by (rule p_broadcast [where batch = Some]) (auto simp: broadcastPendingTx_def mark_all_def)
  show "pool_step\<^sup>*\<^sup>* newPool ?s3"
    by (rule converse_rtranclp_into_rtranclp [of pool_step, OF 1 converse_rtranclp_into_rtranclp [of pool_step, OF 2 r_into_rtranclp [of pool_step, OF 3]]])
qed simp

text \<open>Without a writer that waits for the lock, the check ends the process before it has asked for any task.\<close>

theorem check_never_finishes: "checkBroadcastTxStatus False get kill s = (Panic unlock_fatal, s)"
  by (simp add: checkBroadcastTxStatus_def)

subsection \<open>Posting the fetched ids\<close>

definition unposted :: "rollup_row list \<Rightarrow> rollup_row list" where
  "unposted rows = filter (\<lambda>r. \<not> rr_Post r) rows"

lemma fold_UpdatePosted: "fold UpdatePosted ids rows = update_rows (\<lambda>r. rr_ArId r \<in> set ids) (\<lambda>r. r\<lparr>rr_Post := True\<rparr>) rows"
proof (induction ids arbitrary: rows)
  case (Cons i ids)
  then show ?case by (auto simp: UpdatePosted_def update_rows_def)
qed (simp add: update_rows_def)

lemma unposted_after: "unposted (fold UpdatePosted ids rows) = filter (\<lambda>r. rr_ArId r \<notin> set ids) (unposted rows)"
  unfolding fold_UpdatePosted by (induction rows) (auto simp: unposted_def update_rows_def)

lemma filter_take: "(\<And>x. x \<in> set (take n xs) \<Longrightarrow> \<not> P x) \<Longrightarrow> length (filter P xs) \<le> length xs - n"
proof (induction xs arbitrary: n)
  case (Cons x xs)
  show ?case
  proof (cases n)
    case (Suc m)
    have "length (filter P xs) \<le> length xs - m" by (rule Cons.IH) (use Cons.prems Suc in auto)
    then show ?thesis using Cons.prems [of x] Suc by simp
  next
    case 0
    then show ?thesis using length_filter_le [of P "x # xs"] by simp
  qed
qed simp

text \<open>When every call succeeds at some time and no result is lost, a run posts the first hundred rows that are left.\<close>

lemma post_run:
  assumes "\<And>i. \<exists>k. call i k = None" and "\<And>ids. set (finish ids) = set ids"
  shows "\<exists>rows'. PostToArseeding (MustBatch call finish) rows = Some rows' \<and> map rr_ArId rows' = map rr_ArId rows
     \<and> length (unposted rows') \<le> length (unposted rows) - 100"
proof (cases "GetNeedPostTxs rows = []")
  case True
  then have "unposted rows = []" by (simp add: GetNeedPostTxs_def unposted_def)
  then show ?thesis using True by (simp add: PostToArseeding_def)
next
  case False
  let ?ids = "map rr_ArId (GetNeedPostTxs rows)"
  have "MustBatch call finish ?ids = Some (finish ?ids)" using assms(1) by (simp add: MustBatch_iff)
  moreover have "length (unposted (fold UpdatePosted (finish ?ids) rows)) \<le> length (unposted rows) - 100"
    unfolding unposted_after using assms(2) by (intro filter_take) (auto simp: unposted_def GetNeedPostTxs_def)
  moreover have "map rr_ArId (fold UpdatePosted (finish ?ids) rows) = map rr_ArId rows"
    unfolding fold_UpdatePosted by (auto simp: update_rows_def)
  ultimately show ?thesis using False by (simp add: PostToArseeding_def)
qed

fun post_runs :: "(string list \<Rightarrow> string list option) \<Rightarrow> nat \<Rightarrow> rollup_row list \<Rightarrow> rollup_row list option" where
  "post_runs batch 0 rows = Some rows"
| "post_runs batch (Suc n) rows = (case PostToArseeding batch rows of None \<Rightarrow> None | Some rows' \<Rightarrow> post_runs batch n rows')"

theorem everpay_all_posted:
  assumes "\<And>i. \<exists>k. call i k = None" and "\<And>ids. set (finish ids) = set ids" and "length rows \<le> 100 * n"
  shows "\<exists>rows'. post_runs (MustBatch call finish) n rows = Some rows' \<and> map rr_ArId rows' = map rr_ArId rows \<and> (\<forall>r \<in> set rows'. rr_Post r)"
proof -
  have "length (unposted rows) \<le> 100 * n \<Longrightarrow>
    \<exists>rows'. post_runs (MustBatch call finish) n rows = Some rows' \<and> map rr_ArId rows' = map rr_ArId rows \<and> unposted rows' = []" for rows
  proof (induction n arbitrary: rows)
    case (Suc n)
    from post_run [where call = call and finish = finish and rows = rows, OF assms(1,2)] obtain r1
      where "PostToArseeding (MustBatch call finish) rows = Some r1" "map rr_ArId r1 = map rr_ArId rows"
        "length (unposted r1) \<le> length (unposted rows) - 100" by blast
    with Suc.IH [of r1] Suc.prems show ?case by force
  qed simp
  moreover have "length (unposted rows) \<le> 100 * n" using assms(3) le_trans [OF length_filter_le [of "\<lambda>r. \<not> rr_Post r" rows]] by (simp add: unposted_def)
  ultimately show ?thesis by (fastforce simp: unposted_def filter_empty_conv)
qed

lemma everpay_all_posted_witness:
  "\<exists>rows'. post_runs (MustBatch (\<lambda>i k. if i = ''b'' \<and> k < 3 then Some (ErrMsg ''busy'') else None) rev) 1
       [\<lparr>rr_ArId = ''b'', rr_Post = False\<rparr>, \<lparr>rr_ArId = ''a'', rr_Post = True\<rparr>] = Some rows'
     \<and> map rr_ArId rows' = [''b'', ''a''] \<and> (\<forall>r \<in> set rows'. rr_Post r)"
  using everpay_all_posted [of "\<lambda>i k. if i = ''b'' \<and> k < 3 then Some (ErrMsg ''busy'') else None" rev
    "[\<lparr>rr_ArId = ''b'', rr_Post = False\<rparr>, \<lparr>rr_ArId = ''a'', rr_Post = True\<rparr>]" 1]
  by (simp, metis less_irrefl)

end
