(* ===== verification/Calls.thy ===== *)
theory Calls
  imports Server
begin

text \<open>
  Where the calls of sdk/client.go arrive: a client whose transport is the router of Server. Each call is an
  equation that spells out its request, the handler that gets it and the parameters that the router reads from the path.
\<close>

subsection \<open>A client in front of the router\<close>

text \<open>\<open>H\<close> answers for a handler, its parameters and the request; without a route gin answers 404.\<close>

definition routed_client :: "bool \<Rightarrow> (int \<Rightarrow> bool) \<Rightarrow> (string \<Rightarrow> (string \<times> string) list \<Rightarrow> transport) \<Rightarrow> client" where
  "routed_client m ok H = \<lparr>cl_send = (\<lambda>req. case route_of m (hq_verb req) (hq_path req) of
      Some (h, ps) \<Rightarrow> H h ps req | None \<Rightarrow> Ret (404, ''404 page not found'')), cl_ok = ok\<rparr>"

lemma send_routed:
  "route_of m (hq_verb req) (hq_path req) = Some (h, ps) \<Longrightarrow>
    send (routed_client m ok H) failed dec req = answer (routed_client m ok H) failed dec (H h ps req)"
  by (simp add: send_def routed_client_def)

lemma send_unrouted:
  "route_of m (hq_verb req) (hq_path req) = None \<Longrightarrow>
    send (routed_client m ok H) failed dec req = answer (routed_client m ok H) failed dec (Ret (404, ''404 page not found''))"
  by (simp add: send_def routed_client_def)

subsection \<open>The routes of the calls\<close>

lemma task_call_routes:
  assumes "path_word t" and "path_word x" and "t \<noteq> ''kill''"
  shows "route_of m ''POST'' (''/task/'' @ t @ ''/'' @ x) = Some (''postTask'', [(''taskType'', t), (''arid'', x)])"
    and "route_of m ''GET'' (''/task/'' @ t @ ''/'' @ x) = Some (''getTask'', [(''taskType'', t), (''arid'', x)])"
    and "route_of m ''POST'' (''/task/kill/'' @ t @ ''/'' @ x) = Some (''killTask'', [(''taskType'', t), (''arid'', x)])"
proof -
  have w: "path_word ''task''" "path_word ''kill''" by (simp_all add: path_word_def)
  show "route_of m ''POST'' (''/task/'' @ t @ ''/'' @ x) = Some (''postTask'', [(''taskType'', t), (''arid'', x)])"
    by (rule task_routes [OF assms])
  show "route_of m ''GET'' (''/task/'' @ t @ ''/'' @ x) = Some (''getTask'', [(''taskType'', t), (''arid'', x)])"
    using route_of_path [of "[''task'', t, x]" "''/task/'' @ t @ ''/'' @ x" m] w assms by (simp add: path_of_def routes_def path_word_ne)
  show "route_of m ''POST'' (''/task/kill/'' @ t @ ''/'' @ x) = Some (''killTask'', [(''taskType'', t), (''arid'', x)])"
    using route_of_path [of "[''task'', ''kill'', t, x]" "''/task/kill/'' @ t @ ''/'' @ x" m] w assms by (simp add: path_of_def routes_def path_word_ne)
qed

lemma bundle_call_routes:
  assumes "path_word x"
  shows "x \<noteq> ''signData'' \<Longrightarrow> route_of m ''POST'' (''/bundle/tx/'' @ x) = Some (''submitItem'', [(''currency'', x)])"
    and "route_of m ''POST'' (''/bundle/data/'' @ x) = Some (''submitNativeData'', [(''currency'', x)])"
    and "route_of m ''GET'' (''/bundle/tx/'' @ x) = Some (''getItemMeta'', [(''itemId'', x)])"
    and "route_of m ''GET'' (''/bundle/itemIds/'' @ x) = Some (''getItemIdsByArId'', [(''arId'', x)])"
    and "route_of m ''GET'' (''/bundle/orders/'' @ x) = Some (''getOrders'', [(''signer'', x)])"
    and "route_of m ''GET'' (''/apikey/'' @ x) = None"
proof -
  have w: "path_word ''bundle''" "path_word ''tx''" "path_word ''data''" "path_word ''itemIds''" "path_word ''orders''" "path_word ''apikey''"
    by (simp_all add: path_word_def)
  show "x \<noteq> ''signData'' \<Longrightarrow> route_of m ''POST'' (''/bundle/tx/'' @ x) = Some (''submitItem'', [(''currency'', x)])"
    using route_of_path [of "[''bundle'', ''tx'', x]" "''/bundle/tx/'' @ x" m] w assms by (simp add: path_of_def routes_def path_word_ne)
  show "route_of m ''POST'' (''/bundle/data/'' @ x) = Some (''submitNativeData'', [(''currency'', x)])"
    using route_of_path [of "[''bundle'', ''data'', x]" "''/bundle/data/'' @ x" m] w assms by (simp add: path_of_def routes_def path_word_ne)
  show "route_of m ''GET'' (''/bundle/tx/'' @ x) = Some (''getItemMeta'', [(''itemId'', x)])"
    using route_of_path [of "[''bundle'', ''tx'', x]" "''/bundle/tx/'' @ x" m] w assms by (simp add: path_of_def routes_def path_word_ne)
  show "route_of m ''GET'' (''/bundle/itemIds/'' @ x) = Some (''getItemIdsByArId'', [(''arId'', x)])"
    using route_of_path [of "[''bundle'', ''itemIds'', x]" "''/bundle/itemIds/'' @ x" m] w assms by (simp add: path_of_def routes_def path_word_ne)
  show "route_of m ''GET'' (''/bundle/orders/'' @ x) = Some (''getOrders'', [(''signer'', x)])"
    using route_of_path [of "[''bundle'', ''orders'', x]" "''/bundle/orders/'' @ x" m] w assms by (simp add: path_of_def routes_def path_word_ne)
  show "route_of m ''GET'' (''/apikey/'' @ x) = None"
    using route_of_path [of "[''apikey'', x]" "''/apikey/'' @ x" m] w assms by (simp add: path_of_def routes_def path_word_ne)
qed

lemma data_route:
  assumes "path_word x" and "x \<notin> {''info'', ''tx_anchor'', ''peers'', ''current_block''}"
  shows "route_of m ''GET'' (''/'' @ x) = Some (''dataRoute'', [(''id'', x)])"
  using route_of_path [of "[x]" "''/'' @ x" m] assms by (simp add: path_of_def routes_def path_word_ne)

lemma other_call_routes:
  "path_word c \<Longrightarrow> route_of m ''GET'' (''/bundle/fee/'' @ FormatInt n @ ''/'' @ c) = Some (''bundleFee'', [(''size'', FormatInt n), (''currency'', c)])"
  "route_of m ''GET'' ''/bundle/bundler'' = Some (''getBundler'', [])" "route_of m ''POST'' ''/bundle/tx'' = None"
proof -
  have w: "path_word ''bundle''" "path_word ''tx''" "path_word ''fee''" "path_word ''bundler''" by (simp_all add: path_word_def)
  show "route_of m ''GET'' (''/bundle/fee/'' @ FormatInt n @ ''/'' @ c) = Some (''bundleFee'', [(''size'', FormatInt n), (''currency'', c)])"
    if "path_word c"
    using route_of_path [of "[''bundle'', ''fee'', FormatInt n, c]" "''/bundle/fee/'' @ FormatInt n @ ''/'' @ c" m] w path_word_int [of n] that
    by (simp add: path_of_def routes_def path_word_ne)
  show "route_of m ''GET'' ''/bundle/bundler'' = Some (''getBundler'', [])"
    using route_of_path [of "[''bundle'', ''bundler'']" "''/bundle/bundler''" m] w by (simp add: path_of_def routes_def)
  show "route_of m ''POST'' ''/bundle/tx'' = None"
    using route_of_path [of "[''bundle'', ''tx'']" "''/bundle/tx''" m] w by (simp add: path_of_def routes_def)
qed

lemma task_type_words: "path_word TaskTypeSync" "path_word TaskTypeBroadcast" "path_word TaskTypeBroadcastMeta"
  "TaskTypeSync \<noteq> ''kill''" "TaskTypeBroadcast \<noteq> ''kill''" "TaskTypeBroadcastMeta \<noteq> ''kill''"
  by (simp_all add: task_type_defs path_word_def)

text \<open>The calls on a task, for a type.\<close>

lemma task_calls:
  assumes "path_word t" and "path_word x" and "t \<noteq> ''kill''"
  shows "cli_postTask (routed_client m ok H) t x = answer (routed_client m ok H) resp_failed (\<lambda>_. Ret ())
      (H ''postTask'' [(''taskType'', t), (''arid'', x)] (post_req (''/task/'' @ t @ ''/'' @ x)))"
    and "cli_getTask (routed_client m ok H) dec t x = answer (routed_client m ok H) resp_failed dec
      (H ''getTask'' [(''taskType'', t), (''arid'', x)] (get_req (''/task/'' @ t @ ''/'' @ x)))"
    and "cli_killTask (routed_client m ok H) t x = answer (routed_client m ok H) resp_failed (\<lambda>_. Ret ())
      (H ''killTask'' [(''taskType'', t), (''arid'', x)] (post_req (''/task/kill/'' @ t @ ''/'' @ x)))"
  unfolding cli_postTask_def cli_getTask_def cli_killTask_def task_path_def
  by (rule send_routed, simp only: req_simps task_call_routes [OF assms])+

text \<open>The uploads.\<close>

definition item_req :: "string \<Rightarrow> string \<Rightarrow> string \<Rightarrow> bool \<Rightarrow> http_req" where
  "item_req path bin key sq = (post_req path)\<lparr>hq_headers := item_headers key sq, hq_body := bin\<rparr>"

lemma upload_calls:
  assumes c: "path_word c" "c \<noteq> ''signData''"
  shows "SubmitItem (routed_client m ok H) dord bin c key sq = answer (routed_client m ok H) bundler_failed dord
      (H ''submitItem'' [(''currency'', c)] (item_req (''/bundle/tx/'' @ c) bin key sq))"
    and "SubmitItemStream (routed_client m ok H) dord bin c key sq = answer (routed_client m ok H) bundler_failed dord
      (H ''submitItem'' [(''currency'', c)] (item_req (''/bundle/tx/'' @ c) bin key sq))"
    and "SubmitItem (routed_client m ok H) dord bin [] key sq = answer (routed_client m ok H) bundler_failed dord (Ret (404, ''404 page not found''))"
    and "send (routed_client m ok H) resp_failed_code did (native_req key c data ct tags) = answer (routed_client m ok H) resp_failed_code did
      (H ''submitNativeData'' [(''currency'', c)] (native_req key c data ct tags))"
proof -
  show "SubmitItem (routed_client m ok H) dord bin c key sq = answer (routed_client m ok H) bundler_failed dord
      (H ''submitItem'' [(''currency'', c)] (item_req (''/bundle/tx/'' @ c) bin key sq))"
    unfolding SubmitItem_def item_req_def if_P [OF path_word_ne [OF c(1)]]
    by (rule send_routed, simp only: req_simps req_fields bundle_call_routes(1) [OF c])
  show "SubmitItemStream (routed_client m ok H) dord bin c key sq = answer (routed_client m ok H) bundler_failed dord
      (H ''submitItem'' [(''currency'', c)] (item_req (''/bundle/tx/'' @ c) bin key sq))"
    unfolding SubmitItemStream_def item_req_def
    by (rule send_routed, simp only: req_simps req_fields bundle_call_routes(1) [OF c])
  have e: "\<not> [] \<noteq> ([] :: string)" by simp
  show "SubmitItem (routed_client m ok H) dord bin [] key sq = answer (routed_client m ok H) bundler_failed dord (Ret (404, ''404 page not found''))"
    unfolding SubmitItem_def if_not_P [OF e] by (rule send_unrouted, simp only: req_simps req_fields other_call_routes(3))
  show "send (routed_client m ok H) resp_failed_code did (native_req key c data ct tags) = answer (routed_client m ok H) resp_failed_code did
      (H ''submitNativeData'' [(''currency'', c)] (native_req key c data ct tags))"
    by (rule send_routed) (simp only: native_req_def req_simps req_fields bundle_call_routes(2) [OF c(1)])
qed

lemma read_calls:
  assumes x: "path_word x" "x \<notin> {''info'', ''tx_anchor'', ''peers'', ''current_block''}" and c: "path_word c"
  shows "GetBundler (routed_client m ok H) dstr = answer (routed_client m ok H) resp_failed dstr (H ''getBundler'' [] (get_req ''/bundle/bundler''))"
    and "GetItemMeta (routed_client m ok H) dmeta x = answer (routed_client m ok H) resp_failed dmeta
      (H ''getItemMeta'' [(''itemId'', x)] (get_req (''/bundle/tx/'' @ x)))"
    and "GetItemData (routed_client m ok H) x = answer (routed_client m ok H) resp_failed Ret
      (H ''dataRoute'' [(''id'', x)] (get_req (''/'' @ x)))"
    and "GetItemIds (routed_client m ok H) dids x = answer (routed_client m ok H) resp_failed dids
      (H ''getItemIdsByArId'' [(''arId'', x)] (get_req (''/bundle/itemIds/'' @ x)))"
    and "cli_BundleFee (routed_client m ok H) dfee n c = answer (routed_client m ok H) resp_failed dfee
      (H ''bundleFee'' [(''size'', FormatInt n), (''currency'', c)] (get_req (''/bundle/fee/'' @ FormatInt n @ ''/'' @ c)))"
    and "GetOrders (routed_client m ok H) dords x k = answer (routed_client m ok H) resp_failed dords
      (H ''getOrders'' [(''signer'', x)] ((get_req (''/bundle/orders/'' @ x))\<lparr>hq_query := [(''cursorId'', FormatInt k)]\<rparr>))"
    and "GetApiKey (routed_client m ok H) dkey x = answer (routed_client m ok H) resp_failed dkey (Ret (404, ''404 page not found''))"
  unfolding GetBundler_def GetItemMeta_def GetItemData_def GetItemIds_def cli_BundleFee_def GetOrders_def GetApiKey_def
  by ((rule send_routed | rule send_unrouted), simp only: req_simps req_fields bundle_call_routes [OF x(1)] data_route [OF x] other_call_routes(1) [OF c] other_call_routes(2))+

subsection \<open>Properties\<close>

text \<open>
  C39: the calls of the client, for words without a slash and a currency other than signData, and an id of data that is
  not one of the fixed paths. Each of the nineteen calls that have a route is answered by the handler for it, which gets the task type, id, signer, currency or
  size of the call as its parameters and the body, headers and query of the call in the request; that answer, decoded, or an error with its text, is
  what the call returns. The other two calls, an upload without a currency and the request for an api key, have no route.
\<close>

theorem client_calls_arrive:
  fixes H m ok
  defines "A \<equiv> routed_client m ok H"
  assumes x: "path_word x" "x \<notin> {''info'', ''tx_anchor'', ''peers'', ''current_block''}" and c: "path_word c" "c \<noteq> ''signData''"
  shows "SyncTx A x = answer A resp_failed (\<lambda>_. Ret ()) (H ''postTask'' [(''taskType'', ''sync''), (''arid'', x)] (post_req (''/task/sync/'' @ x)))
    \<and> BroadcastTxData A x = answer A resp_failed (\<lambda>_. Ret ()) (H ''postTask'' [(''taskType'', ''broadcast''), (''arid'', x)] (post_req (''/task/broadcast/'' @ x)))
    \<and> cli_BroadcastTxMeta A x = answer A resp_failed (\<lambda>_. Ret ())
        (H ''postTask'' [(''taskType'', ''broadcast_meta''), (''arid'', x)] (post_req (''/task/broadcast_meta/'' @ x)))
    \<and> GetSyncTask A dtask x = answer A resp_failed dtask (H ''getTask'' [(''taskType'', ''sync''), (''arid'', x)] (get_req (''/task/sync/'' @ x)))
    \<and> GetBroadcastTask A dtask x = answer A resp_failed dtask (H ''getTask'' [(''taskType'', ''broadcast''), (''arid'', x)] (get_req (''/task/broadcast/'' @ x)))
    \<and> GetBroadcastMetaTask A dtask x = answer A resp_failed dtask
        (H ''getTask'' [(''taskType'', ''broadcast_meta''), (''arid'', x)] (get_req (''/task/broadcast_meta/'' @ x)))
    \<and> KillSyncTask A x = answer A resp_failed (\<lambda>_. Ret ()) (H ''killTask'' [(''taskType'', ''sync''), (''arid'', x)] (post_req (''/task/kill/sync/'' @ x)))
    \<and> KillBroadcastTask A x = answer A resp_failed (\<lambda>_. Ret ())
        (H ''killTask'' [(''taskType'', ''broadcast''), (''arid'', x)] (post_req (''/task/kill/broadcast/'' @ x)))
    \<and> KillBroadcastMetaTask A x = answer A resp_failed (\<lambda>_. Ret ())
        (H ''killTask'' [(''taskType'', ''broadcast_meta''), (''arid'', x)] (post_req (''/task/kill/broadcast_meta/'' @ x)))
    \<and> GetBundler A dstr = answer A resp_failed dstr (H ''getBundler'' [] (get_req ''/bundle/bundler''))
    \<and> (\<forall>sq key. let req = (post_req (''/bundle/tx/'' @ c))\<lparr>hq_headers := [(''Content-Type'', ''application/octet-stream'')]
            @ (if key \<noteq> [] then [(''X-API-KEY'', key)] else []) @ (if sq then [(''Sort'', ''true'')] else []), hq_body := bin\<rparr>
        in SubmitItem A dord bin c key sq = answer A bundler_failed dord (H ''submitItem'' [(''currency'', c)] req)
          \<and> SubmitItemStream A dord bin c key sq = answer A bundler_failed dord (H ''submitItem'' [(''currency'', c)] req)
          \<and> SubmitItem A dord bin [] key sq = answer A bundler_failed dord (Ret (404, ''404 page not found'')))
    \<and> (let req = (post_req (''/bundle/data/'' @ c))\<lparr>hq_headers := [(''X-API-KEY'', key)], hq_query := (''Content-Type'', ct) # tags, hq_body := data\<rparr>
        in SubmitNativeData A did key c data ct tags = answer A resp_failed_code did (H ''submitNativeData'' [(''currency'', c)] req)
          \<and> SubmitNativeDataStream A did key c data ct tags = answer A resp_failed_code did (H ''submitNativeData'' [(''currency'', c)] req))
    \<and> GetItemMeta A dmeta x = answer A resp_failed dmeta (H ''getItemMeta'' [(''itemId'', x)] (get_req (''/bundle/tx/'' @ x)))
    \<and> GetItemData A x = answer A resp_failed Ret (H ''dataRoute'' [(''id'', x)] (get_req (''/'' @ x)))
    \<and> GetItemIds A dids x = answer A resp_failed dids (H ''getItemIdsByArId'' [(''arId'', x)] (get_req (''/bundle/itemIds/'' @ x)))
    \<and> cli_BundleFee A dfee n c = answer A resp_failed dfee
        (H ''bundleFee'' [(''size'', FormatInt n), (''currency'', c)] (get_req (''/bundle/fee/'' @ FormatInt n @ ''/'' @ c)))
    \<and> GetOrders A dords x k = answer A resp_failed dords
        (H ''getOrders'' [(''signer'', x)] ((get_req (''/bundle/orders/'' @ x))\<lparr>hq_query := [(''cursorId'', FormatInt k)]\<rparr>))
    \<and> GetApiKey A dkey x = answer A resp_failed dkey (Ret (404, ''404 page not found''))"
proof -
  have t: "TaskTypeSync = ''sync''" "TaskTypeBroadcast = ''broadcast''" "TaskTypeBroadcastMeta = ''broadcast_meta''" by (simp_all add: task_type_defs)
  have p: "''/task/'' @ ''sync'' @ ''/'' @ x = ''/task/sync/'' @ x" "''/task/'' @ ''broadcast'' @ ''/'' @ x = ''/task/broadcast/'' @ x"
    "''/task/'' @ ''broadcast_meta'' @ ''/'' @ x = ''/task/broadcast_meta/'' @ x" "''/task/kill/'' @ ''sync'' @ ''/'' @ x = ''/task/kill/sync/'' @ x"
    "''/task/kill/'' @ ''broadcast'' @ ''/'' @ x = ''/task/kill/broadcast/'' @ x"
    "''/task/kill/'' @ ''broadcast_meta'' @ ''/'' @ x = ''/task/kill/broadcast_meta/'' @ x" by simp_all
  note tasks = task_calls [where m = m and ok = ok and H = H, OF _ x(1)]
  note sync = tasks [OF task_type_words(1,4), unfolded t p] and bc = tasks [OF task_type_words(2,5), unfolded t p]
    and meta = tasks [OF task_type_words(3,6), unfolded t p]
  note up = upload_calls [OF c, unfolded item_req_def item_headers_def native_req_def]
  note rd = read_calls [OF x c(1), where m = m and ok = ok and H = H]
  show ?thesis
    unfolding A_def SyncTx_def BroadcastTxData_def cli_BroadcastTxMeta_def GetSyncTask_def GetBroadcastTask_def GetBroadcastMetaTask_def
      KillSyncTask_def KillBroadcastTask_def KillBroadcastMetaTask_def SubmitNativeData_def SubmitNativeDataStream_def native_req_def t Let_def
    by (intro conjI allI; (rule sync(1) bc(1) meta(1) sync(2) bc(2) meta(2) sync(3) bc(3) meta(3) rd up))
qed

theorem client_calls_arrive_witness:
  "let A = routed_client True (\<lambda>c. c = 200) (\<lambda>h ps req. if h = ''getTask'' then Ret (200, param ps ''taskType'') else Ret (200, h @ param ps ''arid''))
   in SyncTx A ''t'' = Ret () \<and> cli_BundleFee A (\<lambda>t. Err (ErrMsg t)) 10 ''AR'' = Err (ErrMsg ''bundleFee'')
     \<and> GetApiKey A (\<lambda>t. Ret (t, [])) ''t'' = Err (ErrMsg ''resp failed: 404 page not found'')"
proof -
  have w: "path_word ''AR''" "path_word ''t''" by (simp_all add: path_word_def)
  then show ?thesis
    using client_calls_arrive [where x = "''t''" and c = "''AR''" and m = True and n = 10 and ok = "\<lambda>c. c = 200"
      and H = "\<lambda>h ps req. if h = ''getTask'' then Ret (200, param ps ''taskType'') else Ret (200, h @ param ps ''arid'')"
      and dfee = "\<lambda>t. Err (ErrMsg t)" and dkey = "\<lambda>t. Ret (t, [])"]
    by (simp add: answer_def routed_client_def resp_failed_def param_def Let_def)
qed

end
