(* ===== verification/EndToEnd.thy ===== *)
theory EndToEnd
  imports Schedule Sdk Calls
begin

text \<open>
  What a client sees of the whole server: an item that is posted and then found, paid through the SDK and then listed as
  paid, and a manifest that is asked for by its id and read at the host it redirects to. Each step is a call of \<open>serve\<close> (Server),
  a deposit or a job (Schedule) on the node that the step before left.
\<close>

subsection \<open>Routes and hosts\<close>

text \<open>What a GET on a host of the API is answered.\<close>

lemma get_passes:
  assumes "middleware_route (cod (cfg_goar (sl_cfg S))) (wr_host q) ''GET'' path (wr_tls q) = ToApi" and "\<And>k u. gate k u = (False, u)"
    and "\<And>m. route_of m ''GET'' path = Some (h, ps)" and "handle S (get_of q path) h ps n = Some (a, n1)"
  shows "serve gate S (get_of q path) (n, l) = Some (a, n1, l)"
proof -
  have "serve gate S (get_of q path) (n, l) = map_option (\<lambda>(a, m). (a, m, l)) (afterLimit S (get_of q path) n)"
    using assms(1,2) by (intro serve_passes) (simp_all add: get_of_def)
  then show ?thesis using assms(3,4) by (simp add: afterLimit_def get_of_def)
qed

text \<open>A posted item and the orders of a signer, from the request to the handler.\<close>

lemmas item_tables = handle_def handler_table_def tx_handlers_def task_table_def item_handlers_def order_handlers_def Let_def onGw_def param_def

lemma item_served:
  assumes "wr_verb q = ''POST''" and "wr_path q = ''/bundle/tx/'' @ currency" and "path_word currency" and "currency \<noteq> ''signData''"
    and "\<And>k u. gate k u = (False, u)"
    and "submitItemRequest (node_cfg (sl_cfg S) n) (sl_now S) (submissionOf q currency) (nd_gw n) = (r, g1)"
  shows "serve gate S q (n, l) = Some (AOrder r, n\<lparr>nd_gw := g1\<rparr>, l)"
proof -
  have "serve gate S q (n, l) = map_option (\<lambda>(a, m). (a, m, l)) (afterLimit S q n)"
    using assms(1,5) by (intro serve_passes) (simp_all add: middleware_route_def Let_def)
  moreover have "afterLimit S q n = Some (AOrder r, n\<lparr>nd_gw := g1\<rparr>)"
    using assms(1,2,6) bundle_call_routes(1) [OF assms(3,4)] by (simp add: afterLimit_def item_tables)
  ultimately show ?thesis by simp
qed

lemma orders_served:
  assumes "\<And>path. middleware_route (cod (cfg_goar (sl_cfg S))) (wr_host q) ''GET'' path (wr_tls q) = ToApi" and "\<And>k u. gate k u = (False, u)"
    and "path_word accId" and "wr_query q = []" and "getOrders (cfg_pay (sl_cfg S)) accId (\<lambda>_. None) (nd_gw n) = (r, nd_gw n)"
  shows "serve gate S (get_of q (''/bundle/orders/'' @ accId)) (n, l) = Some (AOrders r, n, l)"
proof (rule get_passes [OF assms(1,2) bundle_call_routes(5) [OF assms(3)]])
  have "queryOf (get_of q p) = (\<lambda>_. None)" for p using assms(4) by (auto simp: queryOf_def get_of_def)
  then show "handle S (get_of q (''/bundle/orders/'' @ accId)) ''getOrders'' [(''signer'', accId)] n = Some (AOrders r, n)"
    using assms(5) by (simp add: item_tables)
qed

subsection \<open>A payment\<close>

lemma filter_insert_by_raw: "P u \<Longrightarrow> \<forall>r \<in> set rs. \<not> P r \<Longrightarrow> filter P (insert_by_raw u rs) = [u]"
  by (induction rs) (auto simp: filter_empty_conv)

text \<open>
  A payment that the SDK asks for reaches the bundler as a deposit, and the next run of the merge job settles it,
  when no other receipt waits.
\<close>

lemma deposit_merged:
  assumes req: "payRequest U t (map (respOrder (bundler_addr L)) ords) rewards = Ret (Some p)"
    and ord: "orders_for (map o_ItemId ords) ords w" and h: "db_healthy w"
    and idle: "\<forall>r \<in> set (receipts w). r_Status r \<noteq> UnSpent \<and> r_EverHash r \<noteq> et_EverHash tt"
    and tt: "et_To tt = pay_to p" "et_Data tt = pay_data p" "et_Amount tt = FormatInt (pay_amount p)"
      "ToUpper (et_TokenSymbol tt) = ToUpper (o_Currency (hd ords))" "IDCheck L (et_From tt) = Ret from'" "now - 24 * 60 * 60 * 1000 < et_Nonce tt"
  shows "db_healthy (mergeReceiptEverTxs D L M now (watchEverReceiptTx L tt w))
    \<and> orders (mergeReceiptEverTxs D L M now (watchEverReceiptTx L tt w)) = pay_rows ords (et_EverHash tt) (orders w)"
proof -
  note facts = payRequest_some [OF req]
  have "ords \<noteq> []" using facts(1) by simp
  then have to: "et_To tt = bundler_addr L" using facts(3) tt(1) by (simp add: hd_map respOrder_def)
  let ?u = "\<lparr>r_RawId = et_RawId tt, r_EverHash = et_EverHash tt, r_Nonce = et_Nonce tt, r_Symbol = et_TokenSymbol tt, r_TokenTag = et_TokenTag tt,
    r_From = from', r_Amount = et_Amount tt, r_Data = pay_data p, r_Sig = et_Sig tt, r_Status = UnSpent, r_ErrMsg = []\<rparr>"
  let ?w = "w\<lparr>receipts := insert_by_raw ?u (receipts w)\<rparr>"
  have "\<not> list_ex (\<lambda>x. r_EverHash x = et_EverHash tt) (receipts w)" using idle by (auto simp: list_ex_iff)
  then have inserted: "watchEverReceiptTx L tt w = ?w"
    using to tt(2,5) facts(5) h by (simp add: watchEverReceiptTx_def InsertReceiptTx_def payment_codec.dec_enc)
  have "filter (\<lambda>r. r_Status r = UnSpent \<and> now - 24 * 60 * 60 * 1000 < r_Nonce r) (insert_by_raw ?u (receipts w)) = [?u]"
    using idle tt(6) by (intro filter_insert_by_raw) auto
  moreover have h1: "db_healthy ?w" using h by (simp add: db_healthy_def)
  ultimately have get: "GetReceiptsByStatus now UnSpent ?w = (Ret [?u], ?w)" by (simp add: GetReceiptsByStatus_def)
  have "orders_for (map o_ItemId ords) ords ?w" using ord by (simp add: orders_for_def)
  from payRequest_merges [OF req this h1, where urtx = ?u and D = D and L = L and M = M] tt(3,4)
  have "mergeReceipt D L M ?u ?w = (Ret (), set_receipt_status (et_RawId tt) Spent (?w\<lparr>orders := pay_rows ords (et_EverHash tt) (orders w)\<rparr>))" by simp
  then show ?thesis using h unfolding inserted by (simp add: mergeReceiptEverTxs_def get set_receipt_status_def db_healthy_def)
qed

text \<open>On a node, for the newest order: the deposit, the merge job and the request of the signer.\<close>

lemma payment_listed:
  fixes m :: "'a node" and S and E :: "'a job_env"
  defines "L \<equiv> cfg_pay (sl_cfg S)" and "w \<equiv> s_wdb (nd_seed m)"
  assumes row: "orders w = rs @ [row]" "unpaid_for (o_ItemId row) row" "listed accId row" "int (o_ID row) < max_int64"
    and h: "db_healthy w" and idle: "\<forall>r \<in> set (receipts w). r_Status r \<noteq> UnSpent \<and> r_EverHash r \<noteq> et_EverHash tt"
    and req: "payRequest U t [respOrder (bundler_addr L) row] [] = Ret (Some p)"
    and tt: "et_To tt = pay_to p" "et_Data tt = pay_data p" "et_Amount tt = FormatInt (pay_amount p)"
      "ToUpper (et_TokenSymbol tt) = ToUpper (o_Currency row)" "IDCheck L (et_From tt) = Ret from'" "je_ms E - 24 * 60 * 60 * 1000 < et_Nonce tt"
    and api: "\<And>path. middleware_route (cod (cfg_goar (sl_cfg S))) (wr_host q) ''GET'' path (wr_tls q) = ToApi" and free: "\<And>k u. gate k u = (False, u)"
    and acc: "path_word accId" "IDCheck L accId = Ret accId" and q: "wr_query q = []" and job: "cfg_pay (je_cfg E) = L"
  shows "\<exists>m1 ords. runJob E MergeJob (set_wdb (watchEverReceiptTx L tt w) m) = (Ret (), m1)
    \<and> serve gate S (get_of q (''/bundle/orders/'' @ accId)) (m1, l) = Some (AOrders (Reply
        (respGetOrder (bundler_addr L) (row\<lparr>o_PaymentStatus := SuccPayment, o_PaymentId := et_EverHash tt\<rparr>) # ords)), m1, l)"
proof -
  let ?w2 = "mergeReceiptEverTxs (cfg_dec (je_cfg E)) L (nd_perFee m) (je_ms E) (watchEverReceiptTx L tt w)"
  let ?m1 = "set_wdb ?w2 (set_wdb (watchEverReceiptTx L tt w) m)" and ?paid = "row\<lparr>o_PaymentStatus := SuccPayment, o_PaymentId := et_EverHash tt\<rparr>"
  have "orders_for (map o_ItemId [row]) [row] w" using row(1,2) by (simp add: orders_for_def last_row_def)
  then have w2: "db_healthy ?w2" "orders ?w2 = pay_rows [row] (et_EverHash tt) (orders w)"
    using deposit_merged [of U t L "[row]" "[]" p w tt] req h idle tt by simp_all
  have db: "s_wdb (g_seed (nd_gw ?m1)) = ?w2" by (simp add: set_wdb_def set_seed_def)
  have "orders ?w2 = pay_rows [row] (et_EverHash tt) rs @ [?paid]" using w2(2) row(1) by (simp add: pay_rows_def update_rows_def)
  moreover have "listed accId ?paid" "int (o_ID ?paid) < max_int64" using row(3,4) by (simp_all add: listed_def)
  ultimately obtain ords where "getOrders L accId (\<lambda>_. None) (nd_gw ?m1) = (Reply (respGetOrder (bundler_addr L) ?paid # ords), nd_gw ?m1)"
    using getOrders_newest [of "nd_gw ?m1" _ ?paid accId L] w2(1) acc(2) unfolding db by metis
  from orders_served [OF api free acc(1) q this [unfolded L_def]]
  have "serve gate S (get_of q (''/bundle/orders/'' @ accId)) (?m1, l) = Some (AOrders (Reply (respGetOrder (bundler_addr L) ?paid # ords)), ?m1, l)"
    by (simp add: L_def)
  moreover have "runJob E MergeJob (set_wdb (watchEverReceiptTx L tt w) m) = (Ret (), ?m1)"
    using job by (simp add: runJob.simps nd_seed_def set_wdb_def set_seed_def)
  ultimately show ?thesis by blast
qed

subsection \<open>Properties\<close>

text \<open>
  C19: an item posted over HTTP is registered. While the limiter lets the requests pass and no request to the store or the
  database fails, the POST of a new verified item of at most 1 GB in a currency that the node has a price for, which its backend can store (every
  backend an item of at most 5 MB, which is decoded in memory; S3 and Aliyun also a larger one, decoded as a stream), is answered with its
  id, size and fee; then the GET of the orders of its signer lists it first, waiting and unpaid, and the GET of its meta is answered.
\<close>

theorem posted_item_listed_over_http:
  fixes n :: "'a node" and S q item
  defines "C \<equiv> node_cfg (sl_cfg S) n"
  assumes post: "wr_verb q = ''POST''" "wr_path q = ''/bundle/tx/'' @ currency" "path_word currency" "currency \<noteq> ''signData''"
      "wr_header q ''Content-Type'' = ''application/octet-stream''" "wr_header q ''X-API-KEY'' = []" "wr_query q = []"
      "wr_body q = Some (Ret body)" "wr_tmp q = None"
    and api: "\<And>path. middleware_route (cod (cfg_goar (sl_cfg S))) (wr_host q) ''GET'' path (wr_tls q) = ToApi"
    and free: "\<And>k u. gate k u = (False, u)" and sz: "int (length body) \<le> SubmitMaxSize" and fees: "\<not> nd_noFee n"
    and item: "DecodeItem (cfg_chain C) (if int (length body) > AllowStreamMinItemSize then FileData (Bytes body) else MemData (Bytes body)) = Ret item"
      "VerifyBundleItem (cfg_chain C) item = None" "storable (cod (cfg_goar C)) item (s_store (nd_seed n))" "path_word (it_Id item)"
    and signer: "ItemSignerAddr (cfg_chain C) item = Ret signer" "IDCheck (cfg_pay C) signer = Ret accId" "IDCheck (cfg_pay C) accId = Ret accId"
      "path_word accId"
    and fee: "CalcItemFee (cfg_dec C) (nd_perFee n) currency (int (length body)) = Ret fee"
    and h: "healthy (s_store (nd_seed n))" "db_healthy (s_wdb (nd_seed n))"
    and new: "kv_lookup (s_store (nd_seed n)) BundleItemBinary (it_Id item) = None"
    and room: "int (next_order (s_wdb (nd_seed n))) < max_int64"
  shows "\<exists>o1 m ords. serve gate S q (n, l) = Some (AOrder (Reply o1), m, l)
    \<and> ro_ItemId o1 = it_Id item \<and> ro_Size o1 = int (length body) \<and> ro_Fee o1 = rf_FinalFee fee
    \<and> ro_PaymentExpiredTime o1 = i64 (sl_now S + DefaultPaymentExpiredRange)
    \<and> serve gate S (get_of q (''/bundle/orders/'' @ accId)) (m, l) = Some (AOrders (Reply (\<lparr>rg_ID = next_order (s_wdb (nd_seed n)), rg_Order = o1,
          rg_PaymentStatus = UnPayment, rg_PaymentId = [], rg_OnChainStatus = WaitOnChain, rg_Sort = isSortItems (wr_header q)\<rparr> # ords)), m, l)
    \<and> serve gate S (get_of q (''/bundle/tx/'' @ it_Id item)) (m, l) = Some (AMeta (Reply (item_meta.truncate (item\<lparr>it_Data := []\<rparr>))), m, l)"
proof -
  let ?q = "submissionOf q currency"
  have cfg: "cfg_fees C = nd_perFee n" "\<not> cfg_noFee C" "cfg_expiredRange C = DefaultPaymentExpiredRange" "cfg_pay C = cfg_pay (sl_cfg S)"
    using fees by (simp_all add: C_def node_cfg_def)
  have sub: "sb_ContentType ?q = ''application/octet-stream''" "sb_body ?q = Some (Ret body)" "sb_tmp ?q = None" "sb_apikey ?q = []"
    "sb_currency ?q = currency" "sb_header ?q = wr_header q" using post by (simp_all add: submissionOf_def)
  obtain o1 g1 ords where r: "submitItemRequest C (sl_now S) ?q (nd_gw n) = (Reply o1, g1)"
      "ro_ItemId o1 = it_Id item" "ro_Size o1 = int (length body)" "ro_Fee o1 = rf_FinalFee fee"
      "ro_PaymentExpiredTime o1 = i64 (sl_now S + DefaultPaymentExpiredRange)"
      "getOrders (cfg_pay (sl_cfg S)) accId (\<lambda>_. None) g1 = (Reply (\<lparr>rg_ID = next_order (s_wdb (nd_seed n)), rg_Order = o1,
          rg_PaymentStatus = UnPayment, rg_PaymentId = [], rg_OnChainStatus = WaitOnChain, rg_Sort = isSortItems (wr_header q)\<rparr> # ords), g1)"
      "getItemMeta (it_Id item) g1 = (Reply (item_meta.truncate (item\<lparr>it_Data := []\<rparr>)), g1)"
    using submitted_item_is_registered [OF sub(1-4) sz cfg(2) item(1,2) item(3) [unfolded nd_seed_def] signer(1-3), of fee "sl_now S"] fee h new room cfg sub(5,6)
    unfolding nd_seed_def by auto
  let ?m = "n\<lparr>nd_gw := g1\<rparr>"
  have "serve gate S q (n, l) = Some (AOrder (Reply o1), ?m, l)"
    using item_served [OF post(1-4) free] r(1) by (simp add: C_def)
  moreover have "serve gate S (get_of q (''/bundle/orders/'' @ accId)) (?m, l) = Some (AOrders (Reply (\<lparr>rg_ID = next_order (s_wdb (nd_seed n)), rg_Order = o1,
          rg_PaymentStatus = UnPayment, rg_PaymentId = [], rg_OnChainStatus = WaitOnChain, rg_Sort = isSortItems (wr_header q)\<rparr> # ords)), ?m, l)"
    by (rule orders_served [OF api free signer(4) post(7)]) (use r(6) in simp)
  moreover have "serve gate S (get_of q (''/bundle/tx/'' @ it_Id item)) (?m, l) = Some (AMeta (Reply (item_meta.truncate (item\<lparr>it_Data := []\<rparr>))), ?m, l)"
    by (rule get_passes [OF api free bundle_call_routes(3) [OF item(4)]]) (use r(7) in \<open>simp add: item_tables\<close>)
  ultimately show ?thesis using r(2-5) by (intro exI [of _ o1] exI [of _ ?m] exI [of _ ords]) simp
qed

definition sample_item_post :: web_request where
  "sample_item_post = sample_post\<lparr>wr_path := ''/bundle/tx/ar'', wr_body := Some (Ret ''binary''),
     wr_header := (\<lambda>k. if k = ''Content-Type'' then ''application/octet-stream'' else [])\<rparr>"

theorem posted_item_listed_over_http_witness:
  "\<exists>o1 m. serve (\<lambda>k u. (False, u)) sample_srv sample_item_post ((sample_served (empty_kv S3 []))\<lparr>nd_perFee := cfg_fees plain_cfg\<rparr>, ())
      = Some (AOrder (Reply o1), m, ()) \<and> ro_ItemId o1 = ''i'' \<and> ro_PaymentExpiredTime o1 = 2593000"
proof -
  let ?n = "(sample_served (empty_kv S3 []))\<lparr>nd_perFee := cfg_fees plain_cfg\<rparr>" and ?gate = "\<lambda>(k :: string) (u :: unit). (False, u)"
  have up: "ToUpper ''ar'' = ''AR''" by code_simp
  then obtain fee where fee: "CalcItemFee int_decimal (cfg_fees plain_cfg) ''ar'' 6 = Ret fee"
    by (simp add: CalcItemFee_def GetPerFee_def plain_cfg_def)
  have cfg: "cfg_chain (node_cfg (sl_cfg sample_srv) ?n) = plain_chain" "cfg_pay (node_cfg (sl_cfg sample_srv) ?n) = sample_pay"
    "cfg_dec (node_cfg (sl_cfg sample_srv) ?n) = int_decimal" "sl_now sample_srv = 1000"
    by (simp_all add: sample_srv_def node_cfg_def)
  have nd: "\<not> nd_noFee ?n" "nd_perFee ?n = cfg_fees plain_cfg" "s_store (nd_seed ?n) = empty_kv S3 []" "s_wdb (nd_seed ?n) = empty_wdb"
    by (simp_all add: sample_served_def newNode_def newGateway_def nd_seed_def sample_opts_def)
  have req: "wr_verb sample_item_post = ''POST''" "wr_path sample_item_post = ''/bundle/tx/'' @ ''ar''"
    "wr_header sample_item_post ''Content-Type'' = ''application/octet-stream''" "wr_header sample_item_post ''X-API-KEY'' = []"
    "wr_query sample_item_post = []" "wr_body sample_item_post = Some (Ret ''binary'')" "wr_tmp sample_item_post = None"
    "wr_host sample_item_post = wr_host sample_post"
    by (simp_all add: sample_item_post_def sample_post_def)
  have item: "DecodeItem plain_chain b = Ret sample_item" "it_Id sample_item = ''i''" "storable E sample_item d" "next_order empty_wdb = 1" for b E d
    by (simp_all add: plain_chain_def sample_item_def empty_wdb_def storable_def)
  show ?thesis
    using posted_item_listed_over_http [of sample_item_post "''ar''" "''binary''" sample_srv ?gate ?n sample_item "''addr''" "''addr''" fee "()",
        unfolded cfg nd req(8)] req(1-7) sample_api fee item nd(1)
    by (simp add: SubmitMaxSize_def AllowStreamMinItemSize_def max_int64_def in_i64_def path_word_def DefaultPaymentExpiredRange_def) blast
qed

text \<open>
  C25: a manifest that is asked for by its id is read over HTTP. On a node with manifests, when the id names a stored manifest and
  no other id has taken its sandbox name, the GET of the id on a host of the API is answered with a redirect to the
  sandbox host, and the GET of a path there is answered with the page that the manifest gives for it, before
  the limiter is asked.
\<close>

theorem manifest_read_over_http:
  fixes n :: "'a node" and S q i
  defines "G \<equiv> cfg_goar (sl_cfg S)" and "I \<equiv> cfg_chain (sl_cfg S)"
  defines "sandbox \<equiv> expectedTxSandbox (cod G) i @ ''.'' @ wr_host q"
  assumes mani: "nd_manifest n" and api: "middleware_route (cod G) (wr_host q) ''GET'' (''/'' @ i) (wr_tls q) = ToApi"
    and free: "\<And>k u. gate k u = (False, u)" and i: "path_word i" "i \<notin> {''info'', ''tx_anchor'', ''peers'', ''current_block''}"
    and found: "getArTxOrItemData G I i (s_store (nd_seed n)) = Some (Ret (tags, reader, text), s_store (nd_seed n))"
    and kind: "getTagValue tags ContentType = ManifestType" and fresh: "\<not> existTmpFile (genTmpFileName (wr_ip q) i) (nd_gw n)"
    and db: "db_healthy (s_wdb (nd_seed n))"
    and own: "\<forall>m \<in> set (manifests (s_wdb (nd_seed n))). m_Url m = expectedTxSandbox (cod G) i \<longrightarrow> m_Id m = i"
    and len: "26 \<le> length (b64bytes (cod G) (replaceId i))" and path: "getTxIdFromPath path = []"
    and page: "handleManifest G I (sl_gw S) (found_bytes (tags, reader, text)) path (s_store (nd_seed n)) = Some (Ret (ptags, bytes), s_store (nd_seed n))"
  shows "\<exists>m m1. serve gate S (get_of q (''/'' @ i)) (n, l)
        = Some (Page (RRedirect ((if wr_tls q then ''https'' else ''http'') @ ''://'' @ sandbox)), m, l)
      \<and> serve gate2 S ((get_of q path)\<lparr>wr_host := sandbox\<rparr>) (m, l2) = Some (Page (RData (text_type ptags) bytes), m1, l2)"
proof -
  let ?g = "nd_gw n"
  obtain g1 where g1: "dataRoute G I True (wr_ip q) (wr_header q ''Range'') (wr_host q) (wr_tls q) i ?g
        = Some (RRedirect ((if wr_tls q then ''https'' else ''http'') @ ''://'' @ sandbox), g1)"
      "ManifestMiddleware G I (sl_gw S) sandbox ''GET'' path path (wr_tls q) g1 = pageResponse G I (sl_gw S) (found_bytes (tags, reader, text)) path g1"
    using dataRoute_redirect_reaches_manifest [OF found [unfolded nd_seed_def] kind fresh db [unfolded nd_seed_def] own [unfolded nd_seed_def] len path]
    unfolding sandbox_def by blast
  have wdb: "s_store (g_seed h') = s_store (g_seed h)" if "on_seed (on_wdb m) h = (r, h')" for m :: "wdb \<Rightarrow> unit go \<times> wdb" and h r h'
    using that by (auto simp: on_seed_def on_wdb_def split: prod.splits)
  have "s_store (g_seed g1) = s_store (nd_seed n)"
    using g1(1) fresh found kind by (auto simp: dataRoute_def Let_def nd_seed_def put_store_def split: prod.splits go.splits dest!: wdb)
  then have pg: "pageResponse G I (sl_gw S) (found_bytes (tags, reader, text)) path g1 = Some (RData (text_type ptags) bytes, put_store (s_store (nd_seed n)) g1)"
    using page by (simp add: pageResponse_def)
  let ?m = "n\<lparr>nd_gw := g1\<rparr>"
  have "serve gate S (get_of q (''/'' @ i)) (n, l) = Some (Page (RRedirect ((if wr_tls q then ''https'' else ''http'') @ ''://'' @ sandbox)), ?m, l)"
  proof (rule get_passes [OF api [unfolded G_def] free data_route [OF i]])
    show "handle S (get_of q (''/'' @ i)) ''dataRoute'' [(''id'', i)] n
        = Some (Page (RRedirect ((if wr_tls q then ''https'' else ''http'') @ ''://'' @ sandbox)), ?m)"
      using g1(1) mani by (simp add: handle_def handler_table_def tx_handlers_def task_table_def item_handlers_def Let_def onGwO_def
        param_def get_of_def G_def I_def)
  qed
  moreover have "pageOf S ((get_of q path)\<lparr>wr_host := sandbox\<rparr>) ?m = Some (RData (text_type ptags) bytes, put_store (s_store (nd_seed n)) g1)"
    using g1(2) pg mani by (simp add: pageOf_def get_of_def G_def I_def)
  then have "serve gate2 S ((get_of q path)\<lparr>wr_host := sandbox\<rparr>) (?m, l2)
      = Some (Page (RData (text_type ptags) bytes), ?m\<lparr>nd_gw := put_store (s_store (nd_seed n)) g1\<rparr>, l2)"
    by (simp add: serve_def CORSMiddleware_def get_of_def Let_def)
  ultimately show ?thesis by blast
qed

text \<open>A store with a manifest and the empty page it names.\<close>

definition page_tx :: transaction where
  "page_tx = plain_tx ''i'' ''r'' ''0'' [\<lparr>tag_name = ContentType, tag_value = ''text/html''\<rparr>]"

definition page_store :: kvdb where
  "page_store = kv_store TxMetaBucket ''i'' (JsonTx page_tx) mani_store"

lemma page_store_found:
  "getArTxOrItemData plain_goar plain_chain (replicate 43 (CHR ''a'')) page_store = Some (Ret (tx_Tags mani_tx, None, []), page_store)"
  "getArTxOrItemData plain_goar plain_chain ''i'' page_store = Some (Ret (tx_Tags page_tx, None, []), page_store)"
proof -
  have h: "healthy page_store" by (simp add: page_store_def mani_store_def)
  have neq: "BundleItemMeta \<noteq> TxMetaBucket" "replicate 43 (CHR ''a'') \<noteq> ''i''"
    by (simp_all add: BundleItemMeta_def TxMetaBucket_def numeral_eq_Suc)
  show "getArTxOrItemData plain_goar plain_chain (replicate 43 (CHR ''a'')) page_store = Some (Ret (tx_Tags mani_tx, None, []), page_store)"
    using h neq by (simp add: getArTxOrItemData_def LoadItemMeta_def LoadTxMeta_def bindG_def page_store_def mani_store_def unmarshal_tx_def blob_empty_def
      txDataByMeta_def getArTxData_def mani_tx_def digits_eval)
  show "getArTxOrItemData plain_goar plain_chain ''i'' page_store = Some (Ret (tx_Tags page_tx, None, []), page_store)"
    using h neq by (simp add: getArTxOrItemData_def LoadItemMeta_def LoadTxMeta_def bindG_def page_store_def mani_store_def unmarshal_tx_def blob_empty_def
      txDataByMeta_def getArTxData_def page_tx_def digits_eval)
qed

definition any_gw :: gw_lib where
  "any_gw = plain_gw\<lparr>parse_json := (\<lambda>_. Some mani_json)\<rparr>"

definition any_srv :: srv_lib where
  "any_srv = sample_srv\<lparr>sl_gw := any_gw\<rparr>"

theorem manifest_read_over_http_witness:
  "\<exists>url m m1. serve (\<lambda>k u. (False, u)) any_srv (get_of sample_post (''/'' @ replicate 43 (CHR ''a''))) ((sample_served page_store)\<lparr>nd_manifest := True\<rparr>, ())
      = Some (Page (RRedirect url), m, ())
    \<and> serve (\<lambda>k u. (True, u)) any_srv ((get_of sample_post ''/'')\<lparr>wr_host := expectedTxSandbox plain_codec (replicate 43 (CHR ''a'')) @ ''.'' @ wr_host sample_post\<rparr>) (m, ())
      = Some (Page (RData (text_type (tx_Tags page_tx)) []), m1, ())"
proof -
  let ?i = "replicate 43 (CHR ''a'')" and ?n = "(sample_served page_store)\<lparr>nd_manifest := True\<rparr>"
  have nd: "nd_manifest ?n" "s_store (nd_seed ?n) = page_store" "s_wdb (nd_seed ?n) = empty_wdb" "g_count (nd_gw ?n) = []"
    by (simp_all add: sample_served_def newNode_def newGateway_def nd_seed_def)
  have lib: "cfg_goar (sl_cfg any_srv) = plain_goar" "cfg_chain (sl_cfg any_srv) = plain_chain" "sl_gw any_srv = any_gw"
    by (simp_all add: any_srv_def sample_srv_def)
  have i: "path_word ?i" "?i \<notin> {''info'', ''tx_anchor'', ''peers'', ''current_block''}"
    by (auto simp: path_word_def numeral_eq_Suc)
  have mani: "read_manifest any_gw b = Ret \<lparr>mani_index = ''a'', mani_paths = [(''a'', ''i'')]\<rparr>" for b
    by (simp add: read_manifest_def any_gw_def mani_json_def manifest_of_json_def jstr_def)
  have page: "handleManifest plain_goar plain_chain any_gw [] ''/'' page_store = Some (Ret (tx_Tags page_tx, []), page_store)"
    using page_store_found(2) by (simp add: handleManifest_def mani manifest_path_def found_bytes_def TrimPrefix_def TrimSuffix_def)
  have "26 \<le> length (b64bytes plain_codec (replaceId ?i))" by (simp add: plain_codec_def replaceId_def)
  moreover have "getTxIdFromPath ''/'' = []" by (simp add: getTxIdFromPath_def)
  moreover have "getTagValue (tx_Tags mani_tx) ContentType = ManifestType" by (simp add: mani_tx_def)
  moreover have "manifests empty_wdb = []" "db_healthy empty_wdb" by (simp_all add: empty_wdb_def db_healthy_def)
  ultimately show ?thesis
    using manifest_read_over_http [of ?n any_srv sample_post ?i "\<lambda>k u. (False, u)" "tx_Tags mani_tx" None "[]" "''/''" "tx_Tags page_tx" "[]" "()" "\<lambda>k u. (True, u)" "()",
        unfolded lib nd] nd(1,4) i page page_store_found(1) sample_api
    by (auto simp: existTmpFile_def found_bytes_def)
qed

text \<open>
  C7: a posted item is paid and then listed as paid. Let an item be posted over HTTP as above while no receipt waits on
  the node. When the SDK makes a payment request for the answer of the POST and everPay carries it out, in the currency of the
  order, then the deposit and the next run of the merge job settle it within a day: the GET of the orders of the signer
  lists the order first, paid by that deposit.
\<close>

theorem posted_item_paid_over_http:
  fixes n :: "'a node" and S q item accId fee currency body and E :: "'a job_env"
  defines "C \<equiv> node_cfg (sl_cfg S) n"
  defines "o1 \<equiv> respOrder (bundler_addr (cfg_pay C)) (new_order C (sl_now S) item accId fee currency False [] (isSortItems (wr_header q)) (int (length body)))"
  assumes post: "wr_verb q = ''POST''" "wr_path q = ''/bundle/tx/'' @ currency" "path_word currency" "currency \<noteq> ''signData''"
      "wr_header q ''Content-Type'' = ''application/octet-stream''" "wr_header q ''X-API-KEY'' = []" "wr_query q = []"
      "wr_body q = Some (Ret body)" "wr_tmp q = None"
    and api: "\<And>path. middleware_route (cod (cfg_goar (sl_cfg S))) (wr_host q) ''GET'' path (wr_tls q) = ToApi"
    and free: "\<And>k u. gate k u = (False, u)" and sz: "int (length body) \<le> SubmitMaxSize" and fees: "\<not> nd_noFee n"
    and item: "DecodeItem (cfg_chain C) (if int (length body) > AllowStreamMinItemSize then FileData (Bytes body) else MemData (Bytes body)) = Ret item"
      "VerifyBundleItem (cfg_chain C) item = None" "storable (cod (cfg_goar C)) item (s_store (nd_seed n))"
    and signer: "ItemSignerAddr (cfg_chain C) item = Ret signer" "IDCheck (cfg_pay C) signer = Ret accId" "IDCheck (cfg_pay C) accId = Ret accId"
      "path_word accId"
    and fee: "CalcItemFee (cfg_dec C) (nd_perFee n) currency (int (length body)) = Ret fee"
    and h: "healthy (s_store (nd_seed n))" "db_healthy (s_wdb (nd_seed n))"
    and new: "kv_lookup (s_store (nd_seed n)) BundleItemBinary (it_Id item) = None"
    and room: "int (next_order (s_wdb (nd_seed n))) < max_int64"
    and idle: "\<forall>r \<in> set (receipts (s_wdb (nd_seed n))). r_Status r \<noteq> UnSpent \<and> r_EverHash r \<noteq> et_EverHash tt"
    and paid: "payRequest U t [o1] [] = Ret (Some p)" "et_To tt = pay_to p" "et_Data tt = pay_data p" "et_Amount tt = FormatInt (pay_amount p)"
      "ToUpper (et_TokenSymbol tt) = ToUpper (ro_Currency o1)" "IDCheck (cfg_pay C) (et_From tt) = Ret from'"
    and job: "cfg_pay (je_cfg E) = cfg_pay (sl_cfg S)" "je_ms E - 24 * 60 * 60 * 1000 < et_Nonce tt"
  shows "\<exists>m m1 ords. serve gate S q (n, l) = Some (AOrder (Reply o1), m, l)
    \<and> runJob E MergeJob (set_wdb (watchEverReceiptTx (cfg_pay C) tt (s_wdb (nd_seed m))) m) = (Ret (), m1)
    \<and> serve gate S (get_of q (''/bundle/orders/'' @ accId)) (m1, l) = Some (AOrders (Reply (\<lparr>rg_ID = next_order (s_wdb (nd_seed n)), rg_Order = o1,
          rg_PaymentStatus = SuccPayment, rg_PaymentId = et_EverHash tt, rg_OnChainStatus = WaitOnChain, rg_Sort = isSortItems (wr_header q)\<rparr> # ords)), m1, l)"
proof -
  let ?q = "submissionOf q currency" and ?L = "cfg_pay (sl_cfg S)" and ?w = "s_wdb (nd_seed n)"
  let ?ord = "new_order C (sl_now S) item accId fee currency False [] (isSortItems (wr_header q)) (int (length body))"
  let ?row = "?ord\<lparr>o_ID := next_order ?w\<rparr>"
  have cfg: "cfg_fees C = nd_perFee n" "\<not> cfg_noFee C" "cfg_pay C = ?L" using fees by (simp_all add: C_def node_cfg_def)
  have sub: "sb_ContentType ?q = ''application/octet-stream''" "sb_body ?q = Some (Ret body)" "sb_tmp ?q = None" "sb_apikey ?q = []"
    "sb_currency ?q = currency" "sb_header ?q = wr_header q" using post by (simp_all add: submissionOf_def)
  obtain g1 where g1: "submitItemRequest C (sl_now S) ?q (nd_gw n) = (Reply o1, g1)"
      "s_wdb (g_seed g1) = ?w\<lparr>orders := orders ?w @ [?row], next_order := Suc (next_order ?w)\<rparr>"
    using submitItemRequest_row [OF sub(1-4) sz cfg(2) item(1,2) item(3) [unfolded nd_seed_def] signer(1,2), of fee ?ord "sl_now S"] fee h new cfg sub(5,6)
    unfolding nd_seed_def o1_def by auto
  let ?m = "n\<lparr>nd_gw := g1\<rparr>"
  have w1: "s_wdb (nd_seed ?m) = s_wdb (g_seed g1)" by (simp add: nd_seed_def)
  have o1: "o1 = respOrder (bundler_addr ?L) ?row" "ro_Currency o1 = o_Currency ?row" by (simp_all add: o1_def respOrder_def cfg(3))
  have row: "unpaid_for (o_ItemId ?row) ?row" "listed accId ?row" "int (o_ID ?row) < max_int64"
    using room by (simp_all add: unpaid_for_def listed_def new_order_def)
  have w: "orders (s_wdb (nd_seed ?m)) = orders ?w @ [?row]" "db_healthy (s_wdb (nd_seed ?m))" "receipts (s_wdb (nd_seed ?m)) = receipts ?w"
    using g1(2) h(2) by (simp_all add: w1)
  have "\<exists>m1 ords. runJob E MergeJob (set_wdb (watchEverReceiptTx ?L tt (s_wdb (nd_seed ?m))) ?m) = (Ret (), m1)
    \<and> serve gate S (get_of q (''/bundle/orders/'' @ accId)) (m1, l) = Some (AOrders (Reply
        (respGetOrder (bundler_addr ?L) (?row\<lparr>o_PaymentStatus := SuccPayment, o_PaymentId := et_EverHash tt\<rparr>) # ords)), m1, l)"
    using payment_listed [OF w(1) row w(2) _ _ paid(2-4) _ _ job(2) api free signer(4) _ post(7) job(1)] idle paid(1,5,6) signer(3) w(3) o1 cfg(3) by simp
  moreover have "serve gate S q (n, l) = Some (AOrder (Reply o1), ?m, l)"
    using item_served [OF post(1-4) free] g1(1) by (simp add: C_def)
  moreover have "respGetOrder (bundler_addr ?L) (?row\<lparr>o_PaymentStatus := SuccPayment, o_PaymentId := et_EverHash tt\<rparr>)
    = \<lparr>rg_ID = next_order ?w, rg_Order = o1, rg_PaymentStatus = SuccPayment, rg_PaymentId = et_EverHash tt, rg_OnChainStatus = WaitOnChain,
        rg_Sort = isSortItems (wr_header q)\<rparr>"
    by (simp add: respGetOrder_def respOrder_def new_order_def o1_def cfg(3))
  ultimately show ?thesis unfolding cfg(3) by metis
qed

definition sample_jobs :: "nat job_env" where
  "sample_jobs = \<lparr>je_cfg = plain_cfg, je_net = up_net, je_kafka = plain_kafka, je_now = 1001, je_ms = 1001000, je_status = (\<lambda>_ _. None),
     je_tokens = [], je_usdc = (\<lambda>_. None), je_times = sample_times, je_loc = 0, je_balances = None\<rparr>"

definition sample_deposit :: ever_tx where
  "sample_deposit = \<lparr>et_RawId = 1, et_EverHash = ''0xpaid'', et_Nonce = 1000500, et_To = ''0xb'', et_From = ''me'', et_TokenSymbol = ''AR'',
     et_TokenTag = ''AR-tag'', et_Amount = ''7'', et_Data = payment_json \<lparr>pm_AppName = ''arseeding'', pm_Action = ItemPaymentAction, pm_ItemIds = [''i'']\<rparr>,
     et_Sig = []\<rparr>"

theorem posted_item_paid_over_http_witness:
  "\<exists>o1 m m1 row ords. serve (\<lambda>k u. (False, u)) sample_srv sample_item_post ((sample_served (empty_kv S3 []))\<lparr>nd_perFee := cfg_fees plain_cfg\<rparr>, ())
      = Some (AOrder (Reply o1), m, ())
    \<and> runJob sample_jobs MergeJob (set_wdb (watchEverReceiptTx sample_pay sample_deposit (s_wdb (nd_seed m))) m) = (Ret (), m1)
    \<and> serve (\<lambda>k u. (False, u)) sample_srv (get_of sample_item_post ''/bundle/orders/addr'') (m1, ()) = Some (AOrders (Reply (row # ords)), m1, ())
    \<and> rg_PaymentStatus row = SuccPayment \<and> rg_PaymentId row = ''0xpaid''"
proof -
  let ?n = "(sample_served (empty_kv S3 []))\<lparr>nd_perFee := cfg_fees plain_cfg\<rparr>" and ?gate = "\<lambda>(k :: string) (u :: unit). (False, u)"
  let ?C = "node_cfg (sl_cfg sample_srv) ?n" and ?fee = "\<lparr>rf_Currency = ''AR'', rf_Decimals = 12, rf_FinalFee = ''7''\<rparr>"
  have up: "ToUpper ''ar'' = ''AR''" "ToUpper ''AR'' = ''AR''" by code_simp+
  have num: "FormatInt 7 = ''7''" "SetString ''7'' = Some 7" by code_simp+
  have fee: "CalcItemFee int_decimal (cfg_fees plain_cfg) ''ar'' 6 = Ret ?fee"
    using num(1) by (simp add: CalcItemFee_def GetPerFee_def plain_cfg_def up int_decimal_def chunk_count_def MAX_CHUNK_SIZE_def)
  have cfg: "cfg_chain ?C = plain_chain" "cfg_pay ?C = sample_pay"
    "cfg_dec ?C = int_decimal" "sl_now sample_srv = 1000" "cfg_pay (sl_cfg sample_srv) = sample_pay" "cfg_pay (je_cfg sample_jobs) = sample_pay" "je_ms sample_jobs = 1001000"
    by (simp_all add: sample_srv_def node_cfg_def sample_jobs_def)
  have nd: "\<not> nd_noFee ?n" "nd_perFee ?n = cfg_fees plain_cfg" "s_store (nd_seed ?n) = empty_kv S3 []" "s_wdb (nd_seed ?n) = empty_wdb"
    by (simp_all add: sample_served_def newNode_def newGateway_def nd_seed_def sample_opts_def)
  have req: "wr_verb sample_item_post = ''POST''" "wr_path sample_item_post = ''/bundle/tx/'' @ ''ar''"
    "wr_header sample_item_post ''Content-Type'' = ''application/octet-stream''" "wr_header sample_item_post ''X-API-KEY'' = []"
    "wr_query sample_item_post = []" "wr_body sample_item_post = Some (Ret ''binary'')" "wr_tmp sample_item_post = None"
    "wr_host sample_item_post = wr_host sample_post"
    by (simp_all add: sample_item_post_def sample_post_def)
  have item: "DecodeItem plain_chain b = Ret sample_item" "it_Id sample_item = ''i''" "storable E sample_item d" "next_order empty_wdb = 1"
    "receipts empty_wdb = []" for b E d
    by (simp_all add: plain_chain_def sample_item_def empty_wdb_def storable_def)
  let ?o1 = "respOrder (bundler_addr sample_pay) (new_order ?C 1000 sample_item ''addr'' ?fee ''ar'' False [] (isSortItems (wr_header sample_item_post)) 6)"
  let ?p = "PayTransfer ''AR-tag'' 7 ''0xb'' (payment_json \<lparr>pm_AppName = ''arseeding'', pm_Action = ItemPaymentAction, pm_ItemIds = [''i'']\<rparr>)"
  have o1: "ro_Currency ?o1 = ''AR''" "ro_Fee ?o1 = ''7''" "ro_ItemId ?o1 = ''i''" "ro_Bundler ?o1 = ''0xb''"
    by (simp_all add: respOrder_def new_order_def up item sample_pay_def)
  have pay: "payRequest plain_sdk 0 [?o1] [] = Ret (Some ?p)"
    using o1 num by (simp add: payRequest_def plain_sdk_def tag_to_bal_def)
  have dep: "et_To sample_deposit = ''0xb''" "et_Amount sample_deposit = ''7''" "et_TokenSymbol sample_deposit = ''AR''" "et_Nonce sample_deposit = 1000500"
    "et_Data sample_deposit = payment_json \<lparr>pm_AppName = ''arseeding'', pm_Action = ItemPaymentAction, pm_ItemIds = [''i'']\<rparr>" "et_EverHash sample_deposit = ''0xpaid''"
    by (simp_all add: sample_deposit_def)
  show ?thesis
    using posted_item_paid_over_http [of sample_item_post "''ar''" "''binary''" sample_srv ?gate ?n sample_item "''addr''" "''addr''" ?fee sample_deposit plain_sdk 0 ?p "et_From sample_deposit" sample_jobs "()",
        unfolded cfg nd req(8)] req(1-7) sample_api fee item nd(1) pay dep o1(1) num(1) up
    by (simp add: SubmitMaxSize_def AllowStreamMinItemSize_def max_int64_def in_i64_def path_word_def) fastforce
qed

end
