(* ===== verification/Spec2Isabelle.thy ===== *)
theory Spec2Isabelle
  imports Races Sdk StoreTypes Schedule Example EndToEnd
begin

text \<open>
  \<^bold>\<open>Arseeding\<close> is a light Arweave node and bundler written in Go. It takes transactions and their chunks over
  the Arweave HTTP interface, seeds them to the network, takes ANS-104 items for a fee, bundles them into
  transactions of its own, and serves data, manifests and domains as a gateway. This development models the
  program (src/, without tests and generated code) and proves what its parts promise.

  \<^bold>\<open>Layout.\<close>
  Go_Prelude and Go_Strings hold what Go and its standard library give: results (\<open>'a go\<close> is a value, an error or a
  panic), sequencing with an explicit state (\<open>bindG\<close>), int64 with its wrap-around, sorted maps, strings, numbers.
  Schema holds the records of schema/ and their JSON trees. Then one theory per part:

  \<^item> RawDB: the key/value backends of rawdb/ (Bolt, S3, Aliyun, MongoDB), each request of which can fail in the
    ways of its driver. Its locale states what a client relies on, interpreted for the backends. Backends has the
    constructors with the buckets they create.
  \<^item> Store: store.go. Every record is a key of a bucket; saving and loading are inverse. StoreTypes gives each bucket
    the type of its records and shows that every method keeps it.
  \<^item> Chunks and Offsets: submit.go and getArTxData (api.go). A transaction gets a range of offsets, its
    chunks lie at their offsets in this range; offsets are 64-bit words and wrap.
  \<^item> TaskManager and Tasks: taskmanager.go, task.go and the task endpoints. The table of tasks is a step relation;
    a task is registered, run by \<open>processTask\<close>, saved and forgotten.
  \<^item> Wdb: wdb.go, the tables as lists of rows in the order of their keys, each request can fail.
  \<^item> Submit: SaveSubmitTx, SaveSubmitChunk and FetchAndStoreTx (submit.go).
  \<^item> Fees, Payment: fees and prices; receipts, payment of orders, api keys, refunds (bundle.go, jobs.go, api.go).
  \<^item> Bundle: items and bundles on chain, expiry, confirmation, retry (bundle.go, jobs.go).
  \<^item> Deposits: the watcher of everPay's transactions over restarts (jobs.go). Kafka: the two jobs that write to Kafka.
  \<^item> Ledger and Lifecycle: an abstract ledger of orders, receipts and refunds with six steps, and the proof that any
    sequence of the jobs above implements it. The interface is the locale \<open>simulation\<close>, interpreted for the jobs.
    Races shows what an interleaving of the expiry job with a payment does to it.
  \<^item> Routing: middleware.go and Range requests. Arns: arns.go.
  \<^item> Node: cache.go, its refresh jobs, token prices, the package config.
  \<^item> Gateway: manifest.go, ManifestMiddleware, dataRoute and temporary files.
  \<^item> Api: the other endpoints of api.go and the routes. Client and Sdk: sdk/.
  \<^item> Statistic: the real-time and the daily statistic of orders (jobs.go, wdb.go).
  \<^item> Server: a request from its arrival through the middlewares, the router and the table of handlers to its answer. Calls: which
    request each call of the client makes, and the handler and the parameters it arrives at.
  \<^item> Startup: the programs of cmd/ and cli/, which turn flags or a file into the arguments of New, and New itself
    (arseeding.go). Schedule: runJobs and Run; the node as a step relation over its scheduled jobs, the deposits it is told
    of, any requests to its server, and its tasks. It implements the ledger of Lifecycle again, from New on.
  \<^item> Example: the two programs of example/, a pool that broadcasts pending transactions and the copy of everPay's chain.
  \<^item> EndToEnd: what a client of the whole server sees: an item posted and then found, paid through the SDK and listed as
    paid, a manifest asked for and read at its sandbox host.

  A definition has the name of the Go function it models, or of the step of it that its map entry names. The
  state of the whole node is the record \<open>gateway\<close> (Gateway): its \<open>seeding\<close> has the store, the database and the task table. \<open>node\<close> (Startup) adds the cache, the configuration and what was sent.
  A function of the program is a function on the state it changes; what is outside of src/ (goar, everPay, Arweave,
  ArNS, the decimal library, the file system) is a record of functions that the definitions take, and
  what the code relies on there are hypotheses of the theorems that need it, each with a witness on a concrete instance.

  \<^bold>\<open>What is shown.\<close> The theorems marked C1, C2, ... are the properties of the program; the others are their
  lemmas and further facts. They show

  \<^item> that data which was submitted or fetched is served as it came: setTxDataChunks and getArTxData are inverse, ranges
    of offsets are disjoint, no chunk lies above allDataEndOffset (\<open>chunks_upto\<close>, which storing a transaction keeps), a posted transaction is answered by every endpoint that reads it;
  \<^item> that money is handled exactly: a payment is all or nothing whichever requests fail, an api key is charged by the
    fee and never below zero, a receipt is refunded at most once, what the SDK pays is what the node accepts, a posted item that is paid is listed as paid, and over any sequence of
    jobs no receipt is used twice and no payment is lost, also for the node as a whole from its start;
  \<^item> that items are kept until they are paid or nobody refers to them, that bundles hold the orders selected for them, and
    that the confirmation of a bundle is atomic;
  \<^item> that tasks are neither lost nor left behind, that a sync task ends with the data in the store, that the watcher of
    deposits misses none over a restart, that a node which is started again goes on with the tasks it had accepted;
  \<^item> that no record of the store fails to decode, that reading data ends, that every day gets its row of the statistic;
  \<^item> that manifests, domains, redirects, uploaded folders and Range requests serve what they name;
  \<^item> and, where the code does not do what it means to, the run that shows it.

  \<^bold>\<open>Bounds and fuel.\<close> Loops are structural recursion or have a measure. Some can run for ever: the examples repeat a call until it succeeds, and follow parents
  that may form a cycle (\<open>fetch_loop_cycle\<close>), in partial functions; reading chunks
  (\<open>readChunks\<close>, where None is a run that does not end; \<open>empty_chunk_blocks_next_tx\<close> shows such a run, and
  the theorems on stored data prove that theirs ends); and the pages of aliyun's listing, bounded by the pages there are.
  \<open>followPages\<close> takes the number of pages as fuel; more pages than orders are enough, as \<open>order_pages_complete\<close> asks for.

  \<^bold>\<open>Where the model is coarser than the code.\<close> An operation runs to its end before the next starts: locks and
  transactions of the database make this true within an operation; of the races between two jobs only the one in Races is looked at. A JSON
  document is a tree with each key once, keys are matched exactly. A Go map is iterated in the order of its list. gorm is
  read as the SQL it sends; the limits of columns are not modelled, nor is memory that runs out below the largest allocation. A panic outside of a handler stops the process; the jobs
  that send bundles leave then the state that the next start finds. Logging, metrics, timeouts and headers that only
  inform are left out.

  \<^bold>\<open>Not modelled.\<close> argraphql/ is written by a generator and appears as two fields of \<open>gw_lib\<close>. The drivers of
  the databases (opening one is a request that can fail, migrating names the tables), the parsing of flags and YAML, metrics, the local
  cache library and CORS headers hold no state of the program. Sending and waiting for HTTP, the clock of the scheduler and the pools
  of goroutines are libraries; the order in which a pool finishes is a parameter where it matters.
\<close>

end
